(* ===== verification/Prelude.thy ===== *)
theory Prelude
  imports Complex_Main "HOL-Library.AList" "HOL-Library.Sublist"
begin

text \<open>
  Shared vocabulary of the development: the collections the component theories add their
  facts to, the JavaScript array operations the code uses (\<open>findIndex\<close>, \<open>indexOf\<close>,
  \<open>splice\<close>, \<open>slice\<close> from the end), plain objects used as dictionaries (with the members every
  object inherits from \<open>Object.prototype\<close>), and timestamps.
\<close>

named_theorems inv_pres \<open>an operation keeps the well-formedness of its component\<close>
named_theorems frame \<open>an operation leaves a part of the state alone\<close>

section \<open>Arrays\<close>

text \<open>\<open>xs.findIndex(p)\<close>; the code's \<open>-1\<close> is \<open>None\<close>.\<close>

primrec find_index :: "('a \<Rightarrow> bool) \<Rightarrow> 'a list \<Rightarrow> nat option" where
  "find_index p [] = None"
| "find_index p (x # xs) = (if p x then Some 0 else map_option Suc (find_index p xs))"

text \<open>\<open>xs.indexOf(x)\<close>.\<close>

definition index_of :: "'a \<Rightarrow> 'a list \<Rightarrow> nat option" where
  "index_of x xs = find_index (\<lambda>y. y = x) xs"

text \<open>\<open>xs.splice(i, 1)\<close>: the array without the element at \<open>i\<close>.\<close>

definition splice1 :: "nat \<Rightarrow> 'a list \<Rightarrow> 'a list" where
  "splice1 i xs = take i xs @ drop (Suc i) xs"

text \<open>\<open>xs.slice(-n)\<close>, and \<open>xs.splice(0, xs.length - n)\<close> for arrays longer than \<open>n\<close>: the last
  \<open>n\<close> elements.\<close>

definition last_n :: "nat \<Rightarrow> 'a list \<Rightarrow> 'a list" where
  "last_n n xs = drop (length xs - n) xs"

text \<open>\<open>[...new Set(xs)]\<close>: the elements in order of first appearance.\<close>

primrec dedup_acc :: "'a list \<Rightarrow> 'a list \<Rightarrow> 'a list" where
  "dedup_acc seen [] = []"
| "dedup_acc seen (x # xs) =
     (if x \<in> set seen then dedup_acc seen xs else x # dedup_acc (x # seen) xs)"

definition dedup :: "'a list \<Rightarrow> 'a list" where
  "dedup xs = dedup_acc [] xs"

lemma find_index_None: "find_index p xs = None \<longleftrightarrow> (\<forall>x \<in> set xs. \<not> p x)"
  by (induction xs) auto

lemma find_index_split:
  "find_index p xs = Some i \<Longrightarrow>
     \<exists>ys x zs. xs = ys @ x # zs \<and> length ys = i \<and> p x \<and> (\<forall>y \<in> set ys. \<not> p y)"
proof (induction xs arbitrary: i)
  case Nil
  then show ?case by simp
next
  case (Cons a xs)
  show ?case
  proof (cases "p a")
    case True
    with Cons.prems show ?thesis by (intro exI [of _ "[]"]) auto
  next
    case False
    with Cons.prems obtain j where j: "find_index p xs = Some j" "i = Suc j" by auto
    from Cons.IH [OF j(1)] obtain ys x zs where
      "xs = ys @ x # zs" "length ys = j" "p x" "\<forall>y \<in> set ys. \<not> p y" by blast
    with False j(2) show ?thesis
      by (intro exI [of _ "a # ys"] exI [of _ x] exI [of _ zs]) auto
  qed
qed

lemma find_index_SomeD:
  assumes "find_index p xs = Some i"
  shows "i < length xs" "p (xs ! i)" "\<forall>j < i. \<not> p (xs ! j)"
  using find_index_split [OF assms] by (auto simp: nth_append)

lemma index_of_None [simp]: "index_of x xs = None \<longleftrightarrow> x \<notin> set xs"
  by (auto simp: index_of_def find_index_None)

lemma index_of_split:
  "index_of x xs = Some i \<Longrightarrow> \<exists>ys zs. xs = ys @ x # zs \<and> length ys = i \<and> x \<notin> set ys"
  unfolding index_of_def by (drule find_index_split) blast

lemma index_of_SomeD: "index_of x xs = Some i \<Longrightarrow> x \<in> set xs"
  by (metis index_of_None option.distinct(1))

lemma splice1_append [simp]: "length ys = i \<Longrightarrow> splice1 i (ys @ x # zs) = ys @ zs"
  by (simp add: splice1_def)

lemma find_Some_mem: "find p xs = Some x \<Longrightarrow> x \<in> set xs \<and> p x"
  by (induction xs) (auto split: if_splits)

lemma find_None_mem: "find p xs = None \<longleftrightarrow> (\<forall>x \<in> set xs. \<not> p x)"
  by (induction xs) auto

lemma find_drop_mid: "\<not> p x \<Longrightarrow> find p (ys @ x # zs) = find p (ys @ zs)"
  by (induction ys) auto

lemma find_snoc: "find p (ys @ [x]) = (case find p ys of Some y \<Rightarrow> Some y | None \<Rightarrow> if p x then Some x else None)"
  by (induction ys) auto

lemma set_splice1_subset: "set (splice1 i xs) \<subseteq> set xs"
  by (auto simp: splice1_def dest: in_set_takeD in_set_dropD)

lemma splice1_index_of:
  assumes "index_of x xs = Some i" "distinct xs"
  shows "set (splice1 i xs) = set xs - {x} \<and> distinct (splice1 i xs)"
  using index_of_split [OF assms(1)] assms(2) by auto

lemma length_splice1 [simp]: "i < length xs \<Longrightarrow> length (splice1 i xs) = length xs - 1"
  by (simp add: splice1_def)

lemma length_last_n [simp]: "length (last_n n xs) = min n (length xs)"
  by (simp add: last_n_def)

lemma set_last_n_subset: "set (last_n n xs) \<subseteq> set xs"
  by (simp add: last_n_def set_drop_subset)

lemma last_n_suffix: "suffix (last_n n xs) xs"
  by (simp add: last_n_def suffix_drop)

lemma last_n_all [simp]: "length xs \<le> n \<Longrightarrow> last_n n xs = xs"
  by (simp add: last_n_def)

lemma set_dedup_acc: "set (dedup_acc seen xs) = set xs - set seen"
  by (induction xs arbitrary: seen) auto

lemma distinct_dedup_acc: "distinct (dedup_acc seen xs)"
  by (induction xs arbitrary: seen) (auto simp: set_dedup_acc)

lemma set_dedup [simp]: "set (dedup xs) = set xs"
  by (simp add: dedup_def set_dedup_acc)

lemma distinct_dedup [simp]: "distinct (dedup xs)"
  by (simp add: dedup_def distinct_dedup_acc)

lemma dedup_Nil [simp]: "dedup xs = [] \<longleftrightarrow> xs = []"
  by (metis set_dedup set_empty)

lemma dedup_acc_fresh: "distinct xs \<Longrightarrow> set xs \<inter> set seen = {} \<Longrightarrow> dedup_acc seen xs = xs"
  by (induction xs arbitrary: seen) auto

lemma dedup_distinct [simp]: "distinct xs \<Longrightarrow> dedup xs = xs"
  by (simp add: dedup_def dedup_acc_fresh)

section \<open>Plain objects as dictionaries\<close>

text \<open>
  A \<open>Record<string, T>\<close> is a plain object: its own properties, in the order they were first
  written. Reading a property that is not its own finds the members every plain object
  inherits from \<open>Object.prototype\<close>, which are truthy values of no record type. Keys that are
  array indices, which JavaScript enumerates first, do not occur as keys of the program's
  dictionaries (they are slugs, hexadecimal ids, payment codes, network names).
\<close>

type_synonym 'a obj = "(string \<times> 'a) list"

datatype 'a slot = Own 'a | Inherited | Missing

definition proto_keys :: "string list" where
  "proto_keys = [''constructor'', ''__defineGetter__'', ''__defineSetter__'', ''hasOwnProperty'',
     ''__lookupGetter__'', ''__lookupSetter__'', ''isPrototypeOf'', ''propertyIsEnumerable'',
     ''toString'', ''valueOf'', ''__proto__'', ''toLocaleString'']"

definition oread :: "'a obj \<Rightarrow> string \<Rightarrow> 'a slot" where
  "oread m k = (case map_of m k of Some v \<Rightarrow> Own v
     | None \<Rightarrow> if k \<in> set proto_keys then Inherited else Missing)"

text \<open>An assignment to \<open>__proto__\<close> is the inherited setter: it adds no own property.\<close>

definition owrite :: "string \<Rightarrow> 'a \<Rightarrow> 'a obj \<Rightarrow> 'a obj" where
  "owrite k v m = (if k = ''__proto__'' then m else AList.update k v m)"

definition odelete :: "string \<Rightarrow> 'a obj \<Rightarrow> 'a obj" where
  "odelete k m = AList.delete k m"

definition ovalues :: "'a obj \<Rightarrow> 'a list" where
  "ovalues m = map snd m"

definition okeys :: "'a obj \<Rightarrow> string list" where
  "okeys m = map fst m"

definition wf_obj :: "'a obj \<Rightarrow> bool" where
  "wf_obj m \<longleftrightarrow> distinct (map fst m) \<and> ''__proto__'' \<notin> fst ` set m"

lemma wf_obj_Nil [simp]: "wf_obj []"
  by (simp add: wf_obj_def)

lemma keys_owrite: "fst ` set (owrite k v m) = (if k = ''__proto__'' then fst ` set m else insert k (fst ` set m))"
  by (simp add: owrite_def dom_update)

lemma map_of_owrite:
  "map_of (owrite k v m) = (if k = ''__proto__'' then map_of m else (map_of m)(k \<mapsto> v))"
  by (simp add: owrite_def update_conv')

lemma map_of_odelete [simp]: "map_of (odelete k m) = (map_of m)(k := None)"
  by (simp add: odelete_def delete_conv')

lemma wf_obj_owrite [simp, inv_pres]: "wf_obj m \<Longrightarrow> wf_obj (owrite k v m)"
  by (simp add: wf_obj_def keys_owrite) (simp add: owrite_def distinct_update)

lemma set_odelete: "set (odelete k m) = {x \<in> set m. fst x \<noteq> k}"
  by (auto simp: odelete_def AList.delete_eq)

lemma distinct_odelete: "distinct (map fst m) \<Longrightarrow> distinct (map fst (odelete k m))"
  by (simp add: odelete_def distinct_delete)

lemma wf_obj_odelete [simp, inv_pres]: "wf_obj m \<Longrightarrow> wf_obj (odelete k m)"
  by (auto simp: wf_obj_def set_odelete distinct_odelete)

lemma oread_Own [simp]: "oread m k = Own v \<longleftrightarrow> map_of m k = Some v"
  by (auto simp: oread_def split: option.splits)

lemma oread_Missing:
  "oread m k = Missing \<longleftrightarrow> map_of m k = None \<and> k \<notin> set proto_keys"
  by (auto simp: oread_def split: option.splits)

lemma oread_Inherited:
  "oread m k = Inherited \<longleftrightarrow> map_of m k = None \<and> k \<in> set proto_keys"
  by (auto simp: oread_def split: option.splits)

lemma oread_owrite_same: "k \<noteq> ''__proto__'' \<Longrightarrow> oread (owrite k v m) k = Own v"
  by (simp add: map_of_owrite)

lemma oread_owrite_other: "k' \<noteq> k \<Longrightarrow> oread (owrite k v m) k' = oread m k'"
  by (simp add: oread_def map_of_owrite)

lemma oread_odelete_other: "k' \<noteq> k \<Longrightarrow> oread (odelete k m) k' = oread m k'"
  by (simp add: oread_def)

lemma set_obj_map_of: "wf_obj m \<Longrightarrow> (k, v) \<in> set m \<longleftrightarrow> map_of m k = Some v"
  by (auto simp: wf_obj_def map_of_eq_Some_iff)

lemma ovalues_map_of: "wf_obj m \<Longrightarrow> v \<in> set (ovalues m) \<longleftrightarrow> (\<exists>k. map_of m k = Some v)"
  by (force simp: ovalues_def set_obj_map_of [symmetric])

section \<open>Timestamps\<close>

text \<open>
  A timestamp field holds a text. \<open>Instant t\<close> is a text that \<open>Date.parse\<close> reads as \<open>t\<close>
  milliseconds since the epoch, which is what \<open>new Date(t).toISOString()\<close> writes; \<open>Unreadable\<close>
  is any other text, for which \<open>Date.parse\<close> gives \<open>NaN\<close>.
\<close>

datatype stamp = Instant int | Unreadable string

fun date_parse :: "stamp \<Rightarrow> int option" where
  "date_parse (Instant t) = Some t"
| "date_parse (Unreadable s) = None"

definition to_iso :: "int \<Rightarrow> stamp" where
  "to_iso t = Instant t"

lemma date_parse_to_iso [simp]: "date_parse (to_iso t) = Some t"
  by (simp add: to_iso_def)

definition day_ms :: int where
  "day_ms = 86400000"

text \<open>Whether a file operation the code awaits completed or threw.\<close>

datatype io = Completed | Failed

text \<open>What a program finds where it keeps a JSON document: no file, a file whose JSON is falsy, a
  document, or a file that cannot be read or parsed.\<close>

datatype 'a json_file = Absent | Falsy | Doc 'a | Garbled

end
