(* ===== verification/JsText.thy ===== *)
theory JsText
  imports Prelude
begin

text \<open>
  The text operations of the language that the code uses, on strings of 8-bit code units
  (characters beyond Latin-1 are outside the model): white space as \<open>trim\<close> and the pattern
  \<open>\s\<close> see it, decimal numerals, ASCII lower case, and \<open>JSON.stringify\<close> of a string.
\<close>

section \<open>White space\<close>

definition is_ws :: "char \<Rightarrow> bool" where
  "is_ws c \<longleftrightarrow> (let n = of_char c :: nat in (9 \<le> n \<and> n \<le> 13) \<or> n = 32 \<or> n = 160)"

definition trim_start :: "string \<Rightarrow> string" where
  "trim_start s = dropWhile is_ws s"

definition trim :: "string \<Rightarrow> string" where
  "trim s = rev (dropWhile is_ws (rev (dropWhile is_ws s)))"

text \<open>\<open>s.replace(/\s+/g, " ")\<close>.\<close>

fun collapse_ws :: "string \<Rightarrow> string" where
  "collapse_ws [] = []"
| "collapse_ws (c # cs) =
     (if is_ws c then (case cs of
          [] \<Rightarrow> '' ''
        | d # ds \<Rightarrow> if is_ws d then collapse_ws cs else CHR '' '' # collapse_ws cs)
      else c # collapse_ws cs)"

lemma trim_Nil [simp]: "trim [] = []"
  by (simp add: trim_def)

lemma dropWhile_eq_self: "(xs = [] \<or> \<not> P (hd xs)) \<Longrightarrow> dropWhile P xs = xs"
  by (cases xs) auto

lemma trim_idem [simp]: "trim (trim s) = trim s"
proof -
  let ?m = "dropWhile is_ws s"
  let ?t = "dropWhile is_ws (rev ?m)"
  have "dropWhile is_ws (rev ?t) = rev ?t"
  proof (rule dropWhile_eq_self)
    obtain ys where ys: "rev ?m = ys @ ?t" by (metis takeWhile_dropWhile_id)
    then have m: "?m = rev ?t @ rev ys" by (metis rev_append rev_rev_ident)
    show "rev ?t = [] \<or> \<not> is_ws (hd (rev ?t))"
    proof (cases "rev ?t = []")
      case False
      then have "hd ?m = hd (rev ?t)" and "?m \<noteq> []" by (subst m, simp)+
      then show ?thesis using hd_dropWhile by metis
    qed simp
  qed
  moreover have "dropWhile is_ws ?t = ?t"
    by (rule dropWhile_eq_self) (metis hd_dropWhile)
  ultimately show ?thesis by (simp add: trim_def)
qed

lemma trim_id: "s = [] \<or> (\<not> is_ws (hd s) \<and> \<not> is_ws (last s)) \<Longrightarrow> trim s = s"
  by (auto simp: trim_def dropWhile_eq_self hd_rev)

section \<open>Numerals\<close>

definition digit_char :: "nat \<Rightarrow> char" where
  "digit_char d = char_of (48 + d)"

definition is_digit :: "char \<Rightarrow> bool" where
  "is_digit c \<longleftrightarrow> (48 :: nat) \<le> of_char c \<and> of_char c \<le> (57 :: nat)"

definition digit_val :: "char \<Rightarrow> nat" where
  "digit_val c = of_char c - 48"

fun nat_text :: "nat \<Rightarrow> string" where
  "nat_text n = (if n < 10 then [digit_char n] else nat_text (n div 10) @ [digit_char (n mod 10)])"

declare nat_text.simps [simp del]

lemma nat_text_small [simp]: "n < 10 \<Longrightarrow> nat_text n = [digit_char n]"
  by (simp add: nat_text.simps)

lemma nat_text_large [simp]: "10 \<le> n \<Longrightarrow> nat_text n = nat_text (n div 10) @ [digit_char (n mod 10)]"
  by (subst nat_text.simps) simp

definition int_text :: "int \<Rightarrow> string" where
  "int_text i = (if i < 0 then CHR ''-'' # nat_text (nat (- i)) else nat_text (nat i))"

definition digits_val :: "string \<Rightarrow> nat" where
  "digits_val s = foldl (\<lambda>n c. 10 * n + digit_val c) 0 s"

lemma digit_char_val [simp]: "d < 10 \<Longrightarrow> digit_val (digit_char d) = d"
  by (simp add: digit_val_def digit_char_def)

lemma digit_char_digit [simp]: "d < 10 \<Longrightarrow> is_digit (digit_char d)"
  by (simp add: is_digit_def digit_char_def)

lemma nat_text_digits: "\<forall>c \<in> set (nat_text n). is_digit c"
proof (induction n rule: nat_text.induct)
  case (1 n)
  then show ?case by (subst nat_text.simps) auto
qed

lemma nat_text_nonempty [simp]: "nat_text n \<noteq> []"
  by (subst nat_text.simps) simp

lemma digits_val_nat_text [simp]: "digits_val (nat_text n) = n"
proof (induction n rule: nat_text.induct)
  case (1 n)
  show ?case
  proof (cases "n < 10")
    case True
    then show ?thesis by (subst nat_text.simps) (simp add: digits_val_def)
  next
    case False
    with 1 have "digits_val (nat_text (n div 10)) = n div 10" by simp
    with False show ?thesis by (subst nat_text.simps) (simp add: digits_val_def)
  qed
qed

lemma nat_text_inj [simp]: "nat_text m = nat_text n \<longleftrightarrow> m = n"
  by (metis digits_val_nat_text)

lemma int_text_inj [simp]: "int_text i = int_text j \<longleftrightarrow> i = j"
proof -
  have minus: "CHR ''-'' # s \<noteq> nat_text n" for s n
  proof
    assume "CHR ''-'' # s = nat_text n"
    with nat_text_digits [of n] have "is_digit (CHR ''-'')" by (metis list.set_intros(1))
    then show False by (simp add: is_digit_def)
  qed
  show ?thesis by (auto simp: int_text_def minus minus [symmetric])
qed


section \<open>Case, prefixes and slices\<close>

definition to_lower_char :: "char \<Rightarrow> char" where
  "to_lower_char c = (let n = of_char c :: nat in if 65 \<le> n \<and> n \<le> 90 then char_of (n + 32) else c)"

definition to_lower :: "string \<Rightarrow> string" where
  "to_lower s = map to_lower_char s"

definition starts_with :: "string \<Rightarrow> string \<Rightarrow> bool" where
  "starts_with p s = prefix p s"

definition ends_with :: "string \<Rightarrow> string \<Rightarrow> bool" where
  "ends_with p s = suffix p s"

text \<open>\<open>s.includes(p)\<close>, and where \<open>s.indexOf(p)\<close> finds it.\<close>

fun find_text :: "string \<Rightarrow> string \<Rightarrow> nat option" where
  "find_text p [] = (if p = [] then Some 0 else None)"
| "find_text p (c # cs) =
     (if prefix p (c # cs) then Some 0 else map_option Suc (find_text p cs))"

definition has_text :: "string \<Rightarrow> string \<Rightarrow> bool" where
  "has_text p s \<longleftrightarrow> find_text p s \<noteq> None"

lemma has_text_sublist: "has_text p s \<longleftrightarrow> sublist p s"
  unfolding has_text_def
  by (induction s) (auto simp: sublist_Cons_right)

lemma find_text_split:
  "find_text p s = Some i \<Longrightarrow> \<exists>u v. s = u @ p @ v \<and> length u = i"
proof (induction s arbitrary: i)
  case (Cons c cs)
  show ?case
  proof (cases "prefix p (c # cs)")
    case True
    with Cons.prems show ?thesis by (auto simp: prefix_def intro: exI [of _ "[]"])
  next
    case False
    with Cons.prems obtain j where "find_text p cs = Some j" "i = Suc j" by auto
    with Cons.IH obtain u v where "cs = u @ p @ v" "length u = j" by blast
    with \<open>i = Suc j\<close> show ?thesis by (intro exI [of _ "c # u"] exI [of _ v]) simp
  qed
qed (auto split: if_splits)

text \<open>\<open>s.split(d)\<close> for a one-character separator.\<close>

fun split_on :: "char \<Rightarrow> string \<Rightarrow> string list" where
  "split_on d [] = [[]]"
| "split_on d (c # cs) =
     (if c = d then [] # split_on d cs
      else (case split_on d cs of [] \<Rightarrow> [[c]] | w # ws \<Rightarrow> (c # w) # ws))"

lemma split_on_nonempty [simp]: "split_on d s \<noteq> []"
  by (cases s) (auto split: list.splits)

lemma split_on_no_sep: "w \<in> set (split_on d s) \<Longrightarrow> d \<notin> set w"
  by (induction s arbitrary: w) (fastforce split: if_splits list.splits)+

text \<open>\<open>ws.join(d)\<close>.\<close>

fun join_with :: "string \<Rightarrow> string list \<Rightarrow> string" where
  "join_with sep [] = []"
| "join_with sep [x] = x"
| "join_with sep (x # y # xs) = x @ sep @ join_with sep (y # xs)"

lemma join_split: "join_with [d] (split_on d s) = s"
proof (induction s)
  case (Cons c s)
  obtain w ws where w: "split_on d s = w # ws" by (cases "split_on d s") auto
  with Cons show ?case by (cases ws) auto
qed simp

lemma split_join: "ws \<noteq> [] \<Longrightarrow> \<forall>w \<in> set ws. d \<notin> set w \<Longrightarrow> split_on d (join_with [d] ws) = ws"
proof (induction "[d]" ws rule: join_with.induct)
  case (2 w)
  then show ?case by (induction w) auto
next
  case (3 w v ws)
  have "split_on d (w @ d # x) = w # split_on d x" if "d \<notin> set w" for x using that by (induction w) auto
  with 3 show ?case by simp
qed simp

lemma join_chars: "set (join_with [d] ws) \<subseteq> insert d (\<Union> (set ` set ws))"
  by (induction "[d]" ws rule: join_with.induct) auto

text \<open>\<open>replace(/\r\n/g, "\n")\<close>.\<close>

fun unix_lines :: "string \<Rightarrow> string" where
  "unix_lines (c # d # cs) = (if c = CHR 0x0D \<and> d = CHR 0x0A then CHR 0x0A # unix_lines cs else c # unix_lines (d # cs))"
| "unix_lines cs = cs"

lemma unix_lines_id: "CHR 0x0D \<notin> set s \<Longrightarrow> unix_lines s = s"
  by (induction s rule: unix_lines.induct) auto

section \<open>JSON strings\<close>

definition hex_digit :: "nat \<Rightarrow> char" where
  "hex_digit d = (if d < 10 then char_of (48 + d) else char_of (87 + d))"

text \<open>How \<open>JSON.stringify\<close> writes one character of a string.\<close>

definition json_char :: "char \<Rightarrow> string" where
  "json_char c =
     (if c = CHR 0x22 then [CHR 0x5C, CHR 0x22]
      else if c = CHR 0x5C then [CHR 0x5C, CHR 0x5C]
      else if c = CHR 0x08 then [CHR 0x5C, CHR ''b'']
      else if c = CHR 0x0C then [CHR 0x5C, CHR ''f'']
      else if c = CHR 0x0A then [CHR 0x5C, CHR ''n'']
      else if c = CHR 0x0D then [CHR 0x5C, CHR ''r'']
      else if c = CHR 0x09 then [CHR 0x5C, CHR ''t'']
      else if of_char c < (32 :: nat)
        then [CHR 0x5C, CHR ''u'', CHR ''0'', CHR ''0'', hex_digit (of_char c div 16), hex_digit (of_char c mod 16)]
      else [c])"

definition json_quote :: "string \<Rightarrow> string" where
  "json_quote s = CHR 0x22 # concat (map json_char s) @ [CHR 0x22]"

text \<open>A reader for one quoted character, which shows that quoting loses nothing.\<close>

definition unhex :: "char \<Rightarrow> nat" where
  "unhex h = (let n = of_char h in if n < 58 then n - 48 else n - 87)"

definition json_uncons :: "string \<Rightarrow> char \<times> string" where
  "json_uncons s =
     (if hd s \<noteq> CHR 0x5C then (hd s, tl s)
      else (let e = hd (tl s); r = tl (tl s) in
        if e = CHR ''b'' then (CHR 0x08, r)
        else if e = CHR ''f'' then (CHR 0x0C, r)
        else if e = CHR ''n'' then (CHR 0x0A, r)
        else if e = CHR ''r'' then (CHR 0x0D, r)
        else if e = CHR ''t'' then (CHR 0x09, r)
        else if e = CHR ''u'' then
          (char_of (16 * unhex (hd (drop 2 r)) + unhex (hd (drop 3 r))), drop 4 r)
        else (e, r)))"

lemma unhex_hex_digit [simp]: "d < 16 \<Longrightarrow> unhex (hex_digit d) = d"
  by (simp add: unhex_def hex_digit_def Let_def)

lemma json_uncons_char: "json_uncons (json_char c @ x) = (c, x)"
proof (cases "of_char c < (32 :: nat)")
  case True
  then have "of_char c div 16 < (16 :: nat)" "of_char c mod 16 < (16 :: nat)" by simp_all
  moreover have "16 * (of_char c div 16) + of_char c mod 16 = (of_char c :: nat)" by simp
  ultimately have "char_of (16 * unhex (hex_digit (of_char c div 16)) + unhex (hex_digit (of_char c mod 16))) = c"
    by simp
  with True show ?thesis
    by (simp add: json_char_def json_uncons_def Let_def)
next
  case False
  then show ?thesis by (simp add: json_char_def json_uncons_def)
qed

lemma json_char_inj: "json_char c @ x = json_char d @ y \<Longrightarrow> c = d \<and> x = y"
  by (metis json_uncons_char prod.inject)

lemma json_char_nonempty [simp]: "json_char c \<noteq> []"
  by (simp add: json_char_def)

lemma json_char_not_quote: "json_char c @ x \<noteq> CHR 0x22 # y"
  by (auto simp: json_char_def split: if_splits)

lemma json_body_inj:
  "concat (map json_char s) @ CHR 0x22 # x = concat (map json_char t) @ CHR 0x22 # y \<Longrightarrow> s = t \<and> x = y"
proof (induction s arbitrary: t)
  case Nil
  then show ?case by (cases t) (auto simp: json_char_not_quote [symmetric] dest: sym)
next
  case (Cons c s)
  show ?case
  proof (cases t)
    case Nil
    with Cons.prems show ?thesis by (simp add: json_char_not_quote)
  next
    case t: (Cons d t')
    from Cons.prems have "json_char c @ (concat (map json_char s) @ CHR 0x22 # x) =
        json_char d @ (concat (map json_char t') @ CHR 0x22 # y)"
      by (simp add: t)
    from json_char_inj [OF this] Cons.IH [of t'] show ?thesis by (simp add: t)
  qed
qed

lemma json_quote_inj: "json_quote s @ x = json_quote t @ y \<Longrightarrow> s = t \<and> x = y"
  using json_body_inj [of s x t y] by (simp add: json_quote_def)

lemma nat_text_inj_app:
  "nat_text m @ x = nat_text n @ y \<Longrightarrow> (x = [] \<or> \<not> is_digit (hd x)) \<Longrightarrow>
     (y = [] \<or> \<not> is_digit (hd y)) \<Longrightarrow> m = n \<and> x = y"
proof -
  assume eq: "nat_text m @ x = nat_text n @ y" and x: "x = [] \<or> \<not> is_digit (hd x)"
    and y: "y = [] \<or> \<not> is_digit (hd y)"
  have tw: "takeWhile is_digit (nat_text k @ z) = nat_text k" if "z = [] \<or> \<not> is_digit (hd z)" for k z
    using that nat_text_digits [of k] by (cases z) (auto simp: takeWhile_append2)
  from tw [OF x, of m] tw [OF y, of n] eq have "nat_text m = nat_text n" by metis
  with eq show "m = n \<and> x = y" by simp
qed

end
