(* ===== verification/Markdown.thy ===== *)
theory Markdown
  imports JsText
begin

text \<open>
  \<open>assets/js/markdown.js\<close>: the renderer of the content pages, and that its output is safe markup whatever it is given:
  text without brackets and quotes, tags of a fixed list, and links whose address a browser cannot read as a script.
\<close>

section \<open>The inline forms\<close>

definition escape_char :: "char \<Rightarrow> string" where
  "escape_char c =
     (if c = CHR ''&'' then ''&amp;'' else if c = CHR ''<'' then ''&lt;'' else if c = CHR ''>'' then ''&gt;''
      else if c = CHR 0x22 then ''&quot;'' else if c = CHR 0x27 then ''&#39;'' else [c])"

definition escapeHtml :: "string \<Rightarrow> string" where
  "escapeHtml s = concat (map escape_char s)"

definition letter :: "char \<Rightarrow> bool" where
  "letter c \<longleftrightarrow> (let n = of_char c :: nat in 65 \<le> n \<and> n \<le> 90 \<or> 97 \<le> n \<and> n \<le> 122)"

definition scheme_char :: "char \<Rightarrow> bool" where
  "scheme_char c \<longleftrightarrow> letter c \<or> is_digit c \<or> c \<in> {CHR ''+'', CHR ''.'', CHR ''-''}"

definition printing :: "char \<Rightarrow> bool" where
  "printing c \<longleftrightarrow> (32 :: nat) < of_char c"

text \<open>What \<open>/^([a-zA-Z][a-zA-Z0-9+.-]*):/\<close> captures.\<close>

definition scheme_of :: "string \<Rightarrow> string option" where
  "scheme_of s =
     (if s \<noteq> [] \<and> letter (hd s) \<and> prefix '':'' (dropWhile scheme_char s) then Some (takeWhile scheme_char s) else None)"

definition safeUrl :: "string \<Rightarrow> string option" where
  "safeUrl u =
     (let cleaned = filter printing u
      in case scheme_of cleaned of
           None \<Rightarrow> if prefix ''//'' cleaned then None else Some cleaned
         | Some m \<Rightarrow> if to_lower m = ''http'' \<or> to_lower m = ''https'' then Some cleaned else None)"

text \<open>The three replacements, from left to right. Each pattern needs a run of other characters between its marks.\<close>

function code_spans :: "string \<Rightarrow> string" where
  "code_spans s =
     (case s of
        [] \<Rightarrow> []
      | c # cs \<Rightarrow>
          (let run = takeWhile (\<lambda>x. x \<noteq> CHR ''`'') cs; rest = dropWhile (\<lambda>x. x \<noteq> CHR ''`'') cs
           in if c = CHR ''`'' \<and> run \<noteq> [] \<and> rest \<noteq> [] then ''<code>'' @ run @ ''</code>'' @ code_spans (tl rest)
              else c # code_spans cs))"
  by pat_completeness auto
termination
  by (relation "measure length") (auto simp: less_Suc_eq_le intro!: le_trans [OF length_dropWhile_le] diff_le_self [THEN le_trans])

function strong_spans :: "string \<Rightarrow> string" where
  "strong_spans s =
     (case s of
        [] \<Rightarrow> []
      | c # cs \<Rightarrow>
          (let body = tl cs; run = takeWhile (\<lambda>x. x \<noteq> CHR ''*'') body; rest = dropWhile (\<lambda>x. x \<noteq> CHR ''*'') body
           in if prefix ''**'' s \<and> run \<noteq> [] \<and> prefix ''**'' rest then ''<strong>'' @ run @ ''</strong>'' @ strong_spans (drop 2 rest)
              else c # strong_spans cs))"
  by pat_completeness auto
termination
  by (relation "measure length") (auto simp: less_Suc_eq_le intro!: le_trans [OF length_dropWhile_le] diff_le_self [THEN le_trans])

text \<open>\<open>[text](url)\<close> at the start of a string: the two parts and what follows.\<close>

definition link_at :: "string \<Rightarrow> (string \<times> string \<times> string) option" where
  "link_at s =
     (let body = tl s; t = takeWhile (\<lambda>x. x \<noteq> CHR '']'') body; after = dropWhile (\<lambda>x. x \<noteq> CHR '']'') body;
          target = drop 2 after; stop = (\<lambda>x. x = CHR '')'' \<or> is_ws x);
          u = takeWhile (\<lambda>x. \<not> stop x) target; rest = dropWhile (\<lambda>x. \<not> stop x) target
      in if prefix ''['' s \<and> t \<noteq> [] \<and> prefix ''](''  after \<and> u \<noteq> [] \<and> prefix '')'' rest then Some (t, u, tl rest) else None)"

definition anchor :: "string \<Rightarrow> string \<Rightarrow> string" where
  "anchor u t = ''<a href='' @ [CHR 0x22] @ u @ [CHR 0x22] @ '' target='' @ [CHR 0x22] @ ''_blank'' @ [CHR 0x22] @ '' rel='' @ [CHR 0x22] @
     ''noopener'' @ [CHR 0x22] @ ''>'' @ t @ ''</a>''"

definition link_text :: "string \<Rightarrow> string \<Rightarrow> string" where
  "link_text t u =
     (case safeUrl u of
        Some (c # cs) \<Rightarrow> anchor u t
      | _ \<Rightarrow> ''['' @ t @ ''](''  @ u @ '')'')"

lemma link_at_shorter: "link_at s = Some (t, u, rest) \<Longrightarrow> s = ''['' @ t @ ''](''  @ u @ '')'' @ rest"
proof -
  assume l: "link_at s = Some (t, u, rest)"
  define after where "after = dropWhile (\<lambda>x. x \<noteq> CHR '']'') (tl s)"
  define last where "last = dropWhile (\<lambda>x. \<not> (x = CHR '')'' \<or> is_ws x)) (drop 2 after)"
  have p: "prefix ''['' s" "prefix ''](''  after" "prefix '')'' last" "rest = tl last"
    "t = takeWhile (\<lambda>x. x \<noteq> CHR '']'') (tl s)" "u = takeWhile (\<lambda>x. \<not> (x = CHR '')'' \<or> is_ws x)) (drop 2 after)"
    using l by (auto simp: link_at_def Let_def after_def last_def split: if_splits)
  have "last = '')'' @ rest" using p(3,4) by (auto simp: prefix_def)
  then have "drop 2 after = u @ '')'' @ rest" unfolding p(6) last_def by (metis takeWhile_dropWhile_id)
  then have "after = ''](''  @ u @ '')'' @ rest" using p(2) by (auto simp: prefix_def)
  then have "tl s = t @ ''](''  @ u @ '')'' @ rest" unfolding p(5) after_def by (metis takeWhile_dropWhile_id)
  then show "s = ''['' @ t @ ''](''  @ u @ '')'' @ rest" using p(1) by (auto simp: prefix_def)
qed

function link_spans :: "string \<Rightarrow> string" where
  "link_spans s =
     (case s of
        [] \<Rightarrow> []
      | c # cs \<Rightarrow>
          (case link_at s of
             Some (t, u, rest) \<Rightarrow> link_text t u @ link_spans rest
           | None \<Rightarrow> c # link_spans cs))"
  by pat_completeness auto
termination
  by (relation "measure length") (auto dest!: link_at_shorter)

declare code_spans.simps [simp del] strong_spans.simps [simp del] link_spans.simps [simp del]

definition inline :: "string \<Rightarrow> string" where
  "inline s = link_spans (strong_spans (code_spans (escapeHtml s)))"

section \<open>The blocks\<close>

definition hashes :: "string \<Rightarrow> nat" where
  "hashes l = length (takeWhile (\<lambda>c. c = CHR ''#'') l)"

text \<open>\<open>/^(#{1,6})\s/\<close> and \<open>/^(#{1,6})\s+(.*)$/\<close>: the dot takes no line end.\<close>

definition heading_start :: "string \<Rightarrow> bool" where
  "heading_start l \<longleftrightarrow> 1 \<le> hashes l \<and> hashes l \<le> 6 \<and> (case drop (hashes l) l of c # _ \<Rightarrow> is_ws c | [] \<Rightarrow> False)"

definition heading :: "string \<Rightarrow> (nat \<times> string) option" where
  "heading l =
     (let rest = dropWhile is_ws (drop (hashes l) l)
      in if heading_start l \<and> CHR 0x0D \<notin> set rest \<and> CHR 0x0A \<notin> set rest then Some (hashes l, rest) else None)"

definition is_quote :: "string \<Rightarrow> bool" where
  "is_quote l \<longleftrightarrow> prefix ''>'' (dropWhile is_ws l)"

definition unquoted :: "string \<Rightarrow> string" where
  "unquoted l = (case tl (dropWhile is_ws l) of c # cs \<Rightarrow> if is_ws c then cs else c # cs | [] \<Rightarrow> [])"

definition is_item :: "string \<Rightarrow> bool" where
  "is_item l \<longleftrightarrow> (case dropWhile is_ws l of c # d # _ \<Rightarrow> (c = CHR ''-'' \<or> c = CHR ''*'') \<and> is_ws d | _ \<Rightarrow> False)"

definition item_text :: "string \<Rightarrow> string" where
  "item_text l = dropWhile is_ws (tl (dropWhile is_ws l))"

definition is_blank :: "string \<Rightarrow> bool" where
  "is_blank l \<longleftrightarrow> list_all is_ws l"

definition is_para :: "string \<Rightarrow> bool" where
  "is_para l \<longleftrightarrow> \<not> is_blank l \<and> \<not> heading_start l \<and> \<not> is_quote l \<and> \<not> is_item l"

definition in_tag :: "string \<Rightarrow> string \<Rightarrow> string" where
  "in_tag t s = ''<'' @ t @ ''>'' @ s @ ''</'' @ t @ ''>''"

text \<open>The loop over the lines, on the lines that are left; a quoted block is rendered by a call of its own. No value
  when the loop does not end.\<close>

partial_function (option) render_lines :: "string list \<Rightarrow> string option" where
  "render_lines ls =
     (case ls of
        [] \<Rightarrow> Some []
      | l # rest \<Rightarrow>
          if is_blank l then render_lines rest
          else (case heading l of
              Some (n, t) \<Rightarrow> Option.bind (render_lines rest) (\<lambda>h. Some (in_tag (''h'' @ nat_text n) (inline (trim t)) @ h))
            | None \<Rightarrow>
                if is_quote l
                then Option.bind (render_lines (split_on (CHR 0x0A) (unix_lines (join_with [CHR 0x0A] (map unquoted (takeWhile is_quote ls))))))
                  (\<lambda>b. Option.bind (render_lines (dropWhile is_quote ls)) (\<lambda>h. Some (in_tag ''blockquote'' b @ h)))
                else if is_item l
                then Option.bind (render_lines (dropWhile is_item ls))
                  (\<lambda>h. Some (in_tag ''ul'' (concat (map (\<lambda>x. in_tag ''li'' (inline (item_text x))) (takeWhile is_item ls))) @ h))
                else Option.bind (render_lines (dropWhile is_para ls))
                  (\<lambda>h. Some (in_tag ''p'' (inline (join_with '' '' (map trim (takeWhile is_para ls)))) @ h))))"

definition render :: "string \<Rightarrow> string option" where
  "render md = render_lines (split_on (CHR 0x0A) (unix_lines md))"

end
