(* ===== verification/MarkdownProps.thy ===== *)
theory MarkdownProps
  imports Markdown
begin

text \<open>
  The output of the Markdown renderer: a language of safe markup, how a browser reads the address of a link, and which
  pages the renderer comes back from.
\<close>

section \<open>Safe markup\<close>

definition text_char :: "char \<Rightarrow> bool" where
  "text_char c \<longleftrightarrow> c \<notin> {CHR ''<'', CHR ''>'', CHR 0x22, CHR 0x27}"

definition block_tags :: "string list" where
  "block_tags = [''h1'', ''h2'', ''h3'', ''h4'', ''h5'', ''h6'', ''blockquote'', ''ul'', ''li'', ''p'']"

definition inline_tags :: "string list" where
  "inline_tags = [''<code>'', ''</code>'', ''<strong>'', ''</strong>'']"

text \<open>What a browser makes of an attribute: the entities are decoded, leading control characters and blanks are dropped,
  tabs and line ends are ignored anywhere.\<close>

fun decode :: "string \<Rightarrow> string" where
  "decode [] = []"
| "decode (c # cs) =
     (if prefix ''&amp;'' (c # cs) then CHR ''&'' # decode (drop 4 cs)
      else if prefix ''&lt;'' (c # cs) then CHR ''<'' # decode (drop 3 cs)
      else if prefix ''&gt;'' (c # cs) then CHR ''>'' # decode (drop 3 cs)
      else if prefix ''&quot;'' (c # cs) then CHR 0x22 # decode (drop 5 cs)
      else if prefix ''&#39;'' (c # cs) then CHR 0x27 # decode (drop 4 cs)
      else c # decode cs)"

definition url_seen :: "string \<Rightarrow> string" where
  "url_seen a = filter (\<lambda>c. c \<notin> {CHR 0x09, CHR 0x0A, CHR 0x0D}) (dropWhile (\<lambda>c. \<not> printing c) (decode a))"

definition link_ok :: "string \<Rightarrow> bool" where
  "link_ok u \<longleftrightarrow> CHR 0x22 \<notin> set u \<and> CHR 0x27 \<notin> set u \<and>
     (case scheme_of (url_seen u) of None \<Rightarrow> True | Some m \<Rightarrow> to_lower m = ''http'' \<or> to_lower m = ''https'')"

inductive markup :: "string \<Rightarrow> bool" where
  markup_end: "markup []"
| markup_char: "text_char c \<Longrightarrow> markup s \<Longrightarrow> markup (c # s)"
| markup_inline: "t \<in> set inline_tags \<Longrightarrow> markup s \<Longrightarrow> markup (t @ s)"
| markup_block: "t \<in> set block_tags \<Longrightarrow> markup s \<Longrightarrow> markup r \<Longrightarrow> markup (in_tag t s @ r)"
| markup_link: "link_ok u \<Longrightarrow> markup t \<Longrightarrow> markup s \<Longrightarrow> markup (anchor u t @ s)"

text \<open>Text with the tags of the first two replacements only.\<close>

inductive flat :: "string \<Rightarrow> bool" where
  flat_end: "flat []"
| flat_char: "text_char c \<Longrightarrow> flat s \<Longrightarrow> flat (c # s)"
| flat_tag: "t \<in> set inline_tags \<Longrightarrow> flat s \<Longrightarrow> flat (t @ s)"

lemma flat_markup: "flat s \<Longrightarrow> markup s"
  by (induction rule: flat.induct) (auto intro: markup.intros)

lemma markup_append: "markup s \<Longrightarrow> markup t \<Longrightarrow> markup (s @ t)"
  by (induction rule: markup.induct) (auto intro: markup.intros)

lemma flat_append: "flat s \<Longrightarrow> flat t \<Longrightarrow> flat (s @ t)"
  by (induction rule: flat.induct) (auto intro: flat.intros)

lemma flat_chars: "list_all text_char s \<Longrightarrow> flat s"
  by (induction s) (auto intro: flat.intros)

lemma flat_wrap:
  "t \<in> set inline_tags \<Longrightarrow> t' \<in> set inline_tags \<Longrightarrow> flat s \<Longrightarrow> flat r \<Longrightarrow> flat (t @ s @ t' @ r)"
  by (intro flat_tag [of t] flat_append [of s] flat_tag [of t'])

text \<open>The marks of the patterns do not occur inside a tag, so that a text can be cut at them.\<close>

definition mark :: "char \<Rightarrow> bool" where
  "mark c \<longleftrightarrow> c \<in> {CHR ''*'', CHR ''['', CHR '']'', CHR ''('', CHR '')''} \<or> is_ws c"

lemma mark_in_tag: "t \<in> set inline_tags \<Longrightarrow> c \<in> set t \<Longrightarrow> \<not> mark c"
  by (auto simp: inline_tags_def mark_def is_ws_def)

lemma flat_cut:
  assumes "flat (x @ d # y)" and "mark d"
  shows "flat x \<and> flat (d # y)"
  using assms
proof (induction "x @ d # y" arbitrary: x rule: flat.induct)
  case (flat_char c s)
  then show ?case by (cases x) (auto intro: flat.intros)
next
  case (flat_tag t s)
  have "d \<notin> set t" using mark_in_tag flat_tag by blast
  with flat_tag(4) obtain us where "x = t @ us" "s = us @ d # y"
    by (auto simp: append_eq_append_conv2 append_eq_Cons_conv)
  with flat_tag show ?case by (auto intro: flat.intros)
qed simp

lemma flat_tl_mark: "flat (d # y) \<Longrightarrow> mark d \<Longrightarrow> flat y"
  by (erule flat.cases) (auto simp: inline_tags_def mark_def is_ws_def)

lemma flat_no_quotes: "flat s \<Longrightarrow> CHR 0x22 \<notin> set s \<and> CHR 0x27 \<notin> set s"
  by (induction rule: flat.induct) (auto simp: text_char_def inline_tags_def)

lemma flat_text_or_tag: "flat (c # cs) \<Longrightarrow> mark c \<Longrightarrow> text_char c"
  by (erule flat.cases) (auto simp: inline_tags_def mark_def is_ws_def)

section \<open>The three replacements\<close>

lemma escape_text: "list_all text_char (escapeHtml s)"
  by (induction s) (auto simp: escapeHtml_def escape_char_def text_char_def)

text \<open>One step of a replacement: a match, or one character.\<close>

lemma code_step:
  "(\<exists>run more. c # cs = CHR ''`'' # run @ CHR ''`'' # more \<and> code_spans (c # cs) = ''<code>'' @ run @ ''</code>'' @ code_spans more) \<or>
   code_spans (c # cs) = c # code_spans cs"
proof -
  define run where "run = takeWhile (\<lambda>x. x \<noteq> CHR ''`'') cs"
  define rest where "rest = dropWhile (\<lambda>x. x \<noteq> CHR ''`'') cs"
  have cs: "cs = run @ rest" by (simp add: run_def rest_def)
  have eq: "code_spans (c # cs) = (if c = CHR ''`'' \<and> run \<noteq> [] \<and> rest \<noteq> []
      then ''<code>'' @ run @ ''</code>'' @ code_spans (tl rest) else c # code_spans cs)"
    unfolding run_def rest_def by (subst code_spans.simps) (simp only: list.case Let_def)
  show ?thesis
  proof (cases "c = CHR ''`'' \<and> run \<noteq> [] \<and> rest \<noteq> []")
    case True
    then have "hd rest = CHR ''`''" using hd_dropWhile [of "\<lambda>x. x \<noteq> CHR ''`''" cs] by (auto simp: rest_def)
    with True obtain y where y: "rest = CHR ''`'' # y" by (cases rest) auto
    show ?thesis
      using eq True cs by (intro disjI1 exI [of _ run] exI [of _ y]) (simp add: y)
  qed (use eq in metis)
qed

lemma strong_step:
  "(\<exists>run more. c # cs = ''**'' @ run @ ''**'' @ more \<and> strong_spans (c # cs) = ''<strong>'' @ run @ ''</strong>'' @ strong_spans more) \<or>
   strong_spans (c # cs) = c # strong_spans cs"
proof -
  define run where "run = takeWhile (\<lambda>x. x \<noteq> CHR ''*'') (tl cs)"
  define rest where "rest = dropWhile (\<lambda>x. x \<noteq> CHR ''*'') (tl cs)"
  have cs: "tl cs = run @ rest" by (simp add: run_def rest_def)
  have eq: "strong_spans (c # cs) = (if prefix ''**'' (c # cs) \<and> run \<noteq> [] \<and> prefix ''**'' rest
      then ''<strong>'' @ run @ ''</strong>'' @ strong_spans (drop 2 rest) else c # strong_spans cs)"
    unfolding run_def rest_def by (subst strong_spans.simps) (simp only: list.case Let_def)
  show ?thesis
  proof (cases "prefix ''**'' (c # cs) \<and> run \<noteq> [] \<and> prefix ''**'' rest")
    case True
    obtain x where x: "c # cs = ''**'' @ x" using True by (auto simp: prefix_def)
    obtain y where y: "rest = ''**'' @ y" using True by (auto simp: prefix_def)
    have "x = run @ ''**'' @ y" using x y cs by auto
    with eq True x y show ?thesis by auto
  qed (use eq in metis)
qed

lemma link_step:
  "(\<exists>t u rest. c # cs = ''['' @ t @ ''](''  @ u @ '')'' @ rest \<and> link_spans (c # cs) = link_text t u @ link_spans rest) \<or>
   link_spans (c # cs) = c # link_spans cs"
proof (cases "link_at (c # cs)")
  case (Some x)
  obtain t u rest where x: "x = (t, u, rest)" by (cases x)
  have "link_spans (c # cs) = link_text t u @ link_spans rest" by (simp add: link_spans.simps [of "c # cs"] Some x)
  with link_at_shorter [OF Some [unfolded x]] show ?thesis by blast
qed (simp add: link_spans.simps [of "c # cs"])

lemma strong_pass: "CHR ''*'' \<notin> set t \<Longrightarrow> strong_spans (t @ s) = t @ strong_spans s"
proof (induction t)
  case (Cons c t)
  then show ?case using strong_step [of c "t @ s"] by auto
qed simp

lemma link_pass: "CHR ''['' \<notin> set t \<Longrightarrow> link_spans (t @ s) = t @ link_spans s"
proof (induction t)
  case (Cons c t)
  then show ?case using link_step [of c "t @ s"] by auto
qed simp

lemma empty_spans [simp]: "code_spans [] = []" "strong_spans [] = []" "link_spans [] = []"
  by (simp_all add: code_spans.simps strong_spans.simps link_spans.simps)

lemma code_flat: "list_all text_char s \<Longrightarrow> flat (code_spans s)"
proof (induction s rule: length_induct)
  case (1 s)
  show ?case
  proof (cases s)
    case (Cons c cs)
    from code_step [of c cs] show ?thesis
    proof (elim disjE exE conjE)
      fix run more assume h: "c # cs = CHR ''`'' # run @ CHR ''`'' # more"
        and eq: "code_spans (c # cs) = ''<code>'' @ run @ ''</code>'' @ code_spans more"
      have "flat (code_spans more)" "flat run" using 1 h by (auto simp: Cons intro: flat_chars)
      with flat_wrap [of "''<code>''" "''</code>''" run] show ?thesis
        unfolding Cons eq by (simp only: inline_tags_def list.set insert_iff simp_thms)
    next
      assume "code_spans (c # cs) = c # code_spans cs"
      with 1 show ?thesis by (auto simp: Cons intro: flat_char)
    qed
  qed (simp add: flat_end)
qed

lemma star_mark: "mark (CHR ''*'')"
  by (simp add: mark_def)

lemma strong_flat: "flat s \<Longrightarrow> flat (strong_spans s)"
proof (induction s rule: length_induct)
  case (1 s)
  from 1(2) show ?case
  proof (cases rule: flat.cases)
    case (flat_char c cs)
    from strong_step [of c cs] show ?thesis
    proof (elim disjE exE conjE)
      fix run more assume h: "c # cs = ''**'' @ run @ ''**'' @ more"
        and eq: "strong_spans (c # cs) = ''<strong>'' @ run @ ''</strong>'' @ strong_spans more"
      have "flat (CHR ''*'' # run @ CHR ''*'' # CHR ''*'' # more)" using flat_char(3) h by simp
      from flat_tl_mark [OF this star_mark] have "flat (run @ CHR ''*'' # CHR ''*'' # more)" .
      from flat_cut [OF this star_mark] have f: "flat run" "flat more" using flat_tl_mark [OF _ star_mark] by auto
      have "flat (strong_spans more)" using 1(1) f(2) h flat_char(1) by (metis (no_types, lifting) append_Cons append_Nil length_Cons length_append less_add_Suc2 not_less_eq trans_less_add2)
      with f(1) flat_wrap [of "''<strong>''" "''</strong>''" run] show ?thesis
        unfolding flat_char(1) eq by (simp only: inline_tags_def list.set insert_iff simp_thms)
    next
      assume "strong_spans (c # cs) = c # strong_spans cs"
      with 1 flat_char show ?thesis by (auto intro: flat.flat_char)
    qed
  next
    case (flat_tag t r)
    have "CHR ''*'' \<notin> set t" "t \<noteq> []" using flat_tag(2) by (auto simp: inline_tags_def)
    with 1(1) flat_tag show ?thesis by (auto simp: strong_pass intro: flat.flat_tag)
  qed (simp add: flat_end)
qed

section \<open>Links\<close>

lemma decode_step:
  "decode (c # cs) = c # decode cs \<or>
   (\<exists>e r. decode (c # cs) = e # r \<and> e \<in> {CHR ''&'', CHR ''<'', CHR ''>'', CHR 0x22, CHR 0x27})"
  by auto

lemma decode_prefix:
  "prefix w (filter printing (decode u)) \<Longrightarrow> list_all (\<lambda>c. scheme_char c \<or> c = CHR '':'') w \<Longrightarrow> prefix w (filter printing u)"
proof (induction u arbitrary: w)
  case (Cons c cs)
  show ?case
  proof (cases w)
    case w: (Cons d ds)
    have d: "d \<notin> {CHR ''&'', CHR ''<'', CHR ''>'', CHR 0x22, CHR 0x27}"
      using Cons.prems(2) by (auto simp: w scheme_char_def letter_def is_digit_def)
    have "decode (c # cs) = c # decode cs"
    proof (rule ccontr)
      assume "decode (c # cs) \<noteq> c # decode cs"
      then obtain e x where e: "decode (c # cs) = e # x" "e \<in> {CHR ''&'', CHR ''<'', CHR ''>'', CHR 0x22, CHR 0x27}"
        using decode_step [of c cs] by blast
      from e(2) have "printing e" by (auto simp: printing_def)
      then have "e = d" using Cons.prems(1) unfolding e(1) w by simp
      with d e(2) show False by blast
    qed
    note p = Cons.prems(1) [unfolded this w filter.simps]
    show ?thesis
    proof (cases "printing c")
      case True
      with p have "c = d" "prefix ds (filter printing (decode cs))" by simp_all
      with Cons.IH [of ds] Cons.prems(2) True show ?thesis by (simp add: w)
    next
      case False
      with p Cons.IH [of w] Cons.prems(2) show ?thesis by (simp add: w)
    qed
  qed simp
qed simp

lemma scheme_printing: "scheme_char c \<or> c = CHR '':'' \<Longrightarrow> printing c"
  by (auto simp: scheme_char_def letter_def is_digit_def printing_def Let_def)

lemma scheme_of_prefix:
  assumes "scheme_of s = Some m"
  shows "prefix (m @ '':'') s" and "list_all scheme_char m" and "m \<noteq> []" and "letter (hd m)"
proof -
  have h: "s \<noteq> []" "letter (hd s)" "prefix '':'' (dropWhile scheme_char s)" "m = takeWhile scheme_char s"
    using assms by (auto simp: scheme_of_def split: if_splits)
  then show "prefix (m @ '':'') s" by (metis same_prefix_prefix takeWhile_dropWhile_id)
  show "list_all scheme_char m" using set_takeWhileD by (fastforce simp: h(4) list_all_iff)
  have "scheme_char (hd s)" using h(2) by (simp add: scheme_char_def)
  with h show "m \<noteq> []" "letter (hd m)" by (cases s; simp)+
qed

lemma prefix_scheme_of:
  assumes "prefix (m @ '':'') s" and "list_all scheme_char m" and "m \<noteq> []" and "letter (hd m)"
  shows "scheme_of s = Some m"
proof -
  obtain z where s: "s = m @ '':'' @ z" using assms(1) by (auto simp: prefix_def)
  have c: "\<not> scheme_char (CHR '':'')" by (simp add: scheme_char_def letter_def is_digit_def Let_def)
  then have "takeWhile scheme_char s = m" "dropWhile scheme_char s = '':'' @ z"
    using assms(2) by (simp_all add: s takeWhile_append2 dropWhile_append2 list_all_iff)
  then show ?thesis using assms(3,4) by (simp add: scheme_of_def s)
qed

lemma filter_dropped: "filter printing (dropWhile (\<lambda>c. \<not> printing c) s) = filter printing s"
  by (induction s) auto

lemma filter_seen: "filter printing (url_seen u) = filter printing (decode u)"
proof -
  have "printing c \<Longrightarrow> c \<notin> {CHR 0x09, CHR 0x0A, CHR 0x0D}" for c by (auto simp: printing_def)
  then have "filter printing (filter (\<lambda>c. c \<notin> {CHR 0x09, CHR 0x0A, CHR 0x0D}) s) = filter printing s" for s
    by (induction s) auto
  then show ?thesis by (simp add: url_seen_def filter_dropped)
qed

lemma safe_link:
  assumes "safeUrl u = Some c" and "CHR 0x22 \<notin> set u" and "CHR 0x27 \<notin> set u"
  shows "link_ok u"
proof (cases "scheme_of (url_seen u)")
  case None
  with assms show ?thesis by (simp add: link_ok_def)
next
  case (Some m)
  note p = scheme_of_prefix [OF Some]
  have all: "list_all (\<lambda>c. scheme_char c \<or> c = CHR '':'') (m @ '':'')" using p(2) by (auto simp: list_all_iff)
  then have "filter printing (m @ '':'') = m @ '':''" using scheme_printing by (auto simp: list_all_iff filter_id_conv simp del: filter_append)
  with p(1) have "prefix (m @ '':'') (filter printing (url_seen u))" by (metis filter_mono_prefix)
  then have "prefix (m @ '':'') (filter printing u)" using decode_prefix [OF _ all] by (simp add: filter_seen)
  from prefix_scheme_of [OF this p(2,3,4)] assms Some show ?thesis
    by (auto simp: link_ok_def safeUrl_def Let_def split: if_splits)
qed

lemma link_text_markup: "flat t \<Longrightarrow> flat u \<Longrightarrow> markup s \<Longrightarrow> markup (link_text t u @ s)"
proof -
  assume f: "flat t" "flat u" and s: "markup s"
  have chars: "text_char (CHR ''['')" "text_char (CHR '']'')" "text_char (CHR ''('')" "text_char (CHR '')'')"
    by (simp_all add: text_char_def)
  have "flat (''['' @ t @ ''](''  @ u @ '')'')" using f chars by (auto intro!: flat_char flat_append flat_end)
  then have plain: "markup ((''['' @ t @ ''](''  @ u @ '')'') @ s)" using s by (rule markup_append [OF flat_markup])
  have "link_ok u" if "safeUrl u = Some c" for c using safe_link [OF that] flat_no_quotes [OF f(2)] by simp
  then have "markup (anchor u t @ s)" if "safeUrl u = Some c" for c using that f s by (auto intro: markup_link flat_markup)
  with plain show ?thesis by (auto simp: link_text_def split: option.splits list.splits)
qed

lemma bracket_marks: "mark (CHR ''['')" "mark (CHR '']'')" "mark (CHR ''('')" "mark (CHR '')'')"
  by (simp_all add: mark_def)

lemma link_markup: "flat s \<Longrightarrow> markup (link_spans s)"
proof (induction s rule: length_induct)
  case (1 s)
  from 1(2) show ?case
  proof (cases rule: flat.cases)
    case (flat_char c cs)
    from link_step [of c cs] show ?thesis
    proof (elim disjE exE conjE)
      fix t u rest assume h: "c # cs = ''['' @ t @ ''](''  @ u @ '')'' @ rest"
        and eq: "link_spans (c # cs) = link_text t u @ link_spans rest"
      have cs: "cs = t @ CHR '']'' # CHR ''('' # u @ CHR '')'' # rest" using h by simp
      from flat_cut [OF flat_char(3) [unfolded cs] bracket_marks(2)] have t: "flat t" "flat (CHR ''('' # u @ CHR '')'' # rest)"
        using flat_tl_mark [OF _ bracket_marks(2)] by auto
      from flat_cut [OF flat_tl_mark [OF t(2) bracket_marks(3)] bracket_marks(4)] have u: "flat u" "flat rest"
        using flat_tl_mark [OF _ bracket_marks(4)] by auto
      have "length rest < length s" by (simp add: flat_char(1) cs)
      with 1(1) u have "markup (link_spans rest)" by blast
      with t u show ?thesis unfolding flat_char(1) eq by (intro link_text_markup)
    next
      assume "link_spans (c # cs) = c # link_spans cs"
      with 1 flat_char show ?thesis by (auto intro: markup_char)
    qed
  next
    case (flat_tag t r)
    have "CHR ''['' \<notin> set t" "t \<noteq> []" using flat_tag(2) by (auto simp: inline_tags_def)
    with 1(1) flat_tag show ?thesis by (auto simp: link_pass intro: markup_inline)
  qed (simp add: markup_end)
qed

lemma inline_markup: "markup (inline s)"
  unfolding inline_def by (intro link_markup strong_flat code_flat escape_text)


section \<open>The blocks\<close>

lemma heading_names: "map (\<lambda>n. ''h'' @ nat_text n) [1, 2, 3, 4, 5, 6] = take 6 block_tags"
  by code_simp

lemma heading_tag: "heading l = Some (n, t) \<Longrightarrow> ''h'' @ nat_text n \<in> set block_tags"
proof -
  assume "heading l = Some (n, t)"
  then have "1 \<le> n \<and> n \<le> 6" by (auto simp: heading_def heading_start_def Let_def split: if_splits)
  then have "n \<in> set [1, 2, 3, 4, 5, 6]" by auto
  then have "''h'' @ nat_text n \<in> set (map (\<lambda>n. ''h'' @ nat_text n) [1, 2, 3, 4, 5, 6])" unfolding set_map by (rule imageI)
  then show ?thesis unfolding heading_names using set_take_subset by fast
qed

lemma items_markup: "markup (concat (map (\<lambda>x. in_tag ''li'' (inline (item_text x))) ls))"
  by (induction ls) (auto intro!: markup_block inline_markup markup_end simp: block_tags_def)

lemma render_lines_markup: "render_lines ls = Some h \<Longrightarrow> markup h"
proof (induction ls h rule: render_lines.raw_induct [rotated, consumes 1])
  case (1 f ls h)
  note call = 1(1)
  have block: "markup (in_tag t x @ y)" if "t \<in> {''blockquote'', ''ul'', ''p''}" "markup x" "markup y" for t x y
    using that by (intro markup_block) (auto simp: block_tags_def)
  show ?case
  proof (cases ls)
    case Nil
    with 1(2) show ?thesis by (simp add: markup_end)
  next
    case (Cons l rest)
    show ?thesis
    proof (cases "is_blank l")
      case True
      with 1(2) call show ?thesis by (simp add: Cons)
    next
      case nb: False
      show ?thesis
      proof (cases "heading l")
        case (Some x)
        obtain n t where x: "x = (n, t)" by (cases x)
        from 1(2) nb obtain y where "f rest = Some y" "h = in_tag (''h'' @ nat_text n) (inline (trim t)) @ y"
          by (auto simp: Cons Some x bind_eq_Some_conv)
        with call show ?thesis using heading_tag [OF Some [unfolded x]] by (auto intro: markup_block inline_markup)
      next
        case None
        from 1(2) [unfolded Cons list.case if_not_P [OF nb] None option.case] show ?thesis
          by (auto simp: bind_eq_Some_conv split: if_splits simp del: takeWhile.simps dropWhile.simps
              intro!: block items_markup inline_markup dest!: call)
      qed
    qed
  qed
qed

section \<open>Which pages come back\<close>

definition plain_line :: "string \<Rightarrow> bool" where
  "plain_line l \<longleftrightarrow> CHR 0x0D \<notin> set l \<and> CHR 0x0A \<notin> set l"

lemma plain_drop: "plain_line l \<Longrightarrow> plain_line (dropWhile P l)" "plain_line l \<Longrightarrow> plain_line (tl l)"
  by (auto simp: plain_line_def dest: set_dropWhileD) (cases l; simp)+

lemma unquoted_plain: "plain_line l \<Longrightarrow> plain_line (unquoted l)"
proof -
  assume "plain_line l"
  then have "plain_line (tl (dropWhile is_ws l))" using plain_drop by blast
  then show ?thesis by (cases "tl (dropWhile is_ws l)") (auto simp: unquoted_def plain_line_def)
qed

lemma unquoted_shorter: "is_quote l \<Longrightarrow> length (unquoted l) < length l"
proof -
  assume "is_quote l"
  then obtain x where x: "dropWhile is_ws l = CHR ''>'' # x" by (auto simp: is_quote_def prefix_def)
  then have "length x < length l" using length_dropWhile_le [of is_ws l] by simp
  moreover have "length (unquoted l) \<le> length x" by (simp add: unquoted_def x split: list.splits)
  ultimately show ?thesis by simp
qed

lemma plain_heading: "plain_line l \<Longrightarrow> heading_start l \<Longrightarrow> heading l \<noteq> None"
proof -
  assume l: "plain_line l" "heading_start l"
  have "set (dropWhile is_ws (drop (hashes l) l)) \<subseteq> set l" by (meson set_drop_subset set_dropWhileD subset_eq)
  with l show ?thesis by (auto simp: heading_def plain_line_def Let_def)
qed

definition room :: "string list \<Rightarrow> nat" where
  "room ls = sum_list (map (\<lambda>l. Suc (length l)) ls)"

lemma room_dropWhile: "room (dropWhile P ls) \<le> room ls"
  by (induction ls) (auto simp: room_def)

lemma room_dropWhile_less: "P l \<Longrightarrow> room (dropWhile P (l # ls)) < room (l # ls)"
  using room_dropWhile [of P ls] by (simp add: room_def)

lemma room_unquoted: "ls \<noteq> [] \<Longrightarrow> \<forall>l \<in> set ls. is_quote l \<Longrightarrow> room (map unquoted ls) < room ls"
proof (induction ls)
  case (Cons l ls)
  then show ?case using unquoted_shorter [of l] by (cases ls) (auto simp: room_def)
qed simp

lemma room_takeWhile: "room (takeWhile P ls) \<le> room ls"
  by (induction ls) (auto simp: room_def)

lemma render_lines_returns: "\<forall>l \<in> set ls. plain_line l \<Longrightarrow> \<exists>h. render_lines ls = Some h"
proof (induction "room ls" arbitrary: ls rule: less_induct)
  case less
  show ?case
  proof (cases ls)
    case Nil
    then show ?thesis by (simp add: render_lines.simps)
  next
    case (Cons l rest)
    have later: "\<exists>h. render_lines (dropWhile P ls) = Some h" if "P l" for P
    proof (rule less(1))
      show "room (dropWhile P ls) < room ls" unfolding Cons by (rule room_dropWhile_less [of P l rest, OF that])
      show "\<forall>x \<in> set (dropWhile P ls). plain_line x" using less(2) set_dropWhileD by fast
    qed
    have tail: "\<exists>h. render_lines rest = Some h" using less by (auto simp: Cons room_def)
    have l: "plain_line l" using less(2) by (simp add: Cons)
    consider "is_blank l" | n t where "\<not> is_blank l" "heading l = Some (n, t)" | "\<not> is_blank l" "heading l = None" "is_quote l"
      | "\<not> is_blank l" "heading l = None" "\<not> is_quote l" "is_item l" | "\<not> is_blank l" "heading l = None" "\<not> is_quote l" "\<not> is_item l"
      by (cases "heading l") auto
    then show ?thesis
    proof cases
      case 1
      with tail show ?thesis by (subst render_lines.simps) (simp add: Cons)
    next
      case 2
      with tail show ?thesis by (subst render_lines.simps) (auto simp: Cons)
    next
      case 3
      let ?q = "takeWhile is_quote ls"
      have q: "?q \<noteq> []" "\<forall>x \<in> set ?q. is_quote x" "\<forall>x \<in> set (map unquoted ?q). plain_line x"
        using 3 less(2) by (auto simp: Cons dest: set_takeWhileD intro: unquoted_plain)
      have "CHR 0x0D \<notin> set (join_with [CHR 0x0A] (map unquoted ?q))"
        using join_chars [of "CHR 0x0A" "map unquoted ?q"] q(3) by (fastforce simp: plain_line_def)
      then have "split_on (CHR 0x0A) (unix_lines (join_with [CHR 0x0A] (map unquoted ?q))) = map unquoted ?q"
        using q by (subst unix_lines_id) (auto simp: plain_line_def intro!: split_join)
      moreover have "room (map unquoted ?q) < room ls"
        using room_unquoted [OF q(1,2)] room_takeWhile [of is_quote ls] by simp
      then have "\<exists>b. render_lines (map unquoted ?q) = Some b" using less(1) q(3) by blast
      ultimately show ?thesis using later [of is_quote] 3
        by (subst render_lines.simps) (auto simp: Cons simp del: takeWhile.simps dropWhile.simps)
    next
      case 4
      with later [of is_item] show ?thesis
        by (subst render_lines.simps) (auto simp: Cons simp del: takeWhile.simps dropWhile.simps)
    next
      case 5
      then have "is_para l" using plain_heading [OF l] by (auto simp: is_para_def)
      with later [of is_para] 5 show ?thesis
        by (subst render_lines.simps) (auto simp: Cons simp del: takeWhile.simps dropWhile.simps)
    qed
  qed
qed

lemma split_lines_plain: "CHR 0x0D \<notin> set s \<Longrightarrow> l \<in> set (split_on (CHR 0x0A) s) \<Longrightarrow> plain_line l"
proof -
  have "set l \<subseteq> set s" if "l \<in> set (split_on (CHR 0x0A) s)" for l
    using that by (induction s arbitrary: l) (fastforce split: if_splits list.splits)+
  then show "CHR 0x0D \<notin> set s \<Longrightarrow> l \<in> set (split_on (CHR 0x0A) s) \<Longrightarrow> plain_line l"
    using split_on_no_sep by (auto simp: plain_line_def)
qed

text \<open>C29: whatever page it is given, the renderer either comes back with safe markup (text without brackets and quotes,
  tags of the list, links that no browser reads as a script), or the page holds a lone carriage return.\<close>

theorem rendered_markup_safe:
  "case render md of Some html \<Rightarrow> markup html | None \<Rightarrow> CHR 0x0D \<in> set (unix_lines md)"
proof (cases "render md")
  case None
  have "CHR 0x0D \<in> set (unix_lines md)"
  proof (rule ccontr)
    assume "CHR 0x0D \<notin> set (unix_lines md)"
    with render_lines_returns [of "split_on (CHR 0x0A) (unix_lines md)"] split_lines_plain None show False
      by (auto simp: render_def)
  qed
  with None show ?thesis by simp
next
  case (Some html)
  with render_lines_markup show ?thesis by (simp add: render_def)
qed

text \<open>A heading line with a lone carriage return in it is no heading to the first test and no paragraph to the second:
  the loop stays on it for ever.\<close>

definition stuck :: string where
  "stuck = ''# a'' @ [CHR 0x0D] @ ''b''"

lemma stuck_line: "\<not> is_blank stuck" "heading stuck = None" "\<not> is_quote stuck" "\<not> is_item stuck" "\<not> is_para stuck"
  by code_simp+

theorem heading_with_return_never_ends: "render stuck = None"
proof -
  have "render_lines ls = Some h \<Longrightarrow> ls \<noteq> [stuck]" for ls h
  proof (induction ls h rule: render_lines.raw_induct [rotated, consumes 1])
    case (1 f ls h)
    show ?case
    proof
      assume ls: "ls = [stuck]"
      from 1(2) obtain h' where "f [stuck] = Some h'" by (auto simp: ls stuck_line bind_eq_Some_conv)
      with 1(1) show False by blast
    qed
  qed
  moreover have "split_on (CHR 0x0A) (unix_lines stuck) = [stuck]" by code_simp
  ultimately show ?thesis by (cases "render stuck") (auto simp: render_def)
qed

end
