(* ===== verification/JsValue.thy ===== *)
theory JsValue
  imports JsText
begin

text \<open>
  Dynamically typed values: what a request body, a socket line or a data file holds before the code
  has looked at it. \<open>Builtin k\<close> is the member \<open>k\<close> that every plain object inherits from
  \<open>Object.prototype\<close>. Numbers are the finite ones JSON can write.
\<close>

datatype val =
    Undef
  | Null
  | Bool bool
  | Num rat
  | Str string
  | Arr "val list"
  | Obj "(string \<times> val) list"
  | Builtin string

fun truthy :: "val \<Rightarrow> bool" where
  "truthy Undef = False"
| "truthy Null = False"
| "truthy (Bool b) = b"
| "truthy (Num r) = (r \<noteq> 0)"
| "truthy (Str s) = (s \<noteq> [])"
| "truthy (Arr xs) = True"
| "truthy (Obj m) = True"
| "truthy (Builtin k) = True"

text \<open>\<open>v?.k\<close> for a name \<open>k\<close> that is a plain field: the primitives, arrays and built-ins have no
  such member.\<close>

fun fld :: "val \<Rightarrow> string \<Rightarrow> val" where
  "fld (Obj m) k = (case oread m k of Own v \<Rightarrow> v | Inherited \<Rightarrow> Builtin k | Missing \<Rightarrow> Undef)"
| "fld _ k = Undef"

text \<open>\<open>a || b\<close> and \<open>a ?? b\<close>.\<close>

definition js_or :: "val \<Rightarrow> val \<Rightarrow> val" where
  "js_or a b = (if truthy a then a else b)"

definition nullish :: "val \<Rightarrow> val \<Rightarrow> val" where
  "nullish a b = (if a = Undef \<or> a = Null then b else a)"

fun is_str :: "val \<Rightarrow> bool" where
  "is_str (Str s) = True"
| "is_str _ = False"

fun str_of :: "val \<Rightarrow> string" where
  "str_of (Str s) = s"
| "str_of _ = []"

fun is_obj :: "val \<Rightarrow> bool" where
  "is_obj (Obj m) = True"
| "is_obj _ = False"

text \<open>\<open>Number.isInteger\<close>, of a finite number and of any value.\<close>

definition is_integer :: "rat \<Rightarrow> bool" where
  "is_integer x \<longleftrightarrow> of_int \<lfloor>x\<rfloor> = x"

fun js_is_integer :: "val \<Rightarrow> bool" where
  "js_is_integer (Num r) = is_integer r"
| "js_is_integer _ = False"

fun int_of :: "val \<Rightarrow> int" where
  "int_of (Num r) = \<lfloor>r\<rfloor>"
| "int_of _ = 0"

section \<open>Text of a value\<close>

text \<open>The decimal text of a number: exact for a number of at most 20 decimals, which JavaScript writes
  without an exponent when it is zero or between \<open>1e-6\<close> and \<open>1e21\<close> in size.\<close>

primrec frac_text :: "nat \<Rightarrow> rat \<Rightarrow> string" where
  "frac_text 0 x = []"
| "frac_text (Suc n) x =
     (if x = 0 then [] else digit_char (nat \<lfloor>10 * x\<rfloor>) # frac_text n (10 * x - of_int \<lfloor>10 * x\<rfloor>))"

definition num_text :: "rat \<Rightarrow> string" where
  "num_text x =
     (let a = \<bar>x\<bar>; t = nat_text (nat \<lfloor>a\<rfloor>); f = a - of_int \<lfloor>a\<rfloor>
      in (if x < 0 then ''-'' else []) @ t @ (if f = 0 then [] else CHR ''.'' # frac_text 20 f))"

text \<open>\<open>String(v)\<close>. The elements of an array are joined by commas, \<open>null\<close> and \<open>undefined\<close> as nothing.\<close>

text \<open>How an inherited member of a plain object reads as text.\<close>

definition native_fun :: "string \<Rightarrow> string" where
  "native_fun k =
     (if k = ''__proto__'' then ''[object Object]''
      else if k = ''constructor'' then ''function Object() { [native code] }''
      else ''function '' @ k @ ''() { [native code] }'')"

fun js_text :: "val \<Rightarrow> string" where
  "js_text Undef = ''undefined''"
| "js_text Null = ''null''"
| "js_text (Bool b) = (if b then ''true'' else ''false'')"
| "js_text (Num r) = num_text r"
| "js_text (Str s) = s"
| "js_text (Arr xs) = join_with '','' (map (\<lambda>x. if x = Undef \<or> x = Null then [] else js_text x) xs)"
| "js_text (Obj m) = ''[object Object]''"
| "js_text (Builtin k) = native_fun k"

lemma is_integer_of_int [simp]: "is_integer (of_int i)"
  by (simp add: is_integer_def)

lemma is_integer_numeral [simp]: "is_integer (numeral n)" "is_integer 0" "is_integer 1"
  by (simp_all add: is_integer_def)

lemma truthy_Str_text: "truthy v \<Longrightarrow> is_str v \<Longrightarrow> str_of v \<noteq> []"
  by (cases v) auto

lemma js_or_Str [simp]: "js_or (Str s) (Str d) = Str (if s = [] then d else s)"
  by (simp add: js_or_def)

lemma js_or_falsy [simp]: "\<not> truthy v \<Longrightarrow> js_or v d = d"
  by (simp add: js_or_def)

lemma js_or_truthy [simp]: "truthy v \<Longrightarrow> js_or v d = v"
  by (simp add: js_or_def)

lemma fld_Obj_own: "map_of m k = Some v \<Longrightarrow> fld (Obj m) k = v"
  by (simp add: oread_def)

lemma fld_Obj_missing: "map_of m k = None \<Longrightarrow> k \<notin> set proto_keys \<Longrightarrow> fld (Obj m) k = Undef"
  by (simp add: oread_def)

end
