(* ===== verification/Json.thy ===== *)
theory Json
  imports JsValue
begin

text \<open>
  \<open>JSON.stringify\<close> and \<open>JSON.parse\<close> as the programs use them. Numbers are read as the rational they write.
  An escape of a code unit beyond 8 bits is outside the model and does not parse. The fuel of the parser
  is twice the length of the text and two more: every step down consumes a character and at most two units.
\<close>

section \<open>Writing\<close>

fun json_text :: "val \<Rightarrow> string option" where
  "json_text Undef = None"
| "json_text Null = Some ''null''"
| "json_text (Bool b) = Some (if b then ''true'' else ''false'')"
| "json_text (Num r) = Some (num_text r)"
| "json_text (Str s) = Some (json_quote s)"
| "json_text (Arr xs) =
     Some (''['' @ join_with '','' (map (\<lambda>x. case json_text x of Some t \<Rightarrow> t | None \<Rightarrow> ''null'') xs) @ '']'')"
| "json_text (Obj m) =
     Some (''{'' @ join_with '',''
       (concat (map (\<lambda>p. case json_text (snd p) of Some t \<Rightarrow> [json_quote (fst p) @ '':'' @ t] | None \<Rightarrow> []) m)) @ ''}'')"
| "json_text (Builtin k) = (if k = ''__proto__'' then Some ''{}'' else None)"

section \<open>Reading\<close>

definition json_ws :: "char \<Rightarrow> bool" where
  "json_ws c \<longleftrightarrow> c = CHR '' '' \<or> c = CHR 0x09 \<or> c = CHR 0x0A \<or> c = CHR 0x0D"

definition skip_ws :: "string \<Rightarrow> string" where
  "skip_ws s = dropWhile json_ws s"

definition hex_val :: "char \<Rightarrow> nat option" where
  "hex_val c = (let n = of_char c :: nat in
     if 48 \<le> n \<and> n \<le> 57 then Some (n - 48) else if 97 \<le> n \<and> n \<le> 102 then Some (n - 87)
     else if 65 \<le> n \<and> n \<le> 70 then Some (n - 55) else None)"

fun hex4 :: "string \<Rightarrow> (nat \<times> string) option" where
  "hex4 (a # b # c # d # r) =
     (case (hex_val a, hex_val b, hex_val c, hex_val d) of
        (Some w, Some x, Some y, Some z) \<Rightarrow> Some (((w * 16 + x) * 16 + y) * 16 + z, r)
      | _ \<Rightarrow> None)"
| "hex4 _ = None"

definition unescape :: "char \<Rightarrow> char option" where
  "unescape c =
     (if c = CHR 0x22 \<or> c = CHR 0x5C \<or> c = CHR ''/'' then Some c
      else if c = CHR ''b'' then Some (CHR 0x08) else if c = CHR ''f'' then Some (CHR 0x0C)
      else if c = CHR ''n'' then Some (CHR 0x0A) else if c = CHR ''r'' then Some (CHR 0x0D)
      else if c = CHR ''t'' then Some (CHR 0x09) else None)"

text \<open>One character of a string and what follows it.\<close>

definition read_char :: "string \<Rightarrow> (char \<times> string) option" where
  "read_char s =
     (case s of
        [] \<Rightarrow> None
      | c # r \<Rightarrow>
          if c = CHR 0x5C
          then (case r of
              [] \<Rightarrow> None
            | e # r1 \<Rightarrow>
                if e = CHR ''u''
                then (case hex4 r1 of
                    Some (n, r2) \<Rightarrow> if n < 256 then Some (char_of n, r2) else None
                  | None \<Rightarrow> None)
                else map_option (\<lambda>x. (x, r1)) (unescape e))
          else if of_char c < (32 :: nat) then None else Some (c, r))"

lemma hex4_shorter: "hex4 r = Some (n, r') \<Longrightarrow> length r' < length r"
  by (induction r rule: hex4.induct) (auto split: option.splits)

lemma read_char_shorter: "read_char s = Some (c, r) \<Longrightarrow> length r < length s"
  by (auto simp: read_char_def split: list.splits if_splits option.splits dest: hex4_shorter)

function read_string :: "string \<Rightarrow> (string \<times> string) option" where
  "read_string s =
     (if s = [] then None
      else if hd s = CHR 0x22 then Some ([], tl s)
      else (case read_char s of
          None \<Rightarrow> None
        | Some (c, r) \<Rightarrow> map_option (\<lambda>(t, r'). (c # t, r')) (read_string r)))"
  by auto
termination
  by (relation "measure length") (auto dest: read_char_shorter)

declare read_string.simps [simp del]

definition digits_of :: "string \<Rightarrow> string" where
  "digits_of s = takeWhile is_digit s"

definition after_digits :: "string \<Rightarrow> string" where
  "after_digits s = dropWhile is_digit s"

text \<open>The exponent and the fraction are optional.\<close>

definition read_exponent :: "rat \<Rightarrow> string \<Rightarrow> (rat \<times> string) option" where
  "read_exponent x s =
     (case s of
        c # r \<Rightarrow>
          if c = CHR ''e'' \<or> c = CHR ''E''
          then (let (neg, r1) = (case r of
                    d # r' \<Rightarrow> if d = CHR ''-'' then (True, r') else if d = CHR ''+'' then (False, r') else (False, r)
                  | [] \<Rightarrow> (False, r));
                    ds = digits_of r1
                in if ds = [] then None
                   else Some (if neg then x / 10 ^ digits_val ds else x * 10 ^ digits_val ds, after_digits r1))
          else Some (x, s)
      | [] \<Rightarrow> Some (x, s))"

definition read_fraction :: "nat \<Rightarrow> string \<Rightarrow> (rat \<times> string) option" where
  "read_fraction n s =
     (case s of
        c # r \<Rightarrow>
          if c = CHR ''.''
          then (let ds = digits_of r
                in if ds = [] then None
                   else read_exponent (of_nat n + of_nat (digits_val ds) / 10 ^ length ds) (after_digits r))
          else read_exponent (of_nat n) s
      | [] \<Rightarrow> Some (of_nat n, s))"

definition take_sign :: "string \<Rightarrow> bool \<times> string" where
  "take_sign s = (if s \<noteq> [] \<and> hd s = CHR ''-'' then (True, tl s) else (False, s))"

definition read_number :: "string \<Rightarrow> (val \<times> string) option" where
  "read_number s =
     (let (neg, r) = take_sign s;
          ds = digits_of r
      in if ds = [] \<or> (hd ds = CHR ''0'' \<and> tl ds \<noteq> []) then None
         else map_option (\<lambda>(x, r'). (Num (if neg then - x else x), r')) (read_fraction (digits_val ds) (after_digits r)))"

text \<open>A later member of the same name replaces the value of the earlier one in its place.\<close>

definition object_of :: "(string \<times> val) list \<Rightarrow> val" where
  "object_of ps = Obj (fold (\<lambda>p m. AList.update (fst p) (snd p) m) ps [])"

definition drop_text :: "string \<Rightarrow> string \<Rightarrow> string option" where
  "drop_text p s = (if prefix p s then Some (drop (length p) s) else None)"

fun read_value :: "nat \<Rightarrow> string \<Rightarrow> (val \<times> string) option"
  and read_elements :: "nat \<Rightarrow> string \<Rightarrow> (val list \<times> string) option"
  and read_members :: "nat \<Rightarrow> string \<Rightarrow> ((string \<times> val) list \<times> string) option" where
  "read_value 0 s = None"
| "read_value (Suc n) s =
     (case skip_ws s of
        [] \<Rightarrow> None
      | c # r \<Rightarrow>
          if c = CHR 0x22 then map_option (\<lambda>(t, r'). (Str t, r')) (read_string r)
          else if c = CHR ''['' then
            (case drop_text '']'' (skip_ws r) of
               Some r' \<Rightarrow> Some (Arr [], r')
             | None \<Rightarrow> map_option (\<lambda>(vs, r'). (Arr vs, r')) (read_elements n r))
          else if c = CHR ''{'' then
            (case drop_text ''}'' (skip_ws r) of
               Some r' \<Rightarrow> Some (Obj [], r')
             | None \<Rightarrow> map_option (\<lambda>(ps, r'). (object_of ps, r')) (read_members n r))
          else (case (drop_text ''null'' (c # r), drop_text ''true'' (c # r), drop_text ''false'' (c # r)) of
              (Some r', _, _) \<Rightarrow> Some (Null, r')
            | (_, Some r', _) \<Rightarrow> Some (Bool True, r')
            | (_, _, Some r') \<Rightarrow> Some (Bool False, r')
            | _ \<Rightarrow> read_number (c # r)))"
| "read_elements 0 s = None"
| "read_elements (Suc n) s =
     (case read_value n s of
        None \<Rightarrow> None
      | Some (v, r) \<Rightarrow>
          (case (drop_text '','' (skip_ws r), drop_text '']'' (skip_ws r)) of
             (Some r', _) \<Rightarrow> map_option (\<lambda>(vs, r''). (v # vs, r'')) (read_elements n r')
           | (None, Some r') \<Rightarrow> Some ([v], r')
           | (None, None) \<Rightarrow> None))"
| "read_members 0 s = None"
| "read_members (Suc n) s =
     (case drop_text [CHR 0x22] (skip_ws s) of
        None \<Rightarrow> None
      | Some q \<Rightarrow> (case read_string q of
          None \<Rightarrow> None
        | Some (k, r) \<Rightarrow> (case drop_text '':'' (skip_ws r) of
            None \<Rightarrow> None
          | Some r1 \<Rightarrow> (case read_value n r1 of
              None \<Rightarrow> None
            | Some (v, r2) \<Rightarrow>
                (case (drop_text '','' (skip_ws r2), drop_text ''}'' (skip_ws r2)) of
                   (Some r', _) \<Rightarrow> map_option (\<lambda>(ps, r''). ((k, v) # ps, r'')) (read_members n r')
                 | (None, Some r') \<Rightarrow> Some ([(k, v)], r')
                 | (None, None) \<Rightarrow> None)))))"

definition json_parse :: "string \<Rightarrow> val option" where
  "json_parse s =
     (case read_value (2 * length s + 2) s of
        Some (v, r) \<Rightarrow> if skip_ws r = [] then Some v else None
      | None \<Rightarrow> None)"

section \<open>Reading back what was written\<close>

text \<open>The values that JSON can hold: no \<open>undefined\<close>, no built-in, whole numbers, one member per name.\<close>

fun clean :: "val \<Rightarrow> bool" where
  "clean Undef = False"
| "clean (Builtin k) = False"
| "clean (Num r) = is_integer r"
| "clean (Arr xs) = list_all clean xs"
| "clean (Obj m) = (distinct (map fst m) \<and> list_all (\<lambda>p. clean (snd p)) m)"
| "clean _ = True"

definition written :: "val \<Rightarrow> string" where
  "written v = the (json_text v)"

lemma json_text_clean: "clean v \<Longrightarrow> json_text v = Some (written v)"
  by (cases v) (simp_all add: written_def)

lemma written_Arr: "list_all clean xs \<Longrightarrow> written (Arr xs) = ''['' @ join_with '','' (map written xs) @ '']''"
proof -
  assume "list_all clean xs"
  then have "map (\<lambda>x. case json_text x of Some t \<Rightarrow> t | None \<Rightarrow> ''null'') xs = map written xs"
    by (auto simp: list_all_iff json_text_clean)
  then show ?thesis by (simp add: written_def [of "Arr xs"] del: map_eq_conv)
qed

definition member_text :: "string \<times> val \<Rightarrow> string" where
  "member_text p = json_quote (fst p) @ '':'' @ written (snd p)"

lemma written_Obj:
  assumes "list_all (\<lambda>p. clean (snd p)) m"
  shows "written (Obj m) = ''{'' @ join_with '','' (map member_text m) @ ''}''"
proof -
  from assms have "concat (map (\<lambda>p. case json_text (snd p) of
      Some t \<Rightarrow> [json_quote (fst p) @ '':'' @ t] | None \<Rightarrow> []) m) = map member_text m"
    by (induction m) (auto simp: json_text_clean member_text_def)
  then show ?thesis by (simp add: written_def [of "Obj m"])
qed

lemma hex_val_digit [simp]: "d < 16 \<Longrightarrow> hex_val (hex_digit d) = Some d"
  by (auto simp: hex_val_def hex_digit_def Let_def)

lemma hex_val_zero [simp]: "hex_val (CHR ''0'') = Some 0"
  by (simp add: hex_val_def)

lemma read_char_json [simp]: "read_char (json_char c @ r) = Some (c, r)"
proof -
  have "hex4 (CHR ''0'' # CHR ''0'' # hex_digit (of_char c div 16) # hex_digit (of_char c mod 16) # r) =
      Some (of_char c, r)" if "of_char c < (32 :: nat)"
    using that by simp
  then show ?thesis
    by (auto simp: json_char_def read_char_def unescape_def)
qed

lemma json_char_hd: "hd (json_char c @ r) \<noteq> CHR 0x22"
  by (simp add: json_char_def)

lemma read_string_quoted: "read_string (concat (map json_char s) @ CHR 0x22 # r) = Some (s, r)"
proof (induction s)
  case Nil
  then show ?case by (simp add: read_string.simps)
next
  case (Cons c s)
  then show ?case
    using json_char_hd [of c "concat (map json_char s) @ CHR 0x22 # r"]
    by (subst read_string.simps) simp
qed

text \<open>What may follow a value.\<close>

definition ends_value :: "string \<Rightarrow> bool" where
  "ends_value r \<longleftrightarrow> r = [] \<or> hd r \<in> {CHR '','', CHR '']'', CHR ''}''}"

lemma nat_text_zero: "hd (nat_text n) = CHR ''0'' \<Longrightarrow> n = 0"
proof (induction n rule: nat_text.induct)
  case (1 n)
  show ?case
  proof (cases "n < 10")
    case True
    with 1 show ?thesis by (auto simp: digit_char_def dest: arg_cong [where f = "of_char :: char \<Rightarrow> nat"])
  next
    case False
    with 1 show ?thesis by simp
  qed
qed

lemma nat_text_hd: "is_digit (hd (nat_text n))"
  using nat_text_digits [of n] nat_text_nonempty [of n] by (cases "nat_text n") auto

lemma digits_app: "ends_value r \<Longrightarrow> digits_of (nat_text n @ r) = nat_text n \<and> after_digits (nat_text n @ r) = r"
proof -
  assume "ends_value r"
  then have "r = [] \<or> \<not> is_digit (hd r)" by (auto simp: ends_value_def is_digit_def)
  then show ?thesis
    using nat_text_digits [of n] by (cases r) (simp_all add: digits_of_def after_digits_def takeWhile_append2 dropWhile_append2)
qed

lemma read_fraction_end: "ends_value r \<Longrightarrow> read_fraction n r = Some (of_nat n, r)"
  by (auto simp: read_fraction_def read_exponent_def ends_value_def split: list.splits)

lemma take_sign_nat_text: "take_sign (nat_text n @ r) = (False, nat_text n @ r)"
  using nat_text_hd [of n] by (auto simp: take_sign_def is_digit_def)

lemma take_sign_num_text:
  "take_sign (num_text (of_int i) @ r) = (i < 0, nat_text (nat \<bar>i\<bar>) @ r)"
proof -
  have "num_text (of_int i) = (if i < 0 then ''-'' else []) @ nat_text (nat \<bar>i\<bar>)"
    by (simp add: num_text_def Let_def abs_if)
  moreover have "take_sign (''-'' @ s) = (True, s)" for s by (simp add: take_sign_def)
  ultimately show ?thesis by (cases "i < 0") (simp_all add: take_sign_nat_text)
qed

lemma nat_text_no_leading_zero: "hd (nat_text n) \<noteq> CHR ''0'' \<or> tl (nat_text n) = []"
  using nat_text_zero [of n] by (cases "n = 0") auto

lemma read_number_nat_text:
  assumes "ends_value r"
  shows "(let ds = digits_of (nat_text n @ r)
      in if ds = [] \<or> (hd ds = CHR ''0'' \<and> tl ds \<noteq> []) then None
         else map_option (\<lambda>(x, r'). (Num (if b then - x else x), r'))
           (read_fraction (digits_val ds) (after_digits (nat_text n @ r)))) =
    Some (Num (if b then - of_nat n else of_nat n), r)"
  using nat_text_no_leading_zero [of n] digits_app [OF assms, of n] read_fraction_end [OF assms, of n]
  by (simp add: Let_def del: nat_text_large)

lemma read_number_int:
  assumes "ends_value r"
  shows "read_number (num_text (of_int i) @ r) = Some (Num (of_int i), r)"
proof -
  have "read_number (num_text (of_int i) @ r) =
      Some (Num (if i < 0 then - of_nat (nat \<bar>i\<bar>) else of_nat (nat \<bar>i\<bar>)), r)"
    unfolding read_number_def take_sign_num_text Let_def prod.case
    by (rule read_number_nat_text [OF assms, unfolded Let_def])
  then show ?thesis by simp
qed

section \<open>The round trip\<close>

text \<open>The first character of a written value opens it.\<close>

definition opens_value :: "char \<Rightarrow> bool" where
  "opens_value c \<longleftrightarrow> c \<in> {CHR 0x22, CHR ''['', CHR ''{'', CHR ''n'', CHR ''t'', CHR ''f'', CHR ''-''} \<or> is_digit c"

lemma opens_value_not: "opens_value c \<Longrightarrow> \<not> json_ws c \<and> c \<noteq> CHR '']'' \<and> c \<noteq> CHR ''}'' \<and> c \<noteq> CHR '',''"
  by (auto simp: opens_value_def json_ws_def is_digit_def)

lemma num_text_opens: "opens_value (hd (num_text (of_int i)))"
  using nat_text_hd [of "nat \<bar>i\<bar>"]
  by (cases "i < 0") (simp_all add: num_text_def Let_def abs_if opens_value_def)

lemma num_text_nonempty [simp]: "num_text x \<noteq> []"
  by (simp add: num_text_def Let_def)

lemma written_opens: "clean v \<Longrightarrow> written v \<noteq> [] \<and> opens_value (hd (written v))"
proof (cases v)
  case (Num r)
  moreover assume "clean v"
  ultimately obtain i where "r = of_int i" by (metis clean.simps(3) is_integer_def)
  with Num show ?thesis using num_text_opens [of i] by (simp add: written_def)
next
  case (Str s)
  then show ?thesis by (simp add: written_def json_quote_def opens_value_def)
qed (auto simp: written_def opens_value_def)

lemma skip_written: "clean v \<Longrightarrow> skip_ws (written v @ r) = written v @ r"
  using written_opens [of v] opens_value_not [of "hd (written v)"]
  by (cases "written v") (auto simp: skip_ws_def)

lemma skip_ends: "ends_value r \<Longrightarrow> skip_ws r = r"
  by (cases r) (auto simp: ends_value_def skip_ws_def json_ws_def)

lemma drop_text_Cons [simp]: "drop_text [c] (d # s) = (if c = d then Some s else None)"
  by (simp add: drop_text_def)

lemma drop_text_app [simp]: "drop_text p (p @ s) = Some s"
  by (simp add: drop_text_def)

text \<open>That a value is read back from its text, whatever allowed text follows.\<close>

definition reads_back :: "val \<Rightarrow> bool" where
  "reads_back v \<longleftrightarrow> (\<forall>n r. ends_value r \<longrightarrow> 2 * length (written v) \<le> n \<longrightarrow>
     read_value n (written v @ r) = Some (v, r))"

lemma reads_backD:
  "reads_back v \<Longrightarrow> ends_value r \<Longrightarrow> 2 * length (written v) \<le> n \<Longrightarrow> read_value n (written v @ r) = Some (v, r)"
  by (simp add: reads_back_def)

lemma ends_value_Cons [simp]: "ends_value (c # r) \<longleftrightarrow> c \<in> {CHR '','', CHR '']'', CHR ''}''}"
  by (simp add: ends_value_def)

lemma skip_ws_Cons [simp]: "\<not> json_ws c \<Longrightarrow> skip_ws (c # r) = c # r"
  by (simp add: skip_ws_def)

lemma json_ws_punctuation [simp]:
  "\<not> json_ws (CHR '','')" "\<not> json_ws (CHR '']'')" "\<not> json_ws (CHR ''}'')" "\<not> json_ws (CHR '':'')"
  "\<not> json_ws (CHR 0x22)" "\<not> json_ws (CHR ''['')" "\<not> json_ws (CHR ''{'')" "\<not> json_ws (CHR ''n'')"
  "\<not> json_ws (CHR ''t'')" "\<not> json_ws (CHR ''f'')"
  by (simp_all add: json_ws_def)

lemma read_elements_back:
  "xs \<noteq> [] \<Longrightarrow> (\<And>x. x \<in> set xs \<Longrightarrow> reads_back x) \<Longrightarrow> 2 * length (join_with '','' (map written xs)) + 1 \<le> n \<Longrightarrow>
     read_elements n (join_with '','' (map written xs) @ CHR '']'' # r) = Some (xs, r)"
proof (induction xs arbitrary: n rule: induct_list012)
  case (2 x)
  then obtain k where n: "n = Suc k" by (cases n) auto
  with 2 have "read_value k (written x @ CHR '']'' # r) = Some (x, CHR '']'' # r)"
    by (intro reads_backD) auto
  with n show ?case by simp
next
  case (3 x y zs)
  then obtain k where n: "n = Suc k" by (cases n) auto
  let ?rest = "join_with '','' (map written (y # zs)) @ CHR '']'' # r"
  from 3 n have "read_value k (written x @ CHR '','' # ?rest) = Some (x, CHR '','' # ?rest)"
    by (intro reads_backD) auto
  moreover from 3 n have "read_elements k ?rest = Some (y # zs, r)"
    by (intro "3.IH") auto
  ultimately show ?case using n by simp
qed simp

lemma read_members_back:
  "ps \<noteq> [] \<Longrightarrow> (\<And>p. p \<in> set ps \<Longrightarrow> reads_back (snd p)) \<Longrightarrow>
     2 * length (join_with '','' (map member_text ps)) + 1 \<le> n \<Longrightarrow>
     read_members n (join_with '','' (map member_text ps) @ CHR ''}'' # r) = Some (ps, r)"
proof (induction ps arbitrary: n rule: induct_list012)
  case (2 p)
  then obtain k where n: "n = Suc k" by (cases n) auto
  with 2 have "read_value k (written (snd p) @ CHR ''}'' # r) = Some (snd p, CHR ''}'' # r)"
    by (intro reads_backD) (auto simp: member_text_def)
  with n show ?case by (simp add: member_text_def json_quote_def read_string_quoted)
next
  case (3 p q ps)
  then obtain k where n: "n = Suc k" by (cases n) auto
  let ?rest = "join_with '','' (map member_text (q # ps)) @ CHR ''}'' # r"
  from 3 n have "read_value k (written (snd p) @ CHR '','' # ?rest) = Some (snd p, CHR '','' # ?rest)"
    by (intro reads_backD) (auto simp: member_text_def)
  moreover from 3 n have "read_members k ?rest = Some (q # ps, r)"
    by (intro "3.IH") auto
  ultimately show ?case using n by (simp add: member_text_def [of p] json_quote_def read_string_quoted)
qed simp

lemma update_fresh: "k \<notin> fst ` set m \<Longrightarrow> AList.update k v m = m @ [(k, v)]"
  by (induction m) auto

lemma fold_update_fresh:
  "distinct (map fst (m @ ps)) \<Longrightarrow> fold (\<lambda>p m. AList.update (fst p) (snd p) m) ps m = m @ ps"
  by (induction ps arbitrary: m) (auto simp: update_fresh)

lemma object_of_distinct: "distinct (map fst ps) \<Longrightarrow> object_of ps = Obj ps"
  using fold_update_fresh [of "[]" ps] by (simp add: object_of_def)

lemma read_value_number:
  assumes "clean (Num x)" and "ends_value r"
  shows "read_value (Suc k) (written (Num x) @ r) = Some (Num x, r)"
proof -
  obtain i where x: "x = of_int i" using assms by (metis clean.simps(3) is_integer_def)
  let ?t = "num_text (of_int i) @ r"
  have t: "written (Num (of_int i)) = num_text (of_int i)" by (simp add: written_def)
  obtain c u where cu: "num_text (of_int i) = c # u" by (cases "num_text (of_int i)") auto
  have c: "c = CHR ''-'' \<or> is_digit c"
    using nat_text_hd [of "nat \<bar>i\<bar>"] cu by (cases "i < 0") (auto simp: num_text_def Let_def abs_if)
  then have "\<not> json_ws c" by (auto simp: json_ws_def is_digit_def)
  moreover have "c \<noteq> CHR 0x22" "c \<noteq> CHR ''[''" "c \<noteq> CHR ''{''" "c \<noteq> CHR ''n''" "c \<noteq> CHR ''t''" "c \<noteq> CHR ''f''"
    using c by (auto simp: is_digit_def)
  moreover from this have "drop_text ''null'' (c # u @ r) = None" "drop_text ''true'' (c # u @ r) = None"
      "drop_text ''false'' (c # u @ r) = None"
    by (auto simp: drop_text_def)
  ultimately show ?thesis
    using read_number_int [OF assms(2), of i] by (simp add: t cu x)
qed

lemma reads_back_Arr:
  assumes "\<And>x. x \<in> set xs \<Longrightarrow> reads_back x" and "list_all clean xs"
  shows "reads_back (Arr xs)"
  unfolding reads_back_def
proof (intro allI impI)
  fix n r assume *: "ends_value r" "2 * length (written (Arr xs)) \<le> n"
  then obtain k where n: "n = Suc k" by (cases n) (auto simp: written_Arr [OF assms(2)])
  show "read_value n (written (Arr xs) @ r) = Some (Arr xs, r)"
  proof (cases xs)
    case Nil
    then show ?thesis by (simp add: n written_def)
  next
    case (Cons x ys)
    let ?body = "join_with '','' (map written xs)"
    have "prefix (written x) ?body" by (cases ys) (simp_all add: Cons)
    then obtain b where b: "?body = written x @ b" by (auto simp: prefix_def)
    from assms(2) Cons have x: "clean x" by simp
    have "drop_text '']'' (skip_ws (?body @ CHR '']'' # r)) = None"
      using written_opens [OF x] opens_value_not [of "hd (written x)"] skip_written [OF x]
      by (cases "written x") (auto simp: b)
    moreover from * n have "2 * length ?body + 1 \<le> k" by (simp add: written_Arr [OF assms(2)])
    then have "read_elements k (?body @ CHR '']'' # r) = Some (xs, r)"
      using assms(1) Cons by (intro read_elements_back) blast+
    ultimately show ?thesis by (simp add: n written_Arr [OF assms(2)])
  qed
qed

lemma reads_back_Obj:
  assumes "\<And>p. p \<in> set ps \<Longrightarrow> reads_back (snd p)" and "clean (Obj ps)"
  shows "reads_back (Obj ps)"
  unfolding reads_back_def
proof (intro allI impI)
  from assms(2) have w: "written (Obj ps) = ''{'' @ join_with '','' (map member_text ps) @ ''}''"
    by (intro written_Obj) simp
  fix n r assume *: "ends_value r" "2 * length (written (Obj ps)) \<le> n"
  then obtain k where n: "n = Suc k" by (cases n) (auto simp: w)
  show "read_value n (written (Obj ps) @ r) = Some (Obj ps, r)"
  proof (cases ps)
    case Nil
    then show ?thesis by (simp add: n written_def)
  next
    case (Cons p qs)
    let ?body = "join_with '','' (map member_text ps)"
    have "prefix (member_text p) ?body" by (cases qs) (simp_all add: Cons)
    then obtain b where b: "?body = CHR 0x22 # b" by (auto simp: prefix_def member_text_def json_quote_def)
    then have "drop_text ''}'' (skip_ws (?body @ CHR ''}'' # r)) = None" by simp
    moreover from * n have "2 * length ?body + 1 \<le> k" by (simp add: w)
    then have "read_members k (?body @ CHR ''}'' # r) = Some (ps, r)"
      using assms(1) Cons by (intro read_members_back) blast+
    ultimately show ?thesis
      using assms(2) by (simp add: n w object_of_distinct)
  qed
qed

lemma written_reads_back: "clean v \<Longrightarrow> reads_back v"
proof (induction v)
  case (Num x)
  show ?case
    unfolding reads_back_def
  proof (intro allI impI)
    fix n r assume *: "ends_value r" "2 * length (written (Num x)) \<le> n"
    then obtain k where "n = Suc k" by (cases n) (auto simp: written_def)
    then show "read_value n (written (Num x) @ r) = Some (Num x, r)"
      using read_value_number [OF Num *(1)] by simp
  qed
next
  case (Arr xs)
  then show ?case by (intro reads_back_Arr) (auto simp: list_all_iff)
next
  case (Obj ps)
  show ?case
  proof (rule reads_back_Obj)
    show "reads_back (snd p)" if "p \<in> set ps" for p
      using Obj.IH [OF that, of "snd p"] Obj.prems that by (cases p) (auto simp: list_all_iff)
  qed (fact Obj.prems)
next
  case (Bool b)
  show ?case unfolding reads_back_def
  proof (intro allI impI)
    fix n r assume "2 * length (written (Bool b)) \<le> n"
    then obtain k where "n = Suc k" by (cases n) (auto simp: written_def split: if_splits)
    then show "read_value n (written (Bool b) @ r) = Some (Bool b, r)"
      by (simp add: written_def drop_text_def)
  qed
next
  case Null
  show ?case unfolding reads_back_def
  proof (intro allI impI)
    fix n r assume "2 * length (written Null) \<le> n"
    then obtain k where "n = Suc k" by (cases n) (auto simp: written_def)
    then show "read_value n (written Null @ r) = Some (Null, r)"
      by (simp add: written_def drop_text_def)
  qed
next
  case (Str s)
  show ?case unfolding reads_back_def
  proof (intro allI impI)
    fix n r assume "2 * length (written (Str s)) \<le> n"
    then obtain k where "n = Suc k" by (cases n) (auto simp: written_def json_quote_def)
    then show "read_value n (written (Str s) @ r) = Some (Str s, r)"
      by (simp add: written_def json_quote_def read_string_quoted)
  qed
qed simp_all

lemma json_parse_written: "clean v \<Longrightarrow> json_parse (written v) = Some v"
  using reads_backD [OF written_reads_back, of v "[]" "2 * length (written v) + 2"]
  by (simp add: json_parse_def ends_value_def skip_ws_def)

end
