(* ===== verification/Url.thy ===== *)
theory Url
  imports JsValue
begin

text \<open>
  What \<open>new URL(text)\<close> gives for a text it accepts. The parser itself is a parameter of the definitions
  that use it: a function from texts to the parts, or nothing where the constructor throws.
\<close>

record url_parts =
  u_protocol :: string
  u_username :: string
  u_password :: string
  u_hostname :: string
  u_port :: string
  u_origin :: string
  u_path :: string
  u_search :: string
  u_params :: "(string \<times> string) list"

type_synonym url_parser = "string \<Rightarrow> url_parts option"

text \<open>\<open>u.searchParams.get(k)\<close>.\<close>

definition search_param :: "url_parts \<Rightarrow> string \<Rightarrow> string option" where
  "search_param u k = map_of (u_params u) k"

text \<open>\<open>encodeURIComponent\<close>, a character beyond ASCII as its two bytes of UTF-8.\<close>

definition upper_hex :: "nat \<Rightarrow> char" where
  "upper_hex d = (if d < 10 then char_of (48 + d) else char_of (55 + d))"

definition percent :: "nat \<Rightarrow> string" where
  "percent n = [CHR ''%'', upper_hex (n div 16), upper_hex (n mod 16)]"

definition unreserved :: "char \<Rightarrow> bool" where
  "unreserved c \<longleftrightarrow> (let n = of_char c :: nat in
     (48 \<le> n \<and> n \<le> 57) \<or> (65 \<le> n \<and> n \<le> 90) \<or> (97 \<le> n \<and> n \<le> 122) \<or>
     c \<in> set [CHR ''-'', CHR ''_'', CHR ''.'', CHR ''!'', CHR ''~'', CHR ''*'', CHR 0x27, CHR ''('', CHR '')''])"

definition encode_char :: "char \<Rightarrow> string" where
  "encode_char c = (let n = of_char c :: nat in
     if unreserved c then [c]
     else if n < 128 then percent n
     else percent (192 + n div 64) @ percent (128 + n mod 64))"

definition encodeURIComponent :: "string \<Rightarrow> string" where
  "encodeURIComponent s = concat (map encode_char s)"

end
