(* ===== verification/Dns.thy ===== *)
theory Dns
  imports Json Url
begin

text \<open>
  \<open>server/dns.ts\<close>: TXT lookups through several DNS-over-HTTPS resolvers. What the socket delivers is a
  parameter (\<open>wire host path\<close>: an error, or the pieces of data up to the close); the reading of the HTTP
  reply, of the JSON answer and the vote are modelled. Bytes are ASCII. The loop over the chunks of a reply
  has fuel, and runs out of it where the code does not return.
\<close>

section \<open>Buffers and numerals\<close>

abbreviation crlf :: string where
  "crlf \<equiv> [CHR 0x0D, CHR 0x0A]"

text \<open>Positions as \<open>Buffer\<close> takes them: a negative one counts from the end.\<close>

definition buf_pos :: "string \<Rightarrow> int \<Rightarrow> nat" where
  "buf_pos s p = (if p < 0 then nat (int (length s) + p) else min (nat p) (length s))"

definition subarray :: "string \<Rightarrow> int \<Rightarrow> int \<Rightarrow> string" where
  "subarray s a b = take (buf_pos s b - buf_pos s a) (drop (buf_pos s a) s)"

definition index_from :: "string \<Rightarrow> string \<Rightarrow> int \<Rightarrow> int option" where
  "index_from w s p = map_option (\<lambda>i. int (i + buf_pos s p)) (find_text w (drop (buf_pos s p) s))"

definition is_hex :: "char \<Rightarrow> bool" where
  "is_hex c = (hex_val c \<noteq> None)"

definition hex_digits_val :: "string \<Rightarrow> nat" where
  "hex_digits_val s = foldl (\<lambda>n c. 16 * n + the (hex_val c)) 0 s"

text \<open>\<open>parseInt(s, 16)\<close>; nothing stands for \<open>NaN\<close>.\<close>

definition parseInt16 :: "string \<Rightarrow> int option" where
  "parseInt16 s =
     (let t = trim_start s;
          (neg, u) = (if t \<noteq> [] \<and> hd t = CHR ''-'' then (True, tl t)
                      else if t \<noteq> [] \<and> hd t = CHR ''+'' then (False, tl t) else (False, t));
          v = (if prefix ''0x'' u \<or> prefix ''0X'' u then drop 2 u else u);
          ds = takeWhile is_hex v
      in if ds = [] then None
         else Some (if neg then - int (hex_digits_val ds) else int (hex_digits_val ds)))"

section \<open>The HTTP reply\<close>

definition MAX_BODY :: nat where
  "MAX_BODY = 64 * 1024"

text \<open>One turn of the loop: the last position, or a chunk and where to go on.\<close>

definition chunk_step :: "string \<Rightarrow> int \<Rightarrow> (string \<times> int) option" where
  "chunk_step body p =
     (case index_from crlf body p of
        None \<Rightarrow> None
      | Some nl \<Rightarrow>
          (case parseInt16 (subarray body p nl) of
             None \<Rightarrow> None
           | Some n \<Rightarrow>
               if n = 0 then None
               else Some (subarray body (nl + 2) (nl + 2 + n), nl + 2 + n + 2)))"

fun chunk_loop :: "nat \<Rightarrow> string \<Rightarrow> int \<Rightarrow> string \<Rightarrow> string option" where
  "chunk_loop 0 body p parts = None"
| "chunk_loop (Suc f) body p parts =
     (case chunk_step body p of
        None \<Rightarrow> Some parts
      | Some (part, q) \<Rightarrow> chunk_loop f body q (parts @ part))"

definition is_chunked :: "string \<Rightarrow> bool" where
  "is_chunked head =
     (\<exists>u \<in> set (suffixes (to_lower head)).
        (case drop_text ''transfer-encoding:'' u of
           Some r \<Rightarrow> prefix ''chunked'' (trim_start r) | None \<Rightarrow> False))"

text \<open>\<open>/^HTTP\/1\.[01] (\d{3})/\<close>.\<close>

definition reply_status :: "string \<Rightarrow> string option" where
  "reply_status head =
     (if (prefix ''HTTP/1.0 '' head \<or> prefix ''HTTP/1.1 '' head) \<and> length (drop 9 head) \<ge> 3 \<and>
         list_all is_digit (take 3 (drop 9 head))
      then Some (take 3 (drop 9 head)) else None)"

datatype reply_error = TooLarge | Malformed | HttpStatus string | WireError string | NoUsableAnswer

text \<open>\<open>None\<close>: the handler of the close does not return.\<close>

definition read_reply :: "nat \<Rightarrow> string \<Rightarrow> (reply_error + string) option" where
  "read_reply fuel bytes =
     (case find_text (crlf @ crlf) bytes of
        None \<Rightarrow> Some (Inl Malformed)
      | Some headEnd \<Rightarrow>
          (let head = take headEnd bytes; body = drop (headEnd + 4) bytes in
           case reply_status head of
             None \<Rightarrow> Some (Inl Malformed)
           | Some st \<Rightarrow>
               if st \<noteq> ''200'' then Some (Inl (HttpStatus st))
               else if is_chunked head then map_option Inr (chunk_loop fuel body 0 [])
               else Some (Inr body)))"

text \<open>Data events, with the cap on what has been received, then the close.\<close>

fun over_cap :: "nat \<Rightarrow> string list \<Rightarrow> bool" where
  "over_cap got [] = False"
| "over_cap got (d # ds) = (MAX_BODY < got + length d \<or> over_cap (got + length d) ds)"

type_synonym wire = "string \<Rightarrow> string \<Rightarrow> string + string list"

definition httpsGetOverTor :: "nat \<Rightarrow> wire \<Rightarrow> string \<Rightarrow> string \<Rightarrow> (reply_error + string) option" where
  "httpsGetOverTor fuel wire host path =
     (case wire host path of
        Inl e \<Rightarrow> Some (Inl (WireError e))
      | Inr ds \<Rightarrow> if over_cap 0 ds then Some (Inl TooLarge) else read_reply fuel (concat ds))"

section \<open>Answers\<close>

text \<open>\<open>d.match(/"([^"]*)"/g)\<close> without the quotes: what is inside an open quote, and the rest.\<close>

fun quoted :: "string option \<Rightarrow> string \<Rightarrow> string list" where
  "quoted _ [] = []"
| "quoted None (c # cs) = quoted (if c = CHR 0x22 then Some [] else None) cs"
| "quoted (Some w) (c # cs) = (if c = CHR 0x22 then w # quoted None cs else quoted (Some (w @ [c])) cs)"

definition txt_data :: "val \<Rightarrow> string" where
  "txt_data a =
     (let d = js_text (js_or (fld a ''data'') (Str []))
      in trim (if CHR 0x22 \<in> set d then concat (quoted None d) else d))"

definition parseTxtAnswer :: "string \<Rightarrow> string list option" where
  "parseTxtAnswer json =
     (case json_parse json of
        Some (Obj m) \<Rightarrow>
          (let doc = Obj m in
           if fld doc ''Status'' = Num 3 then Some []
           else if fld doc ''Status'' \<noteq> Num 0 then None
           else (let answers = (case fld doc ''Answer'' of Arr xs \<Rightarrow> xs | _ \<Rightarrow> [])
                 in Some (filter (\<lambda>d. d \<noteq> [])
                      (map txt_data (filter (\<lambda>a. truthy a \<and> (fld a ''type'' = Num 16 \<or> fld a ''type'' = Undef)) answers)))))
      | _ \<Rightarrow> None)"

section \<open>The vote\<close>

definition RESOLVERS :: "(string \<times> string) list" where
  "RESOLVERS = [(''cloudflare-dns.com'', ''/dns-query''), (''dns.quad9.net'', ''/dns-query''), (''dns.google'', ''/resolve'')]"

definition resolverList :: "string \<Rightarrow> (string \<times> string) list" where
  "resolverList env =
     (let only = trim env in
      if only = [] then RESOLVERS
      else (let wanted = filter (\<lambda>s. s \<noteq> []) (map trim (split_on (CHR '','') only))
            in filter (\<lambda>r. fst r \<in> set wanted) RESOLVERS))"

record txt_lookup =
  tl_records :: "string list"
  tl_answered :: nat
  tl_by_resolver :: "(string \<times> string list) list"
  tl_errors :: "(string \<times> reply_error) list"

definition resolver_answer :: "nat \<Rightarrow> wire \<Rightarrow> string \<Rightarrow> string \<times> string \<Rightarrow> (reply_error + string list) option" where
  "resolver_answer fuel wire name r =
     (case httpsGetOverTor fuel wire (fst r) (snd r @ ''?name='' @ encodeURIComponent name @ ''&type=TXT'') of
        None \<Rightarrow> None
      | Some (Inl e) \<Rightarrow> Some (Inl e)
      | Some (Inr body) \<Rightarrow>
          (case parseTxtAnswer body of Some recs \<Rightarrow> Some (Inr recs) | None \<Rightarrow> Some (Inl NoUsableAnswer)))"

text \<open>\<open>Promise.allSettled\<close>: every resolver is asked and every outcome kept, in order.\<close>

definition collect :: "((string \<times> string) \<times> (reply_error + string list)) list \<Rightarrow> txt_lookup" where
  "collect outcomes =
     (let by = concat (map (\<lambda>(r, o'). case o' of Inr recs \<Rightarrow> [(fst r, recs)] | Inl _ \<Rightarrow> []) outcomes)
      in \<lparr>tl_records = dedup (concat (map snd by)), tl_answered = length by, tl_by_resolver = by,
          tl_errors = concat (map (\<lambda>(r, o'). case o' of Inl e \<Rightarrow> [(fst r, e)] | Inr _ \<Rightarrow> []) outcomes)\<rparr>)"

definition lookupTxt :: "nat \<Rightarrow> wire \<Rightarrow> string \<Rightarrow> string \<Rightarrow> txt_lookup option" where
  "lookupTxt fuel wire env name =
     (let outcomes = map (\<lambda>r. (r, resolver_answer fuel wire name r)) (resolverList env)
      in if \<exists>p \<in> set outcomes. snd p = None then None
         else Some (collect (map (\<lambda>(r, a). (r, the a)) outcomes)))"

datatype txt_error =
    TooFewAnswered nat nat "(string \<times> reply_error) list"
  | TooFewAgreed nat nat nat
  | NoRecord string
  | LookupThrew string

record txt_agreement =
  ta_ok :: bool
  ta_inconclusive :: bool
  ta_answered :: "nat option"
  ta_agreed :: "nat option"
  ta_error :: "txt_error option"

definition agreement_on :: "nat \<Rightarrow> string \<Rightarrow> (string \<Rightarrow> bool) \<Rightarrow> txt_lookup \<Rightarrow> txt_agreement" where
  "agreement_on agreement name pred l =
     (let agreed = length (filter (\<lambda>r. \<exists>x \<in> set (snd r). pred x) (tl_by_resolver l)) in
      if tl_answered l < agreement
        then \<lparr>ta_ok = False, ta_inconclusive = True, ta_answered = Some (tl_answered l), ta_agreed = Some 0,
               ta_error = Some (TooFewAnswered (tl_answered l) agreement (tl_errors l))\<rparr>
      else if agreement \<le> agreed
        then \<lparr>ta_ok = True, ta_inconclusive = False, ta_answered = Some (tl_answered l), ta_agreed = Some agreed,
               ta_error = None\<rparr>
      else \<lparr>ta_ok = False, ta_inconclusive = False, ta_answered = Some (tl_answered l), ta_agreed = Some agreed,
             ta_error = Some (if tl_records l \<noteq> [] then TooFewAgreed agreed agreement (length (tl_records l)) else NoRecord name)\<rparr>)"

definition txtRecordAgreed :: "nat \<Rightarrow> nat \<Rightarrow> wire \<Rightarrow> string \<Rightarrow> string \<Rightarrow> (string \<Rightarrow> bool) \<Rightarrow> txt_agreement option" where
  "txtRecordAgreed agreement fuel wire env name pred =
     map_option (agreement_on agreement name pred) (lookupTxt fuel wire env name)"

section \<open>Chunked replies\<close>

text \<open>A reply as a server may chunk it: each size line is a hexadecimal number, in either case and with any
  leading zeros, and whatever extension follows a semicolon or white space; a size of zero ends the chunks and any
  trailers may follow. \<open>(hx, ext, d)\<close> is a chunk \<open>d\<close> with its size line.\<close>

type_synonym chunk_line = "string \<times> string \<times> string"

definition size_line :: "string \<Rightarrow> string \<Rightarrow> nat \<Rightarrow> bool" where
  "size_line hx ext n \<longleftrightarrow> hx \<noteq> [] \<and> list_all is_hex hx \<and> hex_digits_val hx = n \<and> CHR 0x0D \<notin> set ext \<and>
     (ext = [] \<or> hd ext = CHR '';'' \<or> is_ws (hd ext))"

definition good_chunk :: "chunk_line \<Rightarrow> bool" where
  "good_chunk = (\<lambda>(hx, ext, d). d \<noteq> [] \<and> size_line hx ext (length d))"

definition chunk_text :: "chunk_line \<Rightarrow> string" where
  "chunk_text = (\<lambda>(hx, ext, d). hx @ ext @ crlf @ d @ crlf)"

definition chunk_data :: "chunk_line \<Rightarrow> string" where
  "chunk_data = (\<lambda>(hx, ext, d). d)"

text \<open>The head of a reply: the status line and the header lines, none empty and none with a line end in it.\<close>

definition header_line :: "string \<Rightarrow> bool" where
  "header_line l \<longleftrightarrow> l \<noteq> [] \<and> CHR 0x0D \<notin> set l"

definition head_text :: "string \<Rightarrow> string list \<Rightarrow> string" where
  "head_text st hs = st @ concat (map (\<lambda>l. crlf @ l) hs)"

definition says_chunked :: "string \<Rightarrow> bool" where
  "says_chunked h \<longleftrightarrow> (\<exists>sp r. to_lower h = ''transfer-encoding:'' @ sp @ ''chunked'' @ r \<and> list_all is_ws sp)"

lemma is_hex_plain: "is_hex c \<Longrightarrow> \<not> is_ws c \<and> c \<noteq> CHR ''-'' \<and> c \<noteq> CHR ''+'' \<and> c \<noteq> CHR 0x0D \<and> c \<noteq> CHR ''x'' \<and> c \<noteq> CHR ''X''"
  by (auto simp: is_hex_def hex_val_def is_ws_def Let_def split: if_splits)

lemma size_line_value:
  assumes "size_line hx ext n"
  shows "parseInt16 (hx @ ext) = Some (int n)"
proof -
  from assms obtain c r where w: "hx = c # r" by (cases hx) (auto simp: size_line_def)
  have hex: "list_all is_hex hx" using assms by (simp add: size_line_def)
  have c: "is_hex c" using hex by (simp add: w)
  from is_hex_plain [OF c] have "trim_start (hx @ ext) = hx @ ext" "hd (hx @ ext) \<noteq> CHR ''-''" "hd (hx @ ext) \<noteq> CHR ''+''"
    by (simp_all add: trim_start_def w)
  moreover have no: "ext = [] \<or> \<not> is_hex (hd ext) \<and> hd ext \<noteq> CHR ''x'' \<and> hd ext \<noteq> CHR ''X''"
    using assms is_hex_plain [of "hd ext"] by (auto simp: size_line_def is_ws_def is_hex_def hex_val_def Let_def)
  have nx: "\<not> prefix [CHR ''0'', x] (hx @ ext)" if "x = CHR ''x'' \<or> x = CHR ''X''" for x
    using hex no is_hex_plain [of x] that by (cases r; cases ext) (auto simp: w)
  have "takeWhile is_hex (hx @ ext) = hx"
    using hex no by (cases ext) (auto simp: list_all_iff takeWhile_append)
  ultimately show ?thesis
    using assms nx [of "CHR ''x''"] nx [of "CHR ''X''"]
    unfolding parseInt16_def Let_def by (simp only: prod.case if_False simp_thms) (simp add: w size_line_def)
qed

lemma size_line_no_end: "size_line hx ext n \<Longrightarrow> CHR 0x0D \<notin> set (hx @ ext)"
  using is_hex_plain by (auto simp: size_line_def list_all_iff)

lemma find_text_crlf: "CHR 0x0D \<notin> set w \<Longrightarrow> find_text crlf (w @ crlf @ r) = Some (length w)"
  by (induction w) auto

text \<open>One turn at a size line: its end is found and its number read.\<close>

lemma chunk_step_line:
  assumes "size_line hx ext n"
  shows "index_from crlf (u @ (hx @ ext) @ crlf @ r) (int (length u)) = Some (int (length u + length (hx @ ext)))"
    and "parseInt16 (subarray (u @ (hx @ ext) @ crlf @ r) (int (length u)) (int (length u + length (hx @ ext)))) = Some (int n)"
proof -
  have at: "buf_pos (u @ (hx @ ext) @ crlf @ r) (int (length u)) = length u"
    "buf_pos (u @ (hx @ ext) @ crlf @ r) (int (length u + length (hx @ ext))) = length u + length (hx @ ext)"
    by (simp_all add: buf_pos_def)
  have drop: "drop (length u) (u @ (hx @ ext) @ crlf @ r) = (hx @ ext) @ crlf @ r" by simp
  show "index_from crlf (u @ (hx @ ext) @ crlf @ r) (int (length u)) = Some (int (length u + length (hx @ ext)))"
    unfolding index_from_def at drop find_text_crlf [OF size_line_no_end [OF assms]] by simp
  have "subarray (u @ (hx @ ext) @ crlf @ r) (int (length u)) (int (length u + length (hx @ ext))) = hx @ ext"
    unfolding subarray_def at drop by simp
  then show "parseInt16 (subarray (u @ (hx @ ext) @ crlf @ r) (int (length u)) (int (length u + length (hx @ ext)))) = Some (int n)"
    using size_line_value [OF assms] by simp
qed

lemma chunk_step_chunk:
  assumes "good_chunk c"
  shows "chunk_step (u @ chunk_text c @ r) (int (length u)) = Some (chunk_data c, int (length (u @ chunk_text c)))"
proof -
  obtain hx ext d where c: "c = (hx, ext, d)" by (cases c)
  with assms have s: "size_line hx ext (length d)" "d \<noteq> []" by (auto simp: good_chunk_def)
  let ?h = "hx @ ext" and ?b = "u @ (hx @ ext) @ crlf @ (d @ crlf @ r)"
  have b: "u @ chunk_text c @ r = ?b" by (simp add: c chunk_text_def)
  have at3: "buf_pos ?b (int (length u + length ?h) + 2) = length u + (length ?h + 2)"
    by (simp add: buf_pos_def nat_add_distrib)
  have at4: "buf_pos ?b (int (length u + length ?h) + 2 + int (length d)) = length u + (length ?h + 2) + length d"
    by (simp add: buf_pos_def nat_add_distrib)
  have "drop (length u + (length ?h + 2)) ?b = d @ crlf @ r" by simp
  then have part: "subarray ?b (int (length u + length ?h) + 2) (int (length u + length ?h) + 2 + int (length d)) = d"
    unfolding subarray_def at3 at4 by simp
  show ?thesis
    using s(2) unfolding b chunk_step_def
    by (simp only: chunk_step_line [OF s(1)] option.case part) (simp add: c chunk_text_def chunk_data_def)
qed

lemma chunk_step_end:
  "size_line zx zext 0 \<Longrightarrow> chunk_step (u @ (zx @ zext) @ crlf @ r) (int (length u)) = None"
  unfolding chunk_step_def by (simp only: chunk_step_line option.case) simp

lemma chunk_loop_chunks:
  assumes "size_line zx zext 0" and "list_all good_chunk cs" and "length cs < f"
  shows "chunk_loop f (u @ concat (map chunk_text cs) @ (zx @ zext) @ crlf @ r) (int (length u)) parts =
     Some (parts @ concat (map chunk_data cs))"
  using assms(2,3)
proof (induction cs arbitrary: f u parts)
  case Nil
  then obtain g where "f = Suc g" by (cases f) auto
  then show ?case using chunk_step_end [OF assms(1), of u r] by simp
next
  case (Cons c cs)
  then obtain g where g: "f = Suc g" "length cs < g" by (cases f) auto
  let ?r = "concat (map chunk_text cs) @ (zx @ zext) @ crlf @ r"
  from Cons.prems have "good_chunk c" by simp
  from chunk_step_chunk [OF this, of u ?r]
  have "chunk_loop f (u @ chunk_text c @ ?r) (int (length u)) parts =
      chunk_loop g ((u @ chunk_text c) @ ?r) (int (length (u @ chunk_text c))) (parts @ chunk_data c)"
    by (simp only: g chunk_loop.simps option.case prod.case append_assoc)
  also have "\<dots> = Some ((parts @ chunk_data c) @ concat (map chunk_data cs))"
    using Cons.prems g by (intro Cons.IH) simp_all
  finally show ?case by simp
qed

text \<open>The head ends at the first empty line.\<close>

lemma find_end_in_line:
  "CHR 0x0D \<notin> set l \<Longrightarrow> find_text (crlf @ crlf) (l @ r) = map_option ((+) (length l)) (find_text (crlf @ crlf) r)"
  by (induction l) (auto simp: option.map_comp comp_def intro!: option.map_cong option.map_ident_strong [symmetric])

lemma find_end_at_line:
  "header_line l \<Longrightarrow> find_text (crlf @ crlf) (crlf @ l @ r) = map_option ((+) 2) (find_text (crlf @ crlf) (l @ r))"
  by (cases l) (auto simp: header_line_def option.map_comp comp_def)

lemma find_end_lines:
  "list_all header_line hs \<Longrightarrow>
   find_text (crlf @ crlf) (concat (map (\<lambda>l. crlf @ l) hs) @ crlf @ crlf @ b) = Some (length (concat (map (\<lambda>l. crlf @ l) hs)))"
proof (induction hs)
  case (Cons l hs)
  let ?r = "concat (map (\<lambda>l. crlf @ l) hs) @ crlf @ crlf @ b"
  have l: "header_line l" "CHR 0x0D \<notin> set l" using Cons.prems by (simp_all add: header_line_def)
  have "find_text (crlf @ crlf) (crlf @ l @ ?r) = Some (2 + (length l + length (concat (map (\<lambda>l. crlf @ l) hs))))"
    using find_end_at_line [OF l(1), of ?r] find_end_in_line [OF l(2), of ?r] Cons by simp
  then show ?case by simp
qed simp

lemma find_head_end:
  "list_all header_line (st # hs) \<Longrightarrow>
   find_text (crlf @ crlf) (head_text st hs @ crlf @ crlf @ b) = Some (length (head_text st hs))"
  using find_end_in_line [of st "concat (map (\<lambda>l. crlf @ l) hs) @ crlf @ crlf @ b"] find_end_lines [of hs b]
  by (simp add: head_text_def header_line_def)

lemma is_chunked_head:
  assumes "h \<in> set hs" and "says_chunked h"
  shows "is_chunked (head_text st hs)"
proof -
  from assms(1) obtain h1 h2 where hs: "hs = h1 @ h # h2" by (auto simp: in_set_conv_decomp)
  from assms(2) obtain sp r where h: "to_lower h = ''transfer-encoding:'' @ sp @ ''chunked'' @ r" "list_all is_ws sp"
    by (auto simp: says_chunked_def)
  let ?u = "to_lower h @ to_lower (concat (map (\<lambda>l. crlf @ l) h2))"
  have "suffix ?u (to_lower (head_text st hs))"
    unfolding suffix_def by (intro exI [of _ "to_lower (st @ concat (map (\<lambda>l. crlf @ l) h1) @ crlf)"])
      (simp only: head_text_def hs to_lower_def list.map concat_append concat.simps map_append append_assoc)
  then have "?u \<in> set (suffixes (to_lower (head_text st hs)))" by simp
  moreover have "trim_start (sp @ ''chunked'' @ r @ to_lower (concat (map (\<lambda>l. crlf @ l) h2))) =
      ''chunked'' @ r @ to_lower (concat (map (\<lambda>l. crlf @ l) h2))"
    using h(2) by (simp add: trim_start_def list_all_iff dropWhile_append is_ws_def)
  ultimately show ?thesis
    unfolding is_chunked_def by (intro bexI [where x = ?u]) (simp_all add: h(1) drop_text_def)
qed

lemma under_cap: "n + length (concat ds) \<le> MAX_BODY \<Longrightarrow> \<not> over_cap n ds"
  by (induction ds arbitrary: n) auto

text \<open>A size line that steps back over itself: no fuel is enough.\<close>

lemma negative_chunk_never_returns: "chunk_loop f (''-6'' @ crlf) 0 parts = None"
proof (induction f arbitrary: parts)
  case (Suc f)
  have "index_from crlf (''-6'' @ crlf) 0 = Some 2" by (simp add: index_from_def buf_pos_def)
  moreover have "subarray (''-6'' @ crlf) 0 2 = ''-6''" by (simp add: subarray_def buf_pos_def)
  moreover have "parseInt16 ''-6'' = Some (- 6)"
    by (simp add: parseInt16_def trim_start_def is_ws_def is_hex_def hex_val_def hex_digits_val_def)
  ultimately have "chunk_step (''-6'' @ crlf) 0 = Some (subarray (''-6'' @ crlf) 4 (- 2), 0)"
    by (simp add: chunk_step_def)
  with Suc show ?case by simp
qed simp

section \<open>Properties\<close>

text \<open>C16: a reply of status 200 that says it is chunked is read to its end, with the data of its chunks in
  order and nothing else, in whatever pieces it arrives: whatever its other header lines, with size lines in either
  case, with leading zeros or extensions, and with any trailers, as long as it fits in the cap. As many turns of
  the loop as there are chunks, and one, are enough.\<close>

theorem chunked_reply_read:
  assumes "list_all header_line (st # hs)" and "prefix ''HTTP/1.1 200'' st \<or> prefix ''HTTP/1.0 200'' st"
    and "h \<in> set hs" and "says_chunked h"
    and "list_all good_chunk cs" and "size_line zx zext 0"
    and "wire host path = Inr pieces"
    and "concat pieces = head_text st hs @ crlf @ crlf @ concat (map chunk_text cs) @ zx @ zext @ crlf @ trailers"
    and "length (concat pieces) \<le> MAX_BODY" and "length cs < fuel"
  shows "httpsGetOverTor fuel wire host path = Some (Inr (concat (map chunk_data cs)))"
proof -
  let ?h = "head_text st hs" and ?b = "concat (map chunk_text cs) @ (zx @ zext) @ crlf @ trailers"
  have whole: "concat pieces = ?h @ crlf @ crlf @ ?b" using assms(8) by simp
  have "reply_status ?h = Some ''200''"
    using assms(2) by (elim disjE prefixE) (simp_all add: head_text_def reply_status_def is_digit_def)
  moreover have "chunk_loop fuel ?b 0 [] = Some (concat (map chunk_data cs))"
    using chunk_loop_chunks [OF assms(6,5,10), of "[]" trailers "[]"] by simp
  ultimately have "read_reply fuel (concat pieces) = Some (Inr (concat (map chunk_data cs)))"
    unfolding read_reply_def whole find_head_end [OF assms(1)]
    using is_chunked_head [OF assms(3,4)] by (simp add: Let_def)
  with assms(7,9) under_cap [of 0 pieces] show ?thesis by (simp add: httpsGetOverTor_def)
qed

theorem chunked_reply_read_witness:
  "httpsGetOverTor 3 (\<lambda>host path. Inr [''HTTP/1.1 200 OK'' @ crlf @ ''Transfer-Encoding: ch'',
      ''unked'' @ crlf @ crlf @ ''002;x=1'' @ crlf @ ''a'', ''b'' @ crlf @ ''A'' @ crlf @ ''0123456789'' @ crlf @ ''0'' @ crlf @ crlf])
    ''dns.google'' ''/'' = Some (Inr ''ab0123456789'')"
proof -
  have s: "size_line ''002'' '';x=1'' 2" "size_line ''A'' [] 10" "size_line ''0'' [] 0"
    by (simp_all add: size_line_def is_hex_def hex_val_def hex_digits_val_def Let_def)
  have c: "list_all good_chunk [(''002'', '';x=1'', ''ab''), (''A'', [], ''0123456789'')]"
    using s by (simp add: good_chunk_def eval_nat_numeral)
  have says: "says_chunked ''Transfer-Encoding: chunked''"
    unfolding says_chunked_def by (intro exI [of _ "'' ''"] exI [of _ "[]"]) code_simp
  have lines: "list_all header_line [''HTTP/1.1 200 OK'', ''Transfer-Encoding: chunked'']" by (simp add: header_line_def)
  show ?thesis
    using chunked_reply_read [OF lines _ _ says c s(3) refl, where trailers = crlf and fuel = 3]
    by (simp add: head_text_def chunk_text_def chunk_data_def MAX_BODY_def)
qed

lemma length_filter_split: "length (filter P xs) \<le> length (filter Q xs) + length (filter (\<lambda>x. P x \<and> \<not> Q x) xs)"
  by (induction xs) auto

lemma collect_votes:
  "length (filter (\<lambda>r. \<exists>x \<in> set (snd r). pred x) (tl_by_resolver (collect outcomes))) =
   length (filter (\<lambda>p. \<exists>recs. snd p = Inr recs \<and> (\<exists>x \<in> set recs. pred x)) outcomes)"
proof -
  have "length (filter (\<lambda>r. \<exists>x \<in> set (snd r). pred x)
      (concat (map (\<lambda>(r, o'). case o' of Inr recs \<Rightarrow> [(fst r, recs)] | Inl _ \<Rightarrow> []) outcomes))) =
      length (filter (\<lambda>p. \<exists>recs. snd p = Inr recs \<and> (\<exists>x \<in> set recs. pred x)) outcomes)"
    by (induction outcomes) (auto split: sum.splits)
  then show ?thesis by (simp add: collect_def Let_def)
qed

text \<open>C17: resolvers that lie cannot make a record. When an agreement is reported although fewer resolvers lie
  than must agree, some resolver that does not lie was asked and answered with a matching record.\<close>

theorem agreement_outvotes_liars:
  assumes "txtRecordAgreed k fuel wire env name pred = Some a" and "ta_ok a"
    and "length (filter liar (resolverList env)) < k"
  shows "\<exists>r recs x. r \<in> set (resolverList env) \<and> \<not> liar r \<and> resolver_answer fuel wire name r = Some (Inr recs) \<and>
    x \<in> set recs \<and> pred x"
proof -
  let ?rs = "resolverList env" and ?ans = "resolver_answer fuel wire name"
  let ?yes = "\<lambda>r. \<exists>recs. ?ans r = Some (Inr recs) \<and> (\<exists>x \<in> set recs. pred x)"
  have answered: "\<forall>r \<in> set ?rs. ?ans r \<noteq> None"
    using assms(1) by (auto simp: txtRecordAgreed_def lookupTxt_def Let_def split: if_splits)
  with assms(1) have a: "a = agreement_on k name pred (collect (map (\<lambda>r. (r, the (?ans r))) ?rs))"
    by (auto simp: txtRecordAgreed_def lookupTxt_def Let_def comp_def split: if_splits)
  have "filter (\<lambda>r. \<exists>recs. the (?ans r) = Inr recs \<and> (\<exists>x \<in> set recs. pred x)) ?rs = filter ?yes ?rs"
  proof (rule filter_cong [OF refl])
    fix r assume "r \<in> set ?rs"
    with answered obtain y where "?ans r = Some y" by blast
    then show "(\<exists>recs. the (?ans r) = Inr recs \<and> (\<exists>x \<in> set recs. pred x)) = ?yes r" by simp
  qed
  then have "k \<le> length (filter ?yes ?rs)"
    using assms(2) unfolding a agreement_on_def collect_votes
    by (simp add: Let_def filter_map comp_def split: if_splits)
  with assms(3) length_filter_split [of ?yes ?rs liar] have "filter (\<lambda>r. ?yes r \<and> \<not> liar r) ?rs \<noteq> []" by auto
  then obtain r where "r \<in> set ?rs" "?yes r" "\<not> liar r" by (auto simp: filter_empty_conv)
  then show ?thesis by blast
qed

definition sample_reply :: string where
  "sample_reply = ''HTTP/1.1 200 OK'' @ crlf @ crlf @
     written (Obj [(''Status'', Num 0), (''Answer'', Arr [Obj [(''data'', Str ''x'')]])])"

lemma digit_char_zero: "digit_char 0 = CHR ''0''"
  unfolding digit_char_def by code_simp

lemma sample_answer: "resolver_answer 0 (\<lambda>host path. Inr [sample_reply]) name r = Some (Inr [''x''])"
proof -
  define v where "v = Obj [(''Status'', Num 0), (''Answer'', Arr [Obj [(''data'', Str ''x'')]])]"
  have w: "written v = ''{'' @ json_quote ''Status'' @ '':0,'' @ json_quote ''Answer'' @ '':[{'' @ json_quote ''data'' @
      '':'' @ json_quote ''x'' @ ''}]}''"
    by (simp add: v_def written_def num_text_def digit_char_zero)
  have "clean v" by (simp add: v_def)
  then have "json_parse (written v) = Some v" by (rule json_parse_written)
  then have p: "parseTxtAnswer (written v) = Some [''x'']"
    by (simp add: parseTxtAnswer_def v_def oread_def txt_data_def js_or_def trim_def is_ws_def proto_keys_def)
  have "read_reply 0 ((''HTTP/1.1 200 OK'' @ crlf @ crlf) @ b) = Some (Inr b)" for b
    by (simp add: read_reply_def reply_status_def is_digit_def is_chunked_def drop_text_def to_lower_def to_lower_char_def Let_def)
  from this [of "written v"] have r: "read_reply 0 sample_reply = Some (Inr (written v))"
    by (simp add: sample_reply_def v_def [symmetric])
  have "length sample_reply \<le> MAX_BODY"
    by (simp add: sample_reply_def v_def [symmetric] w json_quote_def json_char_def MAX_BODY_def)
  then show ?thesis
    by (simp add: resolver_answer_def httpsGetOverTor_def p r)
qed

theorem agreement_outvotes_liars_witness:
  "\<exists>r x. r \<in> set RESOLVERS \<and> fst r \<noteq> ''dns.google'' \<and> x = ''x'' \<and>
     resolver_answer 0 (\<lambda>host path. Inr [sample_reply]) ''_mise.a'' r = Some (Inr [x])"
proof -
  let ?w = "\<lambda>host path. Inr [sample_reply]"
  have rs: "resolverList [] = RESOLVERS" by (simp add: resolverList_def)
  have l: "lookupTxt 0 ?w [] ''_mise.a'' = Some (collect (map (\<lambda>r. (r, Inr [''x''])) RESOLVERS))"
    unfolding lookupTxt_def rs by (simp add: sample_answer RESOLVERS_def)
  have "txtRecordAgreed 2 0 ?w [] ''_mise.a'' (\<lambda>t. t = ''x'') =
      Some \<lparr>ta_ok = True, ta_inconclusive = False, ta_answered = Some 3, ta_agreed = Some 3, ta_error = None\<rparr>"
    unfolding txtRecordAgreed_def l by (simp add: agreement_on_def collect_def RESOLVERS_def dedup_def)
  from agreement_outvotes_liars [OF this, of "\<lambda>r. fst r = ''dns.google''"]
  show ?thesis by (auto simp: rs RESOLVERS_def sample_answer)
qed

end
