(* ===== verification/Probe.thy ===== *)
theory Probe
  imports Dns Url
begin

text \<open>
  \<open>scripts/update.mjs\<close>, the probe: the SOCKS5 handshake, one request over Tor, and the two health checks. What a
  connection delivers is an argument: the pieces in which the bytes arrive, or why it failed. Bytes are characters.
  How long a probe took is left out.
\<close>

section \<open>The SOCKS5 handshake\<close>

datatype socks_stage = Greet | Reply

datatype socks_result = Waiting | NoAuthRefused | SocksError nat | Connected

record socks =
  sk_stage :: socks_stage
  sk_buf :: string
  sk_result :: socks_result

definition byte_at :: "string \<Rightarrow> nat \<Rightarrow> nat" where
  "byte_at s i = of_char (s ! i)"

text \<open>How long the bound address of the reply is; nothing while its length byte is still to come.\<close>

definition addr_len :: "string \<Rightarrow> nat option" where
  "addr_len buf =
     (let atyp = byte_at buf 3 in
      if atyp = 1 then Some 4 else if atyp = 4 then Some 16
      else if atyp = 3 then (if 5 \<le> length buf then Some (1 + byte_at buf 4) else None)
      else Some 0)"

definition reply_result :: "string \<Rightarrow> socks_result" where
  "reply_result buf =
     (if length buf < 4 then Waiting
      else if byte_at buf 1 \<noteq> 0 then SocksError (byte_at buf 1)
      else (case addr_len buf of
          None \<Rightarrow> Waiting
        | Some n \<Rightarrow> if length buf < 4 + n + 2 then Waiting else Connected))"

text \<open>One data event. After the outcome the listeners are gone.\<close>

definition on_socks_data :: "string \<Rightarrow> socks \<Rightarrow> socks" where
  "on_socks_data d k =
     (if sk_result k \<noteq> Waiting then k
      else (let buf = sk_buf k @ d in
        case sk_stage k of
          Reply \<Rightarrow> k\<lparr>sk_buf := buf, sk_result := reply_result buf\<rparr>
        | Greet \<Rightarrow>
            if length buf < 2 then k\<lparr>sk_buf := buf\<rparr>
            else if byte_at buf 0 \<noteq> 5 \<or> byte_at buf 1 \<noteq> 0 then k\<lparr>sk_buf := buf, sk_result := NoAuthRefused\<rparr>
            else \<lparr>sk_stage = Reply, sk_buf = drop 2 buf, sk_result = reply_result (drop 2 buf)\<rparr>))"

definition socks_start :: socks where
  "socks_start = \<lparr>sk_stage = Greet, sk_buf = [], sk_result = Waiting\<rparr>"

definition socks5Connect :: "string list \<Rightarrow> socks_result" where
  "socks5Connect pieces = sk_result (fold on_socks_data pieces socks_start)"

text \<open>What the client sends: the greeting, and the request naming the host so that Tor resolves it. The length of
  the name is one byte.\<close>

definition byte :: "nat \<Rightarrow> char" where
  "byte n = char_of (n mod 256)"

definition socks_greeting :: string where
  "socks_greeting = map byte [5, 1, 0]"

definition socks_request :: "string \<Rightarrow> nat \<Rightarrow> string" where
  "socks_request host port = map byte [5, 1, 0, 3, length host] @ host @ [byte (port div 256), byte port]"

section \<open>One request\<close>

definition MAX_RESPONSE_BYTES :: nat where
  "MAX_RESPONSE_BYTES = 2 * 1024 * 1024"

definition MAX_STATUS_LINE_BYTES :: nat where
  "MAX_STATUS_LINE_BYTES = 64 * 1024"

record http_reply =
  hr_status :: nat
  hr_body :: string
  hr_head :: string

definition http_reply_of :: "string \<Rightarrow> http_reply" where
  "http_reply_of s =
     (let status = (case reply_status s of Some d \<Rightarrow> digits_val d | None \<Rightarrow> 0) in
      case find_text (crlf @ crlf) s of
        Some i \<Rightarrow> \<lparr>hr_status = status, hr_body = drop (i + 4) s, hr_head = take (i + 2) s\<rparr>
      | None \<Rightarrow> \<lparr>hr_status = status, hr_body = [], hr_head = s\<rparr>)"

datatype wire_failure = ConnectFailed string | TooMuch nat

text \<open>The answer of a host to a request: the connection or the read failed, or pieces arrive until it closes. The
  read is abandoned as soon as the pieces so far run past the ceiling.\<close>

type_synonym tor = "string \<Rightarrow> string \<Rightarrow> string + string list"

fun read_capped :: "nat \<Rightarrow> string \<Rightarrow> string list \<Rightarrow> string option" where
  "read_capped cap buf [] = Some buf"
| "read_capped cap buf (d # ds) = (if cap < length (buf @ d) then None else read_capped cap (buf @ d) ds)"

definition httpOverTor :: "tor \<Rightarrow> string \<Rightarrow> string \<Rightarrow> nat \<Rightarrow> wire_failure + http_reply" where
  "httpOverTor tor host rawRequest maxBytes =
     (case tor host rawRequest of
        Inl e \<Rightarrow> Inl (ConnectFailed e)
      | Inr pieces \<Rightarrow> (case read_capped maxBytes [] pieces of
          None \<Rightarrow> Inl (TooMuch maxBytes)
        | Some s \<Rightarrow> Inr (http_reply_of s)))"

section \<open>What a node says about itself\<close>

text \<open>\<open>(\.\d+){0,n}([-+][0-9A-Za-z.]+)?$\<close>\<close>

definition suffix_char :: "char \<Rightarrow> bool" where
  "suffix_char c \<longleftrightarrow> is_digit c \<or> c = CHR ''.'' \<or>
     (let n = of_char c :: nat in (65 \<le> n \<and> n \<le> 90) \<or> (97 \<le> n \<and> n \<le> 122))"

fun version_rest :: "nat \<Rightarrow> string \<Rightarrow> bool" where
  "version_rest 0 s = (case s of [] \<Rightarrow> True | c # cs \<Rightarrow> (c = CHR ''-'' \<or> c = CHR ''+'') \<and> cs \<noteq> [] \<and> list_all suffix_char cs)"
| "version_rest (Suc n) s =
     (if s \<noteq> [] \<and> hd s = CHR ''.'' \<and> takeWhile is_digit (tl s) \<noteq> [] then version_rest n (dropWhile is_digit (tl s))
      else version_rest 0 s)"

definition normaliseVersion :: "val \<Rightarrow> string option" where
  "normaliseVersion raw =
     (case raw of
        Str s \<Rightarrow>
          (let t = trim s; v = trim (if t \<noteq> [] \<and> to_lower_char (hd t) = CHR ''v'' then tl t else t) in
           if v = [] \<or> 32 < length v then None
           else if takeWhile is_digit v \<noteq> [] \<and> version_rest 3 (dropWhile is_digit v) then Some v else None)
      | _ \<Rightarrow> None)"

text \<open>\<open>split(/\r?\n/)\<close>\<close>

definition drop_cr :: "string \<Rightarrow> string" where
  "drop_cr l = (if l \<noteq> [] \<and> last l = CHR 0x0D then butlast l else l)"

definition head_lines :: "string \<Rightarrow> string list" where
  "head_lines s = (let ls = split_on (CHR 0x0A) s in map drop_cr (butlast ls) @ [last ls])"

definition header_of :: "string \<Rightarrow> string \<Rightarrow> string option" where
  "header_of name line =
     (case find_text '':'' line of
        Some i \<Rightarrow> if to_lower (trim (take i line)) = name then Some (drop (i + 1) line) else None
      | None \<Rightarrow> None)"

fun first_header :: "string \<Rightarrow> string list \<Rightarrow> string option" where
  "first_header name [] = None"
| "first_header name (l # ls) = (case header_of name l of Some v \<Rightarrow> Some v | None \<Rightarrow> first_header name ls)"

definition parseDojoVersion :: "string \<Rightarrow> string \<Rightarrow> string option" where
  "parseDojoVersion rawHead headerName =
     (if rawHead = [] then None
      else (case first_header (to_lower headerName) (head_lines rawHead) of
          Some v \<Rightarrow> normaliseVersion (Str v)
        | None \<Rightarrow> None))"

definition base32_char :: "char \<Rightarrow> bool" where
  "base32_char c \<longleftrightarrow> (let n = of_char (to_lower_char c) :: nat in (97 \<le> n \<and> n \<le> 122) \<or> (50 \<le> n \<and> n \<le> 55))"

definition is_indexer_url :: "string \<Rightarrow> bool" where
  "is_indexer_url u \<longleftrightarrow>
     (let rest = drop 6 u; port = drop 63 rest in
      to_lower (take 6 u) \<in> {''tcp://'', ''ssl://''} \<and> list_all base32_char (take 56 rest) \<and>
      to_lower (take 7 (drop 56 rest)) = ''.onion:'' \<and> 2 \<le> length port \<and> length port \<le> 5 \<and> list_all is_digit port)"

definition normaliseIndexerUrl :: "val \<Rightarrow> string option" where
  "normaliseIndexerUrl raw =
     (case raw of
        Str s \<Rightarrow> (let u = trim s in if u = [] \<or> 120 < length u then None else if is_indexer_url u then Some u else None)
      | _ \<Rightarrow> None)"

definition parseIndexerUrl :: "string \<Rightarrow> string option" where
  "parseIndexerUrl body =
     (case json_parse body of
        None \<Rightarrow> None
      | Some doc \<Rightarrow> (case fld doc ''services'' of
          Arr xs \<Rightarrow> (case find (\<lambda>s. truthy s \<and> fld s ''type'' = Str ''indexer'' \<and> is_str (fld s ''url'')) xs of
              Some s \<Rightarrow> normaliseIndexerUrl (fld s ''url'')
            | None \<Rightarrow> None)
        | _ \<Rightarrow> None))"

section \<open>The health checks\<close>

datatype probe_reason =
    NoPairingUrl
  | LoginHttp nat | LoginNoToken | LoginThrew "wire_failure option"
  | WalletHttp nat | WalletNoHeight | WalletThrew "wire_failure option" | HeightRead
  | NotConnected string | TlsConnect | ConnectOnly | HttpSeen | NotHttp | PartialRead | ReadTimeout | SocketBroke | SocketClosed

record probe_result =
  pr_up :: bool
  pr_reason :: probe_reason
  pr_height :: val
  pr_block_time :: val
  pr_version :: "string option"
  pr_indexer :: "string option"

definition down :: "probe_reason \<Rightarrow> string option \<Rightarrow> probe_result" where
  "down r v = \<lparr>pr_up = False, pr_reason = r, pr_height = Undef, pr_block_time = Undef, pr_version = v, pr_indexer = None\<rparr>"

definition known_or :: "string option \<Rightarrow> string option \<Rightarrow> string option" where
  "known_or a b = (if a = None \<or> a = Some [] then b else a)"

record probe_cfg =
  pc_header :: string
  pc_apikey :: val
  pc_network :: string
  pc_connect_only :: bool

definition api_base :: "url_parts \<Rightarrow> string" where
  "api_base u =
     (let b = rev (dropWhile (\<lambda>c. c = CHR ''/'') (rev (if u_path u = [] then ''/v2'' else u_path u)))
      in if b = [] then ''/v2'' else b)"

definition login_request :: "string \<Rightarrow> string \<Rightarrow> string \<Rightarrow> string" where
  "login_request base host apikey =
     (let body = ''apikey='' @ encodeURIComponent apikey in
      ''POST '' @ base @ ''/auth/login HTTP/1.0'' @ crlf @ ''Host: '' @ host @ crlf @
      ''Content-Type: application/x-www-form-urlencoded'' @ crlf @ ''Content-Length: '' @ nat_text (length body) @ crlf @
      ''User-Agent: mise-checker'' @ crlf @ ''Connection: close'' @ crlf @ crlf @ body)"

definition bearer_request :: "string \<Rightarrow> string \<Rightarrow> string \<Rightarrow> string" where
  "bearer_request pathPart host token =
     ''GET '' @ pathPart @ '' HTTP/1.0'' @ crlf @ ''Host: '' @ host @ crlf @ ''Authorization: Bearer '' @ token @ crlf @
     ''User-Agent: mise-checker'' @ crlf @ ''Connection: close'' @ crlf @ crlf"

definition DUMMY_XPUB :: string where
  "DUMMY_XPUB = ''xpub661MyMwAqRbcFhv1kNXxwyGrJUVPrmiBNTVDYAtpzF5zu9ceuhn5yV6oaSdveis14LSeBLzpWb58pDNN6hC59TTDyiN7iJR7kUQgXNMfZCL''"

definition DUMMY_TPUB :: string where
  "DUMMY_TPUB = ''tpubD6NzVbkrYhZ4XW6sCZX49tcDdbb3rADEv65WtiwyL9qteSHMyvdB7vmdpUiiBDpErEyYnvWh3guBWPryVZ3K2tuX3K7RPq5MLS16HN9awey''"

text \<open>The third request is only for the indexer: nothing that goes wrong in it changes the outcome.\<close>

definition services_step :: "tor \<Rightarrow> string \<Rightarrow> string \<Rightarrow> string \<Rightarrow> string \<Rightarrow> string option \<Rightarrow> string option \<times> string option" where
  "services_step tor header base host token seen =
     (case httpOverTor tor host (bearer_request (base @ ''/support/services'') host token) MAX_RESPONSE_BYTES of
        Inl e \<Rightarrow> (seen, None)
      | Inr res \<Rightarrow>
          (known_or seen (parseDojoVersion (hr_head res) header),
           if hr_status res = 200 then parseIndexerUrl (hr_body res) else None))"

definition wallet_step :: "tor \<Rightarrow> probe_cfg \<Rightarrow> string \<Rightarrow> string \<Rightarrow> string \<Rightarrow> string option \<Rightarrow> probe_result" where
  "wallet_step tor cfg base host token seen =
     (let dummy = (if pc_network cfg = ''testnet'' then DUMMY_TPUB else DUMMY_XPUB);
          req = bearer_request (base @ ''/wallet?active='' @ dummy @ ''&new='' @ dummy) host token in
      case httpOverTor tor host req MAX_RESPONSE_BYTES of
        Inl e \<Rightarrow> down (WalletThrew (Some e)) seen
      | Inr res \<Rightarrow>
          (let v = known_or seen (parseDojoVersion (hr_head res) (pc_header cfg)) in
           if hr_status res \<noteq> 200 then down (WalletHttp (hr_status res)) v
           else (case json_parse (hr_body res) of
               None \<Rightarrow> down (WalletThrew None) v
             | Some doc \<Rightarrow>
                 (let tip = fld (fld doc ''info'') ''latest_block'' in
                  case fld tip ''height'' of
                    Num h \<Rightarrow>
                      (let (v2, idx) = services_step tor (pc_header cfg) base host token v
                       in \<lparr>pr_up = True, pr_reason = HeightRead, pr_height = Num h, pr_block_time = nullish (fld tip ''time'') Null,
                           pr_version = v2, pr_indexer = idx\<rparr>)
                  | _ \<Rightarrow> down WalletNoHeight v))))"

definition probeHeight :: "tor \<Rightarrow> probe_cfg \<Rightarrow> url_parts \<Rightarrow> probe_result" where
  "probeHeight tor cfg u =
     (let host = u_hostname u; base = api_base u in
      case httpOverTor tor host (login_request base host (js_text (pc_apikey cfg))) MAX_RESPONSE_BYTES of
        Inl e \<Rightarrow> down (LoginThrew (Some e)) None
      | Inr res \<Rightarrow>
          (let v = parseDojoVersion (hr_head res) (pc_header cfg) in
           if hr_status res \<noteq> 200 then down (LoginHttp (hr_status res)) v
           else (case json_parse (hr_body res) of
               None \<Rightarrow> down (LoginThrew None) v
             | Some doc \<Rightarrow>
                 (let token = fld (fld doc ''authorizations'') ''access_token'' in
                  if \<not> truthy token then down LoginNoToken v
                  else wallet_step tor cfg base host (js_text token) v))))"

text \<open>The plain check: what the socket does after the request, until the first event that decides.\<close>

datatype socket_event = Data string | Broke | Closed | TimedOut

definition is_http :: "string \<Rightarrow> bool" where
  "is_http s \<longleftrightarrow> to_lower (take 5 s) = ''http/''"

definition plain_result :: "string \<Rightarrow> bool \<Rightarrow> probe_reason \<Rightarrow> string \<Rightarrow> probe_result" where
  "plain_result header up r got =
     \<lparr>pr_up = up, pr_reason = r, pr_height = Undef, pr_block_time = Undef, pr_version = parseDojoVersion got header, pr_indexer = None\<rparr>"

fun plain_probe :: "string \<Rightarrow> string \<Rightarrow> socket_event list \<Rightarrow> probe_result option" where
  "plain_probe header got [] = None"
| "plain_probe header got (Data d # es) =
     (if is_http (got @ d) then Some (plain_result header True HttpSeen (got @ d))
      else if MAX_STATUS_LINE_BYTES < length (got @ d) then Some (plain_result header False NotHttp (got @ d))
      else plain_probe header (got @ d) es)"
| "plain_probe header got (Broke # es) = Some (plain_result header (got \<noteq> []) SocketBroke got)"
| "plain_probe header got (Closed # es) = Some (plain_result header (got \<noteq> []) SocketClosed got)"
| "plain_probe header got (TimedOut # es) =
     Some (plain_result header (got \<noteq> []) (if got \<noteq> [] then PartialRead else ReadTimeout) got)"

text \<open>\<open>connect\<close>: the outcome of the Tor stream and the events on it. A URL that does not parse throws: no result.\<close>

definition probe :: "url_parser \<Rightarrow> tor \<Rightarrow> (string \<Rightarrow> string + socket_event list) \<Rightarrow> probe_cfg \<Rightarrow> string \<Rightarrow> probe_result option" where
  "probe parse tor connect cfg url =
     (case parse url of
        None \<Rightarrow> None
      | Some u \<Rightarrow>
          if truthy (pc_apikey cfg) then Some (probeHeight tor cfg u)
          else (case connect (u_hostname u) of
              Inl e \<Rightarrow> Some (down (NotConnected e) None)
            | Inr events \<Rightarrow>
                if pc_connect_only cfg \<or> u_protocol u = ''https:''
                then Some \<lparr>pr_up = True, pr_reason = (if u_protocol u = ''https:'' then TlsConnect else ConnectOnly), pr_height = Undef,
                       pr_block_time = Undef, pr_version = None, pr_indexer = None\<rparr>
                else plain_probe (pc_header cfg) [] events))"

end
