(* ===== verification/Crypto.thy ===== *)
theory Crypto
  imports Json Url "HOL-Library.List_Lexorder" "HOL-Library.Char_ord"
begin

text \<open>
  Signed blocks (\<open>server/crypto.ts\<close>): what is read out of a block pasted from a wallet, the repair of a
  block whose blank line was lost, and the four verifiers. The signature check of the wallet library
  (\<open>checks msg address signature\<close>: an error it raises, or its verdict), the notification address of a
  payment code on a network and the URL parser are parameters.

  The patterns are read off as scans. \<open>search f\<close> tries \<open>f\<close> at each position from the left, which is what
  an unanchored pattern does; a lazy \<open>([\s\S]*?)\<close> before a fixed text ends at the first occurrence of
  that text.
\<close>

section \<open>Scans\<close>

fun search :: "(string \<Rightarrow> 'a option) \<Rightarrow> string \<Rightarrow> 'a option" where
  "search f [] = f []"
| "search f (c # cs) = (case f (c # cs) of Some x \<Rightarrow> Some x | None \<Rightarrow> search f cs)"

abbreviation newline :: char where
  "newline \<equiv> CHR 0x0A"

text \<open>\<open>replace(/\n+$/, "")\<close> and \<open>replace(/\/+$/, "")\<close>.\<close>

definition strip_end :: "char \<Rightarrow> string \<Rightarrow> string" where
  "strip_end c s = rev (dropWhile (\<lambda>x. x = c) (rev s))"

definition is_blank :: "char \<Rightarrow> bool" where
  "is_blank c \<longleftrightarrow> c = CHR '' '' \<or> c = CHR 0x09"

definition is_b64 :: "char \<Rightarrow> bool" where
  "is_b64 c \<longleftrightarrow> (let n = of_char c :: nat in
     (65 \<le> n \<and> n \<le> 90) \<or> (97 \<le> n \<and> n \<le> 122) \<or> is_digit c \<or> c = CHR ''+'' \<or> c = CHR ''/'' \<or> c = CHR ''='')"

text \<open>\<open>[1-9A-HJ-NP-Za-km-z]\<close>.\<close>

definition is_b58 :: "char \<Rightarrow> bool" where
  "is_b58 c \<longleftrightarrow> (let n = of_char c :: nat in
     (49 \<le> n \<and> n \<le> 57) \<or> (65 \<le> n \<and> n \<le> 72) \<or> (74 \<le> n \<and> n \<le> 78) \<or> (80 \<le> n \<and> n \<le> 90)
     \<or> (97 \<le> n \<and> n \<le> 107) \<or> (109 \<le> n \<and> n \<le> 122))"

section \<open>The parts of a block\<close>

definition end_of_message :: string where
  "end_of_message = newline # ''-----BEGIN BITCOIN SIGNATURE''"

definition up_to :: "string \<Rightarrow> string \<Rightarrow> string option" where
  "up_to close s = map_option (\<lambda>i. take i s) (find_text close s)"

text \<open>\<open>/BEGIN BITCOIN SIGNED MESSAGE-----\n([\s\S]*?)\n-----BEGIN BITCOIN SIGNATURE/\<close>.\<close>

definition strict_message :: "string \<Rightarrow> string option" where
  "strict_message t = search (\<lambda>s. case drop_text (''BEGIN BITCOIN SIGNED MESSAGE-----'' @ [newline]) s of
     Some r \<Rightarrow> up_to end_of_message r | None \<Rightarrow> None) t"

text \<open>\<open>/SIGNED MESSAGE-----[ \t]*\n([\s\S]*?)\n-----BEGIN BITCOIN SIGNATURE/\<close>.\<close>

definition inner_message :: "string \<Rightarrow> string option" where
  "inner_message t = search (\<lambda>s. case drop_text ''SIGNED MESSAGE-----'' s of
     Some r \<Rightarrow> (case drop_text [newline] (dropWhile is_blank r) of
         Some r' \<Rightarrow> up_to end_of_message r' | None \<Rightarrow> None)
   | None \<Rightarrow> None) t"

text \<open>\<open>/BEGIN BITCOIN SIGNED MESSAGE-----[ \t]*\n?([\s\S]*?)\n-----BEGIN BITCOIN SIGNATURE/\<close>: the line break is
  given back when the closing marker is found only with it.\<close>

definition loose_message :: "string \<Rightarrow> string option" where
  "loose_message t = search (\<lambda>s. case drop_text ''BEGIN BITCOIN SIGNED MESSAGE-----'' s of
     Some r \<Rightarrow> (let r1 = dropWhile is_blank r in
       case drop_text [newline] r1 of
         Some r2 \<Rightarrow> (case up_to end_of_message r2 of Some m \<Rightarrow> Some m | None \<Rightarrow> up_to end_of_message r1)
       | None \<Rightarrow> up_to end_of_message r1)
   | None \<Rightarrow> None) t"

text \<open>\<open>/Address:\s*(\S+)/\<close>.\<close>

definition address_line :: "string \<Rightarrow> string option" where
  "address_line t = search (\<lambda>s. case drop_text ''Address:'' s of
     Some r \<Rightarrow> (let w = takeWhile (\<lambda>c. \<not> is_ws c) (trim_start r) in if w = [] then None else Some w)
   | None \<Rightarrow> None) t"

text \<open>\<open>/\n([A-Za-z0-9+/=]{80,})\n-----END BITCOIN SIGNATURE/\<close>, and the same with \<open>\n*\<close>.\<close>

definition signature_before :: "(string \<Rightarrow> string option) \<Rightarrow> string \<Rightarrow> string option" where
  "signature_before gap t = search (\<lambda>s. case drop_text [newline] s of
     Some r \<Rightarrow> (let w = takeWhile is_b64 r in
       case gap (dropWhile is_b64 r) of
         Some u \<Rightarrow> if 80 \<le> length w \<and> prefix ''-----END BITCOIN SIGNATURE'' u then Some w else None
       | None \<Rightarrow> None)
   | None \<Rightarrow> None) t"

definition strict_signature :: "string \<Rightarrow> string option" where
  "strict_signature t = signature_before (drop_text [newline]) t"

definition loose_signature :: "string \<Rightarrow> string option" where
  "loose_signature t = signature_before (\<lambda>u. Some (dropWhile (\<lambda>c. c = newline) u)) t"

text \<open>\<open>/BIP47:\s*(PM8T[1-9A-HJ-NP-Za-km-z]+)/\<close>.\<close>

definition code_here :: "string \<Rightarrow> string option" where
  "code_here s =
     (case drop_text ''BIP47:'' s of
        Some r \<Rightarrow> (case drop_text ''PM8T'' (trim_start r) of
            Some u \<Rightarrow> (let w = takeWhile is_b58 u in if w = [] then None else Some (''PM8T'' @ w))
          | None \<Rightarrow> None)
      | None \<Rightarrow> None)"

definition code_line :: "string \<Rightarrow> string option" where
  "code_line t = search code_here t"

text \<open>\<open>/^([\s\S]*?)\n\s*BIP47:\s*\n?(\S+)$/\<close>: what is before the tail, and the word the tail ends with.\<close>

definition tail_word :: "string \<Rightarrow> string option" where
  "tail_word s =
     (case drop_text [newline] s of
        Some r \<Rightarrow> (case drop_text ''BIP47:'' (trim_start r) of
            Some u \<Rightarrow> (let w = trim_start u in if w \<noteq> [] \<and> list_all (\<lambda>c. \<not> is_ws c) w then Some w else None)
          | None \<Rightarrow> None)
      | None \<Rightarrow> None)"

fun bip47_tail :: "string \<Rightarrow> (string \<times> string) option" where
  "bip47_tail [] = None"
| "bip47_tail (c # cs) =
     (case tail_word (c # cs) of
        Some w \<Rightarrow> Some ([], w)
      | None \<Rightarrow> map_option (\<lambda>(p, w). (c # p, w)) (bip47_tail cs))"

text \<open>\<open>inner.replace(/\n*[ \t]*BIP47:[\s\S]*$/, "").replace(/\n+$/, "")\<close>.\<close>

definition at_bip47 :: "string \<Rightarrow> bool" where
  "at_bip47 s \<longleftrightarrow> prefix ''BIP47:'' (dropWhile is_blank (dropWhile (\<lambda>c. c = newline) s))"

fun before_bip47 :: "string \<Rightarrow> string" where
  "before_bip47 [] = []"
| "before_bip47 (c # cs) = (if at_bip47 (c # cs) then [] else c # before_bip47 cs)"

definition json_part :: "string \<Rightarrow> string" where
  "json_part inner = strip_end newline (before_bip47 inner)"

record parsed_block =
  pb_message :: string
  pb_pairing :: string
  pb_code :: "string option"
  pb_address :: string
  pb_signature :: string

definition parseSignedBlock :: "val \<Rightarrow> parsed_block option" where
  "parseSignedBlock v =
     (if \<not> truthy v \<or> \<not> is_str v then None
      else (let t = unix_lines (str_of v) in
        case (strict_message t, address_line t, strict_signature t) of
          (Some m, Some a, Some s) \<Rightarrow>
            (let msg = trim m
             in Some \<lparr>pb_message = msg,
                  pb_pairing = (case bip47_tail msg of Some (p, _) \<Rightarrow> trim p | None \<Rightarrow> msg),
                  pb_code = map_option snd (bip47_tail msg),
                  pb_address = trim a, pb_signature = trim s\<rparr>)
        | _ \<Rightarrow> None))"

section \<open>Results\<close>

text \<open>Each refusal of the four verifiers, by its message.\<close>

datatype refusal =
    Unrecognised_format
  | Not_a_block (no_message: bool) (no_address: bool) (no_signature: bool)
  | Message_mismatch
  | Not_verifiable string
  | Invalid_signature
  | Code_not_decodable
  | Signer_not_of_code
  | Wrong_signer
  | No_block
  | No_code
  | Wrong_first_line string
  | No_code_line
  | Other_code
  | Signer_not_accepted string "string list"
  | Document_missing
  | Document_no_code
  | Document_no_block
  | Declared_onion_mismatch
  | Fetched_onion_mismatch
  | No_resource_expected
  | Proof_refused string
  | Other_site "string option"
  | No_payment_code

datatype verdict =
    Accepted (v_address: "string option") (v_code: "string option")
  | Refused refusal

fun ok :: "verdict \<Rightarrow> bool" where
  "ok (Accepted a c) = True"
| "ok (Refused e) = False"

section \<open>Payment codes\<close>

text \<open>\<open>derive code net\<close> is the notification address, nothing when the code does not decode.\<close>

definition notificationAddresses :: "(string \<Rightarrow> string \<Rightarrow> string option) \<Rightarrow> string \<Rightarrow> string list" where
  "notificationAddresses derive c =
     fold (\<lambda>net out. case derive c net of
         Some a \<Rightarrow> if a \<in> set out then out else out @ [a]
       | None \<Rightarrow> out) [''bitcoin'', ''testnet''] []"

section \<open>Payloads\<close>

definition canonicalPairing :: "val \<Rightarrow> string" where
  "canonicalPairing p = the (json_text (Obj [(''pairing'', fld p ''pairing''), (''explorer'', fld p ''explorer'')]))"

fun stableStringify :: "val \<Rightarrow> string" where
  "stableStringify (Arr xs) = ''['' @ join_with '','' (map stableStringify xs) @ '']''"
| "stableStringify (Obj m) =
     ''{'' @ join_with '','' (map (\<lambda>p. json_quote (fst p) @ '':'' @ snd p)
       (sort_key fst (map (\<lambda>p. (fst p, stableStringify (snd p))) m))) @ ''}''"
| "stableStringify v = (case json_text v of Some t \<Rightarrow> t | None \<Rightarrow> ''null'')"

definition sameSignedPayload :: "string \<Rightarrow> string \<Rightarrow> bool" where
  "sameSignedPayload signedText expected =
     (let a = trim signedText; b = trim expected in
      if a = b then True
      else (case (json_parse a, json_parse b) of
          (Some pa, Some pb) \<Rightarrow> stableStringify pa = stableStringify pb
        | _ \<Rightarrow> False))"

section \<open>The verifiers\<close>

definition verifySignedPayload ::
  "(string \<Rightarrow> string \<Rightarrow> string option) \<Rightarrow> (string \<Rightarrow> string \<Rightarrow> string \<Rightarrow> string \<Rightarrow> string + bool) \<Rightarrow>
   val \<Rightarrow> string option \<Rightarrow> string list option \<Rightarrow> string \<Rightarrow> verdict" where
  "verifySignedPayload derive checks signedText expectedMessage expectedAddress network =
     (case parseSignedBlock signedText of
        None \<Rightarrow> Refused Unrecognised_format
      | Some b \<Rightarrow>
          if (case expectedMessage of Some m \<Rightarrow> \<not> sameSignedPayload (pb_pairing b) m | None \<Rightarrow> False)
          then Refused Message_mismatch
          else (case checks network (pb_message b) (pb_address b) (pb_signature b) of
              Inl e \<Rightarrow> Refused (Not_verifiable e)
            | Inr verified \<Rightarrow>
                if \<not> verified then Refused Invalid_signature
                else (let derived = (case pb_code b of Some c \<Rightarrow> notificationAddresses derive c | None \<Rightarrow> []) in
                  if pb_code b \<noteq> None \<and> derived = [] then Refused Code_not_decodable
                  else if pb_code b \<noteq> None \<and> pb_address b \<notin> set derived then Refused Signer_not_of_code
                  else if (case expectedAddress of Some as \<Rightarrow> pb_address b \<notin> set as | None \<Rightarrow> False)
                  then Refused Wrong_signer
                  else Accepted (Some (pb_address b)) (pb_code b))))"

definition text_or_empty :: "val \<Rightarrow> string" where
  "text_or_empty v = js_text (js_or v (Str []))"

definition signed_block :: "string \<Rightarrow> string \<Rightarrow> string \<Rightarrow> string" where
  "signed_block candidate address signature =
     ''-----BEGIN BITCOIN SIGNED MESSAGE-----'' @ newline # candidate @
     newline # ''-----BEGIN BITCOIN SIGNATURE-----'' @ newline # ''Version: Bitcoin-qt (1.0)'' @
     newline # ''Address: '' @ address @ newline # newline # signature @
     newline # ''-----END BITCOIN SIGNATURE-----''"

definition repair_note :: string where
  "repair_note = ''a blank line before the BIP47 line was restored''"

definition repair_candidates :: "string \<Rightarrow> (string \<times> string) list" where
  "repair_candidates inner =
     ([], inner) #
     (case code_line inner of
        None \<Rightarrow> []
      | Some c \<Rightarrow>
          [(repair_note, json_part inner @ newline # newline # ''BIP47: '' @ c),
           (repair_note, json_part inner @ newline # newline # ''BIP47:'' @ newline # c)])"

definition repairSignedBlock ::
  "(string \<Rightarrow> string \<Rightarrow> string option) \<Rightarrow> (string \<Rightarrow> string \<Rightarrow> string \<Rightarrow> string \<Rightarrow> string + bool) \<Rightarrow>
   val \<Rightarrow> (string \<times> string option) option" where
  "repairSignedBlock derive checks text =
     (let raw = unix_lines (text_or_empty text) in
      case (address_line raw, loose_signature raw, inner_message raw) of
        (Some a, Some s, Some inner) \<Rightarrow>
          (let address = trim a; signature = trim s in
           if (case code_line inner of
                 Some c \<Rightarrow> address \<notin> set (notificationAddresses derive c) | None \<Rightarrow> False)
           then None
           else (case find (\<lambda>c. checks ''bitcoin'' (snd c) address signature = Inr True) (repair_candidates inner) of
               Some (note, candidate) \<Rightarrow>
                 Some (signed_block candidate address signature, if note = [] then None else Some note)
             | None \<Rightarrow> None))
      | _ \<Rightarrow> None)"

section \<open>Signed addresses\<close>

definition claimText :: "string \<Rightarrow> string \<Rightarrow> string" where
  "claimText url paymentCode =
     strip_end (CHR ''/'') url @ ''/'' @ [newline, newline] @ ''BIP47: '' @ paymentCode"

text \<open>The two normalisations: a claim compares without case, the operator binding with it.\<close>

definition norm_url :: "string \<Rightarrow> string" where
  "norm_url u = strip_end (CHR ''/'') (trim u)"

definition norm_claim :: "string \<Rightarrow> string" where
  "norm_claim u = to_lower (norm_url u)"

definition first_line :: "string \<Rightarrow> string" where
  "first_line m = trim (hd (split_on newline m))"

definition verifySignedUrlClaim ::
  "(string \<Rightarrow> string \<Rightarrow> string option) \<Rightarrow> (string \<Rightarrow> string \<Rightarrow> string \<Rightarrow> string \<Rightarrow> string + bool) \<Rightarrow>
   string \<Rightarrow> string \<Rightarrow> string \<Rightarrow> verdict" where
  "verifySignedUrlClaim derive checks signed expectedUrl paymentCode =
     (if signed = [] then Refused No_block
      else if paymentCode = [] then Refused No_code
      else (let t = unix_lines signed in
        case (loose_message t, address_line t, loose_signature t) of
          (Some m, Some a, Some s) \<Rightarrow>
            (let msg = strip_end newline m; signer = trim a; accept = notificationAddresses derive paymentCode in
             if norm_claim (first_line msg) \<noteq> norm_claim expectedUrl then Refused (Wrong_first_line (first_line msg))
             else (case code_line msg of
                 None \<Rightarrow> Refused No_code_line
               | Some c \<Rightarrow>
                   if c \<noteq> paymentCode then Refused Other_code
                   else if signer \<notin> set accept then Refused (Signer_not_accepted signer accept)
                   else (case checks ''bitcoin'' msg signer (trim s) of
                       Inl e \<Rightarrow> Refused (Not_verifiable e)
                     | Inr v \<Rightarrow> if v then Accepted (Some signer) None else Refused Invalid_signature)))
        | (m, a, s) \<Rightarrow> Refused (Not_a_block (m = None) (a = None) (s = None))))"

definition verifyOperatorDoc ::
  "(string \<Rightarrow> string \<Rightarrow> string option) \<Rightarrow> (string \<Rightarrow> string \<Rightarrow> string \<Rightarrow> string \<Rightarrow> string + bool) \<Rightarrow>
   val \<Rightarrow> string option \<Rightarrow> verdict" where
  "verifyOperatorDoc derive checks doc expectedOnion =
     (case doc of
        Obj _ \<Rightarrow>
          if \<not> truthy (fld doc ''paymentCode'') then Refused Document_no_code
          else if \<not> truthy (fld doc ''verifySigned'') then Refused Document_no_block
          else (let t = unix_lines (js_text (fld doc ''verifySigned'')) in
            case (loose_message t, address_line t, loose_signature t) of
              (Some m, Some a, Some s) \<Rightarrow>
                (let msg = strip_end newline m; signer = trim a; onion = norm_url (text_or_empty (fld doc ''onion'')) in
                 if norm_url (first_line msg) \<noteq> onion then Refused Declared_onion_mismatch
                 else if (case expectedOnion of Some e \<Rightarrow> e \<noteq> [] \<and> onion \<noteq> norm_url e | None \<Rightarrow> False)
                 then Refused Fetched_onion_mismatch
                 else (case code_line msg of
                     None \<Rightarrow> Refused Other_code
                   | Some c \<Rightarrow>
                       if Str c \<noteq> fld doc ''paymentCode'' then Refused Other_code
                       else (let accept = notificationAddresses derive c in
                         if signer \<notin> set accept then Refused (Signer_not_accepted signer accept)
                         else (case checks ''bitcoin'' msg signer (trim s) of
                             Inl e \<Rightarrow> Refused (Not_verifiable e)
                           | Inr v \<Rightarrow> if v then Accepted (Some signer) None else Refused Invalid_signature))))
            | (m, a, s) \<Rightarrow> Refused (Not_a_block (m = None) (a = None) (s = None)))
      | Arr _ \<Rightarrow> Refused Document_no_code
      | _ \<Rightarrow> Refused Document_missing)"

section \<open>Login proofs\<close>

definition norm_resource :: "url_parts \<Rightarrow> string" where
  "norm_resource x = to_lower (u_origin x) @ strip_end (CHR ''/'') (u_path x) @ u_search x"

definition sameResource :: "url_parser \<Rightarrow> string \<Rightarrow> string \<Rightarrow> bool" where
  "sameResource parse a b =
     (case (parse a, parse b) of
        (Some x, Some y) \<Rightarrow> norm_resource x = norm_resource y
      | _ \<Rightarrow> False)"

text \<open>\<open>verifyProof\<close> is the library's check of a proof: its error, or the data of an accepted proof. A proof
  it accepts is an object.\<close>

definition auth47_verify ::
  "url_parser \<Rightarrow> (val \<Rightarrow> string + val) \<Rightarrow> val \<Rightarrow> string option \<Rightarrow> verdict" where
  "auth47_verify parse verifyProof proof expectedResource =
     (case expectedResource of
        None \<Rightarrow> Refused No_resource_expected
      | Some expected \<Rightarrow>
          if expected = [] then Refused No_resource_expected
          else (case verifyProof proof of
              Inl e \<Rightarrow> Refused (Proof_refused e)
            | Inr data \<Rightarrow>
                (let resource = (case parse (js_text (fld proof ''challenge'')) of
                     Some u \<Rightarrow> search_param u ''r'' | None \<Rightarrow> None) in
                 if (case resource of Some r \<Rightarrow> r = [] \<or> \<not> sameResource parse r expected | None \<Rightarrow> True)
                 then Refused (Other_site resource)
                 else (case fld data ''nym'' of
                     Str n \<Rightarrow> if n = [] then Refused No_payment_code else Accepted None (Some n)
                   | _ \<Rightarrow> Refused No_payment_code))))"

end
