(* ===== verification/Store.thy ===== *)
theory Store
  imports JsValue
begin

text \<open>
  \<open>server/store.ts\<close>: the JSON file behind the backend, one plain object per collection. Each operation
  is a function on the loaded document that says whether it writes the file; \<open>in_store\<close> adds the load
  before it and the write after it. A lookup answers \<open>Own\<close>, \<open>Missing\<close> (the code's \<open>null\<close>) or \<open>Inherited\<close>,
  the member of \<open>Object.prototype\<close> that the code takes for a record.
\<close>

section \<open>Records\<close>

record nonce =
  nc_expires :: int
  nc_sid :: "string option"

record session =
  ss_paymentCode :: string
  ss_expires :: int

record submission =
  sb_id :: string
  sb_network :: string
  sb_name :: string
  sb_status :: string
  sb_codes :: "val list option"
  sb_code :: "string option"
  sb_paynym :: "string option"
  sb_jurisdiction :: "string option"
  sb_country :: "string option"
  sb_hardware :: "string option"
  sb_payload :: val
  sb_signed :: "string option"
  sb_last_probe :: val
  sb_created_at :: "stamp option"
  sb_updated_at :: "stamp option"
  sb_source :: "string option"

record domain_claim =
  dc_paymentCode :: string
  dc_domain :: string
  dc_signed :: string
  dc_verified :: bool
  dc_verified_at :: "stamp option"
  dc_last_check :: "stamp option"
  dc_last_result :: "string option"
  dc_fail_since :: "stamp option"
  dc_created_at :: "stamp option"
  dc_revoked :: bool
  dc_also_claimed_by :: "string option"

record product =
  pr_id :: val
  pr_name :: val
  pr_description :: val
  pr_price_usd_cents :: val
  pr_inventory :: val
  pr_image_path :: val
  pr_payload_ref :: val
  pr_status :: val
  pr_created_at :: "stamp option"
  pr_updated_at :: "stamp option"

record invoice =
  iv_id :: val
  iv_network :: val
  iv_status :: string
  iv_address_record :: val
  iv_address :: val
  iv_amount_sats :: val
  iv_rate_usd :: rat
  iv_rate_at :: "stamp option"
  iv_paymentCode :: "string option"
  iv_created_at :: "stamp option"
  iv_details :: val

record shape =
  submissions :: "submission obj"
  sessions :: "session obj"
  nonces :: "nonce obj"
  domains :: "domain_claim obj"
  products :: "product obj"
  invoices :: "invoice obj"

definition RATE_MAX_AGE_MS :: int where
  "RATE_MAX_AGE_MS = 15 * 60 * 1000"

definition EMPTY_SHAPE :: shape where
  "EMPTY_SHAPE = \<lparr>submissions = [], sessions = [], nonces = [], domains = [], products = [], invoices = []\<rparr>"

datatype store_failure =
    StoreUnreadable
  | StoreWriteThrew
  | NoPaymentCode string
  | NoSignedBlock string
  | NoProductId
  | BadPrice string
  | BadInventory string
  | NoInvoiceId
  | BadNetwork string
  | NoSignedAddress string
  | AddressMismatch string
  | BadAmount string
  | BadRate string
  | BadTimes string
  | StaleRate string int

section \<open>The shape of a submission\<close>

definition hasSignedBlock :: "submission \<Rightarrow> bool" where
  "hasSignedBlock rec =
     (let signed = (case sb_signed rec of Some s \<Rightarrow> trim s | None \<Rightarrow> [])
      in has_text ''BEGIN BITCOIN SIGNED MESSAGE'' signed \<and> has_text ''BEGIN BITCOIN SIGNATURE'' signed)"

definition normaliseSubmission :: "submission \<Rightarrow> submission" where
  "normaliseSubmission rec =
     (let codes = (case sb_codes rec of
            Some cs \<Rightarrow> cs
          | None \<Rightarrow> (case sb_code rec of Some c \<Rightarrow> if c = [] then [] else [Str c] | None \<Rightarrow> []))
      in rec\<lparr>sb_codes := Some (dedup (filter (\<lambda>c. is_str c \<and> truthy c) codes)), sb_code := None\<rparr>)"

text \<open>\<open>\w\<close> and the test \<open>/^PM\w{6,}/\<close>.\<close>

definition word_char :: "char \<Rightarrow> bool" where
  "word_char c = (let n = of_char c :: nat in (48 \<le> n \<and> n \<le> 57) \<or> (65 \<le> n \<and> n \<le> 90) \<or> n = 95 \<or> (97 \<le> n \<and> n \<le> 122))"

definition looks_like_code :: "string \<Rightarrow> bool" where
  "looks_like_code s = (starts_with ''PM'' s \<and> 6 \<le> length (takeWhile word_char (drop 2 s)))"

definition code_list :: "submission \<Rightarrow> val list" where
  "code_list rec = (case sb_codes rec of Some cs \<Rightarrow> cs | None \<Rightarrow> [])"

section \<open>The file\<close>

record db =
  db_file :: "shape json_file"
  db_cache :: "shape option"

definition normalise_all :: "shape \<Rightarrow> shape" where
  "normalise_all s = s\<lparr>submissions := map (\<lambda>(k, r). (k, normaliseSubmission r)) (submissions s)\<rparr>"

definition load_store :: "db \<Rightarrow> (store_failure + shape) \<times> db" where
  "load_store d =
     (case db_cache d of
        Some s \<Rightarrow> (Inr s, d)
      | None \<Rightarrow> (case db_file d of
          Garbled \<Rightarrow> (Inl StoreUnreadable, d)
        | Doc parsed \<Rightarrow> (Inr (normalise_all parsed), d\<lparr>db_cache := Some (normalise_all parsed)\<rparr>)
        | _ \<Rightarrow> (Inr EMPTY_SHAPE, d\<lparr>db_cache := Some EMPTY_SHAPE\<rparr>)))"

type_synonym 'a store_op = "shape \<Rightarrow> (store_failure + 'a) \<times> shape \<times> bool"

text \<open>Load, run, and write the file if the operation writes it. The document in memory keeps the change
  when the write throws.\<close>

definition in_store :: "io \<Rightarrow> 'a store_op \<Rightarrow> db \<Rightarrow> (store_failure + 'a) \<times> db" where
  "in_store w f d =
     (case load_store d of
        (Inl e, d1) \<Rightarrow> (Inl e, d1)
      | (Inr s, d1) \<Rightarrow>
          (case f s of
             (r, s', writes) \<Rightarrow>
               (let d2 = d1\<lparr>db_cache := Some s'\<rparr>
                in if \<not> writes then (r, d2)
                   else (case w of
                       Completed \<Rightarrow> (r, d2\<lparr>db_file := Doc s'\<rparr>)
                     | Failed \<Rightarrow> (Inl StoreWriteThrew, d2)))))"

section \<open>Nonces\<close>

definition putNonce :: "string \<Rightarrow> nonce \<Rightarrow> unit store_op" where
  "putNonce k data s = (Inr (), s\<lparr>nonces := owrite k data (nonces s)\<rparr>, True)"

definition takeNonce :: "string \<Rightarrow> nonce slot store_op" where
  "takeNonce k s =
     (case oread (nonces s) k of
        Missing \<Rightarrow> (Inr Missing, s, False)
      | n \<Rightarrow> (Inr n, s\<lparr>nonces := odelete k (nonces s)\<rparr>, True))"

definition gcNonces :: "int \<Rightarrow> unit store_op" where
  "gcNonces now s =
     (let kept = filter (\<lambda>(k, v). \<not> nc_expires v < now) (nonces s)
      in (Inr (), s\<lparr>nonces := kept\<rparr>, length kept \<noteq> length (nonces s)))"

section \<open>Sessions\<close>

text \<open>\<open>sid\<close> is the fresh random identifier.\<close>

definition putSession :: "string \<Rightarrow> session \<Rightarrow> string store_op" where
  "putSession sid data s = (Inr sid, s\<lparr>sessions := owrite sid data (sessions s)\<rparr>, True)"

definition getSession :: "int \<Rightarrow> string option \<Rightarrow> session slot store_op" where
  "getSession now sid s =
     (case sid of
        None \<Rightarrow> (Inr Missing, s, False)
      | Some k \<Rightarrow>
          if k = [] then (Inr Missing, s, False)
          else (case oread (sessions s) k of
              Missing \<Rightarrow> (Inr Missing, s, False)
            | Inherited \<Rightarrow> (Inr Inherited, s, False)
            | Own sess \<Rightarrow>
                if ss_expires sess < now
                then (Inr Missing, s\<lparr>sessions := odelete k (sessions s)\<rparr>, True)
                else (Inr (Own sess), s, False)))"

definition dropSession :: "string \<Rightarrow> unit store_op" where
  "dropSession k s =
     (if oread (sessions s) k \<noteq> Missing then (Inr (), s\<lparr>sessions := odelete k (sessions s)\<rparr>, True)
      else (Inr (), s, False))"

section \<open>Submissions\<close>

definition listSubmissions :: "submission list store_op" where
  "listSubmissions s = (Inr (ovalues (submissions s)), s, False)"

definition owned_by :: "string \<Rightarrow> submission \<Rightarrow> bool" where
  "owned_by pc rec = (case sb_codes rec of Some cs \<Rightarrow> Str pc \<in> set cs | None \<Rightarrow> False)"

definition submissionsFor :: "string \<Rightarrow> submission list store_op" where
  "submissionsFor pc s = (Inr (filter (owned_by pc) (ovalues (submissions s))), s, False)"

definition putSubmission :: "submission \<Rightarrow> submission store_op" where
  "putSubmission rec s =
     (let normalised = normaliseSubmission rec
      in if \<not> (\<exists>c \<in> set (code_list normalised). is_str c \<and> looks_like_code (trim (str_of c)))
           then (Inl (NoPaymentCode (sb_id rec)), s, False)
         else if \<not> hasSignedBlock normalised then (Inl (NoSignedBlock (sb_id rec)), s, False)
         else (Inr normalised, s\<lparr>submissions := owrite (sb_id rec) normalised (submissions s)\<rparr>, True))"

text \<open>The record is normalised in place.\<close>

definition getSubmission :: "string \<Rightarrow> submission slot store_op" where
  "getSubmission k s =
     (case oread (submissions s) k of
        Own rec \<Rightarrow>
          (let r = normaliseSubmission rec
           in (Inr (Own r), s\<lparr>submissions := owrite k r (submissions s)\<rparr>, False))
      | other \<Rightarrow> (Inr other, s, False))"

text \<open>\<open>Date.parse(rec.updated_at || rec.created_at || "")\<close>.\<close>

definition stamp_or :: "stamp option \<Rightarrow> stamp option \<Rightarrow> stamp option" where
  "stamp_or a b = (if a = None \<or> a = Some (Unreadable []) then b else a)"

definition last_touched :: "submission \<Rightarrow> int option" where
  "last_touched rec = Option.bind (stamp_or (sb_updated_at rec) (sb_created_at rec)) date_parse"

definition prunable :: "int \<Rightarrow> submission \<Rightarrow> bool" where
  "prunable cutoff rec =
     (sb_status rec = ''rejected'' \<and> (case last_touched rec of Some t \<Rightarrow> \<not> cutoff < t | None \<Rightarrow> True))"

definition pruneRejected :: "int \<Rightarrow> int \<Rightarrow> string list store_op" where
  "pruneRejected days now s =
     (let cutoff = now - days * 86400 * 1000;
          gone = filter (\<lambda>(k, r). prunable cutoff r) (submissions s)
      in (Inr (map fst gone),
          s\<lparr>submissions := filter (\<lambda>(k, r). \<not> prunable cutoff r) (submissions s)\<rparr>, gone \<noteq> []))"

definition deleteSubmission :: "string \<Rightarrow> unit store_op" where
  "deleteSubmission k s =
     (if oread (submissions s) k \<noteq> Missing then (Inr (), s\<lparr>submissions := odelete k (submissions s)\<rparr>, True)
      else (Inr (), s, False))"

section \<open>Products\<close>

definition listProducts :: "product list store_op" where
  "listProducts s = (Inr (ovalues (products s)), s, False)"

definition getProduct :: "string \<Rightarrow> product slot store_op" where
  "getProduct k s = (Inr (oread (products s) k), s, False)"

definition putProduct :: "product \<Rightarrow> product store_op" where
  "putProduct rec s =
     (if \<not> truthy (pr_id rec) \<or> \<not> is_str (pr_id rec) then (Inl NoProductId, s, False)
      else (let k = str_of (pr_id rec)
        in if \<not> js_is_integer (pr_price_usd_cents rec) \<or> int_of (pr_price_usd_cents rec) < 0
             then (Inl (BadPrice k), s, False)
           else if pr_inventory rec \<noteq> Null \<and> (\<not> js_is_integer (pr_inventory rec) \<or> int_of (pr_inventory rec) < 0)
             then (Inl (BadInventory k), s, False)
           else (Inr rec, s\<lparr>products := owrite k rec (products s)\<rparr>, True)))"

definition deleteProduct :: "string \<Rightarrow> unit store_op" where
  "deleteProduct k s =
     (if oread (products s) k \<noteq> Missing then (Inr (), s\<lparr>products := odelete k (products s)\<rparr>, True)
      else (Inr (), s, False))"

section \<open>Invoices\<close>

definition listInvoices :: "invoice list store_op" where
  "listInvoices s = (Inr (ovalues (invoices s)), s, False)"

definition getInvoice :: "string \<Rightarrow> invoice slot store_op" where
  "getInvoice k s = (Inr (oread (invoices s) k), s, False)"

definition invoiceByAddress :: "string \<Rightarrow> string \<Rightarrow> invoice option store_op" where
  "invoiceByAddress address network s =
     (if address = [] \<or> network = [] then (Inr None, s, False)
      else (Inr (find (\<lambda>i. iv_address i = Str address \<and> iv_network i = Str network) (ovalues (invoices s))), s, False))"

definition invoicesFor :: "string \<Rightarrow> invoice list store_op" where
  "invoicesFor pc s =
     (if pc = [] then (Inr [], s, False)
      else (Inr (filter (\<lambda>i. iv_paymentCode i = Some pc) (ovalues (invoices s))), s, False))"

text \<open>The guards of \<open>putInvoice\<close>, in its order.\<close>

definition invoice_refusal :: "invoice \<Rightarrow> store_failure option" where
  "invoice_refusal rec =
     (if \<not> truthy (iv_id rec) \<or> \<not> is_str (iv_id rec) then Some NoInvoiceId
      else (let k = str_of (iv_id rec); signed = iv_address_record rec
        in if iv_network rec \<noteq> Str ''bitcoin'' \<and> iv_network rec \<noteq> Str ''testnet4'' then Some (BadNetwork k)
           else if \<not> truthy signed \<or> \<not> is_str (fld signed ''signed'') \<or> \<not> truthy (fld signed ''signed'') \<or>
                   \<not> truthy (fld signed ''address'') then Some (NoSignedAddress k)
           else if iv_address rec \<noteq> fld signed ''address'' then Some (AddressMismatch k)
           else if \<not> js_is_integer (iv_amount_sats rec) \<or> int_of (iv_amount_sats rec) \<le> 0 then Some (BadAmount k)
           else if \<not> 0 < iv_rate_usd rec then Some (BadRate k)
           else (case (Option.bind (iv_created_at rec) date_parse, Option.bind (iv_rate_at rec) date_parse) of
               (Some created, Some rateAt) \<Rightarrow>
                 if RATE_MAX_AGE_MS < \<bar>created - rateAt\<bar> then Some (StaleRate k \<bar>created - rateAt\<bar>) else None
             | _ \<Rightarrow> Some (BadTimes k))))"

definition putInvoice :: "invoice \<Rightarrow> invoice store_op" where
  "putInvoice rec s =
     (case invoice_refusal rec of
        Some e \<Rightarrow> (Inl e, s, False)
      | None \<Rightarrow> (Inr rec, s\<lparr>invoices := owrite (str_of (iv_id rec)) rec (invoices s)\<rparr>, True))"

definition deleteInvoice :: "string \<Rightarrow> unit store_op" where
  "deleteInvoice k s =
     (if oread (invoices s) k \<noteq> Missing then (Inr (), s\<lparr>invoices := odelete k (invoices s)\<rparr>, True)
      else (Inr (), s, False))"

section \<open>Domain claims\<close>

definition listDomains :: "domain_claim list store_op" where
  "listDomains s = (Inr (ovalues (domains s)), s, False)"

definition getDomain :: "string \<Rightarrow> domain_claim slot store_op" where
  "getDomain pc s = (Inr (oread (domains s) pc), s, False)"

definition putDomain :: "domain_claim \<Rightarrow> domain_claim store_op" where
  "putDomain claim s = (Inr claim, s\<lparr>domains := owrite (dc_paymentCode claim) claim (domains s)\<rparr>, True)"

definition deleteDomain :: "string \<Rightarrow> unit store_op" where
  "deleteDomain pc s =
     (if oread (domains s) pc \<noteq> Missing then (Inr (), s\<lparr>domains := odelete pc (domains s)\<rparr>, True)
      else (Inr (), s, False))"

text \<open>A \<open>Map\<close>, here its entries in insertion order.\<close>

definition verifiedDomainMap :: "(string \<times> string) list store_op" where
  "verifiedDomainMap s =
     (Inr (fold (\<lambda>c m. if dc_verified c \<and> dc_domain c \<noteq> [] then AList.update (dc_paymentCode c) (dc_domain c) m else m)
        (ovalues (domains s)) []), s, False)"

end
