(* ===== verification/Domains.thy ===== *)
theory Domains
  imports Crypto Dns Store
begin

text \<open>
  \<open>server/domains.ts\<close>: verified operator domains. A claim is a signature over the domain and a TXT record
  naming the payment code; the record is looked up again and again, and the badge is dropped after a grace
  period. The result of a lookup is that of \<open>server/dns.ts\<close>; the periods are the defaults.
\<close>

section \<open>Names\<close>

datatype domain_error =
    EnterDomain
  | HasSpaces
  | NotADomain
  | NotWeb string
  | HasUser
  | HasPort
  | IsOnion
  | IsAddress
  | NotADomainName
  | NotFull

definition has_scheme :: "string \<Rightarrow> bool" where
  "has_scheme raw =
     (raw \<noteq> [] \<and> (97 :: nat) \<le> of_char (hd raw) \<and> of_char (hd raw) \<le> (122 :: nat) \<and>
      prefix ''://'' (dropWhile (\<lambda>c. ((97 :: nat) \<le> of_char c \<and> of_char c \<le> (122 :: nat)) \<or> is_digit c
        \<or> c = CHR ''+'' \<or> c = CHR ''.'' \<or> c = CHR ''-'') (tl raw)))"

definition label_char :: "char \<Rightarrow> bool" where
  "label_char c \<longleftrightarrow> ((97 :: nat) \<le> of_char c \<and> of_char c \<le> (122 :: nat)) \<or> is_digit c"

text \<open>\<open>[a-z0-9]([a-z0-9-]{0,61}[a-z0-9])?\<close>.\<close>

definition is_label :: "string \<Rightarrow> bool" where
  "is_label l \<longleftrightarrow> l \<noteq> [] \<and> length l \<le> 63 \<and> label_char (hd l) \<and> label_char (last l) \<and>
     list_all (\<lambda>c. label_char c \<or> c = CHR ''-'') l"

definition is_hostname :: "string \<Rightarrow> bool" where
  "is_hostname h \<longleftrightarrow> 1 \<le> length h \<and> length h \<le> 253 \<and> 2 \<le> length (split_on (CHR ''.'') h) \<and>
     list_all is_label (split_on (CHR ''.'') h)"

definition is_dotted_quad :: "string \<Rightarrow> bool" where
  "is_dotted_quad h \<longleftrightarrow> length (split_on (CHR ''.'') h) = 4 \<and>
     list_all (\<lambda>w. w \<noteq> [] \<and> list_all is_digit w) (split_on (CHR ''.'') h)"

text \<open>\<open>u.protocol.replace(":", "")\<close>.\<close>

definition without_colon :: "string \<Rightarrow> string" where
  "without_colon p = takeWhile (\<lambda>c. c \<noteq> CHR '':'') p @ drop 1 (dropWhile (\<lambda>c. c \<noteq> CHR '':'') p)"

definition normaliseDomain :: "url_parser \<Rightarrow> val \<Rightarrow> domain_error + (string \<times> bool)" where
  "normaliseDomain parse input =
     (let raw0 = to_lower (trim (text_or_empty input)) in
      if raw0 = [] then Inl EnterDomain
      else if CHR '' '' \<in> set raw0 then Inl HasSpaces
      else (let raw = (if has_scheme raw0 then raw0 else ''https://'' @ raw0) in
        case parse raw of
          None \<Rightarrow> Inl NotADomain
        | Some u \<Rightarrow>
            if u_protocol u \<noteq> ''https:'' \<and> u_protocol u \<noteq> ''http:'' then Inl (NotWeb (without_colon (u_protocol u)))
            else if u_username u \<noteq> [] \<or> u_password u \<noteq> [] then Inl HasUser
            else if u_port u \<noteq> [] then Inl HasPort
            else (let host = u_hostname u in
              if ends_with ''.onion'' host then Inl IsOnion
              else if host = ''localhost'' \<or> is_dotted_quad host \<or> starts_with ''['' host then Inl IsAddress
              else if \<not> is_hostname host then Inl NotADomainName
              else if length (split_on (CHR ''.'') host) < 2 then Inl NotFull
              else Inr (host, (\<exists>c \<in> set (js_text input). (127 :: nat) < of_char c) \<or> has_text ''xn--'' host))))"

definition TXT_PREFIX :: string where
  "TXT_PREFIX = ''_mise''"

definition CLAIM_VERSION :: string where
  "CLAIM_VERSION = ''mise-domain-v1''"

definition RECHECK_MS :: int where
  "RECHECK_MS = 24 * 3600 * 1000"

definition PENDING_RECHECK_MS :: int where
  "PENDING_RECHECK_MS = 5 * 60 * 1000"

definition GRACE_DAYS :: int where
  "GRACE_DAYS = 7"

definition txtName :: "string \<Rightarrow> string" where
  "txtName domain = TXT_PREFIX @ ''.'' @ domain"

definition txtHost :: string where
  "txtHost = TXT_PREFIX"

definition txtValue :: "string \<Rightarrow> string" where
  "txtValue paymentCode = CLAIM_VERSION @ '' pm='' @ paymentCode"

definition signingText :: "string \<Rightarrow> string \<Rightarrow> string" where
  "signingText domain paymentCode = claimText (''https://'' @ domain) paymentCode"

section \<open>Records\<close>

text \<open>\<open>replace(/^"|"$/g, "")\<close>.\<close>

definition unquote :: "string \<Rightarrow> string" where
  "unquote s =
     (let t = (if s \<noteq> [] \<and> hd s = CHR 0x22 then tl s else s)
      in if t \<noteq> [] \<and> last t = CHR 0x22 then butlast t else t)"

text \<open>\<open>/\bpm=(PM8T[1-9A-HJ-NP-Za-km-z]+)/\<close>: the flag says whether the character before is one of a word.\<close>

fun code_in_record :: "bool \<Rightarrow> string \<Rightarrow> string option" where
  "code_in_record after [] = None"
| "code_in_record after (c # cs) =
     (case drop_text ''pm=PM8T'' (c # cs) of
        Some u \<Rightarrow>
          if \<not> after \<and> takeWhile is_b58 u \<noteq> [] then Some (''PM8T'' @ takeWhile is_b58 u)
          else code_in_record (word_char c) cs
      | None \<Rightarrow> code_in_record (word_char c) cs)"

definition txtMatches :: "string \<Rightarrow> string \<Rightarrow> bool" where
  "txtMatches rec paymentCode =
     (let r = collapse_ws (unquote (trim rec))
      in starts_with CLAIM_VERSION r \<and> code_in_record False r = Some paymentCode)"

section \<open>Claims\<close>

datatype claim_stage = Signature | DnsLookup

datatype claim_failure = BadSignature refusal | BadRecord "txt_error option"

record claim_result =
  cr_ok :: bool
  cr_stage :: "claim_stage option"
  cr_error :: "claim_failure option"
  cr_hint :: "(string \<times> string) option"
  cr_inconclusive :: bool
  cr_agreed :: "nat option"

text \<open>\<open>lookup name pred\<close> is \<open>txtRecordAgreed\<close> on the network as it answers now.\<close>

type_synonym lookup = "string \<Rightarrow> (string \<Rightarrow> bool) \<Rightarrow> txt_agreement"

definition verifyClaim ::
  "(string \<Rightarrow> string \<Rightarrow> string option) \<Rightarrow> (string \<Rightarrow> string \<Rightarrow> string \<Rightarrow> string \<Rightarrow> string + bool) \<Rightarrow> lookup \<Rightarrow>
   string \<Rightarrow> string \<Rightarrow> string \<Rightarrow> claim_result" where
  "verifyClaim derive checks lookup domain paymentCode signed =
     (case verifySignedUrlClaim derive checks signed (''https://'' @ domain) paymentCode of
        Refused e \<Rightarrow> \<lparr>cr_ok = False, cr_stage = Some Signature, cr_error = Some (BadSignature e), cr_hint = None,
                       cr_inconclusive = False, cr_agreed = None\<rparr>
      | Accepted _ _ \<Rightarrow>
          (let dns = lookup (txtName domain) (\<lambda>r. txtMatches r paymentCode) in
           if \<not> ta_ok dns
           then \<lparr>cr_ok = False, cr_stage = Some DnsLookup, cr_error = Some (BadRecord (ta_error dns)),
                  cr_hint = (if ta_inconclusive dns then None else Some (txtName domain, txtValue paymentCode)),
                  cr_inconclusive = ta_inconclusive dns, cr_agreed = None\<rparr>
           else \<lparr>cr_ok = True, cr_stage = None, cr_error = None, cr_hint = None,
                  cr_inconclusive = False, cr_agreed = ta_agreed dns\<rparr>))"

definition recheckClaim :: "lookup \<Rightarrow> domain_claim \<Rightarrow> txt_agreement" where
  "recheckClaim lookup claim = lookup (txtName (dc_domain claim)) (\<lambda>r. txtMatches r (dc_paymentCode claim))"

text \<open>The messages kept in \<open>last_result\<close>, by a parameter that words an error.\<close>

definition or_text :: "(txt_error \<Rightarrow> string) \<Rightarrow> txt_error option \<Rightarrow> string \<Rightarrow> string" where
  "or_text words e d = (case e of Some x \<Rightarrow> if words x = [] then d else words x | None \<Rightarrow> d)"

definition applyRecheck :: "(txt_error \<Rightarrow> string) \<Rightarrow> domain_claim \<Rightarrow> txt_agreement \<Rightarrow> int \<Rightarrow> domain_claim" where
  "applyRecheck words claim result now =
     (let next1 = claim\<lparr>dc_last_check := Some (to_iso now)\<rparr> in
      if ta_inconclusive result
      then next1\<lparr>dc_last_result := Some (''inconclusive: '' @ or_text words (ta_error result) ''no detail'')\<rparr>
      else if ta_ok result
      then next1\<lparr>dc_verified := True,
                 dc_verified_at := stamp_or (dc_verified_at claim) (Some (to_iso now)),
                 dc_fail_since := None, dc_last_result := Some ''ok''\<rparr>
      else (let since = stamp_or (dc_fail_since claim) (Some (to_iso now));
                next2 = next1\<lparr>dc_last_result := Some (or_text words (ta_error result) ''no matching TXT record''),
                              dc_fail_since := since\<rparr>
            in case Option.bind since date_parse of
                 Some t \<Rightarrow> if GRACE_DAYS * 86400 * 1000 \<le> now - t then next2\<lparr>dc_verified := False\<rparr> else next2
               | None \<Rightarrow> next2))"

definition isDue :: "domain_claim \<Rightarrow> int \<Rightarrow> bool" where
  "isDue claim now =
     (if stamp_or (dc_last_check claim) None = None then True
      else (case Option.bind (dc_last_check claim) date_parse of
          Some t \<Rightarrow> (if dc_verified claim then RECHECK_MS else PENDING_RECHECK_MS) \<le> now - t
        | None \<Rightarrow> False))"

definition urlOnDomain :: "url_parser \<Rightarrow> val \<Rightarrow> string \<Rightarrow> bool" where
  "urlOnDomain parse url domain =
     (if \<not> truthy url \<or> domain = [] then False
      else (case parse (js_text url) of
          None \<Rightarrow> False
        | Some u \<Rightarrow>
            (u_protocol u = ''https:'' \<or> u_protocol u = ''http:'') \<and>
            (let h = to_lower (u_hostname u) in h = domain \<or> ends_with (''.'' @ domain) h)))"

section \<open>Keeping and losing a badge\<close>

text \<open>A run of re-checks, oldest first, each with its time.\<close>

fun rechecked :: "(txt_error \<Rightarrow> string) \<Rightarrow> (int \<times> txt_agreement) list \<Rightarrow> domain_claim \<Rightarrow> domain_claim" where
  "rechecked words [] c = c"
| "rechecked words ((now, r) # rs) c = rechecked words rs (applyRecheck words c r now)"

definition conclusive_failure :: "txt_agreement \<Rightarrow> bool" where
  "conclusive_failure r \<longleftrightarrow> \<not> ta_inconclusive r \<and> \<not> ta_ok r"

lemma rechecked_snoc: "rechecked words (rs @ [(now, r)]) c = applyRecheck words (rechecked words rs c) r now"
  by (induction rs arbitrary: c) auto

text \<open>When the claim has been failing since \<open>t\<close>, a re-check failed conclusively at \<open>t\<close> and none has succeeded
  since.\<close>

definition failing_from :: "(int \<times> txt_agreement) list \<Rightarrow> int \<Rightarrow> bool" where
  "failing_from rs t \<longleftrightarrow> (\<exists>us r vs. rs = us @ (t, r) # vs \<and> conclusive_failure r \<and>
     (\<forall>(now, v) \<in> set vs. ta_inconclusive v \<or> \<not> ta_ok v))"

lemma failing_from_snoc:
  "failing_from rs t \<Longrightarrow> ta_inconclusive r \<or> \<not> ta_ok r \<Longrightarrow> failing_from (rs @ [(now, r)]) t"
  unfolding failing_from_def
proof (elim exE conjE)
  fix us q vs
  assume "rs = us @ (t, q) # vs" "conclusive_failure q" "\<forall>(now, v) \<in> set vs. ta_inconclusive v \<or> \<not> ta_ok v"
    and "ta_inconclusive r \<or> \<not> ta_ok r"
  then show "\<exists>us q vs. rs @ [(now, r)] = us @ (t, q) # vs \<and> conclusive_failure q \<and>
      (\<forall>(now, v) \<in> set vs. ta_inconclusive v \<or> \<not> ta_ok v)"
    by (intro exI [of _ us] exI [of _ q] exI [of _ "vs @ [(now, r)]"]) auto
qed

lemma failing_from_new: "conclusive_failure r \<Longrightarrow> failing_from (rs @ [(now, r)]) now"
  unfolding failing_from_def by (intro exI [of _ rs] exI [of _ r] exI [of _ "[]"]) simp

text \<open>The run from a verified claim that is not failing.\<close>

definition run_ok :: "(int \<times> txt_agreement) list \<Rightarrow> domain_claim \<Rightarrow> bool" where
  "run_ok rs c \<longleftrightarrow>
     (case dc_fail_since c of
        None \<Rightarrow> dc_verified c
      | Some s \<Rightarrow> (\<exists>t. s = Instant t \<and> failing_from rs t \<and>
          (\<not> dc_verified c \<longrightarrow> (\<exists>now r. (now, r) \<in> set rs \<and> conclusive_failure r \<and> GRACE_DAYS * day_ms \<le> now - t))))"

lemma run_ok_step:
  assumes "run_ok rs c"
  shows "run_ok (rs @ [(now, r)]) (applyRecheck words c r now)"
proof -
  consider "ta_inconclusive r" | "\<not> ta_inconclusive r" "ta_ok r" | "conclusive_failure r"
    by (auto simp: conclusive_failure_def)
  then show ?thesis
  proof cases
    case 1
    then show ?thesis
      using assms failing_from_snoc [of rs _ r now]
      by (auto simp: run_ok_def applyRecheck_def Let_def split: option.splits)
  next
    case 2
    then show ?thesis by (simp add: run_ok_def applyRecheck_def Let_def)
  next
    case 3
    then have r: "\<not> ta_inconclusive r" "\<not> ta_ok r" by (simp_all add: conclusive_failure_def)
    show ?thesis
    proof (cases "dc_fail_since c")
      case None
      then show ?thesis
        using r 3 failing_from_new [OF 3, of rs now] assms
        by (simp add: run_ok_def applyRecheck_def stamp_or_def to_iso_def GRACE_DAYS_def Let_def)
    next
      case (Some s)
      with assms obtain t where t: "s = Instant t" "failing_from rs t"
        and old: "\<not> dc_verified c \<Longrightarrow> \<exists>now r. (now, r) \<in> set rs \<and> conclusive_failure r \<and> GRACE_DAYS * day_ms \<le> now - t"
        by (auto simp: run_ok_def)
      have f: "failing_from (rs @ [(now, r)]) t" using failing_from_snoc [OF t(2)] r by blast
      show ?thesis
      proof (cases "GRACE_DAYS * day_ms \<le> now - t")
        case True
        with r Some t f 3 show ?thesis
          by (auto simp: run_ok_def applyRecheck_def stamp_or_def day_ms_def Let_def)
      next
        case False
        with r Some t f old show ?thesis
          by (auto simp: run_ok_def applyRecheck_def stamp_or_def day_ms_def Let_def)
      qed
    qed
  qed
qed

lemma run_ok_rechecked: "dc_verified c \<Longrightarrow> dc_fail_since c = None \<Longrightarrow> run_ok rs (rechecked words rs c)"
proof (induction rs rule: rev_induct)
  case Nil
  then show ?case by (simp add: run_ok_def)
next
  case (snoc p rs)
  then show ?case by (cases p) (simp add: rechecked_snoc run_ok_step)
qed

text \<open>C18: a badge is not lost to a resolver that cannot be reached or to a lapse shorter than the grace period.
  When a run of re-checks takes the badge from a verified claim, one of them found the record missing, none
  after it found it, and one found it missing again a whole grace period later.\<close>

theorem badge_dropped_only_after_grace:
  assumes "dc_verified c" and "dc_fail_since c = None" and "\<not> dc_verified (rechecked words rs c)"
  shows "\<exists>us t r vs now q. rs = us @ (t, r) # vs \<and> conclusive_failure r \<and> \<not> (\<exists>(n, v) \<in> set vs. \<not> ta_inconclusive v \<and> ta_ok v)
    \<and> (now, q) \<in> set rs \<and> conclusive_failure q \<and> GRACE_DAYS * day_ms \<le> now - t"
proof -
  from run_ok_rechecked [OF assms(1,2), of rs words] assms(3) obtain t now q where
    t: "failing_from rs t" and q: "(now, q) \<in> set rs" "conclusive_failure q" "GRACE_DAYS * day_ms \<le> now - t"
    by (auto simp: run_ok_def split: option.splits)
  from t obtain us r vs where "rs = us @ (t, r) # vs" "conclusive_failure r"
      "\<forall>(now, v) \<in> set vs. ta_inconclusive v \<or> \<not> ta_ok v"
    unfolding failing_from_def by blast
  moreover from this(3) have "\<not> (\<exists>(n, v) \<in> set vs. \<not> ta_inconclusive v \<and> ta_ok v)" by auto
  ultimately show ?thesis using q by blast
qed

definition sample_claim :: domain_claim where
  "sample_claim = \<lparr>dc_paymentCode = ''PM8T1'', dc_domain = ''op.example'', dc_signed = [], dc_verified = True,
     dc_verified_at = Some (Instant 0), dc_last_check = None, dc_last_result = None, dc_fail_since = None,
     dc_created_at = Some (Instant 0), dc_revoked = False, dc_also_claimed_by = None\<rparr>"

definition absent_record :: txt_agreement where
  "absent_record = \<lparr>ta_ok = False, ta_inconclusive = False, ta_answered = Some 3, ta_agreed = Some 0, ta_error = Some (NoRecord [])\<rparr>"

theorem badge_dropped_only_after_grace_witness:
  "\<exists>us t r vs. [(0, absent_record), (8 * day_ms, absent_record)] = us @ (t, r) # vs \<and> conclusive_failure r"
proof -
  have "\<not> dc_verified (rechecked (\<lambda>e. []) [(0, absent_record), (8 * day_ms, absent_record)] sample_claim)"
    by (simp add: applyRecheck_def absent_record_def sample_claim_def stamp_or_def to_iso_def GRACE_DAYS_def day_ms_def)
  from badge_dropped_only_after_grace [OF _ _ this] show ?thesis by (auto simp: sample_claim_def)
qed

end
