(* ===== verification/Publish.thy ===== *)
theory Publish
  imports Domains
begin

text \<open>
  \<open>server/build-public.ts\<close>: the public list. The curated seed and the approved submissions are merged into
  \<open>data/dojos.json\<close>, with the live status the updater last wrote, the verified domain of the operator, and the
  two history files brought in line with the list. The files are documents of the shape their writers give them;
  a file may be absent or may not parse. What is only logged is left out.
\<close>

section \<open>Documents\<close>

datatype 'a doc_file = NoFile | Holds 'a | Unparsable

text \<open>\<open>readJSON\<close>: the fallback for an absent file; anything else that fails throws.\<close>

definition read_doc :: "'a doc_file \<Rightarrow> 'a \<Rightarrow> 'a option" where
  "read_doc f fallback = (case f of NoFile \<Rightarrow> Some fallback | Holds d \<Rightarrow> Some d | Unparsable \<Rightarrow> None)"

text \<open>A seed node is read as a store record is, with a payment code of its own.\<close>

record seed_entry =
  se_rec :: submission
  se_paymentCode :: "string option"

record code_variant =
  cv_code :: string
  cv_segwit :: bool

record live =
  lv_status :: val
  lv_checked_at :: val
  lv_block_height :: val
  lv_version :: val
  lv_indexer :: val

record domain_proof =
  dp_domain :: string
  dp_paymentCode :: string
  dp_txt_name :: string
  dp_txt_value :: string
  dp_signed :: string
  dp_verified_at :: "stamp option"

record public_node =
  pn_id :: string
  pn_network :: string
  pn_name :: string
  pn_paynym :: "string option"
  pn_paymentCode :: val
  pn_jurisdiction :: "string option"
  pn_country :: "string option"
  pn_hardware :: "string option"
  pn_version :: val
  pn_operator_domain :: "string option"
  pn_operator_proof :: "domain_proof option"
  pn_indexer_url :: val
  pn_live :: live
  pn_payload :: val
  pn_signed :: "string option"

record public_doc =
  pd_generated_at :: "stamp option"
  pd_nodes :: "public_node list"
  pd_fault :: "(stamp \<times> nat) option"

record check =
  ck_t :: stamp
  ck_up :: bool

record day =
  dy_d :: string
  dy_up :: nat
  dy_total :: nat
  dy_pct :: rat
  dy_close :: val

text \<open>An entry of a history file: its series, and the stamp it carries while it is not listed.\<close>

record 'a tracked =
  tr_series :: "'a list"
  tr_retired :: "stamp option"

record pending_entry =
  pe_live :: live
  pe_checks :: "check list"
  pe_days :: "day list option"

record 'a history_doc =
  hd_generated_at :: "stamp option"
  hd_limit :: nat
  hd_nodes :: "'a tracked obj"

record public_files =
  pf_seed :: "seed_entry option list doc_file"
  pf_codes :: "(string \<times> code_variant list) list doc_file"
  pf_out :: "public_doc doc_file"
  pf_pending :: "pending_entry obj doc_file"
  pf_hist :: "check history_doc doc_file"
  pf_daily :: "day history_doc doc_file"

section \<open>A published node\<close>

definition text_or_none :: "string option \<Rightarrow> string option" where
  "text_or_none s = (if s = Some [] then None else s)"

definition displayPaymentCode :: "submission \<Rightarrow> (string \<times> code_variant list) list \<Rightarrow> val" where
  "displayPaymentCode sub mapping =
     (let codes = code_list sub;
          entry = (case text_or_none (sb_paynym sub) of None \<Rightarrow> None | Some nym \<Rightarrow> map_of mapping nym);
          legacy = Option.bind entry (find (\<lambda>c. \<not> cv_segwit c \<and> Str (cv_code c) \<in> set codes))
      in if codes = [] then Null
         else (case legacy of Some c \<Rightarrow> if cv_code c = [] then hd codes else Str (cv_code c) | None \<Rightarrow> hd codes))"

definition effectiveVersion :: "val \<Rightarrow> val \<Rightarrow> val" where
  "effectiveVersion detected pairing = js_or detected (js_or pairing Null)"

definition effectiveIndexer :: "val \<Rightarrow> val" where
  "effectiveIndexer detected = js_or detected Null"

definition pairing_version :: "submission \<Rightarrow> val" where
  "pairing_version sub = js_or (fld (fld (sb_payload sub) ''pairing'') ''version'') Null"

definition unprobed :: live where
  "unprobed = \<lparr>lv_status = Str ''inactive'', lv_checked_at = Null, lv_block_height = Null, lv_version = Null, lv_indexer = Null\<rparr>"

definition toPublicNode :: "submission \<Rightarrow> val \<Rightarrow> public_node" where
  "toPublicNode sub paymentCode =
     \<lparr>pn_id = sb_id sub, pn_network = sb_network sub,
      pn_name = (if sb_name sub \<noteq> [] then sb_name sub
                 else case text_or_none (sb_paynym sub) of Some n \<Rightarrow> n | None \<Rightarrow> sb_id sub),
      pn_paynym = text_or_none (sb_paynym sub), pn_paymentCode = js_or paymentCode Null,
      pn_jurisdiction = text_or_none (sb_jurisdiction sub), pn_country = text_or_none (sb_country sub),
      pn_hardware = text_or_none (sb_hardware sub), pn_version = pairing_version sub,
      pn_operator_domain = None, pn_operator_proof = None, pn_indexer_url = Null, pn_live = unprobed,
      pn_payload = sb_payload sub, pn_signed = text_or_none (sb_signed sub)\<rparr>"

section \<open>The merge\<close>

text \<open>A \<open>Map\<close>: its entries in the order their keys were first set.\<close>

definition map_from :: "('k \<times> 'v) list \<Rightarrow> ('k \<times> 'v) list" where
  "map_from ps = fold (\<lambda>p m. AList.update (fst p) (snd p) m) ps []"

definition approved_subs :: "submission list \<Rightarrow> submission list" where
  "approved_subs subs =
     filter (\<lambda>s. code_list s \<noteq> [] \<and> hasSignedBlock s) (filter (\<lambda>s. sb_status s = ''approved'') subs)"

definition seed_nodes :: "seed_entry option list \<Rightarrow> seed_entry list" where
  "seed_nodes seed =
     concat (map (\<lambda>x. case x of
         Some n \<Rightarrow> if text_or_none (se_paymentCode n) \<noteq> None \<and> hasSignedBlock (se_rec n) then [n] else []
       | None \<Rightarrow> []) seed)"

definition seed_code :: "seed_entry \<Rightarrow> val" where
  "seed_code n = (case text_or_none (se_paymentCode n) of Some c \<Rightarrow> Str c | None \<Rightarrow> Null)"

text \<open>What the loops over the seed and the approved records set, under the id of each.\<close>

definition listed_sources ::
  "(seed_entry \<Rightarrow> 'a) \<Rightarrow> (submission \<Rightarrow> 'a) \<Rightarrow> seed_entry list \<Rightarrow> submission list \<Rightarrow> (string \<times> 'a) list" where
  "listed_sources f g seeds subs =
     map_from (map (\<lambda>n. (sb_id (se_rec n), f n)) seeds @ map (\<lambda>s. (sb_id s, g s)) subs)"

definition owner_domain :: "(string \<times> string) list \<Rightarrow> val \<Rightarrow> string option" where
  "owner_domain doms c = (case c of Str code \<Rightarrow> text_or_none (map_of doms code) | _ \<Rightarrow> None)"

definition claims_by_code :: "domain_claim list \<Rightarrow> (string \<times> string \<times> stamp option) list" where
  "claims_by_code cs =
     map_from (map (\<lambda>c. (dc_paymentCode c, (dc_signed c, dc_verified_at c))) (filter (\<lambda>c. dc_verified c \<and> dc_domain c \<noteq> []) cs))"

definition with_domain ::
  "(string \<times> string) list \<Rightarrow> (string \<times> string \<times> stamp option) list \<Rightarrow> val list \<Rightarrow> public_node \<Rightarrow> public_node" where
  "with_domain doms claims codes n =
     (let code = (case find (\<lambda>c. owner_domain doms c \<noteq> None) codes of
            Some c \<Rightarrow> text_or_none (Some (str_of c)) | None \<Rightarrow> None);
          domain = Option.bind code (\<lambda>c. text_or_none (map_of doms c));
          claim = Option.bind code (map_of claims)
      in n\<lparr>pn_operator_domain := domain,
           pn_operator_proof := (case (domain, code, claim) of
               (Some d, Some c, Some (signed, verified_at)) \<Rightarrow>
                 Some \<lparr>dp_domain = d, dp_paymentCode = c, dp_txt_name = ''_mise.'' @ d, dp_txt_value = ''mise-domain-v1 pm='' @ c,
                       dp_signed = signed, dp_verified_at = verified_at\<rparr>
             | _ \<Rightarrow> None)\<rparr>)"

text \<open>The live part: from the published list when the node was in it, else from the probe of the pending record.\<close>

definition carried :: "(string \<times> public_node) list \<Rightarrow> string set \<Rightarrow> pending_entry obj \<Rightarrow> string \<Rightarrow> live option" where
  "carried prior approvedIds pending i =
     (case map_of prior i of
        Some p \<Rightarrow> Some (pn_live p)
      | None \<Rightarrow> if i \<in> approvedIds then map_option pe_live (map_of pending i) else None)"

definition carry :: "live option \<Rightarrow> live \<Rightarrow> live" where
  "carry l n =
     (case l of
        None \<Rightarrow> n\<lparr>lv_version := Null, lv_indexer := Null\<rparr>
      | Some p \<Rightarrow>
          \<lparr>lv_status = nullish (lv_status p) (lv_status n), lv_checked_at = nullish (lv_checked_at p) (lv_checked_at n),
           lv_block_height = nullish (lv_block_height p) (lv_block_height n),
           lv_version = js_or (lv_version p) Null, lv_indexer = js_or (lv_indexer p) Null\<rparr>)"

definition with_live :: "live option \<Rightarrow> val \<Rightarrow> public_node \<Rightarrow> public_node" where
  "with_live l pairing n =
     (let now = carry l (pn_live n)
      in n\<lparr>pn_live := now, pn_version := effectiveVersion (lv_version now) pairing,
           pn_indexer_url := effectiveIndexer (lv_indexer now)\<rparr>)"

text \<open>The list of nodes that a rebuild publishes.\<close>

definition public_nodes ::
  "seed_entry list \<Rightarrow> (string \<times> code_variant list) list \<Rightarrow> shape \<Rightarrow> public_node list \<Rightarrow> pending_entry obj \<Rightarrow> public_node list" where
  "public_nodes seeds mapping s prior pending =
     (let subs = approved_subs (ovalues (submissions s));
          nodes = listed_sources (\<lambda>n. toPublicNode (se_rec n) (seed_code n)) (\<lambda>r. toPublicNode r (displayPaymentCode r mapping)) seeds subs;
          pairing = listed_sources (\<lambda>n. pairing_version (se_rec n)) pairing_version seeds subs;
          owners = listed_sources (\<lambda>n. [seed_code n]) code_list seeds subs;
          priorById = map_from (map (\<lambda>n. (pn_id n, n)) prior);
          doms = (case verifiedDomainMap s of (Inr m, _, _) \<Rightarrow> m | _ \<Rightarrow> []);
          claims = claims_by_code (ovalues (Store.domains s));
          approvedIds = set (map sb_id subs)
      in map (\<lambda>(i, n). with_live (carried priorById approvedIds pending i) (case map_of pairing i of Some v \<Rightarrow> v | None \<Rightarrow> Undef)
            (with_domain doms claims (case map_of owners i of Some cs \<Rightarrow> cs | None \<Rightarrow> []) n)) nodes)"

section \<open>The history files\<close>

definition is_retired :: "'a tracked \<Rightarrow> bool" where
  "is_retired e \<longleftrightarrow> stamp_or (tr_retired e) None \<noteq> None"

text \<open>What happens to one entry: kept as it is, kept changed, or gone.\<close>

definition retire_entry :: "bool \<Rightarrow> int \<Rightarrow> int \<Rightarrow> 'a tracked \<Rightarrow> 'a tracked option" where
  "retire_entry listed grace now e =
     (if listed then Some (if is_retired e then e\<lparr>tr_retired := None\<rparr> else e)
      else if \<not> is_retired e then Some (e\<lparr>tr_retired := Some (to_iso now)\<rparr>)
      else (case Option.bind (tr_retired e) date_parse of
          Some t \<Rightarrow> if t < now - grace * day_ms then None else Some e
        | None \<Rightarrow> Some e))"

fun retireUnlisted :: "(string \<Rightarrow> bool) \<Rightarrow> int \<Rightarrow> int \<Rightarrow> 'a tracked obj \<Rightarrow> 'a tracked obj \<times> bool" where
  "retireUnlisted isListed grace now [] = ([], False)"
| "retireUnlisted isListed grace now ((k, e) # m) =
     (let (m', touched) = retireUnlisted isListed grace now m
      in case retire_entry (isListed k) grace now e of
           None \<Rightarrow> (m', True)
         | Some e' \<Rightarrow> ((k, e') # m', touched \<or> is_retired e \<noteq> is_retired e'))"

text \<open>The entries that are missing are added with what the pending probe collected.\<close>

definition ensure_entries :: "(string \<Rightarrow> 'a list) \<Rightarrow> string list \<Rightarrow> 'a tracked obj \<Rightarrow> 'a tracked obj \<times> bool" where
  "ensure_entries start ids m =
     fold (\<lambda>i (m, touched).
       if oread m i = Missing then (owrite i \<lparr>tr_series = start i, tr_retired = None\<rparr> m, True) else (m, touched)) ids (m, False)"

definition refresh_history ::
  "(string \<Rightarrow> 'a list) \<Rightarrow> string list \<Rightarrow> int \<Rightarrow> int \<Rightarrow> 'a tracked obj \<Rightarrow> 'a tracked obj \<times> bool" where
  "refresh_history start ids grace now m =
     (let (m1, t1) = ensure_entries start ids m; (m2, t2) = retireUnlisted (\<lambda>i. i \<in> set ids) grace now m1
      in (m2, t1 \<or> t2))"

section \<open>The rebuild\<close>

datatype rebuild_error = SeedUnreadable | FileThrew string | SeedIsNull | WriteThrew string

record rebuilt =
  rb_nodes :: nat
  rb_approved :: nat

definition pending_checks :: "string set \<Rightarrow> pending_entry obj \<Rightarrow> string \<Rightarrow> check list" where
  "pending_checks approvedIds pending i =
     (if i \<in> approvedIds then (case map_of pending i of Some e \<Rightarrow> pe_checks e | None \<Rightarrow> []) else [])"

definition pending_days :: "string set \<Rightarrow> pending_entry obj \<Rightarrow> string \<Rightarrow> day list" where
  "pending_days approvedIds pending i =
     (if i \<in> approvedIds then (case Option.bind (map_of pending i) pe_days of Some ds \<Rightarrow> ds | None \<Rightarrow> []) else [])"

text \<open>One history file: read, brought in line, written when something changed. \<open>w\<close> says whether the write
  completes.\<close>

definition refresh_file ::
  "string \<Rightarrow> nat \<Rightarrow> (string \<Rightarrow> 'a list) \<Rightarrow> string list \<Rightarrow> int \<Rightarrow> int \<Rightarrow> io \<Rightarrow> 'a history_doc doc_file \<Rightarrow>
     (rebuild_error + unit) \<times> 'a history_doc doc_file" where
  "refresh_file name limit start ids grace now w f =
     (case read_doc f \<lparr>hd_generated_at = None, hd_limit = limit, hd_nodes = []\<rparr> of
        None \<Rightarrow> (Inl (FileThrew name), f)
      | Some d \<Rightarrow>
          (let (m, touched) = refresh_history start ids grace now (hd_nodes d)
           in if \<not> touched then (Inr (), f)
              else (case w of
                  Completed \<Rightarrow> (Inr (), Holds (d\<lparr>hd_nodes := m\<rparr>))
                | Failed \<Rightarrow> (Inl (WriteThrew name), f))))"

definition first_io :: "io list \<Rightarrow> io" where
  "first_io ws = (case ws of [] \<Rightarrow> Completed | w # _ \<Rightarrow> w)"

text \<open>\<open>ws\<close> are the outcomes of the writes of the list, the history and the daily file.\<close>

definition rebuild :: "int \<Rightarrow> int \<Rightarrow> io list \<Rightarrow> shape \<Rightarrow> public_files \<Rightarrow> (rebuild_error + rebuilt) \<times> public_files" where
  "rebuild grace now ws s fs =
     (case (read_doc (pf_seed fs) [], read_doc (pf_codes fs) []) of
        (None, _) \<Rightarrow> (Inl SeedUnreadable, fs)
      | (_, None) \<Rightarrow> (Inl (FileThrew ''paynym-codes.json''), fs)
      | (Some seed, Some mapping) \<Rightarrow>
          if seed = [None] then (Inl SeedIsNull, fs)
          else (case (read_doc (pf_out fs) \<lparr>pd_generated_at = None, pd_nodes = [], pd_fault = None\<rparr>,
                      read_doc (pf_pending fs) []) of
              (None, _) \<Rightarrow> (Inl (FileThrew ''dojos.json''), fs)
            | (_, None) \<Rightarrow> (Inl (FileThrew ''pending-probe.json''), fs)
            | (Some prior, Some pending) \<Rightarrow>
                (let subs = approved_subs (ovalues (submissions s));
                     nodes = public_nodes (seed_nodes seed) mapping s (pd_nodes prior) pending;
                     approvedIds = set (map sb_id subs); ids = map pn_id nodes
                 in if first_io ws = Failed then (Inl (WriteThrew ''dojos.json''), fs)
                    else (let fs1 = fs\<lparr>pf_out := Holds \<lparr>pd_generated_at = Some (to_iso (now div 1000 * 1000)),
                                 pd_nodes = nodes, pd_fault = None\<rparr>\<rparr>
                      in case refresh_file ''history.json'' 144 (pending_checks approvedIds pending) ids grace now
                                (first_io (tl ws)) (pf_hist fs1) of
                           (Inl e, h) \<Rightarrow> (Inl e, fs1\<lparr>pf_hist := h\<rparr>)
                         | (Inr _, h) \<Rightarrow>
                             (case refresh_file ''history-daily.json'' 90 (pending_days approvedIds pending) ids grace now
                                     (first_io (tl (tl ws))) (pf_daily fs1) of
                                (Inl e, d) \<Rightarrow> (Inl e, fs1\<lparr>pf_hist := h, pf_daily := d\<rparr>)
                              | (Inr _, d) \<Rightarrow>
                                  (Inr \<lparr>rb_nodes = length nodes, rb_approved = length subs\<rparr>,
                                   fs1\<lparr>pf_hist := h, pf_daily := d\<rparr>))))))"

end
