(* ===== verification/UpdateCycle.thy ===== *)
theory UpdateCycle
  imports Probe Publish
begin

text \<open>
  \<open>scripts/update.mjs\<close>, one cycle of the updater: the list is rebuilt, every node is probed, and the snapshot, the
  24-hour history, the daily history and the probe of the pending records are brought up to date. The probe is an
  argument (\<open>outcome\<close>; nothing when it throws). Avatars, the source archive and the log are left out.
\<close>

section \<open>Times\<close>

text \<open>The UTC date of a day counted from 1970-01-01, as \<open>Date\<close> gives it.\<close>

definition civil :: "int \<Rightarrow> int \<times> int \<times> int" where
  "civil days =
     (let z = days + 719468; era = z div 146097; doe = z mod 146097;
          yoe = (doe - doe div 1460 + doe div 36524 - doe div 146096) div 365;
          doy = doe - (365 * yoe + yoe div 4 - yoe div 100); mp = (5 * doy + 2) div 153;
          d = doy - (153 * mp + 2) div 5 + 1; m = (if mp < 10 then mp + 3 else mp - 9)
      in (yoe + era * 400 + (if m \<le> 2 then 1 else 0), m, d))"

definition p2 :: "int \<Rightarrow> string" where
  "p2 n = (if length (int_text n) < 2 then CHR ''0'' # int_text n else int_text n)"

definition date_text :: "int \<Rightarrow> string" where
  "date_text t = (case civil (t div day_ms) of (y, m, d) \<Rightarrow> int_text y @ ''-'' @ p2 m @ ''-'' @ p2 d)"

definition dateTime :: "int \<Rightarrow> string" where
  "dateTime t =
     (let s = t mod day_ms div 1000
      in date_text t @ '' '' @ p2 (s div 3600) @ '':'' @ p2 (s div 60 mod 60) @ '':'' @ p2 (s mod 60))"

definition isoSec :: "int \<Rightarrow> stamp" where
  "isoSec t = to_iso (t div 1000 * 1000)"

definition isoMin :: "int \<Rightarrow> stamp" where
  "isoMin t = to_iso (t div 60000 * 60000)"

section \<open>One node\<close>

record cycle_cfg =
  cf_window :: nat
  cf_retention :: nat
  cf_grace :: int

type_synonym outcome = "string \<Rightarrow> val \<Rightarrow> string \<Rightarrow> probe_result option"

definition probe_node :: "outcome \<Rightarrow> val \<Rightarrow> string \<Rightarrow> probe_result option" where
  "probe_node outcome payload network =
     (let p = fld payload ''pairing'' in
      if \<not> truthy (fld p ''url'') then Some (down NoPairingUrl None)
      else outcome (js_text (fld p ''url'')) (fld p ''apikey'') network)"

text \<open>\<open>pool\<close>: each result at the place of its item, whatever the order in which the workers finish; one that throws
  is thrown.\<close>

fun pool :: "('a \<Rightarrow> 'b option) \<Rightarrow> 'a list \<Rightarrow> 'b list option" where
  "pool f [] = Some []"
| "pool f (x # xs) = (case (f x, pool f xs) of (Some y, Some ys) \<Rightarrow> Some (y # ys) | _ \<Rightarrow> None)"

definition read_text :: "string option \<Rightarrow> val \<Rightarrow> val" where
  "read_text new old = (case text_or_none new of Some v \<Rightarrow> Str v | None \<Rightarrow> if old = Undef then Null else old)"

definition read_height :: "val \<Rightarrow> val \<Rightarrow> val" where
  "read_height new old = (case new of Num h \<Rightarrow> Num h | _ \<Rightarrow> if old = Undef then Null else old)"

definition status_of :: "probe_result \<Rightarrow> val" where
  "status_of r = Str (if pr_up r then ''active'' else ''inactive'')"

definition probed_live :: "int \<Rightarrow> probe_result \<Rightarrow> live \<Rightarrow> live" where
  "probed_live now r l =
     \<lparr>lv_status = status_of r, lv_checked_at = Str (dateTime now), lv_block_height = read_height (pr_height r) (lv_block_height l),
      lv_version = read_text (pr_version r) (lv_version l), lv_indexer = read_text (pr_indexer r) (lv_indexer l)\<rparr>"

definition probed_node :: "int \<Rightarrow> probe_result \<Rightarrow> public_node \<Rightarrow> public_node" where
  "probed_node now r n = n\<lparr>pn_live := probed_live now r (pn_live n)\<rparr>"

section \<open>The series\<close>

definition append_check :: "nat \<Rightarrow> int \<Rightarrow> bool \<Rightarrow> check list \<Rightarrow> check list" where
  "append_check window now up prev = last_n window (prev @ [\<lparr>ck_t = isoMin now, ck_up = up\<rparr>])"

text \<open>\<open>Math.round(x)\<close>, and the percentage with one decimal.\<close>

definition js_round :: "rat \<Rightarrow> int" where
  "js_round x = \<lfloor>x + 1 / 2\<rfloor>"

definition day_pct :: "nat \<Rightarrow> nat \<Rightarrow> rat" where
  "day_pct up n = of_int (js_round (of_nat up / of_nat n * 1000)) / 10"

definition count_day :: "probe_result \<Rightarrow> day \<Rightarrow> day" where
  "count_day r d =
     (let n = dy_total d + 1; up = dy_up d + (if pr_up r then 1 else 0)
      in d\<lparr>dy_up := up, dy_total := n, dy_pct := day_pct up n,
           dy_close := (case pr_height r of Num h \<Rightarrow> Num h | _ \<Rightarrow> dy_close d)\<rparr>)"

definition roll_day :: "nat \<Rightarrow> string \<Rightarrow> probe_result \<Rightarrow> day list \<Rightarrow> day list" where
  "roll_day retention today r days =
     last_n retention
       (if days \<noteq> [] \<and> dy_d (last days) = today then butlast days @ [count_day r (last days)]
        else days @ [count_day r \<lparr>dy_d = today, dy_up = 0, dy_total = 0, dy_pct = 0, dy_close = Null\<rparr>])"

text \<open>A history file after a cycle: a fresh object with the listed nodes, then the entries it does not have, then the
  grace period.\<close>

definition series_of :: "'a tracked obj \<Rightarrow> string \<Rightarrow> 'a list" where
  "series_of m i = (case map_of m i of Some e \<Rightarrow> tr_series e | None \<Rightarrow> [])"

definition advance ::
  "(probe_result \<Rightarrow> 'a list \<Rightarrow> 'a list) \<Rightarrow> int \<Rightarrow> int \<Rightarrow> (string \<times> probe_result) list \<Rightarrow> 'a tracked obj \<Rightarrow> 'a tracked obj" where
  "advance step grace now results old =
     (let fresh = fold (\<lambda>(i, r) m. owrite i \<lparr>tr_series = step r (series_of old i), tr_retired = None\<rparr> m) results [];
          kept = fold (\<lambda>(i, e) m. if oread m i = Missing then owrite i e m else m) old fresh
      in fst (retireUnlisted (\<lambda>i. i \<in> set (map fst results)) grace (now div 1000 * 1000) kept))"

section \<open>The pending records\<close>

definition pending_after :: "nat \<Rightarrow> int \<Rightarrow> probe_result \<Rightarrow> pending_entry option \<Rightarrow> pending_entry" where
  "pending_after window now r prev =
     (let l = (case prev of Some e \<Rightarrow> pe_live e | None \<Rightarrow> unprobed);
          nul = (\<lambda>v. nullish v Null)
      in \<lparr>pe_live = \<lparr>lv_status = status_of r, lv_checked_at = Str (dateTime now),
            lv_block_height = (case pr_height r of Num h \<Rightarrow> Num h | _ \<Rightarrow> nul (lv_block_height l)),
            lv_version = (case text_or_none (pr_version r) of Some v \<Rightarrow> Str v | None \<Rightarrow> nul (lv_version l)),
            lv_indexer = (case text_or_none (pr_indexer r) of Some v \<Rightarrow> Str v | None \<Rightarrow> nul (lv_indexer l))\<rparr>,
          pe_checks = append_check window now (pr_up r) (case prev of Some e \<Rightarrow> pe_checks e | None \<Rightarrow> []), pe_days = None\<rparr>)"

definition probe_pending :: "outcome \<Rightarrow> nat \<Rightarrow> int \<Rightarrow> io \<Rightarrow> shape \<Rightarrow> pending_entry obj doc_file \<Rightarrow> pending_entry obj doc_file" where
  "probe_pending outcome window now w s f =
     (let subs = filter (\<lambda>r. sb_status r = ''pending'') (ovalues (submissions s)) in
      if subs = [] then f
      else (case (read_doc f [], pool (\<lambda>r. probe_node outcome (sb_payload r) (sb_network r)) subs) of
          (Some prev, Some results) \<Rightarrow>
            (case w of
               Completed \<Rightarrow> Holds (fold (\<lambda>(r, p) m. owrite (sb_id r) (pending_after window now p (map_of prev (sb_id r))) m)
                   (zip subs results) [])
             | Failed \<Rightarrow> f)
        | _ \<Rightarrow> f))"

section \<open>The cycle\<close>

datatype cycle_result = Recorded nat | FaultNoted | Fatal string

text \<open>After the rebuild and the probes. \<open>ws\<close> are the outcomes of the writes still to come: the list, the history, the
  daily file, the pending file.\<close>

definition record_cycle ::
  "cycle_cfg \<Rightarrow> int \<Rightarrow> io list \<Rightarrow> shape \<Rightarrow> outcome \<Rightarrow> public_doc \<Rightarrow> check history_doc \<Rightarrow> probe_result list \<Rightarrow> public_files \<Rightarrow>
     cycle_result \<times> public_files" where
  "record_cycle cfg now ws s outcome d h results fs =
     (let window = (if hd_limit h = 0 then cf_window cfg else hd_limit h);
          by_id = zip (map pn_id (pd_nodes d)) results;
          d' = \<lparr>pd_generated_at = Some (isoSec now), pd_nodes = map (\<lambda>(r, n). probed_node now r n) (zip results (pd_nodes d)), pd_fault = None\<rparr>;
          h' = \<lparr>hd_generated_at = Some (isoSec now), hd_limit = window,
                hd_nodes = advance (\<lambda>r. append_check window now (pr_up r)) (cf_grace cfg) now by_id (hd_nodes h)\<rparr>
      in if first_io ws = Failed then (Fatal ''dojos.json'', fs)
         else (let fs1 = fs\<lparr>pf_out := Holds d'\<rparr> in
           if first_io (tl ws) = Failed then (Fatal ''history.json'', fs1)
           else (let fs2 = fs1\<lparr>pf_hist := Holds h'\<rparr> in
             case read_doc (pf_daily fs2) \<lparr>hd_generated_at = None, hd_limit = cf_retention cfg, hd_nodes = []\<rparr> of
               None \<Rightarrow> (Fatal ''history-daily.json'', fs2)
             | Some daily \<Rightarrow>
                 if first_io (tl (tl ws)) = Failed then (Fatal ''history-daily.json'', fs2)
                 else (let daily' = \<lparr>hd_generated_at = Some (isoSec now), hd_limit = cf_retention cfg,
                          hd_nodes = advance (roll_day (cf_retention cfg) (date_text now)) (cf_grace cfg) now by_id (hd_nodes daily)\<rparr>
                   in (Recorded (length (filter pr_up results)),
                       fs2\<lparr>pf_daily := Holds daily',
                           pf_pending := probe_pending outcome window now (first_io (tl (tl (tl ws)))) s (pf_pending fs2)\<rparr>)))))"

text \<open>\<open>ws\<close> and \<open>rws\<close>: the writes of the cycle and those of the rebuild that opens it, whose failure is skipped.\<close>

definition update_cycle ::
  "cycle_cfg \<Rightarrow> int \<Rightarrow> io list \<Rightarrow> io list \<Rightarrow> shape \<Rightarrow> outcome \<Rightarrow> public_files \<Rightarrow> cycle_result \<times> public_files" where
  "update_cycle cfg now rws ws s outcome fs =
     (let fs0 = snd (rebuild (cf_grace cfg) now rws s fs) in
      case pf_out fs0 of
        NoFile \<Rightarrow> (Fatal ''dojos.json'', fs0)
      | Unparsable \<Rightarrow> (Fatal ''dojos.json'', fs0)
      | Holds d \<Rightarrow>
          (case read_doc (pf_hist fs0) \<lparr>hd_generated_at = None, hd_limit = cf_window cfg, hd_nodes = []\<rparr> of
             None \<Rightarrow> (Fatal ''history.json'', fs0)
           | Some h \<Rightarrow>
               (case pool (\<lambda>n. probe_node outcome (pn_payload n) (pn_network n)) (pd_nodes d) of
                  None \<Rightarrow> (Fatal ''probe'', fs0)
                | Some results \<Rightarrow>
                    if pd_nodes d \<noteq> [] \<and> list_all (\<lambda>r. \<not> pr_up r) results
                    then (if first_io ws = Failed then (Fatal ''dojos.json'', fs0)
                          else (FaultNoted, fs0\<lparr>pf_out := Holds (d\<lparr>pd_fault := Some (isoSec now, length (pd_nodes d))\<rparr>)\<rparr>))
                    else record_cycle cfg now ws s outcome d h results fs0)))"

end
