(* ===== verification/PublishProps.thy ===== *)
theory PublishProps
  imports Publish
begin

text \<open>
  What the public list guarantees: only attested listings are published and a badge only for a verified domain, a
  rebuild that follows another changes no node, and the history of a listing is kept for the whole grace period.
\<close>

section \<open>Maps in insertion order\<close>

lemma map_from_snoc: "map_from (ps @ [p]) = AList.update (fst p) (snd p) (map_from ps)"
  by (simp add: map_from_def)

lemma map_of_map_from: "map_of (map_from ps) k = map_of (rev ps) k"
  by (induction ps rule: rev_induct) (auto simp: map_from_snoc update_conv' map_from_def)

lemma distinct_map_from: "distinct (map fst (map_from ps))"
  by (induction ps rule: rev_induct) (simp_all add: map_from_snoc distinct_update map_from_def)

lemma map_from_in: "(k, v) \<in> set (map_from ps) \<Longrightarrow> (k, v) \<in> set ps"
  using map_of_map_from [of ps k] distinct_map_from [of ps]
  by (metis map_of_SomeD map_of_eq_Some_iff set_rev)

lemma keys_map_from: "fst ` set (map_from ps) = fst ` set ps"
  by (induction ps rule: rev_induct) (auto simp: map_from_snoc dom_update map_from_def)

section \<open>Where a node comes from\<close>

text \<open>The record that a published id stands for: the last one of that id, approved records after the seed.\<close>

fun source_id :: "seed_entry + submission \<Rightarrow> string" where
  "source_id (Inl n) = sb_id (se_rec n)"
| "source_id (Inr s) = sb_id s"

definition source :: "seed_entry list \<Rightarrow> submission list \<Rightarrow> string \<Rightarrow> (seed_entry + submission) option" where
  "source seeds subs i = find (\<lambda>x. source_id x = i) (rev (map Inl seeds @ map Inr subs))"

lemma map_of_keyed: "map_of (map (\<lambda>x. (key x, f x)) xs) i = map_option f (find (\<lambda>x. key x = i) xs)"
  by (induction xs) auto

lemma listed_sources_map: "listed_sources f g seeds subs = map_from (map (\<lambda>x. (source_id x, case_sum f g x)) (map Inl seeds @ map Inr subs))"
  by (simp add: listed_sources_def comp_def)

lemma map_of_listed: "map_of (listed_sources f g seeds subs) i = map_option (case_sum f g) (source seeds subs i)"
  unfolding listed_sources_map map_of_map_from source_def rev_map map_of_keyed ..

lemma in_listed: "(i, v) \<in> set (listed_sources f g seeds subs) \<longleftrightarrow> (\<exists>x. source seeds subs i = Some x \<and> v = case_sum f g x)"
proof -
  have "distinct (map fst (listed_sources f g seeds subs))" by (simp add: listed_sources_def distinct_map_from)
  then have "(i, v) \<in> set (listed_sources f g seeds subs) \<longleftrightarrow> map_of (listed_sources f g seeds subs) i = Some v"
    by (simp add: map_of_eq_Some_iff)
  then show ?thesis by (auto simp: map_of_listed)
qed

lemma find_Some_in: "find P xs = Some x \<Longrightarrow> x \<in> set xs \<and> P x"
  by (auto simp: find_Some_iff)

lemma source_Some: "source seeds subs i = Some x \<Longrightarrow> source_id x = i \<and> (x \<in> Inl ` set seeds \<or> x \<in> Inr ` set subs)"
  by (auto simp: source_def dest: find_Some_in)

fun source_node :: "(string \<times> code_variant list) list \<Rightarrow> seed_entry + submission \<Rightarrow> public_node" where
  "source_node mapping (Inl n) = toPublicNode (se_rec n) (seed_code n)"
| "source_node mapping (Inr r) = toPublicNode r (displayPaymentCode r mapping)"

fun source_codes :: "seed_entry + submission \<Rightarrow> val list" where
  "source_codes (Inl n) = [seed_code n]"
| "source_codes (Inr r) = code_list r"

fun source_version :: "seed_entry + submission \<Rightarrow> val" where
  "source_version (Inl n) = pairing_version (se_rec n)"
| "source_version (Inr r) = pairing_version r"

lemma source_sums:
  "case_sum (\<lambda>n. toPublicNode (se_rec n) (seed_code n)) (\<lambda>r. toPublicNode r (displayPaymentCode r mapping)) x = source_node mapping x"
  "case_sum (\<lambda>n. [seed_code n]) code_list x = source_codes x"
  "case_sum (\<lambda>n. pairing_version (se_rec n)) pairing_version x = source_version x"
  by (cases x; simp)+

definition published ::
  "(string \<times> code_variant list) list \<Rightarrow> shape \<Rightarrow> live option \<Rightarrow> seed_entry + submission \<Rightarrow> public_node" where
  "published mapping s l x =
     with_live l (source_version x) (with_domain (case verifiedDomainMap s of (Inr m, _, _) \<Rightarrow> m | _ \<Rightarrow> [])
       (claims_by_code (ovalues (Store.domains s))) (source_codes x) (source_node mapping x))"

definition sources_of :: "seed_entry list \<Rightarrow> shape \<Rightarrow> string \<Rightarrow> (seed_entry + submission) option" where
  "sources_of seeds s = source seeds (approved_subs (ovalues (submissions s)))"

definition live_of :: "shape \<Rightarrow> public_node list \<Rightarrow> pending_entry obj \<Rightarrow> string \<Rightarrow> live option" where
  "live_of s prior pending =
     carried (map_from (map (\<lambda>n. (pn_id n, n)) prior)) (set (map sb_id (approved_subs (ovalues (submissions s))))) pending"

definition listed_ids :: "seed_entry list \<Rightarrow> shape \<Rightarrow> string list" where
  "listed_ids seeds s = map fst (listed_sources (\<lambda>n. ()) (\<lambda>r. ()) seeds (approved_subs (ovalues (submissions s))))"

lemma keys_update: "map fst (AList.update k v m) = (if k \<in> fst ` set m then map fst m else map fst m @ [k])"
  by (induction m) auto

lemma keys_map_from_cong: "map fst ps = map fst qs \<Longrightarrow> map fst (map_from ps) = map fst (map_from qs)"
proof (induction ps arbitrary: qs rule: rev_induct)
  case (snoc p ps)
  from snoc.prems obtain qs' q where q: "qs = qs' @ [q]" "map fst ps = map fst qs'" "fst p = fst q"
    by (cases qs rule: rev_cases) auto
  with snoc.IH have "map fst (map_from ps) = map fst (map_from qs')" by simp
  then show ?case using q(3) by (simp add: q(1) map_from_snoc keys_update) (metis image_set)
qed (simp add: map_from_def)

lemma keys_listed: "map fst (listed_sources f g seeds subs) = map fst (listed_sources f' g' seeds subs)"
  unfolding listed_sources_map by (rule keys_map_from_cong) simp

lemma public_nodes_map:
  "public_nodes seeds mapping s prior pending =
     map (\<lambda>i. published mapping s (live_of s prior pending i) (the (sources_of seeds s i))) (listed_ids seeds s)"
proof -
  let ?subs = "approved_subs (ovalues (submissions s))"
  let ?L = "listed_sources (\<lambda>n. toPublicNode (se_rec n) (seed_code n)) (\<lambda>r. toPublicNode r (displayPaymentCode r mapping)) seeds ?subs"
  let ?F = "\<lambda>i. published mapping s (live_of s prior pending i) (the (sources_of seeds s i))"
  have "public_nodes seeds mapping s prior pending = map (?F \<circ> fst) ?L"
    unfolding public_nodes_def Let_def
  proof (rule map_cong [OF refl], clarify)
    fix i n assume "(i, n) \<in> set ?L"
    then obtain x where x: "source seeds ?subs i = Some x" "n = source_node mapping x"
      unfolding in_listed source_sums by blast
    then show "with_live (carried (map_from (map (\<lambda>n. (pn_id n, n)) prior)) (set (map sb_id ?subs)) pending i)
        (case map_of (listed_sources (\<lambda>n. pairing_version (se_rec n)) pairing_version seeds ?subs) i of Some v \<Rightarrow> v | None \<Rightarrow> Undef)
        (with_domain (case verifiedDomainMap s of (Inr m, _, _) \<Rightarrow> m | _ \<Rightarrow> []) (claims_by_code (ovalues (Store.domains s)))
          (case map_of (listed_sources (\<lambda>n. [seed_code n]) code_list seeds ?subs) i of Some cs \<Rightarrow> cs | None \<Rightarrow> []) n) = (?F \<circ> fst) (i, n)"
      by (simp add: map_of_listed source_sums published_def sources_of_def live_of_def)
  qed
  also have "\<dots> = map ?F (map fst ?L)" by simp
  also have "map fst ?L = listed_ids seeds s" unfolding listed_ids_def by (rule keys_listed)
  finally show ?thesis .
qed

lemma distinct_listed_ids: "distinct (listed_ids seeds s)"
  by (simp add: listed_ids_def listed_sources_def distinct_map_from)

lemma listed_id_source: "i \<in> set (listed_ids seeds s) \<Longrightarrow> \<exists>x. sources_of seeds s i = Some x"
  unfolding listed_ids_def sources_of_def by (auto simp: in_listed)

lemma published_id [simp]: "pn_id (published mapping s l x) = source_id x"
  by (cases x) (simp_all add: published_def with_live_def with_domain_def toPublicNode_def Let_def)

lemma public_ids: "map pn_id (public_nodes seeds mapping s prior pending) = listed_ids seeds s"
  unfolding public_nodes_map map_map comp_def published_id
  by (rule map_idI) (use listed_id_source source_Some in \<open>fastforce simp: sources_of_def\<close>)

section \<open>A rebuild after a rebuild\<close>

lemma nullish_again [simp]: "nullish (nullish a Null) Null = nullish a Null" "nullish (nullish a (Str t)) (Str t) = nullish a (Str t)"
  by (simp_all add: nullish_def)

lemma js_or_again [simp]: "js_or (js_or a Null) Null = js_or a Null"
  by (simp add: js_or_def)

lemma carry_again: "carry (Some (carry l unprobed)) unprobed = carry l unprobed"
  by (cases l) (simp_all add: carry_def unprobed_def nullish_def js_or_def)

lemma published_live: "pn_live (published mapping s l x) = carry l unprobed"
  by (cases x) (simp_all add: published_def with_live_def with_domain_def toPublicNode_def Let_def)

lemma published_again: "published mapping s (Some (pn_live (published mapping s l x))) x = published mapping s l x"
  unfolding published_live
  by (cases x) (simp_all add: published_def with_live_def with_domain_def toPublicNode_def Let_def carry_again)

lemma map_of_own_nodes:
  assumes "distinct (map pn_id ns)" and "n \<in> set ns"
  shows "map_of (map_from (map (\<lambda>n. (pn_id n, n)) ns)) (pn_id n) = Some n"
proof -
  have "map fst (rev (map (\<lambda>n. (pn_id n, n)) ns)) = rev (map pn_id ns)" by (simp add: rev_map comp_def)
  with assms show ?thesis unfolding map_of_map_from by (intro map_of_is_SomeI) auto
qed

lemma public_nodes_again:
  "public_nodes seeds mapping s (public_nodes seeds mapping s prior pending) pending' = public_nodes seeds mapping s prior pending"
proof -
  let ?ns = "public_nodes seeds mapping s prior pending"
  have d: "distinct (map pn_id ?ns)" by (simp add: public_ids distinct_listed_ids)
  have "published mapping s (live_of s ?ns pending' i) (the (sources_of seeds s i)) =
      published mapping s (live_of s prior pending i) (the (sources_of seeds s i))" if i: "i \<in> set (listed_ids seeds s)" for i
  proof -
    let ?x = "the (sources_of seeds s i)"
    define n where "n = published mapping s (live_of s prior pending i) ?x"
    have id: "pn_id n = i" using listed_id_source [OF i] source_Some by (fastforce simp: sources_of_def n_def)
    have "n \<in> set ?ns" unfolding public_nodes_map n_def using i by auto
    from map_of_own_nodes [OF d this] have m: "map_of (map_from (map (\<lambda>n. (pn_id n, n)) ?ns)) i = Some n" unfolding id .
    have "live_of s ?ns pending' i = Some (pn_live n)" by (simp add: live_of_def carried_def m)
    then show ?thesis unfolding n_def [symmetric] by (simp add: n_def published_again)
  qed
  then show ?thesis by (subst (1 3) public_nodes_map) (rule map_cong [OF refl])
qed

section \<open>What a rebuild leaves behind\<close>

lemma rebuild_ok:
  assumes "rebuild grace now ws s fs = (Inr r, fs')"
  obtains seed mapping prior pending where "read_doc (pf_seed fs) [] = Some seed" and "read_doc (pf_codes fs) [] = Some mapping"
    and "pf_out fs' = Holds \<lparr>pd_generated_at = Some (to_iso (now div 1000 * 1000)),
        pd_nodes = public_nodes (seed_nodes seed) mapping s prior pending, pd_fault = None\<rparr>"
    and "prior = (case pf_out fs of Holds d \<Rightarrow> pd_nodes d | _ \<Rightarrow> [])" and "read_doc (pf_pending fs) [] = Some pending"
proof -
  obtain seed mapping where a: "read_doc (pf_seed fs) [] = Some seed" "read_doc (pf_codes fs) [] = Some mapping"
    using assms by (cases "read_doc (pf_seed fs) []"; cases "read_doc (pf_codes fs) []") (simp_all add: rebuild_def)
  have c: "seed \<noteq> [None]" using assms a by (auto simp: rebuild_def)
  obtain prior pending where
    b: "read_doc (pf_out fs) \<lparr>pd_generated_at = None, pd_nodes = [], pd_fault = None\<rparr> = Some prior" "read_doc (pf_pending fs) [] = Some pending"
    using assms a c
    by (cases "read_doc (pf_out fs) \<lparr>pd_generated_at = None, pd_nodes = [], pd_fault = None\<rparr>"; cases "read_doc (pf_pending fs) []")
      (simp_all add: rebuild_def)
  have w: "first_io ws \<noteq> Failed" using assms a b c by (auto simp: rebuild_def Let_def)
  note step = assms [unfolded rebuild_def Let_def a b option.case prod.case if_not_P [OF c] if_not_P [OF w]]
  have "pf_out fs' = Holds \<lparr>pd_generated_at = Some (to_iso (now div 1000 * 1000)),
        pd_nodes = public_nodes (seed_nodes seed) mapping s (pd_nodes prior) pending, pd_fault = None\<rparr>"
    using step by (auto split: prod.splits sum.splits)
  moreover have "pd_nodes prior = (case pf_out fs of Holds d \<Rightarrow> pd_nodes d | _ \<Rightarrow> [])"
    using b(1) by (cases "pf_out fs") (auto simp: read_doc_def)
  ultimately show thesis using that a b(2) by blast
qed

lemma in_public_nodes:
  assumes "n \<in> set (public_nodes seeds mapping s prior pending)"
  obtains x l where "n = published mapping s l x" and "x \<in> Inl ` set seeds \<or> x \<in> Inr ` set (approved_subs (ovalues (submissions s)))"
proof -
  from assms obtain i where i: "i \<in> set (listed_ids seeds s)"
    and n: "n = published mapping s (live_of s prior pending i) (the (sources_of seeds s i))"
    unfolding public_nodes_map by auto
  from listed_id_source [OF i] obtain x where "sources_of seeds s i = Some x" by blast
  with n that source_Some [of seeds _ i x] show thesis by (auto simp: sources_of_def)
qed

text \<open>The record a published node stands for: its payload and its signature are published as they are, it has a
  payment code and a signed block, and a record of the store is an approved one.\<close>

definition attests :: "shape \<Rightarrow> seed_entry option list \<Rightarrow> public_node \<Rightarrow> submission \<Rightarrow> val list \<Rightarrow> bool" where
  "attests s seed n rec codes \<longleftrightarrow>
     pn_id n = sb_id rec \<and> pn_payload n = sb_payload rec \<and> pn_signed n = text_or_none (sb_signed rec) \<and> hasSignedBlock rec \<and> codes \<noteq> [] \<and>
     (rec \<in> set (ovalues (submissions s)) \<and> sb_status rec = ''approved'' \<and> codes = code_list rec \<or>
      (\<exists>c. Some \<lparr>se_rec = rec, se_paymentCode = Some c\<rparr> \<in> set seed \<and> c \<noteq> [] \<and> codes = [Str c]))"

lemma source_attests:
  assumes "x \<in> Inl ` set (seed_nodes seed) \<or> x \<in> Inr ` set (approved_subs (ovalues (submissions s)))"
  shows "\<exists>rec. attests s seed (published mapping s l x) rec (source_codes x)"
  using assms
proof
  assume "x \<in> Inl ` set (seed_nodes seed)"
  then obtain e where e: "x = Inl e" "Some e \<in> set seed" "text_or_none (se_paymentCode e) \<noteq> None" "hasSignedBlock (se_rec e)"
    by (auto simp: seed_nodes_def split: option.splits if_splits)
  from e(3) obtain c where c: "se_paymentCode e = Some c" "c \<noteq> []" by (auto simp: text_or_none_def split: if_splits)
  obtain rec where "e = \<lparr>se_rec = rec, se_paymentCode = Some c\<rparr>" using c(1) by (cases e) simp
  with e c show ?thesis
    by (intro exI [of _ rec]) (auto simp: attests_def published_def with_live_def with_domain_def toPublicNode_def Let_def
        seed_code_def text_or_none_def)
next
  assume "x \<in> Inr ` set (approved_subs (ovalues (submissions s)))"
  then show ?thesis
    by (auto simp: attests_def published_def with_live_def with_domain_def toPublicNode_def Let_def approved_subs_def)
qed

lemma verified_map_in:
  assumes "verifiedDomainMap s = (Inr m, t, b)" and "map_of m code = Some d"
  shows "\<exists>c \<in> set (ovalues (Store.domains s)). dc_verified c \<and> dc_domain c = d \<and> dc_paymentCode c = code \<and> d \<noteq> []"
proof -
  have "\<exists>c \<in> set cs. dc_verified c \<and> dc_domain c = d \<and> dc_paymentCode c = code \<and> d \<noteq> []"
    if "map_of (fold (\<lambda>c m. if dc_verified c \<and> dc_domain c \<noteq> [] then AList.update (dc_paymentCode c) (dc_domain c) m else m) cs []) code = Some d"
    for cs using that by (induction cs rule: rev_induct) (auto simp: update_conv' split: if_splits)
  with assms show ?thesis by (auto simp: verifiedDomainMap_def)
qed

lemma badge_verified:
  assumes "pn_operator_domain (published mapping s l x) = Some d"
  shows "\<exists>c \<in> set (ovalues (Store.domains s)). dc_verified c \<and> dc_domain c = d \<and> Str (dc_paymentCode c) \<in> set (source_codes x)"
proof -
  obtain m where m: "verifiedDomainMap s = (Inr m, s, False)" by (simp add: verifiedDomainMap_def)
  from assms obtain c where c: "find (\<lambda>c. owner_domain m c \<noteq> None) (source_codes x) = Some c" and s: "text_or_none (map_of m (str_of c)) = Some d"
    by (auto simp: published_def with_live_def with_domain_def Let_def m text_or_none_def bind_eq_Some_conv split: option.splits if_splits)
  from find_Some_in [OF c] have "c \<in> set (source_codes x)" "owner_domain m c \<noteq> None" by simp_all
  moreover from this(2) obtain code where "c = Str code" by (cases c) (auto simp: owner_domain_def)
  moreover have "map_of m (str_of c) = Some d" using s by (simp add: text_or_none_def split: if_splits)
  ultimately show ?thesis using verified_map_in [OF m, of "str_of c" d] by force
qed

text \<open>C23: whatever the files hold, a rebuild publishes only attested listings, each under an id of its own: an approved
  record of the store or a seed node, with a payment code and a signed block, its payload as it was signed for; and a
  badge only for a domain that a verified claim gives to one of the payment codes of that very listing.\<close>

theorem published_only_attested:
  assumes "rebuild grace now ws s fs = (Inr r, fs')"
  shows "\<exists>seed d. read_doc (pf_seed fs) [] = Some seed \<and> pf_out fs' = Holds d \<and> distinct (map pn_id (pd_nodes d)) \<and>
    list_all (\<lambda>n. \<exists>rec codes. attests s seed n rec codes \<and>
      (case pn_operator_domain n of None \<Rightarrow> True | Some u \<Rightarrow>
         list_ex (\<lambda>c. dc_verified c \<and> dc_domain c = u \<and> Str (dc_paymentCode c) \<in> set codes) (ovalues (Store.domains s)))) (pd_nodes d)"
proof -
  from rebuild_ok [OF assms] obtain seed mapping prior pending where r: "read_doc (pf_seed fs) [] = Some seed"
    "pf_out fs' = Holds \<lparr>pd_generated_at = Some (to_iso (now div 1000 * 1000)),
        pd_nodes = public_nodes (seed_nodes seed) mapping s prior pending, pd_fault = None\<rparr>" by metis
  let ?ok = "\<lambda>n. \<exists>rec codes. attests s seed n rec codes \<and>
      (case pn_operator_domain n of None \<Rightarrow> True | Some u \<Rightarrow>
         list_ex (\<lambda>c. dc_verified c \<and> dc_domain c = u \<and> Str (dc_paymentCode c) \<in> set codes) (ovalues (Store.domains s)))"
  have "?ok n" if n: "n \<in> set (public_nodes (seed_nodes seed) mapping s prior pending)" for n
  proof -
    from in_public_nodes [OF n] obtain x l where x: "n = published mapping s l x"
      "x \<in> Inl ` set (seed_nodes seed) \<or> x \<in> Inr ` set (approved_subs (ovalues (submissions s)))" .
    from source_attests [OF x(2)] obtain rec where a: "attests s seed n rec (source_codes x)" unfolding x(1) by blast
    show ?thesis
      by (rule exI [of _ rec], rule exI [of _ "source_codes x"])
        (use a badge_verified [of mapping s l x] in \<open>auto simp: x(1) list_ex_iff split: option.splits\<close>)
  qed
  moreover have "distinct (map pn_id (public_nodes (seed_nodes seed) mapping s prior pending))"
    by (simp add: public_ids distinct_listed_ids)
  ultimately show ?thesis using r by (simp add: list_all_iff)
qed

definition ex_listing :: submission where
  "ex_listing = \<lparr>sb_id = ''mainnet-a'', sb_network = ''mainnet'', sb_name = ''a'', sb_status = ''approved'',
     sb_codes = Some [Str ''PM8Ta''], sb_code = None, sb_paynym = None, sb_jurisdiction = None, sb_country = None, sb_hardware = None,
     sb_payload = Null, sb_signed = Some ''BEGIN BITCOIN SIGNED MESSAGE BEGIN BITCOIN SIGNATURE'', sb_last_probe = Null,
     sb_created_at = None, sb_updated_at = None, sb_source = None\<rparr>"

definition ex_shape :: shape where
  "ex_shape = EMPTY_SHAPE\<lparr>submissions := [(''mainnet-a'', ex_listing)]\<rparr>"

definition ex_files :: public_files where
  "ex_files = \<lparr>pf_seed = Holds [Some \<lparr>se_rec = ex_listing\<lparr>sb_id := ''anchor''\<rparr>, se_paymentCode = Some ''PM8Tb''\<rparr>], pf_codes = NoFile,
     pf_out = NoFile, pf_pending = NoFile, pf_hist = NoFile, pf_daily = NoFile\<rparr>"

lemma ex_rebuild: "case rebuild 14 0 [] ex_shape ex_files of (Inr r, fs) \<Rightarrow> rb_nodes r = 2 | _ \<Rightarrow> False"
  by code_simp

theorem published_only_attested_witness:
  "\<exists>r fs' d. rebuild 14 0 [] ex_shape ex_files = (Inr r, fs') \<and> pf_out fs' = Holds d \<and> distinct (map pn_id (pd_nodes d))"
proof -
  obtain r fs' where r: "rebuild 14 0 [] ex_shape ex_files = (Inr r, fs')" using ex_rebuild by (auto split: prod.splits sum.splits)
  from published_only_attested [OF r] r show ?thesis by blast
qed

text \<open>A rebuild that follows another, with nothing between them that changed the seed, the store or the published
  list, publishes the same nodes: the live status, the detected version and the badge of every node survive, and the
  pending probe is not consulted again.\<close>

theorem rebuild_again_same_nodes:
  assumes "rebuild grace now ws s fs = (Inr r, fs1)" and "rebuild grace' now' ws' s fs2 = (Inr r', fs3)"
    and "pf_out fs2 = pf_out fs1" and "pf_seed fs2 = pf_seed fs" and "pf_codes fs2 = pf_codes fs"
  shows "\<exists>d d'. pf_out fs1 = Holds d \<and> pf_out fs3 = Holds d' \<and> pd_nodes d' = pd_nodes d"
proof -
  from rebuild_ok [OF assms(1)] obtain seed mapping prior pending where a: "read_doc (pf_seed fs) [] = Some seed"
    "read_doc (pf_codes fs) [] = Some mapping" "pf_out fs1 = Holds \<lparr>pd_generated_at = Some (to_iso (now div 1000 * 1000)),
        pd_nodes = public_nodes (seed_nodes seed) mapping s prior pending, pd_fault = None\<rparr>" by metis
  from rebuild_ok [OF assms(2)] obtain seed' mapping' pending' where b: "read_doc (pf_seed fs2) [] = Some seed'"
    "read_doc (pf_codes fs2) [] = Some mapping'" "pf_out fs3 = Holds \<lparr>pd_generated_at = Some (to_iso (now' div 1000 * 1000)),
        pd_nodes = public_nodes (seed_nodes seed') mapping' s (case pf_out fs2 of Holds d \<Rightarrow> pd_nodes d | _ \<Rightarrow> []) pending', pd_fault = None\<rparr>"
    by metis
  from a b assms(3-5) show ?thesis by (simp add: public_nodes_again)
qed

theorem rebuild_again_same_nodes_witness:
  "\<exists>fs1 fs3 d d'. snd (rebuild 14 0 [] ex_shape ex_files) = fs1 \<and> snd (rebuild 14 5000 [] ex_shape fs1) = fs3 \<and>
     pf_out fs1 = Holds d \<and> pf_out fs3 = Holds d' \<and> pd_nodes d' = pd_nodes d"
proof -
  have "case rebuild 14 5000 [] ex_shape (snd (rebuild 14 0 [] ex_shape ex_files)) of (Inr r, fs) \<Rightarrow> True | _ \<Rightarrow> False"
    by code_simp
  then obtain r fs1 r' fs3 where r: "rebuild 14 0 [] ex_shape ex_files = (Inr r, fs1)" "rebuild 14 5000 [] ex_shape fs1 = (Inr r', fs3)"
    using ex_rebuild by (auto split: prod.splits sum.splits)
  have "pf_seed fs1 = pf_seed ex_files" "pf_codes fs1 = pf_codes ex_files"
    using r(1) by (auto simp: rebuild_def Let_def split: prod.splits sum.splits option.splits if_splits)
  from rebuild_again_same_nodes [OF r refl this] r show ?thesis by auto
qed

section \<open>The grace period\<close>

lemma keys_retire: "set (map fst (fst (retireUnlisted L g now m))) \<subseteq> set (map fst m)"
proof (induction m)
  case (Cons p m)
  then show ?case by (cases p) (fastforce simp: Let_def image_iff subset_iff split: prod.splits option.splits)
qed simp

lemma distinct_retire: "distinct (map fst m) \<Longrightarrow> distinct (map fst (fst (retireUnlisted L g now m)))"
proof (induction m)
  case (Cons p m)
  have "fst p \<notin> set (map fst (fst (retireUnlisted L g now m)))" using Cons.prems keys_retire [of L g now m] by auto
  with Cons show ?case by (cases p) (auto simp: Let_def split: prod.splits option.splits)
qed simp

lemma map_of_retire:
  "distinct (map fst m) \<Longrightarrow> map_of (fst (retireUnlisted L g now m)) k = Option.bind (map_of m k) (retire_entry (L k) g now)"
proof (induction m)
  case (Cons p m)
  obtain k' e where p: "p = (k', e)" by (cases p)
  have "map_of (fst (retireUnlisted L g now m)) k' = None"
    using Cons.prems keys_retire [of L g now m] by (auto simp: p map_of_eq_None_iff)
  with Cons show ?case by (auto simp: p Let_def split: prod.splits option.splits)
qed simp

definition retire_run :: "int \<Rightarrow> (int \<times> (string \<Rightarrow> bool)) list \<Rightarrow> 'a tracked obj \<Rightarrow> 'a tracked obj" where
  "retire_run grace steps m = fold (\<lambda>(now, listed) m. fst (retireUnlisted listed grace now m)) steps m"

lemma retire_run_snoc: "retire_run g (xs @ [(now, L)]) m = fst (retireUnlisted L g now (retire_run g xs m))"
  by (simp add: retire_run_def)

lemma distinct_retire_run: "distinct (map fst m) \<Longrightarrow> distinct (map fst (retire_run g xs m))"
  by (induction xs rule: rev_induct) (auto simp: retire_run_snoc distinct_retire, simp add: retire_run_def)

lemma run_entry:
  "distinct (map fst m) \<Longrightarrow> map_of (retire_run g (xs @ [(now, L)]) m) k =
     Option.bind (map_of (retire_run g xs m) k) (retire_entry (L k) g now)"
  by (simp add: retire_run_snoc map_of_retire distinct_retire_run)

definition unlisted_since :: "(int \<times> (string \<Rightarrow> bool)) list \<Rightarrow> string \<Rightarrow> int \<Rightarrow> bool" where
  "unlisted_since steps k t \<longleftrightarrow>
     (\<exists>us L vs. steps = us @ (t, L) # vs \<and> \<not> L k \<and> list_all (\<lambda>(now, L'). \<not> L' k) vs)"

lemma unlisted_start: "\<not> L k \<Longrightarrow> unlisted_since (xs @ [(t, L)]) k t"
  by (force simp: unlisted_since_def)

lemma unlisted_more: "unlisted_since xs k t \<Longrightarrow> \<not> L k \<Longrightarrow> unlisted_since (xs @ [(now, L)]) k t"
  by (force simp: unlisted_since_def)

definition entry_after :: "int \<Rightarrow> (int \<times> (string \<Rightarrow> bool)) list \<Rightarrow> string \<Rightarrow> 'a tracked \<Rightarrow> 'a tracked option \<Rightarrow> bool" where
  "entry_after g steps k e x \<longleftrightarrow>
     (case x of
        Some e' \<Rightarrow> tr_series e' = tr_series e \<and>
          (is_retired e' \<longrightarrow> (\<exists>t. tr_retired e' = Some (Instant t) \<and> unlisted_since steps k t))
      | None \<Rightarrow> \<exists>us now L ws t. steps = us @ (now, L) # ws \<and> \<not> L k \<and> unlisted_since us k t \<and> g * day_ms < now - t)"

lemma entry_step:
  assumes "entry_after g xs k e x"
  shows "entry_after g (xs @ [(now, L)]) k e (Option.bind x (retire_entry (L k) g now))"
proof (cases x)
  case None
  with assms show ?thesis by (fastforce simp: entry_after_def)
next
  case (Some e')
  show ?thesis
  proof (cases "L k \<or> \<not> is_retired e'")
    case True
    with assms Some show ?thesis
      by (auto simp: entry_after_def retire_entry_def is_retired_def stamp_or_def to_iso_def unlisted_start)
  next
    case False
    with assms Some obtain t where t: "tr_retired e' = Some (Instant t)" "unlisted_since xs k t" "tr_series e' = tr_series e"
      by (auto simp: entry_after_def)
    show ?thesis
    proof (cases "t < now - g * day_ms")
      case True
      then have "g * day_ms < now - t" by simp
      moreover have "retire_entry (L k) g now e' = None" using False t True by (simp add: retire_entry_def)
      ultimately show ?thesis using False t(2) by (auto simp: entry_after_def Some)
    next
      case still: False
      then have "retire_entry (L k) g now e' = Some e'" using False t by (simp add: retire_entry_def)
      then show ?thesis using False t by (auto simp: entry_after_def Some unlisted_more)
    qed
  qed
qed

text \<open>C24: however often the two programs that maintain the history bring it in line with the list, the series of an
  entry is never cut and the entry goes only when the listing was missing from the list at a pass, at every pass after
  it, and still at a pass more than the grace period later. One reappearance starts the period anew.\<close>

theorem history_kept_for_grace:
  assumes "distinct (map fst m)" and "map_of m k = Some e" and "\<not> is_retired e"
  shows "case map_of (retire_run grace steps m) k of
      Some e' \<Rightarrow> tr_series e' = tr_series e
    | None \<Rightarrow> \<exists>us now L ws t. steps = us @ (now, L) # ws \<and> \<not> L k \<and> unlisted_since us k t \<and> grace * day_ms < now - t"
proof -
  have "entry_after grace steps k e (map_of (retire_run grace steps m) k)"
  proof (induction steps rule: rev_induct)
    case Nil
    then show ?case using assms(2,3) by (simp add: retire_run_def entry_after_def)
  next
    case (snoc p xs)
    then show ?case by (cases p) (simp add: run_entry [OF assms(1)] entry_step)
  qed
  then show ?thesis by (auto simp: entry_after_def split: option.splits)
qed

theorem history_kept_for_grace_witness:
  "\<exists>us now L ws t. [(0, \<lambda>k. False), (15 * day_ms, \<lambda>k. False)] = us @ (now, L) # ws \<and> \<not> L ''a'' \<and> unlisted_since us ''a'' t \<and>
     14 * day_ms < now - t"
proof -
  let ?m = "[(''a'', \<lparr>tr_series = [True], tr_retired = None\<rparr>)]"
  have "map_of (retire_run 14 [(0, \<lambda>k. False), (15 * day_ms, \<lambda>k. False)] ?m) ''a'' = None"
    by (simp add: retire_run_def retire_entry_def is_retired_def stamp_or_def to_iso_def day_ms_def Let_def)
  with history_kept_for_grace [where m = ?m and k = "''a''" and grace = 14
    and steps = "[(0, \<lambda>k. False), (15 * day_ms, \<lambda>k. False)]"]
  show ?thesis by (simp add: is_retired_def stamp_or_def)
qed

end
