(* ===== verification/UpdateProps.thy ===== *)
theory UpdateProps
  imports UpdateCycle PublishProps
begin

text \<open>
  What the updater guarantees: the handshake does not depend on how its bytes are cut into pieces, a node can publish
  only short plain texts about itself, a cycle in which every probe failed records nothing, and the histories stay
  within their bounds.
\<close>

section \<open>The handshake\<close>

lemma byte_at_append: "i < length s \<Longrightarrow> byte_at (s @ t) i = byte_at s i"
  by (simp add: byte_at_def nth_append)

lemma addr_len_append: "4 \<le> length s \<Longrightarrow> addr_len s = Some n \<Longrightarrow> addr_len (s @ t) = Some n"
  by (auto simp: addr_len_def Let_def byte_at_append split: if_splits)

lemma reply_result_append:
  assumes "reply_result s \<noteq> Waiting"
  shows "reply_result (s @ t) = reply_result s"
proof -
  have len: "\<not> length s < 4" using assms by (auto simp: reply_result_def)
  then have b: "byte_at (s @ t) (Suc 0) = byte_at s (Suc 0)" by (simp add: byte_at_append)
  show ?thesis
  proof (cases "byte_at s (Suc 0) = 0")
    case True
    then obtain n where "addr_len s = Some n" "\<not> length s < 4 + n + 2"
      using assms len by (auto simp: reply_result_def split: option.splits if_splits)
    with True len b show ?thesis by (simp add: reply_result_def addr_len_append)
  qed (use len b in \<open>simp add: reply_result_def\<close>)
qed

text \<open>Two states that no later piece can tell apart.\<close>

definition socks_like :: "socks \<Rightarrow> socks \<Rightarrow> bool" where
  "socks_like a b \<longleftrightarrow> sk_result a = sk_result b \<and> (sk_result a = Waiting \<longrightarrow> a = b)"

lemma socks_like_step: "socks_like a b \<Longrightarrow> socks_like (on_socks_data d a) (on_socks_data d b)"
  by (cases "sk_result a = Waiting") (auto simp: socks_like_def on_socks_data_def)

lemma socks_joined: "socks_like (on_socks_data e (on_socks_data d k)) (on_socks_data (d @ e) k)"
proof (cases "sk_result k = Waiting")
  case True
  show ?thesis
  proof (cases "sk_stage k")
    case Reply
    then show ?thesis using True reply_result_append [of "sk_buf k @ d" e]
      by (cases "reply_result (sk_buf k @ d) = Waiting") (auto simp: socks_like_def on_socks_data_def Let_def)
  next
    case Greet
    show ?thesis
    proof (cases "length (sk_buf k @ d) < 2")
      case True
      then show ?thesis using Greet \<open>sk_result k = Waiting\<close> by (simp add: socks_like_def on_socks_data_def Let_def)
    next
      case False
      let ?b = "sk_buf k @ d"
      have b0: "byte_at (?b @ e) 0 = byte_at ?b 0" by (rule byte_at_append) (use False in linarith)
      have b1: "byte_at (?b @ e) 1 = byte_at ?b 1" by (rule byte_at_append) (use False in linarith)
      have b2: "drop 2 (?b @ e) = drop 2 ?b @ e" using False drop_append [of 2 ?b e] by (simp del: drop_append append_assoc)
      note idle = Greet \<open>sk_result k = Waiting\<close>
      have joined: "on_socks_data (d @ e) k =
          (if length (?b @ e) < 2 then k\<lparr>sk_buf := ?b @ e\<rparr>
           else if byte_at (?b @ e) 0 \<noteq> 5 \<or> byte_at (?b @ e) 1 \<noteq> 0 then k\<lparr>sk_buf := ?b @ e, sk_result := NoAuthRefused\<rparr>
           else \<lparr>sk_stage = Reply, sk_buf = drop 2 (?b @ e), sk_result = reply_result (drop 2 (?b @ e))\<rparr>)"
        using idle by (simp add: on_socks_data_def Let_def del: drop_append)
      have first: "on_socks_data d k =
          (if byte_at ?b 0 \<noteq> 5 \<or> byte_at ?b 1 \<noteq> 0 then k\<lparr>sk_buf := ?b, sk_result := NoAuthRefused\<rparr>
           else \<lparr>sk_stage = Reply, sk_buf = drop 2 ?b, sk_result = reply_result (drop 2 ?b)\<rparr>)"
        using idle False by (simp add: on_socks_data_def Let_def del: drop_append)
      have "\<not> length (?b @ e) < 2" using False by simp
      note joined = joined [unfolded if_not_P [OF this] b0 b1 b2]
      show ?thesis
      proof (cases "byte_at ?b 0 \<noteq> 5 \<or> byte_at ?b 1 \<noteq> 0")
        case True
        show ?thesis unfolding first joined if_P [OF True] by (simp add: socks_like_def on_socks_data_def)
      next
        case ok: False
        show ?thesis unfolding first joined if_not_P [OF ok]
          using reply_result_append [of "drop 2 ?b" e]
          by (cases "reply_result (drop 2 ?b) = Waiting") (simp_all add: socks_like_def on_socks_data_def Let_def del: drop_append)
      qed
    qed
  qed
qed (simp add: socks_like_def on_socks_data_def)

lemma socks_like_trans: "socks_like a b \<Longrightarrow> socks_like b c \<Longrightarrow> socks_like a c"
  unfolding socks_like_def by metis

lemma socks_fold: "socks_like (fold on_socks_data ps socks_start) (on_socks_data (concat ps) socks_start)"
proof (induction ps rule: rev_induct)
  case Nil
  show ?case by (simp add: socks_like_def on_socks_data_def socks_start_def)
next
  case (snoc d ps)
  then show ?case using socks_like_step [OF snoc] socks_joined [of d "concat ps" socks_start] socks_like_trans by fastforce
qed

text \<open>C25: the outcome of the SOCKS handshake depends only on the bytes the proxy sent, not on the pieces in which
  they arrived.\<close>

theorem handshake_of_any_pieces: "socks5Connect pieces = socks5Connect [concat pieces]"
  using socks_fold [of pieces] by (simp add: socks5Connect_def socks_like_def)

section \<open>What a node can publish about itself\<close>

definition version_char :: "char \<Rightarrow> bool" where
  "version_char c \<longleftrightarrow> suffix_char c \<or> c = CHR ''-'' \<or> c = CHR ''+''"

definition version_shape :: "string option \<Rightarrow> bool" where
  "version_shape v \<longleftrightarrow> (case v of None \<Rightarrow> True | Some s \<Rightarrow> s \<noteq> [] \<and> length s \<le> 32 \<and> is_digit (hd s) \<and> list_all version_char s)"

definition url_char :: "char \<Rightarrow> bool" where
  "url_char c \<longleftrightarrow> suffix_char c \<or> c = CHR '':'' \<or> c = CHR ''/''"

definition indexer_shape :: "string option \<Rightarrow> bool" where
  "indexer_shape v \<longleftrightarrow> (case v of None \<Rightarrow> True | Some s \<Rightarrow>
     (to_lower (take 6 s) = ''tcp://'' \<or> to_lower (take 6 s) = ''ssl://'') \<and> to_lower (take 7 (drop 62 s)) = ''.onion:'' \<and>
     length s \<le> 74 \<and> list_all url_char s)"

lemma digit_version [simp]: "is_digit c \<Longrightarrow> version_char c"
  by (simp add: version_char_def suffix_char_def)

lemma takeWhile_all: "list_all P (takeWhile P xs)"
  by (induction xs) auto

lemma list_all_mono': "list_all P xs \<Longrightarrow> (\<And>x. P x \<Longrightarrow> Q x) \<Longrightarrow> list_all Q xs"
  by (induction xs) auto

lemma version_rest_chars: "version_rest n s \<Longrightarrow> list_all version_char s"
proof (induction n s rule: version_rest.induct)
  case (1 s)
  then show ?case by (auto simp: version_char_def elim: list_all_mono' split: list.splits)
next
  case (2 n s)
  show ?case
  proof (cases "s \<noteq> [] \<and> hd s = CHR ''.'' \<and> takeWhile is_digit (tl s) \<noteq> []")
    case True
    with 2 have "list_all version_char (dropWhile is_digit (tl s))" by simp
    moreover have "list_all version_char (takeWhile is_digit (tl s))"
      using takeWhile_all by (rule list_all_mono') simp
    ultimately have "list_all version_char (tl s)" by (metis takeWhile_dropWhile_id list_all_append)
    moreover have "version_char (CHR ''.'')" by (simp add: version_char_def suffix_char_def)
    ultimately show ?thesis using True by (cases s) auto
  next
    case False
    then show ?thesis using 2 by auto
  qed
qed

lemma normaliseVersion_shape: "version_shape (normaliseVersion v)"
proof (cases "normaliseVersion v")
  case (Some s)
  then have s: "s \<noteq> []" "length s \<le> 32" "takeWhile is_digit s \<noteq> []" "version_rest 3 (dropWhile is_digit s)"
    by (auto simp: normaliseVersion_def Let_def split: val.splits if_splits)
  have "list_all version_char (takeWhile is_digit s)" using takeWhile_all by (rule list_all_mono') simp
  with version_rest_chars [OF s(4)] have "list_all version_char s" by (metis takeWhile_dropWhile_id list_all_append)
  moreover have "is_digit (hd s)" using s(3) by (cases s) (auto split: if_splits)
  ultimately show ?thesis using s Some by (simp add: version_shape_def)
qed (simp add: version_shape_def)

lemma lower_url_chars: "list_all url_char (to_lower s) \<Longrightarrow> list_all url_char s"
proof -
  have "url_char (to_lower_char c) \<Longrightarrow> url_char c" for c
    by (auto simp: url_char_def suffix_char_def to_lower_char_def is_digit_def Let_def split: if_splits)
  then show "list_all url_char (to_lower s) \<Longrightarrow> list_all url_char s" by (auto simp: to_lower_def list_all_iff)
qed

lemma base32_url [simp]: "base32_char c \<Longrightarrow> url_char c"
proof -
  assume "base32_char c"
  then have "url_char (to_lower_char c)" by (auto simp: base32_char_def url_char_def suffix_char_def is_digit_def Let_def)
  then show "url_char c" using lower_url_chars [of "[c]"] by (simp add: to_lower_def)
qed

lemma digit_url [simp]: "is_digit c \<Longrightarrow> url_char c"
  by (simp add: url_char_def suffix_char_def)

lemma indexer_url_shape:
  assumes "is_indexer_url u"
  shows "indexer_shape (Some u)"
proof -
  define p where "p = drop 69 u"
  have a: "to_lower (take 6 u) = ''tcp://'' \<or> to_lower (take 6 u) = ''ssl://''" "list_all base32_char (take 56 (drop 6 u))"
      "to_lower (take 7 (drop 62 u)) = ''.onion:''" "length p \<le> 5" "list_all is_digit p"
    using assms by (auto simp: is_indexer_url_def Let_def p_def)
  have u: "u = take 6 u @ take 56 (drop 6 u) @ take 7 (drop 62 u) @ p"
    using append_take_drop_id [of 6 u] append_take_drop_id [of 56 "drop 6 u"] append_take_drop_id [of 7 "drop 62 u"]
    by (simp add: p_def)
  have "length u \<le> 74" using a(4) by (simp add: p_def)
  moreover have "list_all url_char (take 6 u)"
    using a(1) by - (rule lower_url_chars, auto simp: url_char_def suffix_char_def is_digit_def Let_def)
  moreover have "list_all url_char (take 7 (drop 62 u))"
    using a(3) by - (rule lower_url_chars, auto simp: url_char_def suffix_char_def is_digit_def Let_def)
  moreover have "list_all url_char (take 56 (drop 6 u))" "list_all url_char p"
    using list_all_mono' [OF a(2), of url_char] list_all_mono' [OF a(5), of url_char] by simp_all
  ultimately have "list_all url_char u" by (subst u) (simp only: list_all_append simp_thms)
  with a \<open>length u \<le> 74\<close> show ?thesis by (simp add: indexer_shape_def)
qed


lemma normaliseIndexerUrl_shape: "indexer_shape (normaliseIndexerUrl v)"
proof (cases "normaliseIndexerUrl v")
  case (Some u)
  then have "is_indexer_url u" by (auto simp: normaliseIndexerUrl_def Let_def split: val.splits if_splits)
  then show ?thesis using Some indexer_url_shape by simp
qed (simp add: indexer_shape_def)

lemma no_shape [simp]: "version_shape None" "indexer_shape None"
  by (simp_all add: version_shape_def indexer_shape_def)

lemma parseDojoVersion_shape [simp]: "version_shape (parseDojoVersion h n)"
  by (auto simp: parseDojoVersion_def normaliseVersion_shape split: option.splits)

lemma parseIndexerUrl_shape [simp]: "indexer_shape (parseIndexerUrl b)"
  by (auto simp: parseIndexerUrl_def normaliseIndexerUrl_shape split: option.splits val.splits)

lemma known_or_shape [simp]: "version_shape a \<Longrightarrow> version_shape b \<Longrightarrow> version_shape (known_or a b)"
  by (simp add: known_or_def)

definition plain_texts :: "probe_result \<Rightarrow> bool" where
  "plain_texts r \<longleftrightarrow> version_shape (pr_version r) \<and> indexer_shape (pr_indexer r)"

lemma down_plain [simp]: "version_shape v \<Longrightarrow> plain_texts (down r v)"
  by (simp add: plain_texts_def down_def)

lemma services_plain:
  "version_shape v \<Longrightarrow> version_shape (fst (services_step tor h b host t v)) \<and> indexer_shape (snd (services_step tor h b host t v))"
  by (auto simp: services_step_def split: sum.splits)

lemma plain_result_record [simp]:
  "plain_texts \<lparr>pr_up = a, pr_reason = b, pr_height = c, pr_block_time = d, pr_version = v, pr_indexer = i\<rparr> \<longleftrightarrow>
     version_shape v \<and> indexer_shape i"
  by (simp add: plain_texts_def)

lemma wallet_plain:
  assumes "version_shape v"
  shows "plain_texts (wallet_step tor cfg base host t v)"
proof -
  define req where "req = bearer_request (base @ ''/wallet?active='' @ (if pc_network cfg = ''testnet'' then DUMMY_TPUB else DUMMY_XPUB) @
    ''&new='' @ (if pc_network cfg = ''testnet'' then DUMMY_TPUB else DUMMY_XPUB)) host t"
  show ?thesis
  proof (cases "httpOverTor tor host req MAX_RESPONSE_BYTES")
    case (Inl e)
    then show ?thesis using assms unfolding wallet_step_def Let_def req_def [symmetric] by simp
  next
    case (Inr res)
    define w where "w = known_or v (parseDojoVersion (hr_head res) (pc_header cfg))"
    have w: "version_shape w" using assms by (simp add: w_def)
    obtain v2 i where sv: "services_step tor (pc_header cfg) base host t w = (v2, i)" by (cases "services_step tor (pc_header cfg) base host t w")
    have "version_shape v2" "indexer_shape i" using services_plain [OF w, of tor "pc_header cfg" base host t] sv by simp_all
    with w show ?thesis
      unfolding wallet_step_def Let_def req_def [symmetric] Inr sum.case w_def [symmetric] sv prod.case
      by (simp split: option.split val.split)
  qed
qed

lemma plain_probe_plain: "case plain_probe h got es of None \<Rightarrow> True | Some r \<Rightarrow> plain_texts r"
  by (induction h got es rule: plain_probe.induct) (auto simp: plain_result_def plain_texts_def)

text \<open>C26: whatever a node answers, at any of the three requests or to the plain check, the version and the indexer
  that a probe reports are short and made of plain characters: a version starts with a digit and has letters, digits,
  dots, plus and minus only, an indexer is a \<open>tcp\<close> or \<open>ssl\<close> address of an onion host with a port. Neither can carry
  markup into the published list.\<close>

theorem probe_reports_plain_texts:
  "case probe parse tor connect cfg url of None \<Rightarrow> True | Some r \<Rightarrow> plain_texts r"
proof (cases "parse url")
  case (Some u)
  have h: "plain_texts (probeHeight tor cfg u)"
    by (auto simp: probeHeight_def Let_def wallet_plain split: sum.splits option.splits)
  show ?thesis
    using h plain_probe_plain [of "pc_header cfg" "[]"]
    by (auto simp: probe_def Some plain_texts_def down_def split: sum.splits option.splits)
qed (simp add: probe_def)

section \<open>The bounds of the histories\<close>

definition all_series :: "('a list \<Rightarrow> bool) \<Rightarrow> 'a tracked obj \<Rightarrow> bool" where
  "all_series P m \<longleftrightarrow> list_all (\<lambda>(k, e). P (tr_series e)) m"

lemma list_all_update: "list_all P m \<Longrightarrow> P (k, v) \<Longrightarrow> list_all P (AList.update k v m)"
  by (induction m) auto

lemma list_all_owrite: "list_all P m \<Longrightarrow> P (k, v) \<Longrightarrow> list_all P (owrite k v m)"
  by (simp add: owrite_def list_all_update)

lemma all_series_owrite: "all_series P m \<Longrightarrow> P (tr_series e) \<Longrightarrow> all_series P (owrite k e m)"
  by (simp add: all_series_def list_all_owrite)

lemma all_series_retire: "all_series P m \<Longrightarrow> all_series P (fst (retireUnlisted L g now m))"
proof (induction m)
  case (Cons p m)
  obtain k e where p: "p = (k, e)" by (cases p)
  obtain m' t where r: "retireUnlisted L g now m = (m', t)" by (cases "retireUnlisted L g now m")
  have ih: "all_series P m'" "P (tr_series e)" using Cons r by (simp_all add: p all_series_def)
  show ?case
  proof (cases "retire_entry (L k) g now e")
    case (Some e')
    then have "tr_series e' = tr_series e" by (auto simp: retire_entry_def split: if_splits option.splits)
    with ih Some show ?thesis by (simp add: p r all_series_def)
  qed (use ih in \<open>simp add: p r\<close>)
qed (simp add: all_series_def)

lemma fold_keeps: "I a \<Longrightarrow> (\<And>x a. x \<in> set xs \<Longrightarrow> I a \<Longrightarrow> I (f x a)) \<Longrightarrow> I (fold f xs a)"
  by (induction xs arbitrary: a) auto

lemma all_series_of: "all_series P m \<Longrightarrow> P [] \<Longrightarrow> P (series_of m i)"
  by (auto simp: series_of_def all_series_def list_all_iff dest: map_of_SomeD split: option.splits)

lemma all_series_advance:
  fixes old :: "'a tracked obj" and results :: "(string \<times> probe_result) list"
  assumes "all_series P old" and "P []" and "\<And>r xs. P xs \<Longrightarrow> P (step r xs)"
  shows "all_series P (advance step g now results old)"
proof -
  let ?fresh = "fold (\<lambda>(i, r) m. owrite i \<lparr>tr_series = step r (series_of old i), tr_retired = None\<rparr> m) results []"
  have "all_series P ?fresh"
  proof (rule fold_keeps)
    fix x :: "string \<times> probe_result" and a :: "'a tracked obj" assume a: "all_series P a"
    obtain i r where x: "x = (i, r)" by (cases x)
    have "P (step r (series_of old i))" by (rule assms(3)) (rule all_series_of [OF assms(1,2)])
    with a show "all_series P ((\<lambda>(i, r) m. owrite i \<lparr>tr_series = step r (series_of old i), tr_retired = None\<rparr> m) x a)"
      by (simp add: x all_series_owrite)
  qed (simp add: all_series_def)
  then have "all_series P (fold (\<lambda>(i, e) m. if oread m i = Missing then owrite i e m else m) old ?fresh)"
  proof (rule fold_keeps)
    fix x :: "string \<times> 'a tracked" and a :: "'a tracked obj" assume x: "x \<in> set old" and a: "all_series P a"
    obtain i e where p: "x = (i, e)" by (cases x)
    have "P (tr_series e)" using x assms(1) by (auto simp: p all_series_def list_all_iff)
    with a show "all_series P ((\<lambda>(i, e) m. if oread m i = Missing then owrite i e m else m) x a)"
      by (simp add: p all_series_owrite)
  qed
  then show ?thesis unfolding advance_def Let_def by (rule all_series_retire)
qed

lemma all_series_ensure:
  assumes "all_series P m" and "\<And>i. P (start i)"
  shows "all_series P (fst (ensure_entries start ids m))"
  unfolding ensure_entries_def
proof (rule fold_keeps [where I = "\<lambda>x. all_series P (fst x)"])
  fix i and x :: "'a tracked obj \<times> bool" assume a: "all_series P (fst x)"
  obtain m' t where x: "x = (m', t)" by (cases x)
  from a show "all_series P (fst ((\<lambda>(m, touched). if oread m i = Missing
      then (owrite i \<lparr>tr_series = start i, tr_retired = None\<rparr> m, True) else (m, touched)) x))"
    by (simp add: x all_series_owrite assms(2))
qed (simp add: assms(1))

lemma all_series_refresh:
  assumes "all_series P m" and "\<And>i. P (start i)"
  shows "all_series P (fst (refresh_history start ids g now m))"
proof -
  obtain m1 t1 where m1: "ensure_entries start ids m = (m1, t1)" by (cases "ensure_entries start ids m")
  obtain m2 t2 where m2: "retireUnlisted (\<lambda>i. i \<in> set ids) g now m1 = (m2, t2)" by (cases "retireUnlisted (\<lambda>i. i \<in> set ids) g now m1")
  have "all_series P m1" using all_series_ensure [of P m start ids, OF assms] m1 by simp
  from all_series_retire [OF this, of "\<lambda>i. i \<in> set ids" g now] show ?thesis by (simp add: refresh_history_def m1 m2)
qed

definition day_ok :: "day \<Rightarrow> bool" where
  "day_ok d \<longleftrightarrow> 0 < dy_total d \<and> dy_up d \<le> dy_total d \<and> 0 \<le> dy_pct d \<and> dy_pct d \<le> 100"

definition doc_ok :: "('a \<Rightarrow> bool) \<Rightarrow> 'a doc_file \<Rightarrow> bool" where
  "doc_ok P f \<longleftrightarrow> (case f of Holds d \<Rightarrow> P d | _ \<Rightarrow> True)"

text \<open>The history file holds the window \<open>w\<close>, and no series is longer.\<close>

definition hist_ok :: "nat \<Rightarrow> check history_doc doc_file \<Rightarrow> bool" where
  "hist_ok w f \<longleftrightarrow>
     (case f of Holds h \<Rightarrow> hd_limit h = w \<and> all_series (\<lambda>xs. length xs \<le> w) (hd_nodes h) | _ \<Rightarrow> False)"

definition days_ok :: "nat \<Rightarrow> day list \<Rightarrow> bool" where
  "days_ok r xs \<longleftrightarrow> length xs \<le> r \<and> list_all day_ok xs"

definition pending_ok :: "nat \<Rightarrow> pending_entry obj \<Rightarrow> bool" where
  "pending_ok b m \<longleftrightarrow> list_all (\<lambda>(k, e). length (pe_checks e) \<le> b \<and> pe_days e = None) m"

definition files_ok :: "nat \<Rightarrow> nat \<Rightarrow> public_files \<Rightarrow> bool" where
  "files_ok b r fs \<longleftrightarrow> hist_ok b (pf_hist fs) \<and> doc_ok (\<lambda>d. all_series (days_ok r) (hd_nodes d)) (pf_daily fs) \<and>
     doc_ok (pending_ok b) (pf_pending fs)"

lemma last_n_length: "length (last_n n xs) \<le> n"
  by simp

lemma list_all_last_n: "list_all P xs \<Longrightarrow> list_all P (last_n n xs)"
  by (auto simp: last_n_def list_all_iff dest: in_set_dropD)

lemma day_pct_bounds:
  assumes "up \<le> n" and "0 < n"
  shows "0 \<le> day_pct up n" and "day_pct up n \<le> 100"
proof -
  let ?x = "rat_of_nat up / of_nat n * 1000"
  have x: "0 \<le> ?x" "?x \<le> 1000" using assms by (simp_all add: field_simps)
  then have "0 \<le> js_round ?x" by (simp add: js_round_def)
  moreover have "js_round ?x \<le> 1000" using x(2) unfolding js_round_def by linarith
  ultimately show "0 \<le> day_pct up n" "day_pct up n \<le> 100"
    by (simp_all add: day_pct_def)
qed

lemma count_day_ok: "dy_up d \<le> dy_total d \<Longrightarrow> day_ok (count_day r d)"
  using day_pct_bounds [of "dy_up d + (if pr_up r then 1 else 0)" "dy_total d + 1"]
  by (auto simp: day_ok_def count_day_def Let_def)

lemma roll_day_ok: "days_ok k xs \<Longrightarrow> n \<le> k \<Longrightarrow> days_ok k (roll_day n today r xs)"
proof -
  assume a: "days_ok k xs" "n \<le> k"
  have b: "list_all day_ok (butlast xs)" using a(1) by (auto simp: days_ok_def list_all_iff dest: in_set_butlastD)
  have l: "xs \<noteq> [] \<Longrightarrow> day_ok (last xs)" using a(1) by (auto simp: days_ok_def list_all_iff)
  have "length (roll_day n today r xs) \<le> n" by (simp add: roll_day_def last_n_length)
  moreover have "list_all day_ok (roll_day n today r xs)"
    unfolding roll_day_def using a(1) b l
    by (intro list_all_last_n) (auto simp: days_ok_def day_ok_def [of "last xs"] intro!: count_day_ok)
  ultimately show ?thesis using a(2) by (simp add: days_ok_def)
qed

lemma refresh_file_keeps:
  assumes "doc_ok (\<lambda>d. Q (hd_limit d) \<and> all_series P (hd_nodes d)) f" and "\<And>i. P (start i)" and "Q limit"
  shows "doc_ok (\<lambda>d. Q (hd_limit d) \<and> all_series P (hd_nodes d)) (snd (refresh_file name limit start ids g now w f))"
proof -
  have "Q (hd_limit d) \<and> all_series P (fst (refresh_history start ids g now (hd_nodes d)))"
    if "read_doc f \<lparr>hd_generated_at = None, hd_limit = limit, hd_nodes = []\<rparr> = Some d" for d
    using that assms by (cases f) (auto simp: read_doc_def doc_ok_def all_series_def [of P "[]"] intro!: all_series_refresh)
  then show ?thesis using assms(1)
    by (auto simp: refresh_file_def Let_def doc_ok_def split: option.splits prod.splits io.splits)
qed


lemma refresh_hist_keeps:
  assumes "hist_ok b f" and "\<And>i. length (start i) \<le> b"
  shows "hist_ok b (snd (refresh_file name limit start ids g now w f))"
proof -
  from assms(1) obtain h where h: "f = Holds h" "hd_limit h = b" "all_series (\<lambda>xs. length xs \<le> b) (hd_nodes h)"
    by (auto simp: hist_ok_def split: doc_file.splits)
  have "all_series (\<lambda>xs. length xs \<le> b) (fst (refresh_history start ids g now (hd_nodes h)))"
    by (rule all_series_refresh [OF h(3) assms(2)])
  with h show ?thesis
    by (auto simp: refresh_file_def read_doc_def hist_ok_def Let_def split: prod.splits io.splits)
qed

lemma refresh_daily_keeps:
  "doc_ok (\<lambda>d. all_series (days_ok r) (hd_nodes d)) f \<Longrightarrow> (\<And>i. days_ok r (start i)) \<Longrightarrow>
     doc_ok (\<lambda>d. all_series (days_ok r) (hd_nodes d)) (snd (refresh_file name dl start ids g now w f))"
  using refresh_file_keeps [where Q = "\<lambda>n. True" and P = "days_ok r"] by simp

lemma pending_okD: "pending_ok b m \<Longrightarrow> map_of m i = Some e \<Longrightarrow> length (pe_checks e) \<le> b \<and> pe_days e = None"
  by (auto simp: pending_ok_def list_all_iff dest: map_of_SomeD)

lemma pending_starts:
  assumes "pending_ok b m"
  shows "length (pending_checks A m i) \<le> b" and "days_ok r (pending_days A m i)"
  using pending_okD [OF assms, of i]
  by (cases "map_of m i"; auto simp: pending_checks_def pending_days_def days_ok_def)+

lemma doc_ok_Holds: "doc_ok P (Holds d) \<longleftrightarrow> P d"
  by (simp add: doc_ok_def)

lemma doc_ok_read: "doc_ok P f \<Longrightarrow> read_doc f x = Some d \<Longrightarrow> P x \<Longrightarrow> P d"
  by (cases f) (auto simp: doc_ok_def read_doc_def)

lemma rebuild_files_ok:
  assumes ok: "files_ok b r fs"
  shows "files_ok b r (snd (rebuild g now ws s fs))"
proof (cases "\<exists>prior pending seed mapping. read_doc (pf_seed fs) [] = Some seed \<and> read_doc (pf_codes fs) [] = Some mapping \<and>
    seed \<noteq> [None] \<and> read_doc (pf_out fs) \<lparr>pd_generated_at = None, pd_nodes = [], pd_fault = None\<rparr> = Some prior \<and>
    read_doc (pf_pending fs) [] = Some pending")
  case False
  then have "snd (rebuild g now ws s fs) = fs" by (auto simp: rebuild_def split: option.splits)
  with ok show ?thesis by simp
next
  case True
  then obtain prior pending seed mapping where d: "read_doc (pf_seed fs) [] = Some seed" "read_doc (pf_codes fs) [] = Some mapping"
    "seed \<noteq> [None]" "read_doc (pf_out fs) \<lparr>pd_generated_at = None, pd_nodes = [], pd_fault = None\<rparr> = Some prior"
    "read_doc (pf_pending fs) [] = Some pending" by blast
  have "pending_ok b pending"
    using ok d(5) by (auto simp: files_ok_def pending_ok_def [of b "[]"] intro: doc_ok_read)
  note st = pending_starts [OF this]
  define A where "A = set (map sb_id (approved_subs (ovalues (submissions s))))"
  obtain nodes where nodes: "public_nodes (seed_nodes seed) mapping s (pd_nodes prior) pending = nodes" by simp
  obtain x h where h: "refresh_file ''history.json'' 144 (pending_checks A pending) (map pn_id nodes) g now (first_io (tl ws)) (pf_hist fs) = (x, h)"
    by (cases "refresh_file ''history.json'' 144 (pending_checks A pending) (map pn_id nodes) g now (first_io (tl ws)) (pf_hist fs)")
  obtain y k where k: "refresh_file ''history-daily.json'' 90 (pending_days A pending) (map pn_id nodes) g now (first_io (tl (tl ws))) (pf_daily fs) = (y, k)"
    by (cases "refresh_file ''history-daily.json'' 90 (pending_days A pending) (map pn_id nodes) g now (first_io (tl (tl ws))) (pf_daily fs)")
  have "hist_ok b h"
    using refresh_hist_keeps [of b "pf_hist fs" "pending_checks A pending" "''history.json''" 144 "map pn_id nodes" g now "first_io (tl ws)"] ok st(1)
    by (simp add: h files_ok_def)
  moreover have "doc_ok (\<lambda>d. all_series (days_ok r) (hd_nodes d)) k"
    using refresh_daily_keeps [of r "pf_daily fs" "pending_days A pending" "''history-daily.json''" 90 "map pn_id nodes" g now "first_io (tl (tl ws))"] ok st(2)
    by (simp add: k files_ok_def)
  moreover have "doc_ok (pending_ok b) (pf_pending fs)" using ok by (simp add: files_ok_def)
  ultimately have parts: "files_ok b r (fs\<lparr>pf_out := o1, pf_hist := h, pf_daily := k\<rparr>)" "files_ok b r (fs\<lparr>pf_out := o1, pf_hist := h\<rparr>)" for o1
    using ok by (simp_all add: files_ok_def)
  have "rebuild g now ws s fs = (Inl (WriteThrew ''dojos.json''), fs)" if "first_io ws = Failed"
    using that unfolding rebuild_def d option.case prod.case if_not_P [OF d(3)] Let_def by simp
  moreover have "\<exists>o1. snd (rebuild g now ws s fs) \<in> {fs\<lparr>pf_out := o1, pf_hist := h, pf_daily := k\<rparr>, fs\<lparr>pf_out := o1, pf_hist := h\<rparr>}"
    if "first_io ws \<noteq> Failed"
    unfolding rebuild_def d option.case prod.case if_not_P [OF d(3)] Let_def nodes A_def [symmetric] if_not_P [OF that]
    by (cases x; cases y) (simp_all add: h k, blast+)
  ultimately show ?thesis using ok parts by (cases "first_io ws = Failed") auto
qed

lemma pending_after_days: "pe_days (pending_after window now p e) = None"
  by (simp add: pending_after_def Let_def)

lemma probe_pending_ok:
  assumes "doc_ok (pending_ok b) f" and "window \<le> b"
  shows "doc_ok (pending_ok b) (probe_pending oc window now w s f)"
proof -
  have "pending_ok b (fold (\<lambda>(r, p) m. owrite (sb_id r) (pending_after window now p (q r)) m) xs [])"
    for xs :: "(submission \<times> probe_result) list" and q
  proof (rule fold_keeps)
    fix x :: "submission \<times> probe_result" and a :: "pending_entry obj" assume a: "pending_ok b a"
    obtain r p where x: "x = (r, p)" by (cases x)
    have l: "length (pe_checks (pending_after window now p (q r))) \<le> b"
      unfolding pending_after_def append_check_def Let_def pending_entry.simps by (rule le_trans [OF last_n_length assms(2)])
    with a show "pending_ok b ((\<lambda>(r, p) m. owrite (sb_id r) (pending_after window now p (q r)) m) x a)"
      by (simp add: x pending_ok_def list_all_owrite pending_after_days l)
  qed (simp add: pending_ok_def)
  then show ?thesis using assms(1)
    by (simp add: probe_pending_def Let_def split: option.splits io.splits) (simp add: doc_ok_def)
qed

lemma record_cycle_files_ok:
  assumes ok: "files_ok b r fs" and h: "hist_ok b (Holds h)" and b: "0 < b" and r: "cf_retention cfg \<le> r"
  shows "files_ok b r (snd (record_cycle cfg now ws s oc d h results fs))"
proof -
  have w: "(if hd_limit h = 0 then cf_window cfg else hd_limit h) = b" using h b by (simp add: hist_ok_def)
  have hist: "all_series (\<lambda>xs. length xs \<le> b) (advance (\<lambda>r. append_check b now (pr_up r)) g now by_id (hd_nodes h))" for g by_id
    using h unfolding append_check_def
    by (intro all_series_advance) (auto simp: hist_ok_def)
  have daily: "all_series (days_ok r) (advance (roll_day (cf_retention cfg) t) g now by_id (hd_nodes dl))"
    if "read_doc (pf_daily fs) \<lparr>hd_generated_at = None, hd_limit = cf_retention cfg, hd_nodes = []\<rparr> = Some dl" for dl t g by_id
  proof (rule all_series_advance)
    show "all_series (days_ok r) (hd_nodes dl)"
      using ok that by (cases "pf_daily fs") (auto simp: files_ok_def doc_ok_def read_doc_def all_series_def [of _ "[]"])
  qed (auto simp: days_ok_def [of r "[]"] intro: roll_day_ok r)
  have pend: "doc_ok (pending_ok b) (probe_pending oc b now w s (pf_pending fs))" for w
    using ok by (intro probe_pending_ok) (simp_all add: files_ok_def)
  show ?thesis using ok hist daily pend
    unfolding record_cycle_def w
    by (auto simp: Let_def files_ok_def hist_ok_def doc_ok_Holds split: option.splits)
qed

lemma update_cycle_files_ok:
  assumes ok: "files_ok b r fs" and b: "0 < b" and r: "cf_retention cfg \<le> r"
  shows "files_ok b r (snd (update_cycle cfg now rws ws s oc fs))"
proof -
  obtain fs0 where fs0: "snd (rebuild (cf_grace cfg) now rws s fs) = fs0" by simp
  have ok0: "files_ok b r fs0" using rebuild_files_ok [OF ok] fs0 by metis
  have hist: "hist_ok b (Holds h)" if "read_doc (pf_hist fs0) \<lparr>hd_generated_at = None, hd_limit = cf_window cfg, hd_nodes = []\<rparr> = Some h" for h
    using ok0 that by (cases "pf_hist fs0") (auto simp: files_ok_def read_doc_def hist_ok_def)
  have out: "files_ok b r (fs0\<lparr>pf_out := x\<rparr>)" for x using ok0 by (simp add: files_ok_def)
  show ?thesis
    by (simp add: update_cycle_def fs0 Let_def ok0 out hist record_cycle_files_ok [OF ok0 _ b r] split: doc_file.splits option.splits)
qed


section \<open>What a cycle records\<close>

lemma distinct_owrite: "distinct (map fst m) \<Longrightarrow> distinct (map fst (owrite k v m))"
  by (simp add: owrite_def distinct_update)

lemma map_of_fold_owrite:
  "distinct (map fst xs) \<Longrightarrow> (i, r) \<in> set xs \<Longrightarrow> i \<noteq> ''__proto__'' \<Longrightarrow>
     map_of (fold (\<lambda>(i, r) m. owrite i (f i r) m) xs m) i = Some (f i r)"
proof (induction xs rule: rev_induct)
  case (snoc x xs)
  then show ?case by (cases x) (auto simp: map_of_owrite image_iff)
qed simp

lemma map_of_fold_missing:
  "map_of m i = Some e \<Longrightarrow> map_of (fold (\<lambda>(k, v) m. if oread m k = Missing then owrite k v m else m) xs m) i = Some e"
proof (induction xs arbitrary: m)
  case (Cons x xs)
  obtain k v where x: "x = (k, v)" by (cases x)
  have "map_of (if oread m k = Missing then owrite k v m else m) i = Some e"
    using Cons.prems by (auto simp: map_of_owrite oread_def)
  from Cons.IH [OF this] show ?case by (simp only: x fold.simps o_apply prod.case)
qed simp

lemma distinct_advance_fresh:
  "distinct (map fst (fold (\<lambda>(i, e) m. if oread m i = Missing then owrite i e m else m) old
     (fold (\<lambda>(i, r) m. owrite i (f i r) m) xs [])))"
proof (rule fold_keeps [where I = "\<lambda>m. distinct (map fst m)"])
  show "distinct (map fst (fold (\<lambda>(i, r) m. owrite i (f i r) m) xs []))"
    by (rule fold_keeps [where I = "\<lambda>m. distinct (map fst m)"]) (auto simp: distinct_owrite)
qed (auto simp: distinct_owrite)

lemma advance_listed:
  assumes "distinct (map fst results)" and "(i, r) \<in> set results" and "i \<noteq> ''__proto__''"
  shows "map_of (advance step g now results old) i = Some \<lparr>tr_series = step r (series_of old i), tr_retired = None\<rparr>"
proof -
  let ?f = "\<lambda>i r. \<lparr>tr_series = step r (series_of old i), tr_retired = None\<rparr>"
  let ?kept = "fold (\<lambda>(i, e) m. if oread m i = Missing then owrite i e m else m) old (fold (\<lambda>(i, r) m. owrite i (?f i r) m) results [])"
  have "map_of ?kept i = Some (?f i r)"
    by (rule map_of_fold_missing) (rule map_of_fold_owrite [OF assms])
  moreover have "i \<in> fst ` set results" using assms(2) by force
  ultimately show ?thesis
    unfolding advance_def Let_def
    by (simp add: map_of_retire distinct_advance_fresh retire_entry_def is_retired_def stamp_or_def)
qed

lemma pool_zip: "pool f xs = Some ys \<Longrightarrow> length ys = length xs \<and> (\<forall>(x, y) \<in> set (zip xs ys). f x = Some y)"
  by (induction xs arbitrary: ys) (auto split: option.splits)

lemma last_append_check: "0 < w \<Longrightarrow> append_check w now up prev \<noteq> [] \<and> last (append_check w now up prev) = \<lparr>ck_t = isoMin now, ck_up = up\<rparr>"
  by (simp add: append_check_def last_n_def)

text \<open>The state of a cycle that came to an end.\<close>

lemma recorded_parts:
  assumes "update_cycle cfg now rws ws s oc fs = (Recorded k, fs')"
  obtains d :: public_doc and h :: "check history_doc" and results window where
    "pool (\<lambda>n. probe_node oc (pn_payload n) (pn_network n)) (pd_nodes d) = Some results"
    and "k = length (filter pr_up results)"
    and "window = (if hd_limit h = 0 then cf_window cfg else hd_limit h)"
    and "pf_out fs' = Holds \<lparr>pd_generated_at = Some (isoSec now), pd_nodes = map2 (probed_node now) results (pd_nodes d), pd_fault = None\<rparr>"
    and "pf_hist fs' = Holds \<lparr>hd_generated_at = Some (isoSec now), hd_limit = window,
           hd_nodes = advance (\<lambda>r. append_check window now (pr_up r)) (cf_grace cfg) now (zip (map pn_id (pd_nodes d)) results) (hd_nodes h)\<rparr>"
proof -
  obtain fs0 where fs0: "snd (rebuild (cf_grace cfg) now rws s fs) = fs0" by simp
  note u = assms [unfolded update_cycle_def fs0 Let_def]
  obtain d where d: "pf_out fs0 = Holds d" using u by (cases "pf_out fs0") simp_all
  note u = u [unfolded d doc_file.case]
  obtain h where h: "read_doc (pf_hist fs0) \<lparr>hd_generated_at = None, hd_limit = cf_window cfg, hd_nodes = []\<rparr> = Some h"
    using u by (cases "read_doc (pf_hist fs0) \<lparr>hd_generated_at = None, hd_limit = cf_window cfg, hd_nodes = []\<rparr>") simp_all
  note u = u [unfolded h option.case]
  obtain results where r: "pool (\<lambda>n. probe_node oc (pn_payload n) (pn_network n)) (pd_nodes d) = Some results"
    using u by (cases "pool (\<lambda>n. probe_node oc (pn_payload n) (pn_network n)) (pd_nodes d)") simp_all
  note u = u [unfolded r option.case]
  have "record_cycle cfg now ws s oc d h results fs0 = (Recorded k, fs')" using u by (simp split: if_splits)
  then have "k = length (filter pr_up results)"
    and "pf_out fs' = Holds \<lparr>pd_generated_at = Some (isoSec now), pd_nodes = map2 (probed_node now) results (pd_nodes d), pd_fault = None\<rparr>"
    and "pf_hist fs' = Holds \<lparr>hd_generated_at = Some (isoSec now), hd_limit = (if hd_limit h = 0 then cf_window cfg else hd_limit h),
           hd_nodes = advance (\<lambda>r. append_check (if hd_limit h = 0 then cf_window cfg else hd_limit h) now (pr_up r)) (cf_grace cfg) now
             (zip (map pn_id (pd_nodes d)) results) (hd_nodes h)\<rparr>"
    by (auto simp: record_cycle_def Let_def split: if_splits option.splits)
  then show thesis by (intro that [OF r]) auto
qed

lemma probed_node_simps [simp]:
  "pn_id (probed_node now r n) = pn_id n" "pn_payload (probed_node now r n) = pn_payload n"
  "pn_network (probed_node now r n) = pn_network n" "lv_status (pn_live (probed_node now r n)) = status_of r"
  by (simp_all add: probed_node_def probed_live_def)

lemma probed_ids: "length rs = length ns \<Longrightarrow> map pn_id (map2 (probed_node now) rs ns) = map pn_id ns"
  by (induction rs ns rule: list_induct2) auto

lemma active_count:
  "length rs = length ns \<Longrightarrow>
     length (filter (\<lambda>n. lv_status (pn_live n) = Str ''active'') (map2 (probed_node now) rs ns)) = length (filter pr_up rs)"
  by (induction rs ns rule: list_induct2) (auto simp: status_of_def)

lemma probed_in:
  "length rs = length ns \<Longrightarrow> n \<in> set (map2 (probed_node now) rs ns) \<Longrightarrow>
     \<exists>r m. n = probed_node now r m \<and> (m, r) \<in> set (zip ns rs) \<and> (pn_id m, r) \<in> set (zip (map pn_id ns) rs)"
  by (induction rs ns rule: list_induct2) auto

text \<open>C27: a cycle that is recorded gives every listing exactly the result of its own probe: the published status, the
  last entry of its 24-hour history and the number of active listings all say what that probe said, and no listing
  is left marked as retired.\<close>

theorem cycle_records_each_probe:
  assumes "update_cycle cfg now rws ws s oc fs = (Recorded k, fs')" and "0 < cf_window cfg"
  shows "\<exists>d h. pf_out fs' = Holds d \<and> pf_hist fs' = Holds h \<and>
    k = length (filter (\<lambda>n. lv_status (pn_live n) = Str ''active'') (pd_nodes d)) \<and>
    (distinct (map pn_id (pd_nodes d)) \<longrightarrow> (\<forall>n \<in> set (pd_nodes d). pn_id n \<noteq> ''__proto__'' \<longrightarrow>
       (\<exists>r e. probe_node oc (pn_payload n) (pn_network n) = Some r \<and> lv_status (pn_live n) = status_of r \<and>
          map_of (hd_nodes h) (pn_id n) = Some e \<and> tr_retired e = None \<and> last (tr_series e) = \<lparr>ck_t = isoMin now, ck_up = pr_up r\<rparr>)))"
proof -
  from recorded_parts [OF assms(1)] obtain d :: public_doc and h :: "check history_doc" and results w where
    r: "pool (\<lambda>n. probe_node oc (pn_payload n) (pn_network n)) (pd_nodes d) = Some results"
    and k: "k = length (filter pr_up results)" and w: "w = (if hd_limit h = 0 then cf_window cfg else hd_limit h)"
    and out: "pf_out fs' = Holds \<lparr>pd_generated_at = Some (isoSec now), pd_nodes = map2 (probed_node now) results (pd_nodes d), pd_fault = None\<rparr>"
    and hist: "pf_hist fs' = Holds \<lparr>hd_generated_at = Some (isoSec now), hd_limit = w,
       hd_nodes = advance (\<lambda>r. append_check w now (pr_up r)) (cf_grace cfg) now (zip (map pn_id (pd_nodes d)) results) (hd_nodes h)\<rparr>" .
  have len: "length results = length (pd_nodes d)" and each: "\<forall>(n, r) \<in> set (zip (pd_nodes d) results). probe_node oc (pn_payload n) (pn_network n) = Some r"
    using pool_zip [OF r] by simp_all
  have w0: "0 < w" using assms(2) by (simp add: w)
  obtain ns where ns: "ns = map2 (probed_node now) results (pd_nodes d)" by simp
  have "\<exists>r e. probe_node oc (pn_payload n) (pn_network n) = Some r \<and> lv_status (pn_live n) = status_of r \<and>
      map_of (advance (\<lambda>r. append_check w now (pr_up r)) (cf_grace cfg) now (zip (map pn_id (pd_nodes d)) results) (hd_nodes h)) (pn_id n) = Some e \<and>
      tr_retired e = None \<and> last (tr_series e) = \<lparr>ck_t = isoMin now, ck_up = pr_up r\<rparr>"
    if n: "n \<in> set ns" and np: "pn_id n \<noteq> ''__proto__''"
      and dist: "distinct (map pn_id (pd_nodes d))" for n
  proof -
    obtain r m where m: "n = probed_node now r m" "(m, r) \<in> set (zip (pd_nodes d) results)"
        "(pn_id m, r) \<in> set (zip (map pn_id (pd_nodes d)) results)"
      using probed_in [OF len n [unfolded ns]] by blast
    have "distinct (map fst (zip (map pn_id (pd_nodes d)) results))" using dist len by simp
    note advance_listed [OF this m(3), of "\<lambda>r. append_check w now (pr_up r)" "cf_grace cfg" now "hd_nodes h"]
    with m each np last_append_check [OF w0] show ?thesis by (auto simp: status_of_def)
  qed
  moreover have "k = length (filter (\<lambda>n. lv_status (pn_live n) = Str ''active'') ns)" "map pn_id ns = map pn_id (pd_nodes d)"
    unfolding ns k by (simp_all only: active_count [OF len] probed_ids [OF len])
  ultimately show ?thesis using out [folded ns] hist by simp
qed


text \<open>One listing with a pairing URL, which answers, beside the seed entry, which has none.\<close>

definition ex_paired :: shape where
  "ex_paired = EMPTY_SHAPE\<lparr>submissions := [(''mainnet-a'',
     ex_listing\<lparr>sb_payload := Obj [(''pairing'', Obj [(''url'', Str ''http://a.onion'')])]\<rparr>)]\<rparr>"

definition ex_outcome :: outcome where
  "ex_outcome url key network = Some ((down HeightRead None)\<lparr>pr_up := True, pr_height := Num 9\<rparr>)"

definition ex_cfg :: cycle_cfg where
  "ex_cfg = \<lparr>cf_window = 144, cf_retention = 90, cf_grace = 14\<rparr>"

lemma ex_cycle: "fst (update_cycle ex_cfg 0 [] [] ex_paired ex_outcome ex_files) = Recorded 1"
  by code_simp

theorem cycle_records_each_probe_witness:
  "\<exists>d h. pf_out (snd (update_cycle ex_cfg 0 [] [] ex_paired ex_outcome ex_files)) = Holds d \<and>
    pf_hist (snd (update_cycle ex_cfg 0 [] [] ex_paired ex_outcome ex_files)) = Holds h \<and>
    length (filter (\<lambda>n. lv_status (pn_live n) = Str ''active'') (pd_nodes d)) = 1"
proof -
  have "update_cycle ex_cfg 0 [] [] ex_paired ex_outcome ex_files =
      (Recorded 1, snd (update_cycle ex_cfg 0 [] [] ex_paired ex_outcome ex_files))"
    using ex_cycle by (simp add: prod_eq_iff)
  from cycle_records_each_probe [OF this] show ?thesis by (auto simp: ex_cfg_def)
qed

text \<open>When every probe of a cycle fails, the cycle records nothing about anyone: the published nodes, the two
  histories and the pending records stay as the rebuild that opened the cycle left them, whatever else goes wrong.\<close>

theorem clean_sweep_records_nothing:
  assumes "snd (rebuild (cf_grace cfg) now rws s fs) = fs0" and "pf_out fs0 = Holds d" and "pd_nodes d \<noteq> []"
    and "list_all (\<lambda>n. case probe_node oc (pn_payload n) (pn_network n) of Some r \<Rightarrow> \<not> pr_up r | None \<Rightarrow> False) (pd_nodes d)"
  shows "case update_cycle cfg now rws ws s oc fs of (x, fs') \<Rightarrow>
    (\<forall>k. x \<noteq> Recorded k) \<and> (\<exists>fault. fs' = fs0\<lparr>pf_out := Holds (d\<lparr>pd_fault := fault\<rparr>)\<rparr>)"
proof -
  have same: "\<exists>fault. fs0 = fs0\<lparr>pf_out := Holds (d\<lparr>pd_fault := fault\<rparr>)\<rparr>"
    by (rule exI [of _ "pd_fault d"]) (simp flip: assms(2))
  have "\<exists>rs. pool (\<lambda>n. probe_node oc (pn_payload n) (pn_network n)) ns = Some rs \<and> list_all (\<lambda>r. \<not> pr_up r) rs"
    if "list_all (\<lambda>n. case probe_node oc (pn_payload n) (pn_network n) of Some r \<Rightarrow> \<not> pr_up r | None \<Rightarrow> False) ns" for ns :: "public_node list"
    using that by (induction ns) (auto split: option.splits)
  from this [OF assms(4)] obtain rs where rs: "pool (\<lambda>n. probe_node oc (pn_payload n) (pn_network n)) (pd_nodes d) = Some rs"
    "list_all (\<lambda>r. \<not> pr_up r) rs" by blast
  show ?thesis
    unfolding update_cycle_def assms(1) Let_def assms(2) doc_file.case rs(1)
    using same rs(2) assms(3) by (auto split: option.splits)
qed

theorem clean_sweep_records_nothing_witness:
  "\<exists>fs0 d. snd (rebuild 14 0 [] ex_shape ex_files) = fs0 \<and> pf_out fs0 = Holds d \<and> length (pd_nodes d) = 2 \<and>
     pf_hist (snd (update_cycle ex_cfg 0 [] [] ex_shape ex_outcome ex_files)) = pf_hist fs0"
proof -
  obtain fs0 where fs0: "snd (rebuild (cf_grace ex_cfg) 0 [] ex_shape ex_files) = fs0" by simp
  have "case pf_out (snd (rebuild (cf_grace ex_cfg) 0 [] ex_shape ex_files)) of Holds d \<Rightarrow> length (pd_nodes d) = 2 \<and>
      list_all (\<lambda>n. case probe_node ex_outcome (pn_payload n) (pn_network n) of Some r \<Rightarrow> \<not> pr_up r | None \<Rightarrow> False) (pd_nodes d) | _ \<Rightarrow> False"
    by code_simp
  then obtain d where d: "pf_out fs0 = Holds d" "length (pd_nodes d) = 2"
    "list_all (\<lambda>n. case probe_node ex_outcome (pn_payload n) (pn_network n) of Some r \<Rightarrow> \<not> pr_up r | None \<Rightarrow> False) (pd_nodes d)"
    by (auto simp: fs0 split: doc_file.splits)
  have "pd_nodes d \<noteq> []" using d(2) by auto
  from clean_sweep_records_nothing [OF fs0 d(1) this d(3), of "[]"] fs0 d show ?thesis
    by (auto simp: ex_cfg_def split: prod.splits)
qed

text \<open>A history file that the rebuild makes carries the window 144, whatever window is configured, and the window
  a file carries is the one that counts.\<close>

lemma rebuilt_history_ignores_window:
  "pf_hist ex_files = NoFile \<and>
   (case pf_hist (snd (update_cycle (ex_cfg\<lparr>cf_window := 50\<rparr>) 0 [] [] ex_paired ex_outcome ex_files)) of
      Holds h \<Rightarrow> hd_limit h = 144 | _ \<Rightarrow> False)"
  by code_simp

text \<open>C28: the histories are bounded by their windows: from files whose series fit, whatever the store, the probes
  and the failing writes are from cycle to cycle, the history file keeps the window it carries, no series of checks
  and no pending entry grows over that window, no daily series over the configured retention, and every day has at
  least one probe, at most as many active ones, and a share between 0 and 100.\<close>

theorem histories_stay_bounded:
  assumes "pf_hist fs = Holds h" and "0 < hd_limit h" and "files_ok (hd_limit h) (cf_retention cfg) fs"
  shows "files_ok (hd_limit h) (cf_retention cfg)
    (fold (\<lambda>(now, rws, ws, s, oc) fs. snd (update_cycle cfg now rws ws s oc fs)) cycles fs)"
proof (rule fold_keeps [where I = "files_ok (hd_limit h) (cf_retention cfg)"])
  fix c :: "int \<times> io list \<times> io list \<times> shape \<times> outcome" and fs assume "files_ok (hd_limit h) (cf_retention cfg) fs"
  with assms(2) show "files_ok (hd_limit h) (cf_retention cfg)
      ((\<lambda>(now, rws, ws, s, oc) fs. snd (update_cycle cfg now rws ws s oc fs)) c fs)"
    by (cases c) (simp add: update_cycle_files_ok)
qed (rule assms(3))

definition ex_windowed :: "check history_doc" where
  "ex_windowed = \<lparr>hd_generated_at = None, hd_limit = 2, hd_nodes = []\<rparr>"

theorem histories_stay_bounded_witness:
  "files_ok 2 90 (fold (\<lambda>(now, rws, ws, s, oc) fs. snd (update_cycle ex_cfg now rws ws s oc fs))
     [(0, [], [], ex_paired, ex_outcome), (600000, [], [Failed], ex_shape, ex_outcome)] (ex_files\<lparr>pf_hist := Holds ex_windowed\<rparr>))"
proof -
  let ?fs = "ex_files\<lparr>pf_hist := Holds ex_windowed\<rparr>"
  have "files_ok (hd_limit ex_windowed) (cf_retention ex_cfg) ?fs"
    by (simp add: files_ok_def hist_ok_def doc_ok_def ex_files_def ex_windowed_def all_series_def)
  with histories_stay_bounded [of ?fs ex_windowed ex_cfg
      "[(0, [], [], ex_paired, ex_outcome), (600000, [], [Failed], ex_shape, ex_outcome)]"]
  show ?thesis by (simp add: ex_cfg_def ex_windowed_def)
qed

end
