(* ===== verification/IndexState.thy ===== *)
theory IndexState
  imports Prelude
begin

text \<open>
  \<open>gateway/index-state.ts\<close>: which index of the BIP47 chain the next invoice gets. The state
  record, the file it is kept in and every operation of \<open>IndexStore\<close>, followed by the ledger
  that the operations promise to keep (each index is fresh, live, resting or retired), the
  refinement of that ledger, and what it gives for whole runs. Numbers are unbounded integers:
  the counter stays far below \<open>2 ^ 53\<close>, where JavaScript's would lose precision.
\<close>

section \<open>The state and its file\<close>

record reclaimed =
  rc_index :: int
  rc_at :: stamp

record index_state =
  st_v :: int
  next_index :: int
  reclaimed :: "reclaimed list"
  issued :: "int list"
  updated_at :: "stamp option"

definition EMPTY :: index_state where
  "EMPTY = \<lparr>st_v = 1, next_index = 0, reclaimed = [], issued = [], updated_at = None\<rparr>"

definition RECLAIM_QUARANTINE_MS :: int where
  "RECLAIM_QUARANTINE_MS = 24 * 60 * 60 * 1000"

text \<open>What the state file holds: nothing (\<open>ENOENT\<close>), a state, or something that cannot be read
  or parsed. The store object keeps the state it loaded.\<close>

datatype disk = NoFile | Holds index_state | Corrupt

record index_store =
  on_disk :: disk
  cached :: "index_state option"

datatype store_error = NoNetwork | LoadFailed | WriteFailed

definition index_file :: "string \<Rightarrow> string \<Rightarrow> store_error + string" where
  "index_file dir network =
     (if network = [] then Inl NoNetwork
      else Inr (dir @ ''/index-state.'' @ network @ ''.json''))"

definition load :: "index_store \<Rightarrow> (store_error + index_state) \<times> index_store" where
  "load st = (case cached st of
     Some s \<Rightarrow> (Inr s, st)
   | None \<Rightarrow> (case on_disk st of
       Holds parsed \<Rightarrow> (Inr parsed, st\<lparr>cached := Some parsed\<rparr>)
     | NoFile \<Rightarrow> (Inr EMPTY, st\<lparr>cached := Some EMPTY\<rparr>)
     | Corrupt \<Rightarrow> (Inl LoadFailed, st)))"

text \<open>\<open>persist\<close> stamps the object in memory and then replaces the file; when the write or the
  rename throws, the object in memory stays changed. \<open>s\<close> is the loaded object after the
  operation's own changes, \<open>wall\<close> the clock when the file is written.\<close>

definition persist :: "io \<Rightarrow> int \<Rightarrow> index_state \<Rightarrow> index_store \<Rightarrow> (store_error + unit) \<times> index_store" where
  "persist w wall s st =
     (let s' = s\<lparr>updated_at := Some (to_iso wall)\<rparr>; st' = st\<lparr>cached := Some s'\<rparr>
      in case w of
           Completed \<Rightarrow> (Inr (), st'\<lparr>on_disk := Holds s'\<rparr>)
         | Failed \<Rightarrow> (Inl WriteFailed, st'))"

section \<open>The operations\<close>

text \<open>\<open>now - Date.parse(r.at) >= RECLAIM_QUARANTINE_MS\<close>, which is false for \<open>NaN\<close>.\<close>

definition rested :: "int \<Rightarrow> int \<Rightarrow> reclaimed \<Rightarrow> bool" where
  "rested q now r = (case date_parse (rc_at r) of Some t \<Rightarrow> q \<le> now - t | None \<Rightarrow> False)"

definition allocate_core :: "int \<Rightarrow> int \<Rightarrow> index_state \<Rightarrow> int \<times> index_state" where
  "allocate_core q now s =
     (let (index, s1) =
        (case find_index (rested q now) (reclaimed s) of
           Some ready \<Rightarrow>
             (rc_index (reclaimed s ! ready), s\<lparr>reclaimed := splice1 ready (reclaimed s)\<rparr>)
         | None \<Rightarrow> (next_index s, s\<lparr>next_index := next_index s + 1\<rparr>))
      in (index, if index \<in> set (issued s1) then s1 else s1\<lparr>issued := issued s1 @ [index]\<rparr>))"

definition allocate :: "int \<Rightarrow> int \<Rightarrow> int \<Rightarrow> io \<Rightarrow> index_store \<Rightarrow> (store_error + int) \<times> index_store" where
  "allocate q now wall w st =
     (case load st of
        (Inl e, st1) \<Rightarrow> (Inl e, st1)
      | (Inr s, st1) \<Rightarrow>
          (let (index, s') = allocate_core q now s
           in case persist w wall s' st1 of
                (Inl e, st2) \<Rightarrow> (Inl e, st2)
              | (Inr _, st2) \<Rightarrow> (Inr index, st2)))"

definition release_core :: "int \<Rightarrow> int \<Rightarrow> index_state \<Rightarrow> index_state option" where
  "release_core index now s =
     (case index_of index (issued s) of
        None \<Rightarrow> None
      | Some pos \<Rightarrow>
          (let s1 = s\<lparr>issued := splice1 pos (issued s)\<rparr>
           in Some (if \<exists>r \<in> set (reclaimed s1). rc_index r = index then s1
                    else s1\<lparr>reclaimed := reclaimed s1 @ [\<lparr>rc_index = index, rc_at = to_iso now\<rparr>]\<rparr>)))"

definition release :: "int \<Rightarrow> int \<Rightarrow> int \<Rightarrow> io \<Rightarrow> index_store \<Rightarrow> (store_error + bool) \<times> index_store" where
  "release index now wall w st =
     (case load st of
        (Inl e, st1) \<Rightarrow> (Inl e, st1)
      | (Inr s, st1) \<Rightarrow>
          (case release_core index now s of
             None \<Rightarrow> (Inr False, st1)
           | Some s' \<Rightarrow>
               (case persist w wall s' st1 of
                  (Inl e, st2) \<Rightarrow> (Inl e, st2)
                | (Inr _, st2) \<Rightarrow> (Inr True, st2))))"

definition settle_core :: "int \<Rightarrow> index_state \<Rightarrow> index_state option" where
  "settle_core index s =
     (case index_of index (issued s) of
        None \<Rightarrow> None
      | Some pos \<Rightarrow> Some (s\<lparr>issued := splice1 pos (issued s)\<rparr>))"

definition settle :: "int \<Rightarrow> int \<Rightarrow> io \<Rightarrow> index_store \<Rightarrow> (store_error + bool) \<times> index_store" where
  "settle index wall w st =
     (case load st of
        (Inl e, st1) \<Rightarrow> (Inl e, st1)
      | (Inr s, st1) \<Rightarrow>
          (case settle_core index s of
             None \<Rightarrow> (Inr False, st1)
           | Some s' \<Rightarrow>
               (case persist w wall s' st1 of
                  (Inl e, st2) \<Rightarrow> (Inl e, st2)
                | (Inr _, st2) \<Rightarrow> (Inr True, st2))))"

record index_status =
  n_next :: int
  n_issued :: nat
  n_reclaimed :: nat
  n_reclaimable :: nat
  s_updated_at :: "stamp option"

definition status :: "int \<Rightarrow> int \<Rightarrow> index_store \<Rightarrow> (store_error + index_status) \<times> index_store" where
  "status q now st =
     (case load st of
        (Inl e, st1) \<Rightarrow> (Inl e, st1)
      | (Inr s, st1) \<Rightarrow>
          (Inr \<lparr>n_next = next_index s, n_issued = length (issued s),
                n_reclaimed = length (reclaimed s),
                n_reclaimable = length (filter (rested q now) (reclaimed s)),
                s_updated_at = updated_at s\<rparr>, st1))"

section \<open>Well-formed states\<close>

text \<open>No index is in two places, and every index in use is below the counter.\<close>

definition ix_inv :: "index_state \<Rightarrow> bool" where
  "ix_inv s \<longleftrightarrow>
     distinct (issued s @ map rc_index (reclaimed s)) \<and>
     (\<forall>i \<in> set (issued s) \<union> rc_index ` set (reclaimed s). 0 \<le> i \<and> i < next_index s) \<and>
     0 \<le> next_index s"

lemma ix_inv_EMPTY [simp]: "ix_inv EMPTY"
  by (simp add: ix_inv_def EMPTY_def)

lemma ix_inv_stamp [simp]: "ix_inv (s\<lparr>updated_at := u\<rparr>) = ix_inv s"
  by (simp add: ix_inv_def)

text \<open>Allocation either takes the first rested index out of the free list or a fresh one.\<close>

lemma allocate_core_cases:
  assumes "ix_inv s" "allocate_core q now s = (i, s')"
  obtains
    (reused) ys r zs where "reclaimed s = ys @ r # zs" "rested q now r"
      "\<forall>y \<in> set ys. \<not> rested q now y" "i = rc_index r"
      "s' = s\<lparr>reclaimed := ys @ zs, issued := issued s @ [i]\<rparr>"
  | (fresh) "\<forall>r \<in> set (reclaimed s). \<not> rested q now r" "i = next_index s"
      "s' = s\<lparr>next_index := next_index s + 1, issued := issued s @ [i]\<rparr>"
proof (cases "find_index (rested q now) (reclaimed s)")
  case None
  with assms fresh show ?thesis
    by (auto simp: allocate_core_def find_index_None ix_inv_def split: if_splits)
next
  case (Some k)
  from find_index_split [OF Some] obtain ys r zs where
    r: "reclaimed s = ys @ r # zs" "length ys = k" "rested q now r"
      "\<forall>y \<in> set ys. \<not> rested q now y" by blast
  have "rc_index r \<notin> set (issued s)"
    using assms(1) r(1) by (auto simp: ix_inv_def)
  with assms(2) Some r show ?thesis
    by (intro reused [of ys r zs]) (auto simp: allocate_core_def nth_append split: if_splits)
qed

lemma release_core_Some:
  assumes "ix_inv s" "release_core i now s = Some s'"
  obtains ys zs where "issued s = ys @ i # zs"
    "s' = s\<lparr>issued := ys @ zs, reclaimed := reclaimed s @ [\<lparr>rc_index = i, rc_at = to_iso now\<rparr>]\<rparr>"
proof -
  from assms(2) obtain pos where pos: "index_of i (issued s) = Some pos"
    by (auto simp: release_core_def split: option.splits)
  from index_of_split [OF this] obtain ys zs where
    s: "issued s = ys @ i # zs" "length ys = pos" by blast
  have "\<not> (\<exists>r \<in> set (reclaimed s). rc_index r = i)"
    using assms(1) s(1) by (auto simp: ix_inv_def)
  with assms(2) pos s that show ?thesis
    by (auto simp: release_core_def Let_def split: if_splits)
qed

lemma release_core_None: "release_core i now s = None \<longleftrightarrow> i \<notin> set (issued s)"
  by (auto simp: release_core_def Let_def dest: index_of_SomeD split: option.splits)

lemma settle_core_Some:
  assumes "settle_core i s = Some s'"
  obtains ys zs where "issued s = ys @ i # zs" "s' = s\<lparr>issued := ys @ zs\<rparr>"
proof -
  from assms obtain pos where pos: "index_of i (issued s) = Some pos"
    by (auto simp: settle_core_def split: option.splits)
  from index_of_split [OF this] obtain ys zs where
    "issued s = ys @ i # zs" "length ys = pos" by blast
  with assms pos that show ?thesis by (auto simp: settle_core_def)
qed

lemma settle_core_None: "settle_core i s = None \<longleftrightarrow> i \<notin> set (issued s)"
  by (auto simp: settle_core_def dest: index_of_SomeD split: option.splits)

lemma ix_invD:
  assumes "ix_inv s"
  shows "distinct (issued s)" "distinct (map rc_index (reclaimed s))"
    "\<And>i. i \<in> set (issued s) \<Longrightarrow> 0 \<le> i \<and> i < next_index s"
    "\<And>r. r \<in> set (reclaimed s) \<Longrightarrow> 0 \<le> rc_index r \<and> rc_index r < next_index s"
    "\<And>r. r \<in> set (reclaimed s) \<Longrightarrow> rc_index r \<notin> set (issued s)"
    "0 \<le> next_index s"
  using assms by (auto simp: ix_inv_def)

lemma allocate_core_inv [inv_pres]:
  assumes "ix_inv s" "allocate_core q now s = (i, s')" shows "ix_inv s'"
proof (cases rule: allocate_core_cases [OF assms])
  case (1 ys r zs)
  with assms(1) show ?thesis by (simp add: ix_inv_def)
next
  case 2
  let ?n = "next_index s"
  have bound: "0 \<le> i \<and> i < ?n" if "i \<in> set (issued s) \<union> rc_index ` set (reclaimed s)" for i
    using that assms(1) unfolding ix_inv_def by blast
  then have "?n \<notin> set (issued s)" "?n \<notin> rc_index ` set (reclaimed s)" by blast+
  moreover have "0 \<le> i \<and> i < ?n + 1" if "i \<in> set (issued s) \<union> rc_index ` set (reclaimed s)" for i
    using bound [OF that] by simp
  ultimately show ?thesis using assms(1) unfolding ix_inv_def 2(2,3) by simp
qed

lemma release_core_inv [inv_pres]:
  assumes "ix_inv s" "release_core i now s = Some s'" shows "ix_inv s'"
proof (rule release_core_Some [OF assms])
  fix ys zs
  assume "issued s = ys @ i # zs"
    "s' = s\<lparr>issued := ys @ zs, reclaimed := reclaimed s @ [\<lparr>rc_index = i, rc_at = to_iso now\<rparr>]\<rparr>"
  with assms(1) show ?thesis by (simp add: ix_inv_def)
qed

lemma settle_core_inv [inv_pres]:
  assumes "ix_inv s" "settle_core i s = Some s'" shows "ix_inv s'"
proof (rule settle_core_Some [OF assms(2)])
  fix ys zs
  assume "issued s = ys @ i # zs" "s' = s\<lparr>issued := ys @ zs\<rparr>"
  with assms(1) show ?thesis by (simp add: ix_inv_def)
qed

section \<open>The ledger the operations keep\<close>

text \<open>
  What the chain promises, without the lists: every index is void (negative), fresh, live on an
  invoice, resting since it was released, or retired for good.
\<close>

datatype standing = Void | Fresh | Live | Resting stamp | Retired

type_synonym ledger = "int \<Rightarrow> standing"

definition ledger_of :: "index_state \<Rightarrow> ledger" where
  "ledger_of s i =
     (if i < 0 then Void
      else if i \<in> set (issued s) then Live
      else (case find (\<lambda>r. rc_index r = i) (reclaimed s) of
              Some r \<Rightarrow> Resting (rc_at r)
            | None \<Rightarrow> if i < next_index s then Retired else Fresh))"

datatype ix_op = Allocate | Release int | Settle int

datatype ix_reply = Issued int | Reply bool

text \<open>The abstract specification: which replies an operation may give and what it does to the
  ledger. A fresh index is handed out only when nothing has rested long enough, and it is the
  least fresh one.\<close>

inductive ledger_step :: "int \<Rightarrow> int \<Rightarrow> ix_op \<Rightarrow> ledger \<Rightarrow> ix_reply \<Rightarrow> ledger \<Rightarrow> bool"
  for q now :: int where
  issue_fresh: "L i = Fresh \<Longrightarrow> (\<forall>j. 0 \<le> j \<and> j < i \<longrightarrow> L j \<noteq> Fresh) \<Longrightarrow>
     (\<forall>j t. L j = Resting (Instant t) \<longrightarrow> now - t < q) \<Longrightarrow>
     ledger_step q now Allocate L (Issued i) (L(i := Live))"
| reissue: "L i = Resting (Instant t) \<Longrightarrow> q \<le> now - t \<Longrightarrow>
     ledger_step q now Allocate L (Issued i) (L(i := Live))"
| give_back: "L i = Live \<Longrightarrow>
     ledger_step q now (Release i) L (Reply True) (L(i := Resting (to_iso now)))"
| not_live: "L i \<noteq> Live \<Longrightarrow> ledger_step q now (Release i) L (Reply False) L"
| retire: "L i = Live \<Longrightarrow> ledger_step q now (Settle i) L (Reply True) (L(i := Retired))"
| not_settled: "L i \<noteq> Live \<Longrightarrow> ledger_step q now (Settle i) L (Reply False) L"

inductive_cases ledger_step_Allocate: "ledger_step q now Allocate L r L'"
inductive_cases ledger_step_Release: "ledger_step q now (Release i) L r L'"
inductive_cases ledger_step_Settle: "ledger_step q now (Settle i) L r L'"

fun ix_step :: "int \<Rightarrow> int \<Rightarrow> ix_op \<Rightarrow> index_state \<Rightarrow> ix_reply \<times> index_state" where
  "ix_step q now Allocate s = (let (i, s') = allocate_core q now s in (Issued i, s'))"
| "ix_step q now (Release i) s =
     (case release_core i now s of None \<Rightarrow> (Reply False, s) | Some s' \<Rightarrow> (Reply True, s'))"
| "ix_step q now (Settle i) s =
     (case settle_core i s of None \<Rightarrow> (Reply False, s) | Some s' \<Rightarrow> (Reply True, s'))"

fun ix_run :: "int \<Rightarrow> (int \<times> ix_op) list \<Rightarrow> index_state \<Rightarrow> ix_reply list \<times> index_state" where
  "ix_run q [] s = ([], s)"
| "ix_run q ((now, op) # ops) s =
     (let (r, s') = ix_step q now op s; (rs, s'') = ix_run q ops s' in (r # rs, s''))"

lemma ix_run_Cons:
  "ix_run q ((now, op) # ops) s =
     (fst (ix_step q now op s) # fst (ix_run q ops (snd (ix_step q now op s))),
      snd (ix_run q ops (snd (ix_step q now op s))))"
  by (simp split: prod.splits)

lemmas ix_run_simps = ix_run.simps(1) ix_run_Cons

declare ix_run.simps [simp del] ix_run_simps [simp]

lemma ix_step_inv [inv_pres]: "ix_inv s \<Longrightarrow> ix_inv (snd (ix_step q now op s))"
  by (cases op) (auto split: prod.splits option.splits
    intro: allocate_core_inv release_core_inv settle_core_inv)

lemma ix_run_inv [inv_pres]: "ix_inv s \<Longrightarrow> ix_inv (snd (ix_run q ops s))"
proof (induction ops arbitrary: s)
  case (Cons x ops)
  obtain now op where x: "x = (now, op)" by (cases x)
  from Cons.IH [OF ix_step_inv [OF Cons.prems]] show ?case by (simp add: x)
qed simp

lemma find_index_list: "distinct (map f xs) \<Longrightarrow> x \<in> set xs \<Longrightarrow> find (\<lambda>y. f y = f x) xs = Some x"
  by (induction xs) auto

lemma ledger_of_Live: "ix_inv s \<Longrightarrow> ledger_of s i = Live \<longleftrightarrow> i \<in> set (issued s)"
  using ix_invD(3) [of s i] by (auto simp: ledger_of_def split: option.splits)

lemma ledger_of_Resting:
  assumes "ix_inv s"
  shows "ledger_of s i = Resting a \<longleftrightarrow> \<lparr>rc_index = i, rc_at = a\<rparr> \<in> set (reclaimed s)"
proof
  assume "ledger_of s i = Resting a"
  then obtain r where r: "find (\<lambda>r. rc_index r = i) (reclaimed s) = Some r" "rc_at r = a"
    by (auto simp: ledger_of_def split: if_splits option.splits)
  then have "r = \<lparr>rc_index = i, rc_at = a\<rparr>" "r \<in> set (reclaimed s)"
    by (auto dest: find_Some_mem)
  then show "\<lparr>rc_index = i, rc_at = a\<rparr> \<in> set (reclaimed s)" by simp
next
  assume r: "\<lparr>rc_index = i, rc_at = a\<rparr> \<in> set (reclaimed s)" (is "?r \<in> _")
  have "find (\<lambda>y. rc_index y = rc_index ?r) (reclaimed s) = Some ?r"
    using ix_invD(2) [OF assms] r by (intro find_index_list)
  moreover have "i \<notin> set (issued s)" "0 \<le> i"
    using ix_invD(4,5) [OF assms r] by simp_all
  ultimately show "ledger_of s i = Resting a" by (simp add: ledger_of_def)
qed

lemma ledger_of_Fresh:
  assumes "ix_inv s" shows "ledger_of s i = Fresh \<longleftrightarrow> next_index s \<le> i"
  using ix_invD(3,4,6) [OF assms]
  by (force simp: ledger_of_def find_None_mem dest: find_Some_mem split: option.splits)

lemma ledger_of_reuse:
  assumes "ix_inv s" "reclaimed s = ys @ r # zs"
  shows "ledger_of (s\<lparr>reclaimed := ys @ zs, issued := issued s @ [rc_index r]\<rparr>) =
    (ledger_of s)(rc_index r := Live)"
  using ix_invD(4) [OF assms(1), of r] assms(2)
  by (auto simp: ledger_of_def find_drop_mid fun_eq_iff)

lemma ledger_of_take_fresh:
  assumes "ix_inv s"
  shows "ledger_of (s\<lparr>next_index := next_index s + 1, issued := issued s @ [next_index s]\<rparr>) =
    (ledger_of s)(next_index s := Live)"
  using ix_invD(6) [OF assms]
  by (auto simp: ledger_of_def fun_eq_iff split: option.splits)

lemma ledger_of_give_back:
  assumes "ix_inv s" "issued s = ys @ i # zs"
  shows "ledger_of (s\<lparr>issued := ys @ zs, reclaimed := reclaimed s @ [\<lparr>rc_index = i, rc_at = a\<rparr>]\<rparr>) =
    (ledger_of s)(i := Resting a)"
proof
  fix j
  have "find (\<lambda>r. rc_index r = i) (reclaimed s) = None" "i \<notin> set (ys @ zs)" "0 \<le> i"
    using ix_invD(1,3,5) [OF assms(1)] assms(2) by (auto simp: find_None_mem)
  then show "ledger_of (s\<lparr>issued := ys @ zs, reclaimed := reclaimed s @ [\<lparr>rc_index = i, rc_at = a\<rparr>]\<rparr>) j =
      ((ledger_of s)(i := Resting a)) j"
    using assms(2) by (auto simp: ledger_of_def find_snoc split: option.splits)
qed

lemma ledger_of_retire:
  assumes "ix_inv s" "issued s = ys @ i # zs"
  shows "ledger_of (s\<lparr>issued := ys @ zs\<rparr>) = (ledger_of s)(i := Retired)"
proof
  fix j
  have "find (\<lambda>r. rc_index r = i) (reclaimed s) = None" "i \<notin> set (ys @ zs)" "0 \<le> i" "i < next_index s"
    using ix_invD(1,3,5) [OF assms(1)] assms(2) by (auto simp: find_None_mem)
  then show "ledger_of (s\<lparr>issued := ys @ zs\<rparr>) j = ((ledger_of s)(i := Retired)) j"
    using assms(2) by (auto simp: ledger_of_def split: option.splits)
qed

lemma allocate_refines:
  assumes "ix_inv s" "allocate_core q now s = (i, s')"
  shows "ledger_step q now Allocate (ledger_of s) (Issued i) (ledger_of s')"
proof (cases rule: allocate_core_cases [OF assms])
  case (1 ys r zs)
  from 1(2) obtain t where t: "rc_at r = Instant t" "q \<le> now - t"
    by (cases "rc_at r") (auto simp: rested_def)
  have "ledger_of s i = Resting (Instant t)"
    using ledger_of_Resting [OF assms(1)] 1(1,4) t(1) by (cases r) auto
  from ledger_step.reissue [of "ledger_of s" i t q now, OF this t(2)] show ?thesis
    using ledger_of_reuse [OF assms(1) 1(1)] 1(4,5) by simp
next
  case 2
  have resting: "now - t < q" if "ledger_of s j = Resting (Instant t)" for j t
    using that 2(1) by (force simp: ledger_of_Resting [OF assms(1)] rested_def)
  show ?thesis
    unfolding 2(2,3) ledger_of_take_fresh [OF assms(1)]
    by (rule ledger_step.issue_fresh) (auto simp: ledger_of_Fresh [OF assms(1)] dest: resting)
qed

lemma release_refines:
  assumes "ix_inv s"
  shows "ledger_step q now (Release i) (ledger_of s) (fst (ix_step q now (Release i) s))
    (ledger_of (snd (ix_step q now (Release i) s)))"
proof (cases "release_core i now s")
  case None
  then have "ledger_of s i \<noteq> Live"
    by (simp add: release_core_None ledger_of_Live [OF assms])
  with None show ?thesis by (simp add: ledger_step.not_live)
next
  case (Some s')
  obtain ys zs where s: "issued s = ys @ i # zs"
    "s' = s\<lparr>issued := ys @ zs, reclaimed := reclaimed s @ [\<lparr>rc_index = i, rc_at = to_iso now\<rparr>]\<rparr>"
    by (rule release_core_Some [OF assms Some])
  have "ledger_of s i = Live" using s(1) by (simp add: ledger_of_Live [OF assms])
  from ledger_step.give_back [of "ledger_of s" i q now, OF this] show ?thesis
    by (simp add: Some s(2) ledger_of_give_back [OF assms s(1)])
qed

lemma settle_refines:
  assumes "ix_inv s"
  shows "ledger_step q now (Settle i) (ledger_of s) (fst (ix_step q now (Settle i) s))
    (ledger_of (snd (ix_step q now (Settle i) s)))"
proof (cases "settle_core i s")
  case None
  then have "ledger_of s i \<noteq> Live"
    by (simp add: settle_core_None ledger_of_Live [OF assms])
  with None show ?thesis by (simp add: ledger_step.not_settled)
next
  case (Some s')
  obtain ys zs where s: "issued s = ys @ i # zs" "s' = s\<lparr>issued := ys @ zs\<rparr>"
    by (rule settle_core_Some [OF Some])
  have "ledger_of s i = Live" using s(1) by (simp add: ledger_of_Live [OF assms])
  from ledger_step.retire [of "ledger_of s" i q now, OF this] show ?thesis
    by (simp add: Some s(2) ledger_of_retire [OF assms s(1)])
qed

lemma ix_step_refines_core:
  assumes "ix_inv s"
  shows "ledger_step q now op (ledger_of s) (fst (ix_step q now op s))
    (ledger_of (snd (ix_step q now op s)))"
proof (cases op)
  case Allocate
  obtain i s' where "allocate_core q now s = (i, s')" by (cases "allocate_core q now s")
  with Allocate allocate_refines [OF assms this] show ?thesis by simp
qed (simp_all only: release_refines [OF assms] settle_refines [OF assms])

section \<open>What the ledger gives for whole runs\<close>

text \<open>An index that has been retired is never handed out again; one that was live comes back
  only through a release, and not before the quarantine has passed.\<close>

definition accounted :: "int set \<Rightarrow> standing \<Rightarrow> bool" where
  "accounted R x \<longleftrightarrow> x = Live \<or> x = Retired \<or> (\<exists>t \<in> R. x = Resting (Instant t))"

lemma ledger_step_Retired:
  assumes "ledger_step q now op L r L'" "L i = Retired"
  shows "L' i = Retired \<and> r \<noteq> Issued i"
  using assms by (cases rule: ledger_step.cases) auto

lemma ledger_step_accounted:
  assumes "ledger_step q now op L r L'" "accounted R (L i)"
  shows "accounted (R \<union> (if op = Release i then {now} else {})) (L' i)"
  using assms by (cases rule: ledger_step.cases) (auto simp: accounted_def to_iso_def)

lemma ix_run_Retired:
  assumes "ix_inv s" "ledger_of s i = Retired"
  shows "Issued i \<notin> set (fst (ix_run q ops s)) \<and> ledger_of (snd (ix_run q ops s)) i = Retired"
  using assms
proof (induction ops arbitrary: s)
  case (Cons x ops)
  obtain now op where x: "x = (now, op)" by (cases x)
  let ?s' = "snd (ix_step q now op s)"
  from ledger_step_Retired [OF ix_step_refines_core [OF Cons.prems(1)] Cons.prems(2)]
  have "ledger_of ?s' i = Retired" "fst (ix_step q now op s) \<noteq> Issued i" by blast+
  with Cons.IH [OF ix_step_inv [OF Cons.prems(1)]] show ?case
    by (simp add: x)
qed simp

lemma ix_run_accounted:
  assumes "ix_inv s" "accounted R (ledger_of s i)"
  shows "accounted (R \<union> {t. (t, Release i) \<in> set ops}) (ledger_of (snd (ix_run q ops s)) i)"
  using assms
proof (induction ops arbitrary: s R)
  case (Cons x ops)
  obtain now op where x: "x = (now, op)" by (cases x)
  let ?R = "R \<union> (if op = Release i then {now} else {})"
  have R: "R \<union> {t. (t, Release i) \<in> set (x # ops)} = ?R \<union> {t. (t, Release i) \<in> set ops}"
    by (auto simp: x)
  from Cons.IH [OF ix_step_inv [OF Cons.prems(1)]
      ledger_step_accounted [OF ix_step_refines_core [OF Cons.prems(1)] Cons.prems(2)]]
  show ?case unfolding R by (simp add: x)
qed simp

lemma ix_run_append:
  "ix_run q (xs @ ys) s =
     (fst (ix_run q xs s) @ fst (ix_run q ys (snd (ix_run q xs s))),
      snd (ix_run q ys (snd (ix_run q xs s))))"
proof (induction xs arbitrary: s)
  case (Cons x xs)
  then show ?case by (cases x) simp
qed simp

lemma run_inv: "ix_inv (snd (ix_run q ops EMPTY))"
  by (rule ix_run_inv) simp

text \<open>With a clock that never goes back, the free list is in the order of release.\<close>

definition released_before :: "int \<Rightarrow> index_state \<Rightarrow> bool" where
  "released_before now s \<longleftrightarrow>
     (\<exists>ts. map rc_at (reclaimed s) = map Instant ts \<and> sorted ts \<and> (\<forall>t \<in> set ts. t \<le> now))"

lemma released_before_mono: "released_before now s \<Longrightarrow> now \<le> now' \<Longrightarrow> released_before now' s"
  unfolding released_before_def by fastforce

lemma map_eq_append_mid:
  "map f (xs @ x # ys) = map g ts \<Longrightarrow>
     \<exists>us u vs. ts = us @ u # vs \<and> map f xs = map g us \<and> f x = g u \<and> map f ys = map g vs"
  by (simp add: append_eq_map_conv Cons_eq_map_conv) metis

lemma released_before_step:
  assumes "ix_inv s" "released_before now s"
  shows "released_before now (snd (ix_step q now op s))"
proof (cases op)
  case Allocate
  obtain i s' where al: "allocate_core q now s = (i, s')" by (cases "allocate_core q now s")
  from assms(1) al have "released_before now s'"
  proof (cases rule: allocate_core_cases)
    case (reused ys r zs)
    from assms(2) obtain ts where ts: "map rc_at (ys @ r # zs) = map Instant ts" "sorted ts"
      "\<forall>t \<in> set ts. t \<le> now" by (auto simp: released_before_def reused(1))
    from map_eq_append_mid [OF ts(1)] obtain us u vs where
      u: "ts = us @ u # vs" "map rc_at ys = map Instant us" "map rc_at zs = map Instant vs" by blast
    have "sorted (us @ vs)" using ts(2) by (auto simp: u(1) sorted_append)
    with ts(3) u show ?thesis
      unfolding released_before_def reused(5) by (intro exI [of _ "us @ vs"]) auto
  next
    case fresh
    with assms(2) show ?thesis by (simp add: released_before_def)
  qed
  with Allocate al show ?thesis by simp
next
  case (Release i)
  show ?thesis
  proof (cases "release_core i now s")
    case (Some s')
    from assms(2) obtain ts where ts: "map rc_at (reclaimed s) = map Instant ts" "sorted ts"
      "\<forall>t \<in> set ts. t \<le> now" by (auto simp: released_before_def)
    have "map rc_at (reclaimed s') = map Instant (ts @ [now])"
      by (rule release_core_Some [OF assms(1) Some]) (simp add: ts(1) to_iso_def)
    moreover have "sorted (ts @ [now])" using ts(2,3) by (simp add: sorted_append)
    ultimately have "released_before now s'"
      unfolding released_before_def using ts(3) by (intro exI [of _ "ts @ [now]"]) auto
    with Release Some show ?thesis by simp
  qed (simp add: Release assms(2))
next
  case (Settle i)
  then show ?thesis
    using assms(2) by (auto simp: released_before_def settle_core_def split: option.splits)
qed

lemma released_before_run:
  assumes "ix_inv s" "released_before t s" "sorted (t # map fst ops)"
  shows "\<exists>t'. t' \<in> set (t # map fst ops) \<and> released_before t' (snd (ix_run q ops s))"
  using assms
proof (induction ops arbitrary: s t)
  case (Cons x ops)
  obtain now op where x: "x = (now, op)" by (cases x)
  let ?s' = "snd (ix_step q now op s)"
  have "released_before now ?s'"
    using Cons.prems x by (intro released_before_step) (auto intro: released_before_mono)
  from Cons.IH [OF ix_step_inv [OF Cons.prems(1)] this] Cons.prems(3) show ?case
    by (auto simp: x)
qed auto

lemma reissue_first_rested:
  assumes "ix_inv s" "released_before now s" "fst (ix_step q now Allocate s) = Issued i"
    "ledger_of s i = Resting (Instant t)" "ledger_of s j = Resting (Instant t')"
  shows "t \<le> t'"
proof -
  obtain i' s' where al: "allocate_core q now s = (i', s')" by (cases "allocate_core q now s")
  with assms(3) have i': "i' = i" by simp
  from assms(1) al show ?thesis
  proof (cases rule: allocate_core_cases)
    case (reused ys r zs)
    from assms(4) have "\<lparr>rc_index = i, rc_at = Instant t\<rparr> \<in> set (reclaimed s)"
      by (simp add: ledger_of_Resting [OF assms(1)])
    with reused(1,4) i' ix_invD(2) [OF assms(1)]
    have "\<lparr>rc_index = i, rc_at = Instant t\<rparr> = r" by (auto simp: rev_image_eqI)
    then have r: "rc_at r = Instant t" by (metis reclaimed.select_convs(2))
    from assms(5) have j: "\<lparr>rc_index = j, rc_at = Instant t'\<rparr> \<in> set (reclaimed s)"
      by (simp add: ledger_of_Resting [OF assms(1)])
    show ?thesis
    proof (cases "t' < t")
      case True
      have "rested q now \<lparr>rc_index = j, rc_at = Instant t'\<rparr>"
        using reused(2) r True by (simp add: rested_def)
      with reused(3) j reused(1) have "\<lparr>rc_index = j, rc_at = Instant t'\<rparr> \<in> set (r # zs)" by auto
      then have "Instant t' \<in> set (map rc_at (r # zs))"
        by (metis image_eqI list.set_map reclaimed.select_convs(2))
      moreover from assms(2) obtain ts where ts: "map rc_at (ys @ r # zs) = map Instant ts" "sorted ts"
        by (auto simp: released_before_def reused(1))
      moreover from map_eq_append_mid [OF ts(1)] obtain us u vs where
        u: "ts = us @ u # vs" "rc_at r = Instant u" "map rc_at zs = map Instant vs" by blast
      ultimately show ?thesis using r by (auto simp: sorted_append)
    qed simp
  next
    case fresh
    with assms(4) i' ledger_of_Fresh [OF assms(1), of i] show ?thesis by simp
  qed
qed

section \<open>Properties\<close>

inductive ledger_trace :: "int \<Rightarrow> (int \<times> ix_op) list \<Rightarrow> ledger \<Rightarrow> ix_reply list \<Rightarrow> ledger \<Rightarrow> bool"
  for q :: int where
  none: "ledger_trace q [] L [] L"
| more: "ledger_step q now op L r L' \<Longrightarrow> ledger_trace q ops L' rs L'' \<Longrightarrow>
     ledger_trace q ((now, op) # ops) L (r # rs) L''"

inductive_simps ledger_trace_simps [simp]:
  "ledger_trace q [] L rs L'"
  "ledger_trace q ((now, op) # ops) L rs L'"






text \<open>C2: an index is never issued twice without having been released in between, and the second
  issue comes no sooner than the quarantine after that release.\<close>

theorem no_early_reissue:
  assumes "fst (ix_step q t0 Allocate (snd (ix_run q before EMPTY))) = Issued i"
    and "fst (ix_step q t1 Allocate (snd (ix_run q (before @ (t0, Allocate) # mid) EMPTY))) = Issued i"
  shows "\<exists>tr. (tr, Release i) \<in> set mid \<and> q \<le> t1 - tr"
proof -
  let ?start = "snd (ix_run q before EMPTY)"
  let ?live = "snd (ix_step q t0 Allocate ?start)"
  let ?later = "snd (ix_run q mid ?live)"
  have inv: "ix_inv ?live" "ix_inv ?later" by (intro ix_step_inv ix_run_inv run_inv)+
  have "ledger_step q t0 Allocate (ledger_of ?start) (Issued i) (ledger_of ?live)"
    by (metis ix_step_refines_core run_inv assms(1))
  then have "ledger_of ?live i = Live" by (auto elim: ledger_step_Allocate)
  then have "accounted {} (ledger_of ?live i)" by (simp add: accounted_def)
  from ix_run_accounted [OF inv(1) this, of mid q]
  have acc: "accounted {t. (t, Release i) \<in> set mid} (ledger_of ?later i)" by simp
  from assms(2) have "fst (ix_step q t1 Allocate ?later) = Issued i"
    by (simp only: ix_run_append ix_run_Cons snd_conv)
  then have "ledger_step q t1 Allocate (ledger_of ?later) (Issued i)
      (ledger_of (snd (ix_step q t1 Allocate ?later)))"
    by (metis ix_step_refines_core inv(2))
  then have "ledger_of ?later i = Fresh \<or> (\<exists>t. ledger_of ?later i = Resting (Instant t) \<and> q \<le> t1 - t)"
    by (auto elim: ledger_step_Allocate)
  with acc show ?thesis by (auto simp: accounted_def)
qed

theorem no_early_reissue_witness:
  "\<exists>tr. (tr, Release 0) \<in> set [(5, Release 0)] \<and> 100 \<le> (105::int) - tr"
  by (rule no_early_reissue [where before = "[]" and ?t0.0 = 0])
    (simp_all add: allocate_core_def release_core_def EMPTY_def index_of_def splice1_def rested_def
      to_iso_def Let_def)

text \<open>An index that was settled is never handed out again, whatever happens later.\<close>

theorem settled_never_reissued:
  assumes "fst (ix_step q t (Settle i) (snd (ix_run q before EMPTY))) = Reply True"
  shows "Issued i \<notin> set (fst (ix_run q after (snd (ix_run q (before @ [(t, Settle i)]) EMPTY))))"
proof -
  let ?s = "snd (ix_step q t (Settle i) (snd (ix_run q before EMPTY)))"
  have "ledger_step q t (Settle i) (ledger_of (snd (ix_run q before EMPTY))) (Reply True) (ledger_of ?s)"
    by (metis ix_step_refines_core run_inv assms)
  then have "ledger_of ?s i = Retired" by (auto elim: ledger_step_Settle)
  from ix_run_Retired [OF ix_step_inv [OF run_inv] this, of q after] show ?thesis
    unfolding ix_run_append ix_run_Cons ix_run.simps(1) snd_conv by blast
qed

theorem settled_never_reissued_witness:
  "Issued 0 \<notin> set (fst (ix_run 10 [(50, Release 0), (99, Allocate)]
     (snd (ix_run 10 ([(0, Allocate)] @ [(1, Settle 0)]) EMPTY))))"
  by (rule settled_never_reissued)
    (simp add: allocate_core_def settle_core_def EMPTY_def index_of_def splice1_def)

text \<open>While the clock does not go back, a reissued index is one that has rested longest: no
  index still resting was released before it.\<close>

theorem reissues_oldest:
  assumes "sorted (map fst ops @ [now])"
    and "fst (ix_step q now Allocate (snd (ix_run q ops EMPTY))) = Issued i"
    and "ledger_of (snd (ix_run q ops EMPTY)) i = Resting (Instant t)"
    and "ledger_of (snd (ix_run q ops EMPTY)) j = Resting (Instant t')"
  shows "t \<le> t'"
proof -
  let ?s = "snd (ix_run q ops EMPTY)"
  have "\<exists>t0 \<in> set (map fst ops @ [now]). t0 \<le> now \<and> sorted (t0 # map fst ops)"
    using assms(1) by (cases ops) (auto simp: sorted_append)
  then obtain t0 where t0: "t0 \<le> now" "sorted (t0 # map fst ops)" by blast
  have "released_before t0 EMPTY" by (simp add: released_before_def EMPTY_def)
  from released_before_run [OF ix_inv_EMPTY this t0(2), of q] t0(1) assms(1)
  have "released_before now ?s" by (auto simp: sorted_append intro: released_before_mono)
  from reissue_first_rested [OF run_inv this assms(2-4)] show ?thesis .
qed

theorem reissues_oldest_witness:
  "let s = snd (ix_run 10 [(0, Allocate), (1, Allocate), (2, Release 1), (3, Release 0)] EMPTY)
   in fst (ix_step 10 50 Allocate s) = Issued 1 \<and> ledger_of s 1 = Resting (Instant 2) \<and>
      ledger_of s 0 = Resting (Instant 3) \<and> (2::int) \<le> 3"
proof -
  let ?ops = "[(0, Allocate), (1, Allocate), (2, Release 1), (3, Release 0)]"
  let ?s = "snd (ix_run 10 ?ops EMPTY)"
  have s: "fst (ix_step 10 50 Allocate ?s) = Issued 1" "ledger_of ?s 1 = Resting (Instant 2)"
    "ledger_of ?s 0 = Resting (Instant 3)"
    by (simp_all add: allocate_core_def release_core_def EMPTY_def index_of_def splice1_def rested_def
      to_iso_def Let_def ledger_of_def)
  have "(2::int) \<le> 3" by (rule reissues_oldest [OF _ s]) simp
  with s show ?thesis by simp
qed

text \<open>When \<open>allocate\<close> answers with an index, the file on disk already records it as issued, so a
  restart cannot hand it out again; when the write fails the caller gets an error, and the index
  stays out of circulation in memory.\<close>

theorem allocate_durable:
  assumes "case load st of (Inr s, _) \<Rightarrow> ix_inv s | (Inl _, _) \<Rightarrow> True"
  shows "case allocate q now wall w st of
      (Inr i, st') \<Rightarrow> w = Completed \<and>
         (\<exists>s'. on_disk st' = Holds s' \<and> cached st' = Some s' \<and> ix_inv s' \<and> i \<in> set (issued s'))
    | (Inl LoadFailed, st') \<Rightarrow> cached st = None \<and> on_disk st = Corrupt \<and> st' = st
    | (Inl _, st') \<Rightarrow> w = Failed \<and> on_disk st' = on_disk st \<and>
         (\<exists>s i s'. fst (load st) = Inr s \<and> allocate_core q now s = (i, s') \<and>
            cached st' = Some (s'\<lparr>updated_at := Some (to_iso wall)\<rparr>) \<and> i \<in> set (issued s'))"
proof (cases "load st")
  case (Pair r st1)
  show ?thesis
  proof (cases r)
    case (Inl e)
    with Pair show ?thesis by (auto simp: load_def allocate_def split: option.splits disk.splits)
  next
    case (Inr s)
    with assms Pair have inv: "ix_inv s" by simp
    have disk: "on_disk st1 = on_disk st" using Pair Inr
      by (auto simp: load_def split: option.splits disk.splits)
    obtain i s' where al: "allocate_core q now s = (i, s')" by (cases "allocate_core q now s")
    have "i \<in> set (issued s')" by (rule allocate_core_cases [OF inv al]) simp_all
    with allocate_core_inv [OF inv al] show ?thesis
      by (cases w) (simp_all add: allocate_def Pair Inr al persist_def Let_def disk)
  qed
qed

theorem allocate_durable_witness:
  "\<exists>s'. on_disk (snd (allocate 10 5 6 Completed \<lparr>on_disk = NoFile, cached = None\<rparr>)) = Holds s' \<and>
     ix_inv s' \<and> 0 \<in> set (issued s')"
  using allocate_durable [where st = "\<lparr>on_disk = NoFile, cached = None\<rparr>" and q = 10 and now = 5
      and wall = 6 and w = Completed]
  by (auto simp: load_def allocate_def allocate_core_def persist_def EMPTY_def Let_def ix_inv_def)

text \<open>The late payment that settling does not cover. Once an index has been released, settling
  it is refused and changes nothing, so the payment that arrives during the quarantine does not
  retire it: as soon as the quarantine is over the same index is handed to the next order.\<close>

theorem late_settle_reissues:
  "ix_run RECLAIM_QUARANTINE_MS
     [(0, Allocate), (1000, Release 0), (2000, Settle 0), (1000 + RECLAIM_QUARANTINE_MS, Allocate)] EMPTY
   = ([Issued 0, Reply True, Reply False, Issued 0],
      \<lparr>st_v = 1, next_index = 1, reclaimed = [], issued = [0], updated_at = None\<rparr>)"
  by (simp add: RECLAIM_QUARANTINE_MS_def allocate_core_def release_core_def settle_core_def EMPTY_def
      index_of_def splice1_def rested_def to_iso_def)

end
