(* ===== verification/IndexConcurrency.thy ===== *)
theory IndexConcurrency
  imports IndexState
begin

text \<open>
  The awaits inside \<open>IndexStore\<close>. Several socket requests run their operations in one process and
  interleave wherever the code awaits: while the state file is read, between the return of
  \<open>load\<close> and the code after it, and while a snapshot is written and renamed into place. The state
  objects live on a heap, because two loads that overlap create two objects and \<open>this.state\<close> is
  the one assigned last. Between two awaits the code runs without interruption, so each step below
  is one such stretch.
\<close>

datatype call =
    Idle
  | Calling ix_op int
  | Reading ix_op int
  | ReadDone ix_op int index_state
  | Loaded ix_op int nat
  | Writing index_state ix_reply
  | Answered ix_reply

record csys =
  objs :: "nat \<Rightarrow> index_state"
  fresh_ref :: nat
  this_state :: "nat option"
  state_file :: "index_state option"
  calls :: "nat \<Rightarrow> call"

text \<open>The object a finished read puts in \<open>this.state\<close>: the parsed file, or a copy of \<open>EMPTY\<close>.\<close>

definition read_file :: "csys \<Rightarrow> index_state" where
  "read_file c = (case state_file c of Some d \<Rightarrow> d | None \<Rightarrow> EMPTY)"

text \<open>One step of call \<open>p\<close>. \<open>q\<close> is the quarantine and \<open>wall\<close> the clock when a snapshot is taken.\<close>

inductive call_step :: "int \<Rightarrow> csys \<Rightarrow> csys \<Rightarrow> bool" for q :: int where
  load_cached: "calls c p = Calling op now \<Longrightarrow> this_state c = Some r \<Longrightarrow>
     call_step q c (c\<lparr>calls := (calls c)(p := Loaded op now r)\<rparr>)"
| load_start: "calls c p = Calling op now \<Longrightarrow> this_state c = None \<Longrightarrow>
     call_step q c (c\<lparr>calls := (calls c)(p := Reading op now)\<rparr>)"
| load_read: "calls c p = Reading op now \<Longrightarrow>
     call_step q c (c\<lparr>calls := (calls c)(p := ReadDone op now (read_file c))\<rparr>)"
| load_install: "calls c p = ReadDone op now d \<Longrightarrow> r = fresh_ref c \<Longrightarrow>
     call_step q c (c\<lparr>objs := (objs c)(r := d), fresh_ref := Suc r, this_state := Some r,
        calls := (calls c)(p := Loaded op now r)\<rparr>)"
| body_refused: "calls c p = Loaded op now r \<Longrightarrow> ix_step q now op (objs c r) = (Reply False, s') \<Longrightarrow>
     call_step q c (c\<lparr>calls := (calls c)(p := Answered (Reply False))\<rparr>)"
| body_changed: "calls c p = Loaded op now r \<Longrightarrow> ix_step q now op (objs c r) = (reply, s') \<Longrightarrow>
     reply \<noteq> Reply False \<Longrightarrow> this_state c = Some cur \<Longrightarrow>
     h = (objs c)(r := s') \<Longrightarrow> snap = (h cur)\<lparr>updated_at := Some (to_iso wall)\<rparr> \<Longrightarrow>
     call_step q c (c\<lparr>objs := h(cur := snap), calls := (calls c)(p := Writing snap reply)\<rparr>)"
| renamed: "calls c p = Writing snap reply \<Longrightarrow>
     call_step q c (c\<lparr>state_file := Some snap, calls := (calls c)(p := Answered reply)\<rparr>)"

text \<open>The index a call has been given, from the moment the body has chosen it.\<close>

fun given :: "call \<Rightarrow> int option" where
  "given (Writing snap (Issued i)) = Some i"
| "given (Answered (Issued i)) = Some i"
| "given c = None"

fun wants_allocation :: "call \<Rightarrow> bool" where
  "wants_allocation (Calling op now) = (op = Allocate)"
| "wants_allocation (Reading op now) = (op = Allocate)"
| "wants_allocation (ReadDone op now d) = (op = Allocate)"
| "wants_allocation (Loaded op now r) = (op = Allocate)"
| "wants_allocation c = True"

text \<open>Warm: the state is loaded, and no load is under way.\<close>

fun on_object :: "nat \<Rightarrow> call \<Rightarrow> bool" where
  "on_object r (Reading op now) = False"
| "on_object r (ReadDone op now d) = False"
| "on_object r (Loaded op now r') = (r' = r)"
| "on_object r c = True"

definition warm :: "csys \<Rightarrow> bool" where
  "warm c \<longleftrightarrow> (\<exists>r. this_state c = Some r \<and> r < fresh_ref c \<and> ix_inv (objs c r) \<and>
     (\<forall>p. on_object r (calls c p)))"

definition allocations_only :: "csys \<Rightarrow> bool" where
  "allocations_only c \<longleftrightarrow> (\<forall>p. wants_allocation (calls c p))"

definition given_distinct :: "csys \<Rightarrow> bool" where
  "given_distinct c \<longleftrightarrow>
     (\<forall>p p' i. given (calls c p) = Some i \<longrightarrow> given (calls c p') = Some i \<longrightarrow> p = p')"

definition given_issued :: "csys \<Rightarrow> bool" where
  "given_issued c \<longleftrightarrow> (\<forall>r p i. this_state c = Some r \<longrightarrow> given (calls c p) = Some i \<longrightarrow>
     i \<in> set (issued (objs c r)))"

definition alloc_inv :: "csys \<Rightarrow> bool" where
  "alloc_inv c \<longleftrightarrow> warm c \<and> allocations_only c \<and> given_distinct c \<and> given_issued c"

lemma allocate_core_new:
  assumes "ix_inv s" "allocate_core q now s = (i, s')"
  shows "i \<notin> set (issued s) \<and> set (issued s') = insert i (set (issued s))"
proof (cases rule: allocate_core_cases [OF assms])
  case (1 ys r zs)
  with ix_invD(5) [OF assms(1), of r] show ?thesis by simp
next
  case 2
  with ix_invD(3) [OF assms(1), of i] show ?thesis by auto
qed

lemma ix_step_Allocate_eq:
  "ix_step q now Allocate s = (reply, s') \<longleftrightarrow>
     (\<exists>i. reply = Issued i \<and> allocate_core q now s = (i, s'))"
  by (auto split: prod.splits)

declare ix_step.simps(1) [simp del]

lemma alloc_inv_load_cached:
  assumes "alloc_inv c" "calls c p = Calling op now" "this_state c = Some r"
  shows "alloc_inv (c\<lparr>calls := (calls c)(p := Loaded op now r)\<rparr>)"
proof -
  have op: "op = Allocate"
    using assms unfolding alloc_inv_def allocations_only_def by (metis wants_allocation.simps(1))
  show ?thesis
    using assms unfolding alloc_inv_def warm_def allocations_only_def given_distinct_def given_issued_def
    by (simp add: op)
qed

lemma alloc_inv_body:
  assumes inv: "alloc_inv c" and p: "calls c p = Loaded op now r"
    and step: "ix_step q now op (objs c r) = (reply, s')" and cur: "this_state c = Some cur"
  shows "\<exists>i. reply = Issued i"
    and "alloc_inv (c\<lparr>objs := (objs c)(cur := s'\<lparr>updated_at := u\<rparr>),
           calls := (calls c)(p := Writing snap reply)\<rparr>)"
    and "r = cur"
proof -
  show r: "r = cur" using inv p cur unfolding alloc_inv_def warm_def
    by (metis on_object.simps(3) option.inject)
  have op: "op = Allocate" using inv p unfolding alloc_inv_def allocations_only_def by (metis wants_allocation.simps(4))
  from step obtain i where i: "reply = Issued i" "allocate_core q now (objs c cur) = (i, s')"
    by (auto simp: op r ix_step_Allocate_eq)
  then show "\<exists>i. reply = Issued i" by blast
  have wf: "ix_inv (objs c cur)" using inv cur by (auto simp: alloc_inv_def warm_def)
  note new = allocate_core_new [OF wf i(2)] and wf' = allocate_core_inv [OF wf i(2)]
  have others: "given (calls c p') = Some j \<Longrightarrow> j \<in> set (issued (objs c cur))" for p' j
    using inv cur unfolding alloc_inv_def given_issued_def by blast
  let ?c = "c\<lparr>objs := (objs c)(cur := s'\<lparr>updated_at := u\<rparr>), calls := (calls c)(p := Writing snap reply)\<rparr>"
  have "warm ?c" using inv cur wf' unfolding alloc_inv_def warm_def by simp
  moreover have "allocations_only ?c" using inv unfolding alloc_inv_def allocations_only_def by simp
  moreover have "given_distinct ?c"
    using inv others new unfolding alloc_inv_def given_distinct_def by (auto simp: i(1))
  moreover have "given_issued ?c"
    using others new cur unfolding given_issued_def by (auto simp: i(1))
  ultimately show "alloc_inv ?c" by (simp add: alloc_inv_def)
qed

lemma alloc_inv_renamed:
  assumes "alloc_inv c" "calls c p = Writing snap reply"
  shows "alloc_inv (c\<lparr>state_file := Some snap, calls := (calls c)(p := Answered reply)\<rparr>)"
proof -
  have given: "given (((calls c)(p := Answered reply)) p') = given (calls c p')" for p'
    using assms(2) by (cases reply) auto
  have "warm (c\<lparr>state_file := Some snap, calls := (calls c)(p := Answered reply)\<rparr>)"
    using assms unfolding alloc_inv_def warm_def by auto
  then show ?thesis
    using assms unfolding alloc_inv_def allocations_only_def given_distinct_def given_issued_def
    by (simp add: given del: fun_upd_apply) simp
qed

lemma call_step_alloc_inv:
  assumes "call_step q c c'" "alloc_inv c" shows "alloc_inv c'"
  using assms
proof (cases rule: call_step.cases)
  case (load_cached p op now r)
  with assms(2) show ?thesis by (simp add: alloc_inv_load_cached)
next
  case (body_refused p op now r s')
  from assms(2) obtain cur where cur: "this_state c = Some cur" by (auto simp: alloc_inv_def warm_def)
  from alloc_inv_body(1) [OF assms(2) body_refused(2,3) cur] show ?thesis by simp
next
  case (body_changed p op now r reply s' cur h snap wall)
  from alloc_inv_body(2,3) [OF assms(2) body_changed(2,3,5)] show ?thesis
    by (simp add: body_changed(1,6,7))
next
  case (renamed p snap reply)
  with assms(2) show ?thesis by (simp add: alloc_inv_renamed)
next
  case (load_start p op now)
  with assms(2) show ?thesis by (auto simp: alloc_inv_def warm_def)
next
  case (load_read p op now)
  with assms(2) show ?thesis unfolding alloc_inv_def warm_def by (metis on_object.simps(1))
next
  case (load_install p op now d r)
  with assms(2) show ?thesis unfolding alloc_inv_def warm_def by (metis on_object.simps(2))
qed

text \<open>C3: once the state has been loaded, any interleaving of any number of concurrent allocations
  gives every request an index of its own.\<close>

theorem warm_allocations_distinct:
  assumes "(call_step q)\<^sup>*\<^sup>* c c'" and "warm c" and "allocations_only c" and "\<forall>p. given (calls c p) = None"
    and "given (calls c' p) = Some i" and "given (calls c' p') = Some i"
  shows "p = p'"
proof -
  have "alloc_inv c" using assms(2-4) by (simp add: alloc_inv_def given_distinct_def given_issued_def)
  with assms(1) have "alloc_inv c'" by (induction rule: rtranclp_induct) (auto intro: call_step_alloc_inv)
  with assms(5,6) show ?thesis by (auto simp: alloc_inv_def given_distinct_def)
qed

section \<open>Schedules\<close>

text \<open>\<open>exec_call\<close> runs the next stretch of one call; a schedule is the list of calls that run.\<close>

definition exec_call :: "int \<Rightarrow> int \<Rightarrow> nat \<Rightarrow> csys \<Rightarrow> csys" where
  "exec_call q wall p c =
     (case calls c p of
        Calling op now \<Rightarrow>
          (case this_state c of
             Some r \<Rightarrow> c\<lparr>calls := (calls c)(p := Loaded op now r)\<rparr>
           | None \<Rightarrow> c\<lparr>calls := (calls c)(p := Reading op now)\<rparr>)
      | Reading op now \<Rightarrow> c\<lparr>calls := (calls c)(p := ReadDone op now (read_file c))\<rparr>
      | ReadDone op now d \<Rightarrow>
          c\<lparr>objs := (objs c)(fresh_ref c := d), fresh_ref := Suc (fresh_ref c),
            this_state := Some (fresh_ref c), calls := (calls c)(p := Loaded op now (fresh_ref c))\<rparr>
      | Loaded op now r \<Rightarrow>
          (case ix_step q now op (objs c r) of (reply, s') \<Rightarrow>
             if reply = Reply False then c\<lparr>calls := (calls c)(p := Answered (Reply False))\<rparr>
             else (case this_state c of
                 None \<Rightarrow> c
               | Some cur \<Rightarrow>
                   (let h = (objs c)(r := s'); snap = (h cur)\<lparr>updated_at := Some (to_iso wall)\<rparr>
                    in c\<lparr>objs := h(cur := snap), calls := (calls c)(p := Writing snap reply)\<rparr>)))
      | Writing snap reply \<Rightarrow> c\<lparr>state_file := Some snap, calls := (calls c)(p := Answered reply)\<rparr>
      | _ \<Rightarrow> c)"

lemma exec_call_body:
  assumes "calls c p = Loaded op now r" "ix_step q now op (objs c r) = (reply, s')"
    "reply \<noteq> Reply False" "this_state c = Some cur"
  shows "call_step q c (exec_call q wall p c)"
  using call_step.body_changed [OF assms refl refl, of wall] assms
  by (simp add: exec_call_def Let_def)

lemma exec_call_reach: "(call_step q)\<^sup>*\<^sup>* c (exec_call q wall p c)"
proof (cases "calls c p")
  case (Loaded op now r)
  obtain reply s' where st: "ix_step q now op (objs c r) = (reply, s')"
    by (cases "ix_step q now op (objs c r)")
  show ?thesis
  proof (cases "reply = Reply False")
    case True
    with call_step.body_refused [OF Loaded] st show ?thesis
      by (simp add: exec_call_def Loaded r_into_rtranclp)
  next
    case False
    show ?thesis
    proof (cases "this_state c")
      case None
      with Loaded st False show ?thesis by (simp add: exec_call_def)
    next
      case (Some cur)
      from exec_call_body [OF Loaded st False Some] show ?thesis by (rule r_into_rtranclp)
    qed
  qed
qed (auto simp: exec_call_def split: option.splits intro!: r_into_rtranclp intro: call_step.intros)

lemma schedule_reach: "(call_step q)\<^sup>*\<^sup>* c (fold (exec_call q wall) ps c)"
proof (induction ps arbitrary: c)
  case (Cons p ps)
  from rtranclp_trans [OF exec_call_reach Cons.IH] show ?case by simp
qed simp

definition two_requests :: "nat option \<Rightarrow> index_state option \<Rightarrow> int \<Rightarrow> csys" where
  "two_requests cur f now =
     \<lparr>objs = (\<lambda>_. EMPTY), fresh_ref = 1, this_state = cur, state_file = f,
      calls = (\<lambda>p. if p < 2 then Calling Allocate now else Idle)\<rparr>"

theorem warm_allocations_distinct_witness:
  "{p. given (calls (fold (exec_call 10 3) [0, 1, 1, 0] (two_requests (Some 0) None 5)) p) = Some 1} = {0}"
proof -
  let ?c = "two_requests (Some 0) None 5" and ?c' = "fold (exec_call 10 3) [0, 1, 1, 0] (two_requests (Some 0) None 5)"
  have w: "warm ?c" "allocations_only ?c" "\<forall>p. given (calls ?c p) = None"
    by (simp_all add: two_requests_def warm_def allocations_only_def)
  have g: "given (calls ?c' 0) = Some 1"
    by (simp add: two_requests_def exec_call_def ix_step.simps allocate_core_def EMPTY_def Let_def)
  from warm_allocations_distinct [OF schedule_reach w _ g] g show ?thesis by blast
qed

text \<open>Two requests that arrive before the state has been loaded can both be answered with the
  same index, whatever the state file holds: each load makes an object of its own, and the second
  one replaces the first in \<open>this.state\<close> after the first has allocated from it.\<close>

theorem cold_start_double_issue:
  "\<exists>c' i. (call_step q)\<^sup>*\<^sup>* (two_requests None f now) c' \<and>
     calls c' 0 = Answered (Issued i) \<and> calls c' 1 = Answered (Issued i)"
proof -
  let ?d = "case f of Some d \<Rightarrow> d | None \<Rightarrow> EMPTY"
  let ?c' = "fold (exec_call q now) [0, 1, 0, 1, 0, 0, 1, 1, 0, 1] (two_requests None f now)"
  obtain i s' where al: "allocate_core q now ?d = (i, s')" by (cases "allocate_core q now ?d")
  have "calls ?c' 0 = Answered (Issued i) \<and> calls ?c' 1 = Answered (Issued i)"
    using al by (simp add: two_requests_def exec_call_def ix_step.simps read_file_def Let_def)
  with schedule_reach show ?thesis by blast
qed

text \<open>The snapshots of two allocations can reach the file in the other order, and then the file
  lacks an index that has been handed out: a process that starts from it hands it out again.\<close>

theorem write_race_forgets_index:
  "\<exists>c' d. (call_step q)\<^sup>*\<^sup>* (two_requests (Some 0) None now) c' \<and>
     calls c' 0 = Answered (Issued 0) \<and> calls c' 1 = Answered (Issued 1) \<and>
     state_file c' = Some d \<and> fst (allocate_core q now d) = 1"
proof -
  let ?c' = "fold (exec_call q now) [0, 1, 0, 1, 1, 0] (two_requests (Some 0) None now)"
  have "calls ?c' 0 = Answered (Issued 0) \<and> calls ?c' 1 = Answered (Issued 1) \<and>
      (\<exists>d. state_file ?c' = Some d \<and> fst (allocate_core q now d) = 1)"
    by (simp add: two_requests_def exec_call_def ix_step.simps allocate_core_def EMPTY_def Let_def)
  with schedule_reach show ?thesis by blast
qed

end
