(* ===== verification/Derive.thy ===== *)
theory Derive
  imports JsValue
begin

text \<open>
  \<open>gateway/derive.ts\<close> and \<open>gateway/deposit.ts\<close>: the address types, the two network
  vocabularies, the one function that derives an invoice address, and the BIP84 paths of the
  bot's own chain. The BIP47, BIP32 and secp256k1 libraries are parameters: a record of the
  functions the code calls, over opaque types for their networks, identities and parsed codes.
\<close>

type_synonym bytes = "nat list"

datatype address_type = P2pkh | P2sh | P2wpkh

fun type_text :: "address_type \<Rightarrow> string" where
  "type_text P2pkh = ''p2pkh''"
| "type_text P2sh = ''p2sh''"
| "type_text P2wpkh = ''p2wpkh''"

datatype derive_error =
    UnknownAddressType string
  | UnknownNetwork string
  | BadIndex rat
  | LibraryThrew string
  | NoPublicKey
  | NoPrivateKey

definition DEFAULT_ADDRESS_TYPE :: address_type where
  "DEFAULT_ADDRESS_TYPE = P2wpkh"

definition ADDRESS_TYPES :: "address_type list" where
  "ADDRESS_TYPES = [P2pkh, P2sh, P2wpkh]"

text \<open>\<open>undefined\<close> and \<open>null\<close> are \<open>None\<close>.\<close>

definition parseAddressType :: "string option \<Rightarrow> derive_error + address_type" where
  "parseAddressType value =
     (let v = trim (case value of None \<Rightarrow> [] | Some s \<Rightarrow> s)
      in if v = [] then Inr DEFAULT_ADDRESS_TYPE
         else (case find (\<lambda>t. type_text t = v) ADDRESS_TYPES of
                 Some t \<Rightarrow> Inr t
               | None \<Rightarrow> Inl (UnknownAddressType v)))"

section \<open>The libraries\<close>

record ('net, 'priv, 'pub) bip47_lib =
  networks :: "string \<Rightarrow> 'net option"
  from_seed :: "bytes \<Rightarrow> bool \<Rightarrow> 'net option \<Rightarrow> 'priv"
  from_base58 :: "string \<Rightarrow> 'net option \<Rightarrow> string + 'pub"
  get_payment_address :: "'pub \<Rightarrow> 'priv \<Rightarrow> int \<Rightarrow> address_type \<Rightarrow> string + string"
  derive_payment_private_key :: "'priv \<Rightarrow> 'pub \<Rightarrow> int \<Rightarrow> string + bytes"
  to_base58 :: "'priv \<Rightarrow> string"
  own_notification_address :: "'priv \<Rightarrow> string"
  notification_private_key :: "'priv \<Rightarrow> bytes"
  pub_notification_address :: "'pub \<Rightarrow> string"
  p2pkh_address :: "bytes \<Rightarrow> 'net option \<Rightarrow> string"
  p2sh_address :: "bytes \<Rightarrow> 'net option \<Rightarrow> string"
  p2wpkh_address :: "bytes \<Rightarrow> 'net option \<Rightarrow> string"
  point_from_scalar :: "bytes \<Rightarrow> bytes option"

text \<open>The node \<open>bip32.fromSeed(seed, net).derivePath(path)\<close>: its public key and, if it has one, its
  private key, or the message of what was thrown.\<close>

type_synonym 'net bip32_lib = "bytes \<Rightarrow> 'net option \<Rightarrow> string \<Rightarrow> string + (bytes \<times> bytes option)"

section \<open>Networks and invoice addresses\<close>

definition LIB_NETWORK :: "string obj" where
  "LIB_NETWORK = [(''bitcoin'', ''bitcoin''), (''testnet4'', ''testnet''), (''regtest'', ''regtest'')]"

text \<open>A name inherited from \<open>Object.prototype\<close> is truthy, and the library has no network under
  the text of a built-in function.\<close>

definition libNetwork :: "('net, 'priv, 'pub) bip47_lib \<Rightarrow> string \<Rightarrow> derive_error + 'net option" where
  "libNetwork lib network =
     (case oread LIB_NETWORK network of
        Missing \<Rightarrow> Inl (UnknownNetwork network)
      | Own name \<Rightarrow> Inr (networks lib name)
      | Inherited \<Rightarrow> Inr None)"

definition storeIdentity ::
  "('net, 'priv, 'pub) bip47_lib \<Rightarrow> bytes \<Rightarrow> bool \<Rightarrow> string \<Rightarrow> derive_error + 'priv" where
  "storeIdentity lib seed segwit network =
     (case libNetwork lib network of Inl e \<Rightarrow> Inl e | Inr net \<Rightarrow> Inr (from_seed lib seed segwit net))"

definition publicCode :: "('net, 'priv, 'pub) bip47_lib \<Rightarrow> string \<Rightarrow> string \<Rightarrow> derive_error + 'pub" where
  "publicCode lib paymentCode network =
     (case libNetwork lib network of
        Inl e \<Rightarrow> Inl e
      | Inr net \<Rightarrow> (case from_base58 lib paymentCode net of
          Inl m \<Rightarrow> Inl (LibraryThrew m)
        | Inr pub \<Rightarrow> Inr pub))"

text \<open>The call goes to the personal code, with the store's identity as its counterparty.\<close>

definition addressFor ::
  "('net, 'priv, 'pub) bip47_lib \<Rightarrow> 'priv \<Rightarrow> string \<Rightarrow> rat \<Rightarrow> address_type \<Rightarrow> string \<Rightarrow> derive_error + string"
where
  "addressFor lib store personalPaymentCode index type network =
     (if \<not> is_integer index \<or> index < 0 then Inl (BadIndex index)
      else (case publicCode lib personalPaymentCode network of
          Inl e \<Rightarrow> Inl e
        | Inr personal \<Rightarrow>
            (case get_payment_address lib personal store \<lfloor>index\<rfloor> type of
               Inl m \<Rightarrow> Inl (LibraryThrew m)
             | Inr a \<Rightarrow> Inr a)))"

definition spendingKeyFor ::
  "('net, 'priv, 'pub) bip47_lib \<Rightarrow> 'priv \<Rightarrow> string \<Rightarrow> int \<Rightarrow> string \<Rightarrow> derive_error + bytes" where
  "spendingKeyFor lib personal storePaymentCode index network =
     (case publicCode lib storePaymentCode network of
        Inl e \<Rightarrow> Inl e
      | Inr store \<Rightarrow>
          (case derive_payment_private_key lib personal store index of
             Inl m \<Rightarrow> Inl (LibraryThrew m)
           | Inr k \<Rightarrow> Inr k))"

definition addressOfPubkey ::
  "('net, 'priv, 'pub) bip47_lib \<Rightarrow> bytes \<Rightarrow> address_type \<Rightarrow> string \<Rightarrow> derive_error + string" where
  "addressOfPubkey lib pubkey type network =
     (case libNetwork lib network of
        Inl e \<Rightarrow> Inl e
      | Inr net \<Rightarrow> Inr (case type of
            P2pkh \<Rightarrow> p2pkh_address lib pubkey net
          | P2sh \<Rightarrow> p2sh_address lib pubkey net
          | P2wpkh \<Rightarrow> p2wpkh_address lib pubkey net))"

definition pubkeyOf :: "('net, 'priv, 'pub) bip47_lib \<Rightarrow> bytes \<Rightarrow> derive_error + bytes" where
  "pubkeyOf lib priv =
     (case point_from_scalar lib priv of None \<Rightarrow> Inl NoPublicKey | Some pub \<Rightarrow> Inr pub)"

lemma addressFor_index:
  "0 \<le> i \<Longrightarrow> addressFor lib store personal (of_int i) type network =
     (case publicCode lib personal network of
        Inl e \<Rightarrow> Inl e
      | Inr p \<Rightarrow> (case get_payment_address lib p store i type of
          Inl m \<Rightarrow> Inl (LibraryThrew m) | Inr a \<Rightarrow> Inr a))"
  by (simp add: addressFor_def split: sum.split)

section \<open>The deposit chain\<close>

definition COIN_TYPE :: "int obj" where
  "COIN_TYPE = [(''bitcoin'', 0), (''testnet4'', 1), (''regtest'', 1)]"

definition account_path :: "string \<Rightarrow> string" where
  "account_path coin = ''m/84'' @ [CHR 0x27, CHR 0x2F] @ coin @ [CHR 0x27, CHR 0x2F] @ ''0'' @ [CHR 0x27]"

definition depositAccountPath :: "string \<Rightarrow> derive_error + string" where
  "depositAccountPath network =
     (case oread COIN_TYPE network of
        Missing \<Rightarrow> Inl (UnknownNetwork network)
      | Own coin \<Rightarrow> Inr (account_path (int_text coin))
      | Inherited \<Rightarrow> Inr (account_path (native_fun network)))"

datatype deposit_chain = Receive | Change

definition chain_digit :: "deposit_chain \<Rightarrow> string" where
  "chain_digit chain = (case chain of Change \<Rightarrow> ''1'' | Receive \<Rightarrow> ''0'')"

definition depositPath :: "string \<Rightarrow> deposit_chain \<Rightarrow> int \<Rightarrow> derive_error + string" where
  "depositPath network chain index =
     (case depositAccountPath network of
        Inl e \<Rightarrow> Inl e
      | Inr p \<Rightarrow> Inr (p @ ''/'' @ chain_digit chain @ ''/'' @ int_text index))"

definition depositAddress ::
  "('net, 'priv, 'pub) bip47_lib \<Rightarrow> 'net bip32_lib \<Rightarrow> bytes \<Rightarrow> string \<Rightarrow> deposit_chain \<Rightarrow> rat \<Rightarrow>
     derive_error + string" where
  "depositAddress lib bip32 seed network chain index =
     (if \<not> is_integer index \<or> index < 0 then Inl (BadIndex index)
      else (case libNetwork lib network of
          Inl e \<Rightarrow> Inl e
        | Inr net \<Rightarrow> (case depositPath network chain \<lfloor>index\<rfloor> of
            Inl e \<Rightarrow> Inl e
          | Inr path \<Rightarrow> (case bip32 seed net path of
              Inl m \<Rightarrow> Inl (LibraryThrew m)
            | Inr (pub, priv) \<Rightarrow> addressOfPubkey lib pub P2wpkh network))))"

definition depositPrivateKey ::
  "('net, 'priv, 'pub) bip47_lib \<Rightarrow> 'net bip32_lib \<Rightarrow> bytes \<Rightarrow> string \<Rightarrow> deposit_chain \<Rightarrow> int \<Rightarrow>
     derive_error + bytes" where
  "depositPrivateKey lib bip32 seed network chain index =
     (case libNetwork lib network of
        Inl e \<Rightarrow> Inl e
      | Inr net \<Rightarrow> (case depositPath network chain index of
          Inl e \<Rightarrow> Inl e
        | Inr path \<Rightarrow> (case bip32 seed net path of
            Inl m \<Rightarrow> Inl (LibraryThrew m)
          | Inr (pub, priv) \<Rightarrow> (case priv of None \<Rightarrow> Inl NoPrivateKey | Some k \<Rightarrow> Inr k))))"

section \<open>Properties\<close>

text \<open>The address type of the configuration is exactly what the operator wrote: the three
  names (up to surrounding white space), the segwit default for an empty or absent value, and a
  refusal of everything else, so a typo never selects a chain.\<close>

theorem parseAddressType_exact:
  "parseAddressType value =
     (let v = trim (case value of None \<Rightarrow> [] | Some s \<Rightarrow> s)
      in if v = [] \<or> v = ''p2wpkh'' then Inr P2wpkh
         else if v = ''p2pkh'' then Inr P2pkh
         else if v = ''p2sh'' then Inr P2sh
         else Inl (UnknownAddressType v))"
  by (simp add: parseAddressType_def Let_def ADDRESS_TYPES_def DEFAULT_ADDRESS_TYPE_def)

lemma oread_COIN_TYPE:
  "oread COIN_TYPE n = Own c \<longleftrightarrow>
     (n = ''bitcoin'' \<and> c = 0) \<or> (n = ''testnet4'' \<and> c = 1) \<or> (n = ''regtest'' \<and> c = 1)"
  by (auto simp: COIN_TYPE_def)

lemma account_path_inj: "account_path a = account_path b \<longleftrightarrow> a = b"
  by (simp add: account_path_def)

lemma int_text_nonneg: "0 \<le> i \<Longrightarrow> int_text i = nat_text (nat i)"
  by (simp add: int_text_def)

text \<open>The deposit paths of the networks the shop knows do not collide: two paths are equal only
  for the same chain and index of networks with the same coin type, so a change output never
  lands on a receive address and bitcoin never shares a path with a test chain.\<close>

theorem depositPath_inj:
  assumes "n \<in> fst ` set COIN_TYPE" and "n' \<in> fst ` set COIN_TYPE"
    and "depositPath n chain i = depositPath n' chain' i'"
  shows "map_of COIN_TYPE n = map_of COIN_TYPE n' \<and> chain = chain' \<and> i = i'"
proof -
  obtain c c' where c: "map_of COIN_TYPE n = Some c" "map_of COIN_TYPE n' = Some c'" "c \<in> {0,1}" "c' \<in> {0,1}"
    using assms(1,2) by (auto simp: COIN_TYPE_def)
  have len: "length (int_text x) = 1" if "x \<in> {0,1}" for x
    using that by (auto simp: int_text_def)
  have "account_path (int_text c) @ ''/'' @ chain_digit chain @ ''/'' @ int_text i =
      account_path (int_text c') @ ''/'' @ chain_digit chain' @ ''/'' @ int_text i'"
    using assms(3) c by (simp add: depositPath_def depositAccountPath_def oread_def)
  then have "account_path (int_text c) = account_path (int_text c') \<and>
      chain_digit chain @ ''/'' @ int_text i = chain_digit chain' @ ''/'' @ int_text i'"
    using len [OF c(3)] len [OF c(4)] by (subst (asm) append_eq_append_conv) (simp_all add: account_path_def)
  then show ?thesis
    using c by (cases chain; cases chain') (auto simp: account_path_inj chain_digit_def)
qed

theorem depositPath_inj_witness:
  "depositPath ''testnet4'' Change 3 = depositPath ''regtest'' Change 3 \<and>
   map_of COIN_TYPE ''testnet4'' = map_of COIN_TYPE ''regtest''"
  using depositPath_inj [of "''testnet4''" "''regtest''" Change 3 Change 3]
  by (simp add: COIN_TYPE_def depositPath_def depositAccountPath_def oread_def)

end
