(* ===== verification/Identity.thy ===== *)
theory Identity
  imports Derive
begin

text \<open>
  \<open>gateway/identity.ts\<close>: the store's BIP47 identity, the canonical text that is signed for an
  address, the signature put on every issued record and its verification. BIP39, the Bitcoin
  message library and BIP47 are parameters; \<open>Buffer.toString("base64")\<close> is defined here.
\<close>

record bip39_lib =
  validate_mnemonic :: "string \<Rightarrow> bool"
  mnemonic_to_seed :: "string \<Rightarrow> string \<Rightarrow> bytes"
  entropy_to_mnemonic :: "bytes \<Rightarrow> string"

record message_lib =
  msg_sign :: "string \<Rightarrow> bytes \<Rightarrow> bytes"
  msg_verify :: "string \<Rightarrow> string \<Rightarrow> string \<Rightarrow> string + bool"

record address_record =
  ar_v :: int
  ar_address :: string
  ar_index :: int
  ar_type :: string
  ar_network :: string
  ar_paymentCode :: string

record signed_address = address_record +
  ar_signed :: string

section \<open>The canonical text\<close>

definition json_field :: "string \<Rightarrow> string \<Rightarrow> string" where
  "json_field k v = json_quote k @ '':'' @ v"

definition canonicalAddress :: "'a address_record_scheme \<Rightarrow> string" where
  "canonicalAddress rec =
     ''{'' @ json_field ''v'' (int_text (ar_v rec)) @ '','' @
     json_field ''address'' (json_quote (ar_address rec)) @ '','' @
     json_field ''index'' (int_text (ar_index rec)) @ '','' @
     json_field ''type'' (json_quote (ar_type rec)) @ '','' @
     json_field ''network'' (json_quote (ar_network rec)) @ '','' @
     json_field ''paymentCode'' (json_quote (ar_paymentCode rec)) @ ''}''"

lemma int_text_sep:
  assumes "int_text i @ CHR '','' # x = int_text j @ CHR '','' # y"
  shows "i = j \<and> x = y"
proof -
  have neg: "CHR ''-'' # s \<noteq> nat_text n @ CHR '','' # t" for s n t
    using nat_text_digits [of n] nat_text_nonempty [of n]
    by (cases "nat_text n") (auto simp: is_digit_def)
  show ?thesis
    using assms neg neg [symmetric]
    by (auto simp: int_text_def is_digit_def dest: nat_text_inj_app split: if_splits)
qed

lemma canonicalAddress_fields:
  assumes "canonicalAddress r = canonicalAddress r'"
  shows "ar_v r = ar_v r' \<and> ar_address r = ar_address r' \<and> ar_index r = ar_index r' \<and>
    ar_type r = ar_type r' \<and> ar_network r = ar_network r' \<and> ar_paymentCode r = ar_paymentCode r'"
proof -
  note q = json_quote_inj
  from assms have 1: "ar_v r = ar_v r'" and
    2: "json_quote (ar_address r) @ '','' @ json_field ''index'' (int_text (ar_index r)) @ '','' @
       json_field ''type'' (json_quote (ar_type r)) @ '','' @
       json_field ''network'' (json_quote (ar_network r)) @ '','' @
       json_field ''paymentCode'' (json_quote (ar_paymentCode r)) @ ''}'' =
      json_quote (ar_address r') @ '','' @ json_field ''index'' (int_text (ar_index r')) @ '','' @
       json_field ''type'' (json_quote (ar_type r')) @ '','' @
       json_field ''network'' (json_quote (ar_network r')) @ '','' @
       json_field ''paymentCode'' (json_quote (ar_paymentCode r')) @ ''}''"
    by (auto simp: canonicalAddress_def json_field_def dest!: int_text_sep)
  from q [OF 2] have 3: "ar_address r = ar_address r'" and
    4: "int_text (ar_index r) @ CHR '','' # json_field ''type'' (json_quote (ar_type r)) @ '','' @
       json_field ''network'' (json_quote (ar_network r)) @ '','' @
       json_field ''paymentCode'' (json_quote (ar_paymentCode r)) @ ''}'' =
      int_text (ar_index r') @ CHR '','' # json_field ''type'' (json_quote (ar_type r')) @ '','' @
       json_field ''network'' (json_quote (ar_network r')) @ '','' @
       json_field ''paymentCode'' (json_quote (ar_paymentCode r')) @ ''}''"
    by (auto simp: json_field_def)
  from int_text_sep [OF 4] have 5: "ar_index r = ar_index r'" and
    6: "json_quote (ar_type r) @ '','' @
       json_field ''network'' (json_quote (ar_network r)) @ '','' @
       json_field ''paymentCode'' (json_quote (ar_paymentCode r)) @ ''}'' =
      json_quote (ar_type r') @ '','' @
       json_field ''network'' (json_quote (ar_network r')) @ '','' @
       json_field ''paymentCode'' (json_quote (ar_paymentCode r')) @ ''}''"
    by (auto simp: json_field_def)
  from q [OF 6] have 7: "ar_type r = ar_type r'" and
    8: "json_quote (ar_network r) @ '','' @
       json_field ''paymentCode'' (json_quote (ar_paymentCode r)) @ ''}'' =
      json_quote (ar_network r') @ '','' @
       json_field ''paymentCode'' (json_quote (ar_paymentCode r')) @ ''}''"
    by (auto simp: json_field_def)
  from q [OF 8] have 9: "ar_network r = ar_network r'" and
    10: "json_quote (ar_paymentCode r) @ ''}'' = json_quote (ar_paymentCode r') @ ''}''"
    by (auto simp: json_field_def)
  from q [OF 10] 1 3 5 7 9 show ?thesis by simp
qed

section \<open>The identity\<close>

definition b64_char :: "nat \<Rightarrow> char" where
  "b64_char n =
     (if n < 26 then char_of (65 + n) else if n < 52 then char_of (97 + (n - 26))
      else if n < 62 then char_of (48 + (n - 52)) else if n = 62 then CHR ''+'' else CHR 0x2F)"

fun base64 :: "bytes \<Rightarrow> string" where
  "base64 [] = []"
| "base64 [a] = [b64_char (a div 4), b64_char (a mod 4 * 16), CHR ''='', CHR ''='']"
| "base64 [a, b] =
     [b64_char (a div 4), b64_char (a mod 4 * 16 + b div 16), b64_char (b mod 16 * 4), CHR ''='']"
| "base64 (a # b # c # rest) =
     [b64_char (a div 4), b64_char (a mod 4 * 16 + b div 16), b64_char (b mod 16 * 4 + c div 64),
      b64_char (c mod 64)] @ base64 rest"

record 'priv store_identity =
  si_code :: 'priv
  si_network :: string

datatype identity_error =
    InvalidMnemonic
  | SeedUnreadable string
  | NoMnemonic
  | DeriveError derive_error

definition StoreIdentity ::
  "('net, 'priv, 'pub) bip47_lib \<Rightarrow> bytes \<Rightarrow> string \<Rightarrow> identity_error + 'priv store_identity" where
  "StoreIdentity lib seed network =
     (case storeIdentity lib seed False network of
        Inl e \<Rightarrow> Inl (DeriveError e)
      | Inr code \<Rightarrow> Inr \<lparr>si_code = code, si_network = network\<rparr>)"

text \<open>The mnemonic with its white space normalised, as every derivation from it reads it.\<close>

definition mnemonic_words :: "string \<Rightarrow> string" where
  "mnemonic_words mnemonic = collapse_ws (trim mnemonic)"

definition fromMnemonic ::
  "('net, 'priv, 'pub) bip47_lib \<Rightarrow> bip39_lib \<Rightarrow> string \<Rightarrow> string \<Rightarrow> string \<Rightarrow>
     identity_error + 'priv store_identity" where
  "fromMnemonic lib b39 mnemonic passphrase network =
     (let words = mnemonic_words mnemonic
      in if \<not> validate_mnemonic b39 words then Inl InvalidMnemonic
         else StoreIdentity lib (mnemonic_to_seed b39 words passphrase) network)"

text \<open>A seed file that cannot be read or parsed, or the fields of its document; a field that is
  absent or not of its type is \<open>None\<close>.\<close>

record seed_fields =
  sf_mnemonic :: "string option"
  sf_passphrase :: "string option"
  sf_network :: "string option"

definition or_else :: "string option \<Rightarrow> string \<Rightarrow> string" where
  "or_else x d = (case x of Some s \<Rightarrow> if s = [] then d else s | None \<Rightarrow> d)"

definition fromFile ::
  "('net, 'priv, 'pub) bip47_lib \<Rightarrow> bip39_lib \<Rightarrow> string + seed_fields \<Rightarrow>
     identity_error + 'priv store_identity" where
  "fromFile lib b39 file =
     (case file of
        Inl m \<Rightarrow> Inl (SeedUnreadable m)
      | Inr doc \<Rightarrow> (case sf_mnemonic doc of
          None \<Rightarrow> Inl NoMnemonic
        | Some m \<Rightarrow> fromMnemonic lib b39 m (or_else (sf_passphrase doc) [])
            (or_else (sf_network doc) ''bitcoin'')))"

definition paymentCode :: "('net, 'priv, 'pub) bip47_lib \<Rightarrow> 'priv store_identity \<Rightarrow> string" where
  "paymentCode lib ident = to_base58 lib (si_code ident)"

definition notificationAddress :: "('net, 'priv, 'pub) bip47_lib \<Rightarrow> 'priv store_identity \<Rightarrow> string" where
  "notificationAddress lib ident = own_notification_address lib (si_code ident)"

definition signAddress ::
  "('net, 'priv, 'pub) bip47_lib \<Rightarrow> message_lib \<Rightarrow> 'priv store_identity \<Rightarrow> address_record \<Rightarrow> signed_address"
where
  "signAddress lib msg ident rec =
     address_record.extend rec
       \<lparr>ar_signed = base64 (msg_sign msg (canonicalAddress rec) (notification_private_key lib (si_code ident)))\<rparr>"

section \<open>Verification\<close>

datatype verify_error =
    NoRecord
  | UnsupportedVersion int
  | NoExpectedCode
  | DifferentStore
  | BadExpectedCode
  | SignatureMismatch
  | CheckFailed string

definition verifySignedAddress ::
  "('net, 'priv, 'pub) bip47_lib \<Rightarrow> message_lib \<Rightarrow> signed_address option \<Rightarrow> string \<Rightarrow> verify_error + unit" where
  "verifySignedAddress lib msg record expectedPaymentCode =
     (case record of
        None \<Rightarrow> Inl NoRecord
      | Some rec \<Rightarrow>
          if ar_v rec \<noteq> 1 then Inl (UnsupportedVersion (ar_v rec))
          else if expectedPaymentCode = [] then Inl NoExpectedCode
          else if ar_paymentCode rec \<noteq> expectedPaymentCode then Inl DifferentStore
          else (case publicCode lib expectedPaymentCode (or_else (Some (ar_network rec)) ''bitcoin'') of
              Inl e \<Rightarrow> Inl BadExpectedCode
            | Inr pub \<Rightarrow>
                (case msg_verify msg (canonicalAddress rec) (pub_notification_address lib pub) (ar_signed rec) of
                   Inl m \<Rightarrow> Inl (CheckFailed m)
                 | Inr False \<Rightarrow> Inl SignatureMismatch
                 | Inr True \<Rightarrow> Inr ())))"

lemma verifySignedAddress_ok:
  "verifySignedAddress lib msg (Some rec) expected = Inr () \<longleftrightarrow>
     ar_v rec = 1 \<and> expected \<noteq> [] \<and> ar_paymentCode rec = expected \<and>
     (\<exists>pub. publicCode lib expected (or_else (Some (ar_network rec)) ''bitcoin'') = Inr pub \<and>
        msg_verify msg (canonicalAddress rec) (pub_notification_address lib pub) (ar_signed rec) = Inr True)"
  by (auto simp: verifySignedAddress_def split: sum.splits bool.splits)

lemma canonicalAddress_extend [simp]:
  "canonicalAddress (address_record.extend rec x) = canonicalAddress rec"
  by (simp add: canonicalAddress_def address_record.defs)

lemma extend_fields [simp]:
  "ar_v (address_record.extend rec x) = ar_v rec"
  "ar_address (address_record.extend rec x) = ar_address rec"
  "ar_index (address_record.extend rec x) = ar_index rec"
  "ar_type (address_record.extend rec x) = ar_type rec"
  "ar_network (address_record.extend rec x) = ar_network rec"
  "ar_paymentCode (address_record.extend rec x) = ar_paymentCode rec"
  by (simp_all add: address_record.defs)

lemma ar_signed_extend [simp]: "ar_signed (address_record.extend rec \<lparr>ar_signed = x\<rparr>) = x"
  by (simp add: address_record.defs)

text \<open>
  What the code relies on in the libraries, for one identity on one network: its own payment code
  parses back, to a code with the notification address of the identity, and the message library
  accepts at that address what it signed with the notification key.
\<close>

definition signs_for_itself ::
  "('net, 'priv, 'pub) bip47_lib \<Rightarrow> message_lib \<Rightarrow> 'priv store_identity \<Rightarrow> bool" where
  "signs_for_itself lib msg ident \<longleftrightarrow>
     to_base58 lib (si_code ident) \<noteq> [] \<and> si_network ident \<noteq> [] \<and>
     (\<exists>pub. publicCode lib (to_base58 lib (si_code ident)) (si_network ident) = Inr pub \<and>
        pub_notification_address lib pub = own_notification_address lib (si_code ident)) \<and>
     (\<forall>m. msg_verify msg m (own_notification_address lib (si_code ident))
            (base64 (msg_sign msg m (notification_private_key lib (si_code ident)))) = Inr True)"

lemma sign_verify:
  assumes "signs_for_itself lib msg ident"
    and "ar_v rec = 1" "ar_paymentCode rec = paymentCode lib ident" "ar_network rec = si_network ident"
  shows "verifySignedAddress lib msg (Some (signAddress lib msg ident rec)) (paymentCode lib ident) = Inr ()"
  using assms unfolding verifySignedAddress_ok
  by (auto simp: signAddress_def signs_for_itself_def paymentCode_def or_else_def)

section \<open>A concrete instance of the libraries\<close>

text \<open>
  Simple functions with the behaviour the code relies on, for evaluating the definitions and
  discharging hypotheses about the libraries at concrete inputs: identities are texts, a payment
  code is its identity's text behind \<open>PM8T\<close>, and a signature is the message followed by the key.
\<close>

definition text_bytes :: "string \<Rightarrow> bytes" where
  "text_bytes s = map of_char s"

definition demo_bip47 :: "(string, string, string) bip47_lib" where
  "demo_bip47 = \<lparr>
     networks = Some,
     from_seed = (\<lambda>seed segwit net. map char_of seed),
     from_base58 = (\<lambda>code net. if prefix ''PM8T'' code then Inr (drop 4 code) else Inl ''Invalid checksum''),
     get_payment_address = (\<lambda>pub priv i t. Inr (type_text t @ '':'' @ pub @ '':'' @ priv @ '':'' @ int_text i)),
     derive_payment_private_key = (\<lambda>priv pub i. Inr (text_bytes priv)),
     to_base58 = (\<lambda>priv. ''PM8T'' @ priv),
     own_notification_address = (\<lambda>priv. CHR ''n'' # priv),
     notification_private_key = text_bytes,
     pub_notification_address = (\<lambda>pub. CHR ''n'' # pub),
     p2pkh_address = (\<lambda>pub net. CHR ''1'' # map char_of pub),
     p2sh_address = (\<lambda>pub net. CHR ''3'' # map char_of pub),
     p2wpkh_address = (\<lambda>pub net. CHR ''q'' # map char_of pub),
     point_from_scalar = Some\<rparr>"

definition demo_message :: message_lib where
  "demo_message = \<lparr>
     msg_sign = (\<lambda>m key. text_bytes m @ key),
     msg_verify = (\<lambda>m a sig. Inr (sig = base64 (text_bytes m @ text_bytes (tl a))))\<rparr>"

definition demo_bip39 :: bip39_lib where
  "demo_bip39 = \<lparr>
     validate_mnemonic = (\<lambda>w. w \<noteq> []),
     mnemonic_to_seed = (\<lambda>w p. text_bytes (w @ p)),
     entropy_to_mnemonic = map char_of\<rparr>"

lemma demo_signs_for_itself:
  "si_network ident \<in> {''bitcoin'', ''testnet4''} \<Longrightarrow> signs_for_itself demo_bip47 demo_message ident"
  by (auto simp: signs_for_itself_def demo_bip47_def demo_message_def publicCode_def libNetwork_def
      oread_def LIB_NETWORK_def)

section \<open>Properties\<close>

text \<open>The text that is signed determines the record. Two records with the same canonical text
  agree in every field, so a signature over one can never stand for another address, index,
  encoding, chain or store.\<close>

theorem canonicalAddress_binds:
  fixes r r' :: address_record
  shows "canonicalAddress r = canonicalAddress r' \<longleftrightarrow> r = r'"
  using canonicalAddress_fields [of r r'] by (cases r; cases r') auto

text \<open>A record whose signature was made for another record is refused. If the signature
  verifies for one text only, the canonical text of the record that was signed, then every
  record that differs from it in any field fails verification under that signature.\<close>

theorem tampered_record_refused:
  assumes "\<forall>m a. msg_verify msg m a sig = Inr True \<longrightarrow> m = canonicalAddress u"
    and "address_record.truncate rec \<noteq> u" and "ar_signed rec = sig"
  shows "\<exists>e. verifySignedAddress lib msg (Some rec) expected = Inl e"
proof (rule ccontr)
  assume "\<not> ?thesis"
  then have "verifySignedAddress lib msg (Some rec) expected = Inr ()"
    by (cases "verifySignedAddress lib msg (Some rec) expected") auto
  then have "canonicalAddress rec = canonicalAddress u"
    using assms(1,3) by (auto simp: verifySignedAddress_ok)
  from canonicalAddress_fields [OF this] assms(2) show False
    by (cases rec; cases u) (simp add: address_record.defs)
qed

theorem tampered_record_refused_witness:
  "\<exists>e. verifySignedAddress demo_bip47
     \<lparr>msg_sign = (\<lambda>m k. []), msg_verify = (\<lambda>m a s. Inr (m = canonicalAddress
        \<lparr>ar_v = 1, ar_address = ''bc1qa'', ar_index = 4, ar_type = ''p2wpkh'', ar_network = ''bitcoin'',
         ar_paymentCode = ''PM8Ts''\<rparr>))\<rparr>
     (Some \<lparr>ar_v = 1, ar_address = ''bc1qEVIL'', ar_index = 4, ar_type = ''p2wpkh'',
        ar_network = ''bitcoin'', ar_paymentCode = ''PM8Ts'', ar_signed = ''c2ln''\<rparr>) ''PM8Ts'' = Inl e"
  by (rule tampered_record_refused [where sig = "''c2ln''" and u =
        "\<lparr>ar_v = 1, ar_address = ''bc1qa'', ar_index = 4, ar_type = ''p2wpkh'', ar_network = ''bitcoin'',
          ar_paymentCode = ''PM8Ts''\<rparr>"]) (simp_all add: address_record.defs)

end
