(* ===== verification/Pool.thy ===== *)
theory Pool
  imports Identity
begin

text \<open>
  \<open>gateway/pool.mjs\<close>: the pool of addresses signed on a machine that is never online, and the
  check of a pool file on the machine that serves it. A record of the file may be \<open>null\<close>; a
  pool file that lacks the list of addresses has \<open>None\<close>.
\<close>

record pool =
  pl_v :: int
  pl_paymentCode :: string
  pl_type :: string
  pl_network :: string
  pl_start :: int
  pl_count :: int
  pl_generated_at :: stamp
  pl_addresses :: "signed_address option list option"

datatype pool_error = BadStart | BadCount | PoolDerive derive_error

definition pool_record ::
  "('net, 'priv, 'pub) bip47_lib \<Rightarrow> message_lib \<Rightarrow> 'priv store_identity \<Rightarrow> address_type \<Rightarrow> int \<Rightarrow> string \<Rightarrow>
     signed_address" where
  "pool_record lib msg ident addressType i a =
     signAddress lib msg ident
       \<lparr>ar_v = 1, ar_address = a, ar_index = i, ar_type = type_text addressType,
        ar_network = si_network ident, ar_paymentCode = paymentCode lib ident\<rparr>"

text \<open>The loop of \<open>buildPool\<close>: \<open>n\<close> records from index \<open>i\<close>.\<close>

fun pool_loop ::
  "('net, 'priv, 'pub) bip47_lib \<Rightarrow> message_lib \<Rightarrow> 'priv store_identity \<Rightarrow> string \<Rightarrow> address_type \<Rightarrow>
     int \<Rightarrow> nat \<Rightarrow> derive_error + signed_address list" where
  "pool_loop lib msg ident personal t i 0 = Inr []"
| "pool_loop lib msg ident personal t i (Suc n) =
     (case addressFor lib (si_code ident) personal (of_int i) t (si_network ident) of
        Inl e \<Rightarrow> Inl e
      | Inr a \<Rightarrow> (case pool_loop lib msg ident personal t (i + 1) n of
          Inl e \<Rightarrow> Inl e
        | Inr rs \<Rightarrow> Inr (pool_record lib msg ident t i a # rs)))"

text \<open>The default of \<open>type\<close> here is not the default of \<open>parseAddressType\<close>.\<close>

definition pool_type :: "string option \<Rightarrow> string" where
  "pool_type type = (case type of None \<Rightarrow> ''p2pkh'' | Some t \<Rightarrow> t)"

definition buildPool ::
  "('net, 'priv, 'pub) bip47_lib \<Rightarrow> message_lib \<Rightarrow> 'priv store_identity \<Rightarrow> string \<Rightarrow> rat \<Rightarrow> rat \<Rightarrow>
     string option \<Rightarrow> int \<Rightarrow> pool_error + pool" where
  "buildPool lib msg ident personal start count type wall =
     (if \<not> is_integer start \<or> start < 0 then Inl BadStart
      else if \<not> is_integer count \<or> count < 1 then Inl BadCount
      else (case parseAddressType (Some (pool_type type)) of
          Inl e \<Rightarrow> Inl (PoolDerive e)
        | Inr t \<Rightarrow> (case pool_loop lib msg ident personal t \<lfloor>start\<rfloor> (nat \<lfloor>count\<rfloor>) of
            Inl e \<Rightarrow> Inl (PoolDerive e)
          | Inr rs \<Rightarrow> Inr \<lparr>pl_v = 1, pl_paymentCode = paymentCode lib ident, pl_type = type_text t,
              pl_network = si_network ident, pl_start = \<lfloor>start\<rfloor>, pl_count = \<lfloor>count\<rfloor>,
              pl_generated_at = to_iso wall, pl_addresses = Some (map Some rs)\<rparr>)))"

datatype pool_problem =
    NotV1
  | OtherStore
  | BadEntry "int option" verify_error
  | AppearsTwice int

record pool_verdict =
  pv_ok :: bool
  pv_checked :: nat
  pv_problems :: "pool_problem list"

text \<open>\<open>rec?.index\<close>, with \<open>undefined\<close> for a \<open>null\<close> record.\<close>

definition entry_index :: "signed_address option \<Rightarrow> int option" where
  "entry_index r = map_option ar_index r"

text \<open>The loop over the records: \<open>None\<close> when reading the index of a repeated \<open>null\<close> throws.\<close>

fun verify_entries ::
  "('net, 'priv, 'pub) bip47_lib \<Rightarrow> message_lib \<Rightarrow> string \<Rightarrow> int option set \<Rightarrow> signed_address option list \<Rightarrow>
     pool_problem list option" where
  "verify_entries lib msg expected seen [] = Some []"
| "verify_entries lib msg expected seen (r # rs) =
     (let bad = (case verifySignedAddress lib msg r expected of
            Inl e \<Rightarrow> [BadEntry (entry_index r) e] | Inr _ \<Rightarrow> []);
          twice = (if entry_index r \<in> seen then map_option (\<lambda>i. [AppearsTwice i]) (entry_index r) else Some [])
      in case twice of
           None \<Rightarrow> None
         | Some t \<Rightarrow> map_option (\<lambda>ps. bad @ t @ ps)
             (verify_entries lib msg expected (insert (entry_index r) seen) rs))"

definition verifyPool ::
  "('net, 'priv, 'pub) bip47_lib \<Rightarrow> message_lib \<Rightarrow> pool option \<Rightarrow> string \<Rightarrow> pool_verdict option" where
  "verifyPool lib msg pool expected =
     (case pool of
        None \<Rightarrow> Some \<lparr>pv_ok = False, pv_checked = 0, pv_problems = [NotV1]\<rparr>
      | Some p \<Rightarrow>
          if pl_v p \<noteq> 1 then Some \<lparr>pv_ok = False, pv_checked = 0, pv_problems = [NotV1]\<rparr>
          else if pl_paymentCode p \<noteq> expected
            then Some \<lparr>pv_ok = False, pv_checked = 0, pv_problems = [OtherStore]\<rparr>
          else (let rs = (case pl_addresses p of None \<Rightarrow> [] | Some rs \<Rightarrow> rs)
            in map_option (\<lambda>ps. \<lparr>pv_ok = (ps = []), pv_checked = length rs, pv_problems = ps\<rparr>)
                 (verify_entries lib msg expected {} rs)))"

section \<open>Facts about the loops\<close>

lemma pool_loop_records:
  "pool_loop lib msg ident personal t i n = Inr rs \<Longrightarrow>
     length rs = n \<and> (\<forall>k < n. \<exists>a.
       addressFor lib (si_code ident) personal (of_int (i + int k)) t (si_network ident) = Inr a \<and>
       rs ! k = pool_record lib msg ident t (i + int k) a)"
proof (induction n arbitrary: i rs)
  case (Suc n)
  then obtain a rs' where a: "addressFor lib (si_code ident) personal (of_int i) t (si_network ident) = Inr a"
    and rs: "pool_loop lib msg ident personal t (i + 1) n = Inr rs'"
      "rs = pool_record lib msg ident t i a # rs'"
    by (auto split: sum.splits)
  show ?case
    using Suc.IH [OF rs(1)] a rs(2)
    by (auto simp: nth_Cons algebra_simps split: nat.splits)
qed simp

lemma ar_index_pool_record [simp]: "ar_index (pool_record lib msg ident t i a) = i"
  by (simp add: pool_record_def signAddress_def)

lemma verify_entries_ok:
  "verify_entries lib msg expected seen rs = Some [] \<longleftrightarrow>
     (\<forall>r \<in> set rs. verifySignedAddress lib msg r expected = Inr ()) \<and>
     distinct (map entry_index rs) \<and> entry_index ` set rs \<inter> seen = {}"
proof (induction rs arbitrary: seen)
  case (Cons r rs)
  have bad: "(case verifySignedAddress lib msg r expected of Inl e \<Rightarrow> [BadEntry (entry_index r) e] | Inr _ \<Rightarrow> []) = []
      \<longleftrightarrow> verifySignedAddress lib msg r expected = Inr ()"
    by (auto split: sum.splits)
  show ?case
    by (cases "entry_index r \<in> seen"; cases "entry_index r") (auto simp: Let_def bad Cons.IH)
qed simp

text \<open>The records a pool file lists; a file without the list lists none.\<close>

abbreviation listed :: "pool \<Rightarrow> signed_address option list" where
  "listed p \<equiv> (case pl_addresses p of None \<Rightarrow> [] | Some rs \<Rightarrow> rs)"

lemma verifyPool_good:
  "verifyPool lib msg (Some p) expected = Some \<lparr>pv_ok = True, pv_checked = n, pv_problems = []\<rparr> \<longleftrightarrow>
     pl_v p = 1 \<and> pl_paymentCode p = expected \<and> n = length (listed p) \<and>
     verify_entries lib msg expected {} (listed p) = Some []"
  by (auto simp: verifyPool_def Let_def)

lemma pool_loop_verifies:
  assumes "signs_for_itself lib msg ident"
    and rs: "pool_loop lib msg ident personal t i n = Inr rs"
  shows "verify_entries lib msg (paymentCode lib ident) {} (map Some rs) = Some []"
proof -
  note loop = pool_loop_records [OF rs]
  have "verifySignedAddress lib msg (Some r) (paymentCode lib ident) = Inr ()" if "r \<in> set rs" for r
  proof -
    from that loop obtain i a where "r = pool_record lib msg ident t i a"
      by (auto simp: in_set_conv_nth)
    then show ?thesis by (auto simp: pool_record_def intro!: sign_verify [OF assms(1)])
  qed
  moreover have "distinct (map entry_index (map Some rs))"
  proof -
    have idx: "entry_index (Some (rs ! k)) = Some (i + int k)" if "k < length rs" for k
      using that loop by (auto simp: entry_index_def)
    show ?thesis
      by (simp add: distinct_conv_nth idx)
  qed
  ultimately show ?thesis by (simp add: verify_entries_ok)
qed

section \<open>Properties\<close>

text \<open>C4: a pool that was built verifies. Every record it holds carries the next index, the address
  derived at that index and a signature the check accepts, and the check reports no problem and
  the number of records asked for.\<close>

theorem built_pool_verifies:
  assumes "signs_for_itself lib msg ident"
    and "buildPool lib msg ident personal start count type wall = Inr p"
  shows "verifyPool lib msg (Some p) (paymentCode lib ident) =
      Some \<lparr>pv_ok = True, pv_checked = nat \<lfloor>count\<rfloor>, pv_problems = []\<rparr> \<and>
    (\<forall>k < nat \<lfloor>count\<rfloor>. \<exists>a t.
      addressFor lib (si_code ident) personal (of_int (\<lfloor>start\<rfloor> + int k)) t (si_network ident) = Inr a \<and>
      parseAddressType (Some (pool_type type)) = Inr t \<and>
      the (pl_addresses p) ! k = Some (pool_record lib msg ident t (\<lfloor>start\<rfloor> + int k) a))"
proof -
  from assms(2) obtain t rs where t: "parseAddressType (Some (pool_type type)) = Inr t"
    and rs: "pool_loop lib msg ident personal t \<lfloor>start\<rfloor> (nat \<lfloor>count\<rfloor>) = Inr rs"
    and p: "pl_v p = 1" "pl_paymentCode p = paymentCode lib ident" "pl_addresses p = Some (map Some rs)"
    by (auto simp: buildPool_def split: if_splits sum.splits)
  note loop = pool_loop_records [OF rs]
  have "verify_entries lib msg (paymentCode lib ident) {} (map Some rs) = Some []"
    by (rule pool_loop_verifies [OF assms(1) rs])
  then show ?thesis
    using loop t by (auto simp: verifyPool_good p)
qed

definition demo_identity :: "string store_identity" where
  "demo_identity = \<lparr>si_code = ''k'', si_network = ''bitcoin''\<rparr>"

lemma demo_signs: "signs_for_itself demo_bip47 demo_message demo_identity"
  by (rule demo_signs_for_itself) (simp add: demo_identity_def)

lemma demo_address:
  "0 \<le> i \<Longrightarrow> \<exists>a. addressFor demo_bip47 (si_code demo_identity) ''PM8T2'' (of_int i) t (si_network demo_identity) = Inr a"
  by (simp add: addressFor_index demo_identity_def demo_bip47_def publicCode_def libNetwork_def oread_def LIB_NETWORK_def)

lemma demo_loop: "0 \<le> i \<Longrightarrow> \<exists>rs. pool_loop demo_bip47 demo_message demo_identity ''PM8T2'' t i n = Inr rs"
proof (induction n arbitrary: i)
  case (Suc n)
  from Suc.IH [of "i + 1"] Suc.prems demo_address [OF Suc.prems, of t] show ?case by auto
qed simp

lemma demo_build: "\<exists>p. buildPool demo_bip47 demo_message demo_identity ''PM8T2'' 5 2 None 0 = Inr p"
proof -
  from demo_loop [of 5 P2pkh 2] obtain rs where
    "pool_loop demo_bip47 demo_message demo_identity ''PM8T2'' P2pkh 5 2 = Inr rs" by auto
  moreover have "parseAddressType (Some (pool_type None)) = Inr P2pkh"
    by code_simp
  ultimately show ?thesis
    by (simp add: buildPool_def is_integer_def)
qed

theorem built_pool_verifies_witness:
  "\<exists>p. buildPool demo_bip47 demo_message demo_identity ''PM8T2'' 5 2 None 0 = Inr p \<and>
     verifyPool demo_bip47 demo_message (Some p) (paymentCode demo_bip47 demo_identity) =
       Some \<lparr>pv_ok = True, pv_checked = 2, pv_problems = []\<rparr>"
proof -
  from demo_build obtain p where p: "buildPool demo_bip47 demo_message demo_identity ''PM8T2'' 5 2 None 0 = Inr p" ..
  from built_pool_verifies [OF demo_signs p] p show ?thesis by simp
qed

text \<open>A pool file whose list has lost its tail still passes the check: neither the count nor the
  range the file declares is compared with the records that are there.\<close>

theorem truncated_pool_passes:
  assumes "verifyPool lib msg (Some p) expected = Some \<lparr>pv_ok = True, pv_checked = m, pv_problems = []\<rparr>"
  shows "verifyPool lib msg (Some (p\<lparr>pl_addresses := Some (take n (listed p))\<rparr>)) expected =
    Some \<lparr>pv_ok = True, pv_checked = min m n, pv_problems = []\<rparr>"
  using assms
  by (auto simp: verifyPool_good verify_entries_ok take_map [symmetric] dest: in_set_takeD)

theorem truncated_pool_passes_witness:
  "\<exists>p. verifyPool demo_bip47 demo_message (Some (p\<lparr>pl_addresses := Some (take 1 (listed p))\<rparr>))
       (paymentCode demo_bip47 demo_identity) =
     Some \<lparr>pv_ok = True, pv_checked = 1, pv_problems = []\<rparr> \<and> pl_count p = 2 \<and> length (listed p) = 2"
proof -
  from demo_loop [of 5 P2pkh 2] obtain rs where
    rs: "pool_loop demo_bip47 demo_message demo_identity ''PM8T2'' P2pkh 5 2 = Inr rs" by auto
  define p where "p = \<lparr>pl_v = 1, pl_paymentCode = paymentCode demo_bip47 demo_identity, pl_type = ''p2pkh'',
    pl_network = ''bitcoin'', pl_start = 5, pl_count = 2, pl_generated_at = Instant 0,
    pl_addresses = Some (map Some rs)\<rparr>"
  have len: "length rs = 2" using pool_loop_records [OF rs] by simp
  have "verifyPool demo_bip47 demo_message (Some p) (paymentCode demo_bip47 demo_identity) =
      Some \<lparr>pv_ok = True, pv_checked = 2, pv_problems = []\<rparr>"
    using pool_loop_verifies [OF demo_signs rs] len by (simp add: verifyPool_good p_def)
  from truncated_pool_passes [OF this, of 1] show ?thesis
    using len by (intro exI [of _ p]) (simp add: p_def)
qed

end
