(* ===== verification/Bootstrap.thy ===== *)
theory Bootstrap
  imports Pool
begin

text \<open>
  \<open>gateway/bootstrap.ts\<close>: the seed file and the identity file of a shop, the identity per network,
  and the changes the operator can make to it. Both files are JSON; the fresh mnemonic is the output
  of the BIP39 library on random bytes and is an argument. A network is a text; \<open>networks\<close> is a plain
  object, so a name of \<open>Object.prototype\<close> reads as an inherited member, which is truthy and has none
  of the fields. The fields the code reads as falsy when they are absent are empty texts or \<open>None\<close>.
\<close>

section \<open>Data\<close>

definition NETWORKS :: "string list" where
  "NETWORKS = [''bitcoin'', ''testnet4'']"

definition isNetwork :: "val \<Rightarrow> bool" where
  "isNetwork v = (is_str v \<and> str_of v \<in> set NETWORKS)"

definition SEED_FILE :: string where
  "SEED_FILE = ''store-seed.json''"

definition STATE_FILE :: string where
  "STATE_FILE = ''store-identity.json''"

record network_identity =
  nb_paymentCode :: string
  nb_notificationAddress :: string
  nb_depositAddress :: string
  nb_receiverPaymentCode :: "string option"
  nb_receiverNotificationAddress :: "string option"
  nb_nymName :: "string option"
  nb_nymId :: "string option"
  nb_notificationTxid :: "string option"
  nb_notificationSentAt :: "stamp option"
  nb_dojo :: val

record identity_state =
  ids_active :: string
  ids_createdAt :: stamp
  ids_networks :: "network_identity obj"

record seed_doc =
  sd_mnemonic :: string
  sd_passphrase :: "string option"
  sd_createdAt :: stamp

record shop_files =
  f_seed :: "seed_doc json_file"
  f_state :: "identity_state json_file"

datatype bootstrap_error =
    FileUnreadable
  | WriteThrew
  | FromIdentity identity_error
  | FromDerive derive_error
  | SeedMismatch string string string
  | NoIdentityYet
  | UnknownShopNetwork string
  | NotAPaymentCode derive_error
  | OwnPaymentCode
  | WouldStrand string

text \<open>\<open>readJSON\<close> throws on anything but an absent file or a file that parses.\<close>

definition readJSON :: "'a json_file \<Rightarrow> bootstrap_error + 'a option" where
  "readJSON f = (case f of Absent \<Rightarrow> Inr None | Falsy \<Rightarrow> Inr None | Doc d \<Rightarrow> Inr (Some d) | Garbled \<Rightarrow> Inl FileUnreadable)"

text \<open>\<open>writeAtomic\<close> writes a temporary file and renames it: the target is replaced or it is as before.\<close>

definition writeAtomic :: "io \<Rightarrow> 'a \<Rightarrow> 'a json_file \<Rightarrow> (bootstrap_error + unit) \<times> 'a json_file" where
  "writeAtomic w d f = (case w of Completed \<Rightarrow> (Inr (), Doc d) | Failed \<Rightarrow> (Inl WriteThrew, f))"

section \<open>Derivations from the seed\<close>

record ('net, 'priv, 'pub) wallet_libs =
  wl_bip47 :: "('net, 'priv, 'pub) bip47_lib"
  wl_bip39 :: bip39_lib
  wl_bip32 :: "'net bip32_lib"

definition identityFor ::
  "('net, 'priv, 'pub) wallet_libs \<Rightarrow> seed_doc \<Rightarrow> string \<Rightarrow> identity_error + 'priv store_identity" where
  "identityFor libs seed network =
     fromMnemonic (wl_bip47 libs) (wl_bip39 libs) (sd_mnemonic seed) (or_else (sd_passphrase seed) []) network"

definition seedBytes :: "('net, 'priv, 'pub) wallet_libs \<Rightarrow> seed_doc \<Rightarrow> bytes" where
  "seedBytes libs seed =
     mnemonic_to_seed (wl_bip39 libs) (collapse_ws (trim (sd_mnemonic seed))) (or_else (sd_passphrase seed) [])"

definition depositFor ::
  "('net, 'priv, 'pub) wallet_libs \<Rightarrow> seed_doc \<Rightarrow> string \<Rightarrow> derive_error + string" where
  "depositFor libs seed network =
     depositAddress (wl_bip47 libs) (wl_bip32 libs) (seedBytes libs seed) network Receive 0"

definition blankBlock ::
  "('net, 'priv, 'pub) bip47_lib \<Rightarrow> 'priv store_identity \<Rightarrow> string \<Rightarrow> network_identity" where
  "blankBlock lib ident deposit =
     \<lparr>nb_paymentCode = paymentCode lib ident, nb_notificationAddress = notificationAddress lib ident,
      nb_depositAddress = deposit, nb_receiverPaymentCode = None, nb_receiverNotificationAddress = None,
      nb_nymName = None, nb_nymId = None, nb_notificationTxid = None, nb_notificationSentAt = None,
      nb_dojo = Null\<rparr>"

section \<open>Loading or creating\<close>

text \<open>\<open>NETWORKS.map((n) => [n, f n])\<close>, where the first throw ends it.\<close>

fun per_network :: "(string \<Rightarrow> 'e + 'a) \<Rightarrow> string list \<Rightarrow> 'e + 'a obj" where
  "per_network f [] = Inr []"
| "per_network f (n # ns) =
     (case f n of
        Inl e \<Rightarrow> Inl e
      | Inr x \<Rightarrow> (case per_network f ns of Inl e \<Rightarrow> Inl e | Inr xs \<Rightarrow> Inr ((n, x) # xs)))"

definition make_identities ::
  "('net, 'priv, 'pub) wallet_libs \<Rightarrow> seed_doc \<Rightarrow> bootstrap_error + 'priv store_identity obj" where
  "make_identities libs seed = map_sum FromIdentity (\<lambda>x. x) (per_network (identityFor libs seed) NETWORKS)"

definition blank_for ::
  "('net, 'priv, 'pub) wallet_libs \<Rightarrow> seed_doc \<Rightarrow> 'priv store_identity obj \<Rightarrow> string \<Rightarrow>
     bootstrap_error + network_identity" where
  "blank_for libs seed identities n =
     (case depositFor libs seed n of
        Inl e \<Rightarrow> Inl (FromDerive e)
      | Inr d \<Rightarrow> Inr (blankBlock (wl_bip47 libs) (the (map_of identities n)) d))"

text \<open>The check of the recorded payment codes, on every network in turn.\<close>

fun check_recorded ::
  "('net, 'priv, 'pub) bip47_lib \<Rightarrow> 'priv store_identity obj \<Rightarrow> network_identity obj \<Rightarrow> string list \<Rightarrow>
     bootstrap_error option" where
  "check_recorded lib identities nets [] = None"
| "check_recorded lib identities nets (n # ns) =
     (let recorded = (case map_of nets n of Some b \<Rightarrow> nb_paymentCode b | None \<Rightarrow> []);
          derived = paymentCode lib (the (map_of identities n))
      in if recorded \<noteq> [] \<and> recorded \<noteq> derived then Some (SeedMismatch n recorded derived)
         else check_recorded lib identities nets ns)"

text \<open>A state written before a network or the deposit chain existed gains them; the flag is \<open>grew\<close>.\<close>

fun grow ::
  "('net, 'priv, 'pub) wallet_libs \<Rightarrow> seed_doc \<Rightarrow> 'priv store_identity obj \<Rightarrow> string list \<Rightarrow>
     network_identity obj \<times> bool \<Rightarrow> bootstrap_error + (network_identity obj \<times> bool)" where
  "grow libs seed identities [] (nets, grew) = Inr (nets, grew)"
| "grow libs seed identities (n # ns) (nets, grew) =
     (case map_of nets n of
        None \<Rightarrow> (case blank_for libs seed identities n of
            Inl e \<Rightarrow> Inl e
          | Inr b \<Rightarrow> grow libs seed identities ns (AList.update n b nets, True))
      | Some b \<Rightarrow>
          if nb_depositAddress b = []
          then (case depositFor libs seed n of
              Inl e \<Rightarrow> Inl (FromDerive e)
            | Inr d \<Rightarrow> grow libs seed identities ns
                (AList.update n (b\<lparr>nb_depositAddress := d\<rparr>) nets, True))
          else grow libs seed identities ns (nets, grew))"

record 'priv loaded =
  ld_identities :: "'priv store_identity obj"
  ld_state :: identity_state
  ld_created :: bool

text \<open>The second half of \<open>loadOrCreate\<close>, once there is a seed.\<close>

definition load_state ::
  "('net, 'priv, 'pub) wallet_libs \<Rightarrow> seed_doc \<Rightarrow> bool \<Rightarrow> io \<Rightarrow> shop_files \<Rightarrow>
     (bootstrap_error + 'priv loaded) \<times> shop_files" where
  "load_state libs seed created w fs =
     (case make_identities libs seed of
        Inl e \<Rightarrow> (Inl e, fs)
      | Inr identities \<Rightarrow>
         (case readJSON (f_state fs) of
            Inl e \<Rightarrow> (Inl e, fs)
          | Inr None \<Rightarrow>
             (case per_network (blank_for libs seed identities) NETWORKS of
                Inl e \<Rightarrow> (Inl e, fs)
              | Inr nets \<Rightarrow>
                 (let state = \<lparr>ids_active = ''bitcoin'', ids_createdAt = sd_createdAt seed, ids_networks = nets\<rparr>
                  in case writeAtomic w state (f_state fs) of
                       (Inl e, f) \<Rightarrow> (Inl e, fs\<lparr>f_state := f\<rparr>)
                     | (Inr _, f) \<Rightarrow>
                         (Inr \<lparr>ld_identities = identities, ld_state = state, ld_created = created\<rparr>, fs\<lparr>f_state := f\<rparr>)))
          | Inr (Some state) \<Rightarrow>
             (case check_recorded (wl_bip47 libs) identities (ids_networks state) NETWORKS of
                Some e \<Rightarrow> (Inl e, fs)
              | None \<Rightarrow>
                 (case grow libs seed identities NETWORKS (ids_networks state, False) of
                    Inl e \<Rightarrow> (Inl e, fs)
                  | Inr (nets, grew) \<Rightarrow>
                     (let state' = state\<lparr>ids_networks := nets\<rparr>;
                          out = \<lparr>ld_identities = identities, ld_state = state', ld_created = created\<rparr>
                      in if grew
                         then (case writeAtomic w state' (f_state fs) of
                             (Inl e, f) \<Rightarrow> (Inl e, fs\<lparr>f_state := f\<rparr>)
                           | (Inr _, f) \<Rightarrow> (Inr out, fs\<lparr>f_state := f\<rparr>))
                         else (Inr out, fs))))))"

text \<open>\<open>words\<close> is what \<open>newMnemonic\<close> would return, \<open>now\<close> the clock, \<open>w1\<close> and \<open>w2\<close> what happens to the
  write of the seed file and to the write of the state file.\<close>

definition loadOrCreate ::
  "('net, 'priv, 'pub) wallet_libs \<Rightarrow> string \<Rightarrow> int \<Rightarrow> io \<Rightarrow> io \<Rightarrow> shop_files \<Rightarrow>
     (bootstrap_error + 'priv loaded) \<times> shop_files" where
  "loadOrCreate libs words now w1 w2 fs =
     (case readJSON (f_seed fs) of
        Inl e \<Rightarrow> (Inl e, fs)
      | Inr (Some seed) \<Rightarrow> load_state libs seed False w2 fs
      | Inr None \<Rightarrow>
         (let seed = \<lparr>sd_mnemonic = words, sd_passphrase = None, sd_createdAt = to_iso now\<rparr>
          in case writeAtomic w1 seed (f_seed fs) of
               (Inl e, f) \<Rightarrow> (Inl e, fs\<lparr>f_seed := f\<rparr>)
             | (Inr _, f) \<Rightarrow> load_state libs seed True w2 (fs\<lparr>f_seed := f\<rparr>)))"

definition saveState :: "io \<Rightarrow> identity_state \<Rightarrow> shop_files \<Rightarrow> (bootstrap_error + unit) \<times> shop_files" where
  "saveState w state fs = (case writeAtomic w state (f_state fs) of (r, f) \<Rightarrow> (r, fs\<lparr>f_state := f\<rparr>))"

definition revealMnemonic :: "shop_files \<Rightarrow> bootstrap_error + string" where
  "revealMnemonic fs =
     (case readJSON (f_seed fs) of
        Inl e \<Rightarrow> Inl e
      | Inr None \<Rightarrow> Inl NoIdentityYet
      | Inr (Some seed) \<Rightarrow> Inr (sd_mnemonic seed))"

section \<open>The operator's changes\<close>

text \<open>An inherited member of \<open>networks\<close>, read or spread as if it were a block: none of the fields.\<close>

definition empty_block :: network_identity where
  "empty_block =
     \<lparr>nb_paymentCode = [], nb_notificationAddress = [], nb_depositAddress = [], nb_receiverPaymentCode = None,
      nb_receiverNotificationAddress = None, nb_nymName = None, nb_nymId = None, nb_notificationTxid = None,
      nb_notificationSentAt = None, nb_dojo = Undef\<rparr>"

definition block_of :: "identity_state \<Rightarrow> string \<Rightarrow> network_identity option" where
  "block_of state network =
     (case oread (ids_networks state) network of
        Own b \<Rightarrow> Some b | Inherited \<Rightarrow> Some empty_block | Missing \<Rightarrow> None)"

definition put_block :: "identity_state \<Rightarrow> string \<Rightarrow> network_identity \<Rightarrow> identity_state" where
  "put_block state network b = state\<lparr>ids_networks := AList.update network b (ids_networks state)\<rparr>"

text \<open>A text field that is set: present and not empty.\<close>

definition is_set :: "string option \<Rightarrow> bool" where
  "is_set x = (x \<noteq> None \<and> x \<noteq> Some [])"

definition bindReceiver ::
  "('net, 'priv, 'pub) bip47_lib \<Rightarrow> identity_state \<Rightarrow> string \<Rightarrow> val \<Rightarrow> bootstrap_error + identity_state" where
  "bindReceiver lib state network personalPaymentCode =
     (case block_of state network of
        None \<Rightarrow> Inl (UnknownShopNetwork network)
      | Some block \<Rightarrow>
         (let code = trim (js_text (js_or personalPaymentCode (Str [])))
          in case publicCode lib code network of
               Inl e \<Rightarrow> Inl (NotAPaymentCode e)
             | Inr pub \<Rightarrow>
                if code = nb_paymentCode block \<and> code \<noteq> [] then Inl OwnPaymentCode
                else if is_set (nb_notificationTxid block) \<and> is_set (nb_receiverPaymentCode block) \<and>
                        nb_receiverPaymentCode block \<noteq> Some code
                  then Inl (WouldStrand network)
                else Inr (put_block state network
                       (block\<lparr>nb_receiverPaymentCode := Some code,
                              nb_receiverNotificationAddress := Some (pub_notification_address lib pub)\<rparr>))))"

definition setDojo :: "identity_state \<Rightarrow> string \<Rightarrow> val \<Rightarrow> bootstrap_error + identity_state" where
  "setDojo state network dojo =
     (case block_of state network of
        None \<Rightarrow> Inl (UnknownShopNetwork network)
      | Some block \<Rightarrow> Inr (put_block state network (block\<lparr>nb_dojo := dojo\<rparr>)))"

definition setActive :: "identity_state \<Rightarrow> string \<Rightarrow> bootstrap_error + identity_state" where
  "setActive state network =
     (case block_of state network of
        None \<Rightarrow> Inl (UnknownShopNetwork network)
      | Some _ \<Rightarrow> Inr (state\<lparr>ids_active := network\<rparr>))"

record readiness =
  rd_ready :: bool
  rd_needsReceiver :: bool
  rd_needsNotification :: bool
  rd_needsDojo :: bool

definition readiness_of :: "identity_state \<Rightarrow> string \<Rightarrow> bootstrap_error + readiness" where
  "readiness_of state network =
     (case block_of state network of
        None \<Rightarrow> Inl (UnknownShopNetwork network)
      | Some block \<Rightarrow>
         (let needsReceiver = (\<not> is_set (nb_receiverPaymentCode block));
              needsNotification = (\<not> is_set (nb_notificationTxid block));
              needsDojo = (\<not> truthy (nb_dojo block))
          in Inr \<lparr>rd_ready = (\<not> needsReceiver \<and> \<not> needsNotification), rd_needsReceiver = needsReceiver,
                  rd_needsNotification = needsNotification, rd_needsDojo = needsDojo\<rparr>))"

section \<open>Facts about the loops\<close>

lemma per_network_Inr:
  "per_network f ns = Inr m \<Longrightarrow> map fst m = ns \<and> (\<forall>n \<in> set ns. \<exists>x. f n = Inr x \<and> map_of m n = Some x)"
proof (induction ns arbitrary: m)
  case (Cons n ns)
  then show ?case by (auto split: sum.splits)
qed simp

lemma check_recorded_None:
  "check_recorded lib identities nets ns = None \<longleftrightarrow>
     (\<forall>n \<in> set ns. \<forall>b. map_of nets n = Some b \<longrightarrow>
        nb_paymentCode b = [] \<or> nb_paymentCode b = paymentCode lib (the (map_of identities n)))"
  by (induction ns) (auto simp: Let_def split: option.splits)

lemma check_recorded_Some:
  assumes "n \<in> set ns" "map_of nets n = Some b" "nb_paymentCode b \<noteq> []"
    "nb_paymentCode b \<noteq> paymentCode lib (the (map_of identities n))"
  shows "\<exists>m c d. check_recorded lib identities nets ns = Some (SeedMismatch m c d)"
  using assms by (induction ns) (auto simp: Let_def)

text \<open>Blocks that are complete are left alone.\<close>

definition complete_on :: "string list \<Rightarrow> network_identity obj \<Rightarrow> bool" where
  "complete_on ns nets \<longleftrightarrow> (\<forall>n \<in> set ns. \<exists>b. map_of nets n = Some b \<and> nb_depositAddress b \<noteq> [])"

lemma complete_on_Nil [simp]: "complete_on [] nets"
  by (simp add: complete_on_def)

lemma complete_on_Cons [simp]:
  "complete_on (n # ns) nets \<longleftrightarrow>
     (\<exists>b. map_of nets n = Some b \<and> nb_depositAddress b \<noteq> []) \<and> complete_on ns nets"
  by (simp add: complete_on_def)

lemma grow_complete: "complete_on ns nets \<Longrightarrow> grow libs seed identities ns (nets, g) = Inr (nets, g)"
  by (induction ns) auto

lemma grow_unchanged: "grow libs seed identities ns (nets, g) = Inr (nets', False) \<Longrightarrow> nets' = nets \<and> \<not> g"
proof (induction ns arbitrary: nets g)
  case (Cons n ns)
  then show ?case by (fastforce split: option.splits sum.splits if_splits)
qed simp

lemma map_of_update [simp]: "map_of (AList.update k v m) = (map_of m)(k \<mapsto> v)"
  by (simp add: update_conv')

lemma grow_keeps_codes:
  assumes "grow libs seed identities ns (nets, g) = Inr (nets', g')"
    and "\<forall>n b. map_of nets n = Some b \<longrightarrow> ok n (nb_paymentCode b)"
    and "\<forall>n \<in> set ns. ok n (paymentCode (wl_bip47 libs) (the (map_of identities n)))"
  shows "\<forall>n b. map_of nets' n = Some b \<longrightarrow> ok n (nb_paymentCode b)"
  using assms
proof (induction ns arbitrary: nets g)
  case (Cons n ns)
  show ?case
  proof (cases "map_of nets n")
    case None
    with Cons.prems(1) obtain d where
      "grow libs seed identities ns (AList.update n (blankBlock (wl_bip47 libs) (the (map_of identities n)) d) nets, True)
        = Inr (nets', g')"
      by (auto simp: blank_for_def split: sum.splits)
    then show ?thesis
      by (rule Cons.IH) (use Cons.prems in \<open>auto simp: blankBlock_def\<close>)
  next
    case (Some b)
    show ?thesis
    proof (cases "nb_depositAddress b = []")
      case True
      with Some Cons.prems(1) obtain d where
        "grow libs seed identities ns (AList.update n (b\<lparr>nb_depositAddress := d\<rparr>) nets, True) = Inr (nets', g')"
        by (auto split: sum.splits)
      then show ?thesis
        by (rule Cons.IH) (use Cons.prems Some in auto)
    next
      case False
      with Some Cons.prems(1) have "grow libs seed identities ns (nets, g) = Inr (nets', g')" by simp
      then show ?thesis
        by (rule Cons.IH) (use Cons.prems in auto)
    qed
  qed
qed simp

lemma grow_completes:
  assumes "grow libs seed identities ns (nets, g) = Inr (nets', g')"
    and "complete_on ms nets"
    and "\<forall>n \<in> set ns. depositFor libs seed n \<noteq> Inr []"
  shows "complete_on ns nets' \<and> complete_on ms nets'"
  using assms
proof (induction ns arbitrary: nets g ms)
  case (Cons n ns)
  have step: ?case
    if "grow libs seed identities ns (nets1, g1) = Inr (nets', g')" "complete_on (n # ms) nets1" for nets1 g1
    using Cons.IH [OF that] Cons.prems(3) by auto
  show ?case
  proof (cases "map_of nets n")
    case None
    with Cons.prems obtain d where d: "d \<noteq> []" and
      g: "grow libs seed identities ns (AList.update n (blankBlock (wl_bip47 libs) (the (map_of identities n)) d) nets, True)
        = Inr (nets', g')"
      by (auto simp: blank_for_def split: sum.splits)
    from g show ?thesis
      by (rule step) (use d Cons.prems(2) in \<open>auto simp: complete_on_def blankBlock_def\<close>)
  next
    case (Some b)
    show ?thesis
    proof (cases "nb_depositAddress b = []")
      case True
      with Some Cons.prems obtain d where d: "d \<noteq> []" and
        g: "grow libs seed identities ns (AList.update n (b\<lparr>nb_depositAddress := d\<rparr>) nets, True) = Inr (nets', g')"
        by (auto split: sum.splits)
      from g show ?thesis
        by (rule step) (use d Cons.prems(2) in \<open>auto simp: complete_on_def\<close>)
    next
      case False
      with Some Cons.prems(1) have "grow libs seed identities ns (nets, g) = Inr (nets', g')" by simp
      then show ?thesis
        by (rule step) (use Some False Cons.prems(2) in auto)
    qed
  qed
qed simp

text \<open>A state file that any later start accepts as it is.\<close>

definition settled_files ::
  "('net, 'priv, 'pub) wallet_libs \<Rightarrow> 'priv store_identity obj \<Rightarrow> identity_state \<Rightarrow> bool" where
  "settled_files libs identities state \<longleftrightarrow>
     check_recorded (wl_bip47 libs) identities (ids_networks state) NETWORKS = None \<and>
     complete_on NETWORKS (ids_networks state)"

lemma load_state_settled:
  assumes "make_identities libs seed = Inr identities" "settled_files libs identities state"
    "f_state fs = Doc state"
  shows "load_state libs seed created w fs =
    (Inr \<lparr>ld_identities = identities, ld_state = state, ld_created = created\<rparr>, fs)"
  using assms
  by (simp add: load_state_def readJSON_def settled_files_def grow_complete)

lemma load_state_Inr:
  assumes "load_state libs seed created w fs = (Inr l, fs')"
    and dep: "\<forall>n \<in> set NETWORKS. depositFor libs seed n \<noteq> Inr []"
  shows "make_identities libs seed = Inr (ld_identities l) \<and> ld_created l = created \<and>
    f_seed fs' = f_seed fs \<and> f_state fs' = Doc (ld_state l) \<and>
    settled_files libs (ld_identities l) (ld_state l)"
proof -
  obtain identities where ids: "make_identities libs seed = Inr identities"
    using assms(1) by (auto simp: load_state_def split: sum.splits)
  show ?thesis
  proof (cases "readJSON (f_state fs)")
    case (Inl e)
    with assms(1) ids show ?thesis by (simp add: load_state_def)
  next
    case (Inr found)
    show ?thesis
    proof (cases found)
      case None
      with assms(1) ids Inr obtain nets where
        nets: "per_network (blank_for libs seed identities) NETWORKS = Inr nets" and
        l: "l = \<lparr>ld_identities = identities,
              ld_state = \<lparr>ids_active = ''bitcoin'', ids_createdAt = sd_createdAt seed, ids_networks = nets\<rparr>,
              ld_created = created\<rparr>" and
        f: "f_seed fs' = f_seed fs" "f_state fs' = Doc (ld_state l)"
        by (auto simp: load_state_def writeAtomic_def Let_def split: sum.splits io.splits)
      have block: "\<exists>d. map_of nets n = Some (blankBlock (wl_bip47 libs) (the (map_of identities n)) d) \<and> d \<noteq> []"
        if "n \<in> set NETWORKS" for n
        using per_network_Inr [OF nets] dep that by (fastforce simp: blank_for_def split: sum.splits)
      have "settled_files libs identities (ld_state l)"
        using block by (fastforce simp: settled_files_def l check_recorded_None complete_on_def blankBlock_def)
      with ids f show ?thesis by (simp add: l)
    next
      case (Some state)
      with assms(1) ids Inr obtain nets grew where
        chk: "check_recorded (wl_bip47 libs) identities (ids_networks state) NETWORKS = None" and
        g: "grow libs seed identities NETWORKS (ids_networks state, False) = Inr (nets, grew)" and
        l: "l = \<lparr>ld_identities = identities, ld_state = state\<lparr>ids_networks := nets\<rparr>, ld_created = created\<rparr>"
        by (auto simp: load_state_def Let_def split: sum.splits option.splits if_splits prod.splits)
      have doc: "f_state fs = Doc state"
        using Inr Some by (simp add: readJSON_def split: json_file.splits)
      have f: "f_seed fs' = f_seed fs \<and> f_state fs' = Doc (ld_state l)"
      proof (cases grew)
        case True
        with assms(1) ids Inr Some chk g show ?thesis
          by (auto simp: load_state_def Let_def l writeAtomic_def split: io.splits)
      next
        case False
        with assms(1) ids Inr Some chk g doc show ?thesis
          by (auto simp: load_state_def Let_def l dest!: grow_unchanged)
      qed
      let ?ok = "\<lambda>n c. n \<in> set NETWORKS \<longrightarrow> c = [] \<or> c = paymentCode (wl_bip47 libs) (the (map_of identities n))"
      have "\<forall>n b. map_of nets n = Some b \<longrightarrow> ?ok n (nb_paymentCode b)"
        by (rule grow_keeps_codes [OF g]) (use chk in \<open>auto simp: check_recorded_None\<close>)
      moreover have "complete_on NETWORKS nets"
        using grow_completes [OF g complete_on_Nil dep] by simp
      ultimately have "settled_files libs identities (ld_state l)"
        by (auto simp: settled_files_def l check_recorded_None)
      with ids f show ?thesis by (simp add: l)
    qed
  qed
qed

lemma load_state_created:
  "load_state libs seed c w fs = (Inr l, fs') \<Longrightarrow> ld_created l = c"
  by (auto simp: load_state_def Let_def split: sum.splits option.splits prod.splits if_splits)

lemma loadOrCreate_seed:
  assumes "loadOrCreate libs words now w1 w2 fs = (Inr l, fs')"
  obtains (existing) seed where "f_seed fs = Doc seed" "\<not> ld_created l"
      "load_state libs seed False w2 fs = (Inr l, fs')"
  | (fresh) seed where "f_seed fs = Absent \<or> f_seed fs = Falsy" "ld_created l"
      "seed = \<lparr>sd_mnemonic = words, sd_passphrase = None, sd_createdAt = to_iso now\<rparr>"
      "load_state libs seed True w2 (fs\<lparr>f_seed := Doc seed\<rparr>) = (Inr l, fs')"
proof (cases "readJSON (f_seed fs)")
  case (Inl e)
  with assms show ?thesis by (simp add: loadOrCreate_def)
next
  case (Inr found)
  show ?thesis
  proof (cases found)
    case None
    let ?seed = "\<lparr>sd_mnemonic = words, sd_passphrase = None, sd_createdAt = to_iso now\<rparr>"
    have "load_state libs ?seed True w2 (fs\<lparr>f_seed := Doc ?seed\<rparr>) = (Inr l, fs')"
      using assms Inr None by (cases w1) (simp_all add: loadOrCreate_def writeAtomic_def Let_def)
    moreover from Inr None have "f_seed fs = Absent \<or> f_seed fs = Falsy"
      by (cases "f_seed fs") (simp_all add: readJSON_def)
    ultimately show ?thesis using fresh load_state_created by blast
  next
    case (Some seed)
    with Inr have "f_seed fs = Doc seed"
      by (cases "f_seed fs") (simp_all add: readJSON_def)
    moreover from assms Inr Some have "load_state libs seed False w2 fs = (Inr l, fs')"
      by (simp add: loadOrCreate_def)
    ultimately show ?thesis using existing load_state_created by blast
  qed
qed

section \<open>A concrete wallet\<close>

definition demo_libs :: "(string, string, string) wallet_libs" where
  "demo_libs = \<lparr>wl_bip47 = demo_bip47, wl_bip39 = demo_bip39,
     wl_bip32 = (\<lambda>seed net path. Inr (text_bytes path, None))\<rparr>"

definition demo_words :: string where
  "demo_words = ''legal winner''"

definition demo_load :: "(bootstrap_error + string loaded) \<times> shop_files" where
  "demo_load = loadOrCreate demo_libs demo_words 5 Completed Completed \<lparr>f_seed = Absent, f_state = Absent\<rparr>"

lemma demo_deposit: "depositFor demo_libs seed n \<noteq> Inr []"
  by (auto simp: depositFor_def demo_libs_def demo_bip47_def depositAddress_def addressOfPubkey_def
      split: sum.splits if_splits)

lemma demo_load_ok: "\<exists>l fs. demo_load = (Inr l, fs) \<and> ld_created l"
proof -
  have "case demo_load of (Inr l, fs) \<Rightarrow> ld_created l | (Inl _, _) \<Rightarrow> False"
    by code_simp
  then show ?thesis by (auto split: prod.splits sum.splits)
qed

section \<open>Properties\<close>

text \<open>C5: a shop that has started once starts the same way for ever after: whatever fresh mnemonic
  and clock a later start would have used, it finds the same seed, derives the same identities,
  loads the same state, and writes nothing.\<close>

theorem restart_stable:
  assumes "loadOrCreate libs words now w1 w2 fs = (Inr l, fs')"
    and "\<forall>n seed. depositFor libs seed n \<noteq> Inr []"
  shows "loadOrCreate libs words' now' w1' w2' fs' = (Inr (l\<lparr>ld_created := False\<rparr>), fs')"
proof -
  have load: "loadOrCreate libs words' now' w1' w2' fs' = (Inr (l\<lparr>ld_created := False\<rparr>), fs')"
    if "load_state libs seed c w2 fs1 = (Inr l, fs')" "f_seed fs1 = Doc seed" for seed c fs1
  proof -
    have dep: "\<forall>n \<in> set NETWORKS. depositFor libs seed n \<noteq> Inr []" using assms(2) by blast
    note l = load_state_Inr [OF that(1) dep]
    have "load_state libs seed False w2' fs' = (Inr (l\<lparr>ld_created := False\<rparr>), fs')"
      using load_state_settled [of libs seed "ld_identities l" "ld_state l" fs' False w2'] l
      by (cases l) simp
    with l that(2) show ?thesis by (simp add: loadOrCreate_def readJSON_def)
  qed
  from assms(1) show ?thesis
    by (cases rule: loadOrCreate_seed) (auto intro: load)
qed

theorem restart_stable_witness:
  "\<exists>l fs. demo_load = (Inr l, fs) \<and> ld_created l \<and>
     loadOrCreate demo_libs ''other words'' 99 Failed Failed fs = (Inr (l\<lparr>ld_created := False\<rparr>), fs)"
proof -
  from demo_load_ok obtain l fs where l: "demo_load = (Inr l, fs)" "ld_created l" by blast
  from restart_stable [OF l(1) [unfolded demo_load_def]] demo_deposit l show ?thesis by blast
qed

text \<open>C6: a seed that no longer derives a payment code the shop has recorded, on any of its networks
  and not only the active one, is refused, and neither file is touched.\<close>

theorem wrong_seed_refused:
  assumes "f_seed fs = Doc seed" and "f_state fs = Doc state"
    and "make_identities libs seed = Inr identities"
    and "n \<in> set NETWORKS" and "map_of (ids_networks state) n = Some b" and "nb_paymentCode b \<noteq> []"
    and "nb_paymentCode b \<noteq> paymentCode (wl_bip47 libs) (the (map_of identities n))"
  shows "\<exists>m c d. loadOrCreate libs words now w1 w2 fs = (Inl (SeedMismatch m c d), fs)"
  using check_recorded_Some [OF assms(4-7)] assms(1-3)
  by (auto simp: loadOrCreate_def load_state_def readJSON_def)

definition demo_files :: "string \<Rightarrow> shop_files" where
  "demo_files w = (snd demo_load)\<lparr>f_seed := Doc \<lparr>sd_mnemonic = w, sd_passphrase = None, sd_createdAt = to_iso 5\<rparr>\<rparr>"

theorem wrong_seed_refused_witness:
  "\<exists>m c d. loadOrCreate demo_libs demo_words 9 Completed Completed (demo_files ''zoo zoo'') =
     (Inl (SeedMismatch m c d), demo_files ''zoo zoo'')"
proof -
  let ?seed = "\<lparr>sd_mnemonic = ''zoo zoo'', sd_passphrase = None, sd_createdAt = to_iso 5\<rparr>"
  have ok: "case (f_state (demo_files ''zoo zoo''), make_identities demo_libs ?seed) of
      (Doc state, Inr identities) \<Rightarrow> (case map_of (ids_networks state) ''testnet4'' of
         Some b \<Rightarrow> nb_paymentCode b \<noteq> [] \<and>
           nb_paymentCode b \<noteq> paymentCode demo_bip47 (the (map_of identities ''testnet4''))
       | None \<Rightarrow> False)
    | _ \<Rightarrow> False"
    by code_simp
  then obtain state identities b where
    st: "f_state (demo_files ''zoo zoo'') = Doc state" "make_identities demo_libs ?seed = Inr identities"
    "map_of (ids_networks state) ''testnet4'' = Some b" "nb_paymentCode b \<noteq> []"
    "nb_paymentCode b \<noteq> paymentCode demo_bip47 (the (map_of identities ''testnet4''))"
    by (auto split: json_file.splits sum.splits option.splits)
  have "f_seed (demo_files ''zoo zoo'') = Doc ?seed" by (simp add: demo_files_def)
  from wrong_seed_refused [OF this st(1,2) _ st(3,4)] st(5) show ?thesis
    by (simp add: NETWORKS_def demo_libs_def)
qed

end
