(* ===== verification/IndexService.thy ===== *)
theory IndexService
  imports IndexState
begin

text \<open>
  What the gateway may rely on from the index allocator, as an interface, and the allocator as one
  provider of it. An index is \<^emph>\<open>taken\<close> while it is on an invoice or has been paid; a call may fail,
  and then it gives no index, but it still leaves a good state behind.
\<close>

datatype service_event = Gave int | Freed int | Quiet

locale index_service =
  fixes alloc :: "'t \<Rightarrow> 's \<Rightarrow> ('e + int) \<times> 's"
    and free :: "'t \<Rightarrow> int \<Rightarrow> 's \<Rightarrow> ('e + bool) \<times> 's"
    and retire :: "'t \<Rightarrow> int \<Rightarrow> 's \<Rightarrow> ('e + bool) \<times> 's"
    and look :: "'t \<Rightarrow> 's \<Rightarrow> ('e + 'x) \<times> 's"
    and good :: "'s \<Rightarrow> bool"
    and taken :: "'s \<Rightarrow> int set"
  assumes alloc_law: "good s \<Longrightarrow> alloc t s = (r, s') \<Longrightarrow>
      good s' \<and> taken s \<subseteq> taken s' \<and> (\<forall>i. r = Inr i \<longrightarrow> i \<notin> taken s \<and> i \<in> taken s')"
    and free_law: "good s \<Longrightarrow> free t i s = (b, s') \<Longrightarrow> good s' \<and> taken s - {i} \<subseteq> taken s'"
    and retire_law: "good s \<Longrightarrow> retire t i s = (b, s') \<Longrightarrow> good s' \<and> taken s \<subseteq> taken s'"
    and look_law: "good s \<Longrightarrow> look t s = (x, s') \<Longrightarrow> good s' \<and> taken s \<subseteq> taken s'"
begin

text \<open>One call, as the client sees it.\<close>

inductive serves :: "'s \<Rightarrow> service_event \<Rightarrow> 's \<Rightarrow> bool" where
  gave: "alloc t s = (Inr i, s') \<Longrightarrow> serves s (Gave i) s'"
| refused: "alloc t s = (Inl e, s') \<Longrightarrow> serves s Quiet s'"
| freed: "free t i s = (b, s') \<Longrightarrow> serves s (Freed i) s'"
| retired: "retire t i s = (b, s') \<Longrightarrow> serves s Quiet s'"
| looked: "look t s = (x, s') \<Longrightarrow> serves s Quiet s'"
| idle: "serves s Quiet s"

lemma serves_step:
  assumes "serves s ev s'" "good s"
  shows "good s' \<and> (\<forall>j \<in> taken s. ev \<noteq> Freed j \<longrightarrow> j \<in> taken s' \<and> ev \<noteq> Gave j) \<and>
    (\<forall>i. ev = Gave i \<longrightarrow> i \<in> taken s')"
  using assms
  by (cases rule: serves.cases) (blast dest: alloc_law free_law retire_law look_law)+

inductive session :: "'s \<Rightarrow> service_event list \<Rightarrow> 's \<Rightarrow> bool" where
  none: "session s [] s"
| call: "serves s ev s' \<Longrightarrow> session s' evs s'' \<Longrightarrow> session s (ev # evs) s''"

definition given_in :: "service_event list \<Rightarrow> int list" where
  "given_in evs = concat (map (\<lambda>ev. case ev of Gave i \<Rightarrow> [i] | _ \<Rightarrow> []) evs)"

lemma given_in_simps:
  "given_in [] = []" "given_in (Gave i # evs) = i # given_in evs"
  "given_in (Freed i # evs) = given_in evs" "given_in (Quiet # evs) = given_in evs"
  by (simp_all add: given_in_def)

text \<open>A taken index that is not freed is not given again.\<close>

lemma session_taken:
  assumes "session s evs s'" "good s" "i \<in> taken s" "Freed i \<notin> set evs"
  shows "i \<in> taken s' \<and> i \<notin> set (given_in evs)"
  using assms
proof (induction rule: session.induct)
  case (call s ev s' evs s'')
  from serves_step [OF call.hyps(1) call.prems(1)] call.prems
  have "good s'" "i \<in> taken s'" "ev \<noteq> Gave i" by auto
  with call.IH call.prems(3) show ?case by (cases ev) (auto simp: given_in_simps)
qed (simp add: given_in_simps)

lemma session_distinct:
  assumes "session s evs s'" "good s" "\<forall>i. Freed i \<notin> set evs"
  shows "distinct (given_in evs)"
  using assms
proof (induction rule: session.induct)
  case (call s ev s' evs s'')
  from serves_step [OF call.hyps(1) call.prems(1)] have g: "good s'" "\<And>i. ev = Gave i \<Longrightarrow> i \<in> taken s'"
    by auto
  with call.IH call.prems(2) have d: "distinct (given_in evs)" by auto
  show ?case
  proof (cases ev)
    case (Gave i)
    with g session_taken [OF call.hyps(2) g(1), of i] call.prems(2) d show ?thesis
      by (auto simp: given_in_simps)
  qed (use d in \<open>simp_all add: given_in_simps\<close>)
qed (simp add: given_in_simps)

end

section \<open>The allocator provides it\<close>

definition core_taken :: "index_state \<Rightarrow> int set" where
  "core_taken s = {i. 0 \<le> i \<and> i < next_index s \<and> i \<notin> rc_index ` set (reclaimed s)}"

text \<open>The state the next operation on a store works with, if its file can be read.\<close>

definition store_core :: "index_store \<Rightarrow> index_state option" where
  "store_core st = (case fst (load st) of Inr s \<Rightarrow> Some s | Inl _ \<Rightarrow> None)"

definition store_good :: "index_store \<Rightarrow> bool" where
  "store_good st = (case store_core st of Some s \<Rightarrow> ix_inv s | None \<Rightarrow> True)"

definition store_taken :: "index_store \<Rightarrow> int set" where
  "store_taken st = (case store_core st of Some s \<Rightarrow> core_taken s | None \<Rightarrow> {})"

text \<open>When a call happens: its clock, the clock when the file is written, and the fate of the write.\<close>

record moment =
  mo_now :: int
  mo_wall :: int
  mo_io :: io

definition alloc_at :: "int \<Rightarrow> moment \<Rightarrow> index_store \<Rightarrow> (store_error + int) \<times> index_store" where
  "alloc_at q t st = allocate q (mo_now t) (mo_wall t) (mo_io t) st"

definition free_at :: "moment \<Rightarrow> int \<Rightarrow> index_store \<Rightarrow> (store_error + bool) \<times> index_store" where
  "free_at t i st = release i (mo_now t) (mo_wall t) (mo_io t) st"

definition retire_at :: "moment \<Rightarrow> int \<Rightarrow> index_store \<Rightarrow> (store_error + bool) \<times> index_store" where
  "retire_at t i st = settle i (mo_wall t) (mo_io t) st"

lemma core_taken_stamp [simp]: "core_taken (s\<lparr>updated_at := u\<rparr>) = core_taken s"
  by (simp add: core_taken_def)

lemma load_store_core: "load st = (r, st') \<Longrightarrow> store_core st' = store_core st \<and>
    store_core st = (case r of Inr s \<Rightarrow> Some s | Inl _ \<Rightarrow> None)"
  by (auto simp: store_core_def load_def split: option.splits disk.splits)

lemma persist_store_core:
  "persist w wall s st = (r, st') \<Longrightarrow> store_core st' = Some (s\<lparr>updated_at := Some (to_iso wall)\<rparr>)"
  by (auto simp: persist_def store_core_def load_def Let_def split: io.splits)

lemma core_taken_allocate:
  assumes "ix_inv s" "allocate_core q now s = (i, s')"
  shows "core_taken s \<subseteq> core_taken s' \<and> i \<notin> core_taken s \<and> i \<in> core_taken s'"
  using assms(1)
  by (cases rule: allocate_core_cases [OF assms])
    (auto simp: core_taken_def ix_inv_def)

lemma core_taken_release:
  assumes "ix_inv s" "release_core i now s = Some s'"
  shows "core_taken s - {i} \<subseteq> core_taken s'"
  using assms by (auto simp: release_core_def core_taken_def Let_def split: option.splits if_splits)

lemma core_taken_settle: "settle_core i s = Some s' \<Longrightarrow> core_taken s' = core_taken s"
  by (auto simp: settle_core_def core_taken_def split: option.splits)

lemmas store_simps = store_good_def store_taken_def

lemma alloc_at_law:
  assumes "store_good st" "alloc_at q t st = (r, st')"
  shows "store_good st' \<and> store_taken st \<subseteq> store_taken st' \<and>
    (\<forall>i. r = Inr i \<longrightarrow> i \<notin> store_taken st \<and> i \<in> store_taken st')"
proof (cases "load st")
  case (Pair l st1)
  note core = load_store_core [OF Pair]
  show ?thesis
  proof (cases l)
    case (Inl e)
    with Pair assms core show ?thesis by (auto simp: alloc_at_def allocate_def store_simps)
  next
    case (Inr s)
    obtain i s' where al: "allocate_core q (mo_now t) s = (i, s')" by (cases "allocate_core q (mo_now t) s")
    obtain pr st2 where ps: "persist (mo_io t) (mo_wall t) s' st1 = (pr, st2)"
      by (cases "persist (mo_io t) (mo_wall t) s' st1")
    from assms(1) core Inr have inv: "ix_inv s" by (simp add: store_good_def)
    have st': "st' = st2 \<and> (\<forall>j. r = Inr j \<longrightarrow> j = i)"
      using assms(2) Pair Inr al ps by (auto simp: alloc_at_def allocate_def split: sum.splits)
    from persist_store_core [OF ps] core_taken_allocate [OF inv al] allocate_core_inv [OF inv al] core Inr st'
    show ?thesis by (auto simp: store_simps)
  qed
qed

lemma update_law:
  assumes "store_good st" "f st = (r, st')"
    and f: "\<And>st. f st = (case load st of (Inl e, st1) \<Rightarrow> (Inl e, st1)
      | (Inr s, st1) \<Rightarrow> (case g s of None \<Rightarrow> (Inr False, st1)
        | Some s' \<Rightarrow> (case persist w wall s' st1 of (Inl e, st2) \<Rightarrow> (Inl e, st2) | (Inr _, st2) \<Rightarrow> (Inr True, st2))))"
    and g: "\<And>s s'. ix_inv s \<Longrightarrow> g s = Some s' \<Longrightarrow> ix_inv s' \<and> core_taken s - X \<subseteq> core_taken s'"
  shows "store_good st' \<and> store_taken st - X \<subseteq> store_taken st'"
proof (cases "load st")
  case (Pair l st1)
  note core = load_store_core [OF Pair]
  show ?thesis
  proof (cases l)
    case (Inl e)
    with Pair assms(1,2) core show ?thesis by (auto simp: f store_simps)
  next
    case (Inr s)
    from assms(1) core Inr have inv: "ix_inv s" by (simp add: store_good_def)
    show ?thesis
    proof (cases "g s")
      case None
      with Pair Inr assms(1,2) core show ?thesis by (auto simp: f store_simps)
    next
      case (Some s')
      obtain pr st2 where ps: "persist w wall s' st1 = (pr, st2)" by (cases "persist w wall s' st1")
      with assms(2) Pair Inr Some have "st' = st2" by (auto simp: f split: sum.splits)
      with persist_store_core [OF ps] g [OF inv Some] core Inr show ?thesis by (auto simp: store_simps)
    qed
  qed
qed

lemma alloc_at_disk:
  assumes "store_good st" "alloc_at q t st = (Inr i, st')"
  shows "0 \<le> i \<and> (\<exists>s. on_disk st' = Holds s \<and> i \<in> set (issued s))"
proof (cases "load st")
  case (Pair l st1)
  with assms obtain s where l: "l = Inr s" by (cases l) (auto simp: alloc_at_def allocate_def)
  with load_store_core [OF Pair] assms(1) have inv: "ix_inv s" by (simp add: store_good_def)
  obtain j s' where al: "allocate_core q (mo_now t) s = (j, s')" by (cases "allocate_core q (mo_now t) s")
  with assms(2) Pair l have i: "j = i" "on_disk st' = Holds (s'\<lparr>updated_at := Some (to_iso (mo_wall t))\<rparr>)"
    by (auto simp: alloc_at_def allocate_def persist_def Let_def split: io.splits)
  have "j \<in> set (issued s')" by (rule allocate_core_cases [OF inv al]) simp_all
  with allocate_core_inv [OF inv al] i show ?thesis by (auto simp: ix_inv_def)
qed

definition look_at :: "int \<Rightarrow> moment \<Rightarrow> index_store \<Rightarrow> (store_error + index_status) \<times> index_store" where
  "look_at q t st = status q (mo_now t) st"

interpretation ixs: index_service "alloc_at q" free_at retire_at "look_at q" store_good store_taken
proof
  fix t st r st'
  assume "store_good st" "alloc_at q t st = (r, st')"
  then show "store_good st' \<and> store_taken st \<subseteq> store_taken st' \<and>
      (\<forall>i. r = Inr i \<longrightarrow> i \<notin> store_taken st \<and> i \<in> store_taken st')"
    by (rule alloc_at_law)
next
  fix t i st b st'
  assume "store_good st" "free_at t i st = (b, st')"
  then show "store_good st' \<and> store_taken st - {i} \<subseteq> store_taken st'"
    by (rule update_law [where g = "release_core i (mo_now t)" and w = "mo_io t" and wall = "mo_wall t"])
      (simp_all add: free_at_def release_def core_taken_release release_core_inv)
next
  fix t i st b st'
  assume "store_good st" "retire_at t i st = (b, st')"
  then have "store_good st' \<and> store_taken st - {} \<subseteq> store_taken st'"
    by (rule update_law [where g = "settle_core i" and w = "mo_io t" and wall = "mo_wall t"])
      (simp_all add: retire_at_def settle_def core_taken_settle settle_core_inv)
  then show "store_good st' \<and> store_taken st \<subseteq> store_taken st'" by simp
next
  fix t st x st'
  assume "store_good st" "look_at q t st = (x, st')"
  then show "store_good st' \<and> store_taken st \<subseteq> store_taken st'"
    by (cases "load st") (auto simp: look_at_def status_def store_simps dest: load_store_core split: sum.splits)
qed

end
