(* ===== verification/Gateway.thy ===== *)
theory Gateway
  imports Bootstrap IndexService
begin

text \<open>
  \<open>gateway/gateway.mjs\<close>: the request handler of the one process that holds the store's key
  (\<open>makeHandler\<close>) and the shop object it reads and changes (\<open>makeShop\<close>). A gateway has either a shop
  with one index store per network, or one identity with one index store. Each request comes with its
  clock and the fate of the one file it may write. The network of a request is the text it has as a
  property key. What a request throws is the left of the sum; the socket turns it into an error reply.
\<close>

section \<open>The gateway and its requests\<close>

record 'priv shop =
  sh_state :: identity_state
  sh_files :: shop_files
  sh_identities :: "'priv store_identity obj"

record 'priv gateway =
  gw_identity :: "'priv store_identity option"
  gw_personal :: "string option"
  gw_store :: "index_store option"
  gw_type :: address_type
  gw_shop :: "'priv shop option"
  gw_stores :: "index_store obj"

datatype gateway_error =
    NeedsParts
  | NoChain string
  | NotAFunction
  | FromBootstrap bootstrap_error
  | FromIndexStore store_error
  | FromDerivation derive_error

definition makeHandler :: "'priv gateway \<Rightarrow> gateway_error + 'priv gateway" where
  "makeHandler gw =
     (if gw_shop gw = None \<and> (gw_identity gw = None \<or> gw_store gw = None) then Inl NeedsParts else Inr gw)"

text \<open>The chain a request runs on. \<open>None\<close> stands for inherited members of \<open>Object.prototype\<close>, which
  pass the check and have none of the methods.\<close>

record 'priv chain =
  ch_network :: string
  ch_parts :: "('priv store_identity \<times> index_store) option"

definition active :: "'priv gateway \<Rightarrow> gateway_error + 'priv chain" where
  "active gw =
     (case gw_shop gw of
        None \<Rightarrow> (case (gw_identity gw, gw_store gw) of
            (Some ident, Some st) \<Rightarrow> Inr \<lparr>ch_network = si_network ident, ch_parts = Some (ident, st)\<rparr>
          | _ \<Rightarrow> Inl NeedsParts)
      | Some sh \<Rightarrow>
          (let network = ids_active (sh_state sh)
           in case (oread (sh_identities sh) network, oread (gw_stores gw) network) of
                (Missing, _) \<Rightarrow> Inl (NoChain network)
              | (_, Missing) \<Rightarrow> Inl (NoChain network)
              | (Own ident, Own st) \<Rightarrow> Inr \<lparr>ch_network = network, ch_parts = Some (ident, st)\<rparr>
              | _ \<Rightarrow> Inr \<lparr>ch_network = network, ch_parts = None\<rparr>))"

definition first_set :: "string option \<Rightarrow> string option \<Rightarrow> string option" where
  "first_set a b = (if is_set a then a else if is_set b then b else None)"

definition receiver :: "'priv gateway \<Rightarrow> string \<Rightarrow> string option" where
  "receiver gw network =
     first_set
       (case gw_shop gw of
          None \<Rightarrow> None
        | Some sh \<Rightarrow> (case block_of (sh_state sh) network of
            None \<Rightarrow> None | Some b \<Rightarrow> nb_receiverPaymentCode b))
       (gw_personal gw)"

definition recordFor ::
  "('net, 'priv, 'pub) bip47_lib \<Rightarrow> message_lib \<Rightarrow> address_type \<Rightarrow> 'priv store_identity \<Rightarrow> string \<Rightarrow> rat \<Rightarrow>
     string \<Rightarrow> derive_error + signed_address" where
  "recordFor lib msg addressType ident network index personal =
     (case addressFor lib (si_code ident) personal index addressType network of
        Inl e \<Rightarrow> Inl e
      | Inr a \<Rightarrow> Inr (signAddress lib msg ident
          \<lparr>ar_v = 1, ar_address = a, ar_index = \<lfloor>index\<rfloor>, ar_type = type_text addressType,
           ar_network = network, ar_paymentCode = paymentCode lib ident\<rparr>))"

datatype request =
    ReqNext
  | ReqPeek val
  | ReqRelease val
  | ReqSettle val
  | ReqStatus
  | ReqIdentity
  | ReqBind string val
  | ReqActive string
  | ReqDojo string val
  | ReqReveal
  | ReqOther val

definition parse_request :: "val \<Rightarrow> request" where
  "parse_request req =
     (let op = (if truthy req then fld req ''op'' else req); index = fld req ''index'';
          network = js_text (fld req ''network'')
      in if op = Str ''next'' then ReqNext
         else if op = Str ''peek'' then ReqPeek index
         else if op = Str ''release'' then ReqRelease index
         else if op = Str ''settle'' then ReqSettle index
         else if op = Str ''status'' then ReqStatus
         else if op = Str ''identity'' then ReqIdentity
         else if op = Str ''bind-receiver'' then ReqBind network (fld req ''code'')
         else if op = Str ''set-active'' then ReqActive network
         else if op = Str ''set-dojo'' then ReqDojo network (fld req ''dojo'')
         else if op = Str ''reveal-seed'' then ReqReveal
         else ReqOther op)"

record gateway_status =
  gs_paymentCode :: string
  gs_notificationAddress :: string
  gs_depositAddress :: "string option"
  gs_personalCode :: "string option"
  gs_type :: string
  gs_network :: string
  gs_index :: index_status

record shop_identity =
  id_active :: string
  id_createdAt :: stamp
  id_networks :: "(network_identity \<times> (bootstrap_error + readiness)) obj"

datatype gw_reply =
    Rec signed_address
  | NeedReceiver string
  | NeedsIndex
  | Okay bool
  | StatusIs gateway_status
  | IdentityIs shop_identity
  | Bound string network_identity
  | NowActive string
  | DojoIs string val
  | Mnemonic string
  | NoShop
  | UnknownOp val

section \<open>The shop object\<close>

definition shop_identity_of :: "'priv shop \<Rightarrow> shop_identity" where
  "shop_identity_of sh =
     \<lparr>id_active = ids_active (sh_state sh), id_createdAt = ids_createdAt (sh_state sh),
      id_networks = map (\<lambda>(n, b). (n, b, readiness_of (sh_state sh) n)) (ids_networks (sh_state sh))\<rparr>"

text \<open>\<open>current = change(current, ...)\<close> and then \<open>saveState\<close>: when the write throws, the change stays.\<close>

definition shop_change ::
  "io \<Rightarrow> 'priv shop \<Rightarrow> bootstrap_error + identity_state \<Rightarrow> (identity_state \<Rightarrow> gw_reply) \<Rightarrow>
     (gateway_error + gw_reply) \<times> 'priv shop" where
  "shop_change w sh changed reply =
     (case changed of
        Inl e \<Rightarrow> (Inl (FromBootstrap e), sh)
      | Inr state \<Rightarrow> (case saveState w state (sh_files sh) of
          (Inl e, fs) \<Rightarrow> (Inl (FromBootstrap e), sh\<lparr>sh_state := state, sh_files := fs\<rparr>)
        | (Inr _, fs) \<Rightarrow> (Inr (reply state), sh\<lparr>sh_state := state, sh_files := fs\<rparr>)))"

definition shop_bindReceiver ::
  "('net, 'priv, 'pub) bip47_lib \<Rightarrow> io \<Rightarrow> string \<Rightarrow> val \<Rightarrow> 'priv shop \<Rightarrow> (gateway_error + gw_reply) \<times> 'priv shop" where
  "shop_bindReceiver lib w network code sh =
     shop_change w sh (bindReceiver lib (sh_state sh) network code)
       (\<lambda>st. Bound network (the (block_of st network)))"

definition shop_setActive :: "io \<Rightarrow> string \<Rightarrow> 'priv shop \<Rightarrow> (gateway_error + gw_reply) \<times> 'priv shop" where
  "shop_setActive w network sh =
     shop_change w sh (setActive (sh_state sh) network) (\<lambda>st. NowActive (ids_active st))"

definition shop_setDojo :: "io \<Rightarrow> string \<Rightarrow> val \<Rightarrow> 'priv shop \<Rightarrow> (gateway_error + gw_reply) \<times> 'priv shop" where
  "shop_setDojo w network dojo sh =
     shop_change w sh (setDojo (sh_state sh) network dojo)
       (\<lambda>st. DojoIs network (nb_dojo (the (block_of st network))))"

section \<open>The handler\<close>

definition put_store :: "'priv gateway \<Rightarrow> string \<Rightarrow> index_store \<Rightarrow> 'priv gateway" where
  "put_store gw network st =
     (case gw_shop gw of
        None \<Rightarrow> gw\<lparr>gw_store := Some st\<rparr>
      | Some _ \<Rightarrow> gw\<lparr>gw_stores := AList.update network st (gw_stores gw)\<rparr>)"

definition handle_next ::
  "('net, 'priv, 'pub) bip47_lib \<Rightarrow> message_lib \<Rightarrow> int \<Rightarrow> moment \<Rightarrow> 'priv gateway \<Rightarrow>
     (gateway_error + gw_reply) \<times> 'priv gateway" where
  "handle_next lib msg q t gw =
     (case active gw of
        Inl e \<Rightarrow> (Inl e, gw)
      | Inr cur \<Rightarrow> (case receiver gw (ch_network cur) of
          None \<Rightarrow> (Inr (NeedReceiver (ch_network cur)), gw)
        | Some personal \<Rightarrow> (case ch_parts cur of
            None \<Rightarrow> (Inl NotAFunction, gw)
          | Some (ident, st) \<Rightarrow> (case alloc_at q t st of
              (Inl e, st') \<Rightarrow> (Inl (FromIndexStore e), put_store gw (ch_network cur) st')
            | (Inr index, st') \<Rightarrow>
                (map_sum FromDerivation Rec
                   (recordFor lib msg (gw_type gw) ident (ch_network cur) (of_int index) personal),
                 put_store gw (ch_network cur) st')))))"

definition handle_peek ::
  "('net, 'priv, 'pub) bip47_lib \<Rightarrow> message_lib \<Rightarrow> val \<Rightarrow> 'priv gateway \<Rightarrow>
     (gateway_error + gw_reply) \<times> 'priv gateway" where
  "handle_peek lib msg v gw =
     (case active gw of
        Inl e \<Rightarrow> (Inl e, gw)
      | Inr cur \<Rightarrow> (case receiver gw (ch_network cur) of
          None \<Rightarrow> (Inr (NeedReceiver (ch_network cur)), gw)
        | Some personal \<Rightarrow>
            if \<not> js_is_integer v \<or> int_of v < 0 then (Inr NeedsIndex, gw)
            else (case ch_parts cur of
                None \<Rightarrow> (Inl NotAFunction, gw)
              | Some (ident, st) \<Rightarrow>
                  (map_sum FromDerivation Rec
                     (recordFor lib msg (gw_type gw) ident (ch_network cur) (of_int (int_of v)) personal), gw))))"

text \<open>\<open>release\<close> and \<open>settle\<close>: the index is looked at before the chain.\<close>

definition handle_give ::
  "(int \<Rightarrow> index_store \<Rightarrow> (store_error + bool) \<times> index_store) \<Rightarrow> val \<Rightarrow> 'priv gateway \<Rightarrow>
     (gateway_error + gw_reply) \<times> 'priv gateway" where
  "handle_give f v gw =
     (if \<not> js_is_integer v then (Inr NeedsIndex, gw)
      else (case active gw of
          Inl e \<Rightarrow> (Inl e, gw)
        | Inr cur \<Rightarrow> (case ch_parts cur of
            None \<Rightarrow> (Inl NotAFunction, gw)
          | Some (ident, st) \<Rightarrow> (case f (int_of v) st of
              (r, st') \<Rightarrow> (map_sum FromIndexStore Okay r, put_store gw (ch_network cur) st')))))"

definition shop_deposit :: "'priv gateway \<Rightarrow> string \<Rightarrow> string option" where
  "shop_deposit gw network =
     (case gw_shop gw of
        None \<Rightarrow> None
      | Some sh \<Rightarrow> map_option nb_depositAddress (block_of (sh_state sh) network))"

definition handle_status ::
  "('net, 'priv, 'pub) bip47_lib \<Rightarrow> int \<Rightarrow> moment \<Rightarrow> 'priv gateway \<Rightarrow>
     (gateway_error + gw_reply) \<times> 'priv gateway" where
  "handle_status lib q t gw =
     (case active gw of
        Inl e \<Rightarrow> (Inl e, gw)
      | Inr cur \<Rightarrow> (case ch_parts cur of
          None \<Rightarrow> (Inl NotAFunction, gw)
        | Some (ident, st) \<Rightarrow> (case look_at q t st of
            (Inl e, st') \<Rightarrow> (Inl (FromIndexStore e), put_store gw (ch_network cur) st')
          | (Inr s, st') \<Rightarrow>
              (Inr (StatusIs \<lparr>gs_paymentCode = paymentCode lib ident,
                 gs_notificationAddress = notificationAddress lib ident,
                 gs_depositAddress = shop_deposit gw (ch_network cur),
                 gs_personalCode = receiver gw (ch_network cur), gs_type = type_text (gw_type gw),
                 gs_network = ch_network cur, gs_index = s\<rparr>),
               put_store gw (ch_network cur) st'))))"

definition on_shop ::
  "('priv shop \<Rightarrow> (gateway_error + gw_reply) \<times> 'priv shop) \<Rightarrow> 'priv gateway \<Rightarrow>
     (gateway_error + gw_reply) \<times> 'priv gateway" where
  "on_shop f gw =
     (case gw_shop gw of
        None \<Rightarrow> (Inr NoShop, gw)
      | Some sh \<Rightarrow> (case f sh of (r, sh') \<Rightarrow> (r, gw\<lparr>gw_shop := Some sh'\<rparr>)))"

fun handle ::
  "('net, 'priv, 'pub) bip47_lib \<Rightarrow> message_lib \<Rightarrow> int \<Rightarrow> moment \<Rightarrow> request \<Rightarrow> 'priv gateway \<Rightarrow>
     (gateway_error + gw_reply) \<times> 'priv gateway" where
  "handle lib msg q t ReqNext gw = handle_next lib msg q t gw"
| "handle lib msg q t (ReqPeek v) gw = handle_peek lib msg v gw"
| "handle lib msg q t (ReqRelease v) gw = handle_give (free_at t) v gw"
| "handle lib msg q t (ReqSettle v) gw = handle_give (retire_at t) v gw"
| "handle lib msg q t ReqStatus gw = handle_status lib q t gw"
| "handle lib msg q t ReqIdentity gw = on_shop (\<lambda>sh. (Inr (IdentityIs (shop_identity_of sh)), sh)) gw"
| "handle lib msg q t (ReqBind network code) gw = on_shop (shop_bindReceiver lib (mo_io t) network code) gw"
| "handle lib msg q t (ReqActive network) gw = on_shop (shop_setActive (mo_io t) network) gw"
| "handle lib msg q t (ReqDojo network dojo) gw = on_shop (shop_setDojo (mo_io t) network dojo) gw"
| "handle lib msg q t ReqReveal gw =
     on_shop (\<lambda>sh. (map_sum FromBootstrap Mnemonic (revealMnemonic (sh_files sh)), sh)) gw"
| "handle lib msg q t (ReqOther op) gw = (Inr (UnknownOp op), gw)"

text \<open>A run of requests, one after the other.\<close>

fun gw_run ::
  "('net, 'priv, 'pub) bip47_lib \<Rightarrow> message_lib \<Rightarrow> int \<Rightarrow> (moment \<times> request) list \<Rightarrow> 'priv gateway \<Rightarrow>
     (gateway_error + gw_reply) list \<times> 'priv gateway" where
  "gw_run lib msg q [] gw = ([], gw)"
| "gw_run lib msg q ((t, req) # reqs) gw =
     (case handle lib msg q t req gw of
        (r, gw1) \<Rightarrow> (case gw_run lib msg q reqs gw1 of (rs, gw2) \<Rightarrow> (r # rs, gw2)))"

end
