(* ===== verification/GatewayProps.thy ===== *)
theory GatewayProps
  imports Gateway
begin

text \<open>
  What the handler promises: an issued record verifies, is durable and is reproduced by \<open>peek\<close>; open
  invoices never share an address; only one request can disclose the seed; a receiver that has been
  announced on the chain stays; a switch of network takes effect at once and leaves the other chain alone.
\<close>

section \<open>One request and the stores\<close>

text \<open>The store of a network.\<close>

definition chain_store :: "'priv gateway \<Rightarrow> string \<Rightarrow> index_store option" where
  "chain_store gw n =
     (case gw_shop gw of
        None \<Rightarrow> (case gw_identity gw of
            Some ident \<Rightarrow> if si_network ident = n then gw_store gw else None
          | None \<Rightarrow> None)
      | Some _ \<Rightarrow> map_of (gw_stores gw) n)"

definition gw_good :: "'priv gateway \<Rightarrow> bool" where
  "gw_good gw \<longleftrightarrow> (\<forall>n st. chain_store gw n = Some st \<longrightarrow> store_good st)"

lemma active_store:
  "active gw = Inr cur \<Longrightarrow> ch_parts cur = Some (ident, st) \<Longrightarrow> chain_store gw (ch_network cur) = Some st"
  by (auto simp: active_def chain_store_def Let_def split: option.splits slot.splits)

lemma chain_store_put:
  "active gw = Inr cur \<Longrightarrow> ch_parts cur = Some parts \<Longrightarrow>
     chain_store (put_store gw (ch_network cur) st) n =
       (if n = ch_network cur then Some st else chain_store gw n)"
  by (auto simp: active_def chain_store_def put_store_def Let_def split: option.splits slot.splits)

lemma chain_store_shop [simp]:
  "gw_shop gw = Some sh \<Longrightarrow> chain_store (gw\<lparr>gw_shop := Some sh'\<rparr>) n = chain_store gw n"
  by (simp add: chain_store_def)

lemma on_shop_store: "on_shop f gw = (r, gw') \<Longrightarrow> chain_store gw' n = chain_store gw n"
  by (auto simp: on_shop_def split: option.splits prod.splits)

lemma shop_change_reply:
  "shop_change w sh c f = (Inr (Rec a), sh') \<Longrightarrow> \<exists>st. f st = Rec a"
  by (auto simp: shop_change_def split: sum.splits prod.splits)

lemma recordFor_fields:
  "recordFor lib msg ty ident network index personal = Inr a \<Longrightarrow>
     ar_network a = network \<and> ar_index a = \<lfloor>index\<rfloor>"
  by (auto simp: recordFor_def signAddress_def split: sum.splits)

lemma recordFor_verifies:
  assumes "recordFor lib msg ty ident network index personal = Inr a"
    and "signs_for_itself lib msg ident" and "network = si_network ident"
  shows "verifySignedAddress lib msg (Some a) (paymentCode lib ident) = Inr ()"
  using assms by (auto simp: recordFor_def split: sum.splits intro!: sign_verify)

lemma map_sum_Rec [simp]:
  "map_sum FromDerivation Rec x = Inr (Rec a) \<longleftrightarrow> x = Inr a"
  "Inr (Rec a) = map_sum FromDerivation Rec x \<longleftrightarrow> x = Inr a"
  by (cases x; auto)+

lemma handle_next_cases:
  assumes "handle_next lib msg q t gw = (r, gw')"
  obtains (same) "gw' = gw" "\<forall>a. r \<noteq> Inr (Rec a)"
  | (issue) cur personal ident st out st' where "active gw = Inr cur"
      "receiver gw (ch_network cur) = Some personal" "ch_parts cur = Some (ident, st)"
      "alloc_at q t st = (out, st')" "gw' = put_store gw (ch_network cur) st'"
      "r = (case out of Inl e \<Rightarrow> Inl (FromIndexStore e)
        | Inr index \<Rightarrow> map_sum FromDerivation Rec
            (recordFor lib msg (gw_type gw) ident (ch_network cur) (of_int index) personal))"
proof (cases "active gw")
  case (Inl e)
  with assms same show ?thesis by (auto simp: handle_next_def)
next
  case (Inr cur)
  show ?thesis
  proof (cases "receiver gw (ch_network cur)")
    case None
    with Inr assms same show ?thesis by (auto simp: handle_next_def)
  next
    case (Some personal)
    show ?thesis
    proof (cases "ch_parts cur")
      case None
      with Inr Some assms same show ?thesis by (auto simp: handle_next_def)
    next
      case (Some parts)
      obtain ident st where parts: "parts = (ident, st)" by (cases parts)
      obtain out st' where al: "alloc_at q t st = (out, st')" by (cases "alloc_at q t st")
      from issue [OF Inr \<open>receiver gw (ch_network cur) = Some personal\<close> Some [unfolded parts] al]
      show ?thesis
        using assms Inr \<open>receiver gw (ch_network cur) = Some personal\<close> Some parts al
        by (cases out) (auto simp: handle_next_def)
    qed
  qed
qed

lemma handle_give_cases:
  assumes "handle_give f v gw = (r, gw')"
  obtains (same) "gw' = gw"
  | (served) cur ident st b st' where "active gw = Inr cur" "ch_parts cur = Some (ident, st)"
      "f (int_of v) st = (b, st')" "gw' = put_store gw (ch_network cur) st'"
proof (cases "js_is_integer v")
  case False
  with assms same show ?thesis by (simp add: handle_give_def)
next
  case True
  show ?thesis
  proof (cases "active gw")
    case (Inl e)
    with True assms same show ?thesis by (simp add: handle_give_def)
  next
    case (Inr cur)
    with True assms same served show ?thesis
      by (auto simp: handle_give_def split: option.splits prod.splits)
  qed
qed

lemma handle_status_cases:
  assumes "handle_status lib q t gw = (r, gw')"
  obtains (same) "gw' = gw"
  | (served) cur ident st b st' where "active gw = Inr cur" "ch_parts cur = Some (ident, st)"
      "look_at q t st = (b, st')" "gw' = put_store gw (ch_network cur) st'"
proof (cases "active gw")
  case (Inl e)
  with assms same show ?thesis by (simp add: handle_status_def)
next
  case (Inr cur)
  with assms same served show ?thesis
    by (auto simp: handle_status_def split: option.splits prod.splits sum.splits)
qed

lemma handle_peek_same: "handle_peek lib msg v gw = (r, gw') \<Longrightarrow> gw' = gw"
  by (auto simp: handle_peek_def split: sum.splits option.splits if_splits prod.splits)

text \<open>The indices that \<open>next\<close> has put on records of a network.\<close>

definition issued_by :: "string \<Rightarrow> request \<Rightarrow> gateway_error + gw_reply \<Rightarrow> int list" where
  "issued_by n req r =
     (case (req, r) of (ReqNext, Inr (Rec a)) \<Rightarrow> (if ar_network a = n then [ar_index a] else []) | _ \<Rightarrow> [])"

fun next_indices :: "string \<Rightarrow> (moment \<times> request) list \<Rightarrow> (gateway_error + gw_reply) list \<Rightarrow> int list" where
  "next_indices n ((t, req) # reqs) (r # rs) = issued_by n req r @ next_indices n reqs rs"
| "next_indices n _ _ = []"

definition is_release :: "request \<Rightarrow> bool" where
  "is_release req = (case req of ReqRelease v \<Rightarrow> True | _ \<Rightarrow> False)"

lemma issued_by_other: "req \<noteq> ReqNext \<Longrightarrow> issued_by n req r = []"
  by (cases req) (auto simp: issued_by_def)

text \<open>Seen from the store of one network, every request is one call of the index service.\<close>

lemma handle_serves:
  assumes "handle lib msg q t req gw = (r, gw')" "chain_store gw n = Some st"
  shows "\<exists>ev st'. chain_store gw' n = Some st' \<and> ixs.serves q st ev st' \<and>
    (\<not> is_release req \<longrightarrow> (\<forall>i. ev \<noteq> Freed i)) \<and> subseq (issued_by n req r) (ixs.given_in [ev])"
proof -
  have idle: ?thesis if "chain_store gw' n = Some st" "issued_by n req r = []"
    using that by (auto intro!: exI [of _ Quiet] exI [of _ st] ixs.serves.idle)
  have served: ?thesis
    if "active gw = Inr cur" "ch_parts cur = Some (ident, st0)" "gw' = put_store gw (ch_network cur) st1"
      "ixs.serves q st0 ev st1" "\<not> is_release req \<longrightarrow> (\<forall>i. ev \<noteq> Freed i)"
      "issued_by n req r = [] \<or> subseq (issued_by n req r) (ixs.given_in [ev])"
      "n = ch_network cur \<or> issued_by n req r = []" for cur ident st0 ev st1
  proof (cases "n = ch_network cur")
    case True
    with active_store [OF that(1,2)] assms(2) have "st0 = st" by simp
    with that True show ?thesis
      by (auto simp: chain_store_put [OF that(1,2)])
  next
    case False
    then show ?thesis
      by (intro idle) (use that assms(2) in \<open>auto simp: chain_store_put [OF that(1,2)]\<close>)
  qed
  have onshop: ?thesis if "on_shop f gw = (r, gw')" "req \<noteq> ReqNext" for f
    using idle on_shop_store [OF that(1)] assms(2) issued_by_other [OF that(2)] by simp
  show ?thesis
  proof (cases req)
    case ReqNext
    with assms(1) have "handle_next lib msg q t gw = (r, gw')" by simp
    then show ?thesis
    proof (cases rule: handle_next_cases)
      case same
      then show ?thesis
        by (intro idle) (use assms(2) ReqNext in \<open>auto simp: issued_by_def split: sum.splits gw_reply.splits\<close>)
    next
      case (issue cur personal ident st0 out st1)
      show ?thesis
      proof (cases out)
        case (Inl e)
        from issue(4) [unfolded Inl] have "ixs.serves q st0 Quiet st1" by (rule ixs.serves.refused)
        then show ?thesis
          by (rule served [OF issue(1,3,5)]) (simp_all add: issue(6) Inl issued_by_def ReqNext)
      next
        case (Inr i)
        from issue(4) [unfolded Inr] have "ixs.serves q st0 (Gave i) st1" by (rule ixs.serves.gave)
        then show ?thesis
          by (rule served [OF issue(1,3,5)])
            (auto simp: issue(6) Inr issued_by_def ReqNext ixs.given_in_simps dest: recordFor_fields
              split: sum.splits gw_reply.splits)
      qed
    qed
  next
    case (ReqPeek v)
    with assms idle show ?thesis by (auto simp: issued_by_other dest: handle_peek_same)
  next
    case (ReqRelease v)
    with assms(1) have "handle_give (free_at t) v gw = (r, gw')" by simp
    then show ?thesis
    proof (cases rule: handle_give_cases)
      case same
      with idle assms(2) ReqRelease show ?thesis by (simp add: issued_by_other)
    next
      case s: (served cur ident st0 b st1)
      show ?thesis
        by (rule served [OF s(1,2,4) ixs.serves.freed [OF s(3)]])
          (simp_all add: ReqRelease issued_by_other is_release_def)
    qed
  next
    case (ReqSettle v)
    with assms(1) have "handle_give (retire_at t) v gw = (r, gw')" by simp
    then show ?thesis
    proof (cases rule: handle_give_cases)
      case same
      with idle assms(2) ReqSettle show ?thesis by (simp add: issued_by_other)
    next
      case s: (served cur ident st0 b st1)
      show ?thesis
        by (rule served [OF s(1,2,4) ixs.serves.retired [OF s(3)]])
          (simp_all add: ReqSettle issued_by_other is_release_def)
    qed
  next
    case ReqStatus
    with assms(1) have "handle_status lib q t gw = (r, gw')" by simp
    then show ?thesis
    proof (cases rule: handle_status_cases)
      case same
      with idle assms(2) ReqStatus show ?thesis by (simp add: issued_by_other)
    next
      case s: (served cur ident st0 b st1)
      show ?thesis
        by (rule served [OF s(1,2,4) ixs.serves.looked [OF s(3)]])
          (simp_all add: ReqStatus issued_by_other is_release_def)
    qed
  qed (use assms onshop idle in \<open>auto simp: issued_by_other\<close>)
qed

lemma chain_store_None:
  assumes "handle lib msg q t req gw = (r, gw')" "chain_store gw n = None"
  shows "chain_store gw' n = None \<and> issued_by n req r = []"
proof -
  have put: "chain_store (put_store gw (ch_network cur) st1) n = None \<and> n \<noteq> ch_network cur"
    if "active gw = Inr cur" "ch_parts cur = Some (ident, st0)" for cur ident st0 st1
    using chain_store_put [OF that] active_store [OF that] assms(2) by auto
  have onshop: "chain_store gw' n = None" if "on_shop f gw = (r, gw')" for f
    using on_shop_store [OF that] assms(2) by simp
  show ?thesis
  proof (cases req)
    case ReqNext
    with assms(1) have h: "handle_next lib msg q t gw = (r, gw')" by simp
    from h show ?thesis
    proof (cases rule: handle_next_cases)
      case same
      then show ?thesis
        using assms(2) ReqNext by (auto simp: issued_by_def split: sum.splits gw_reply.splits)
    next
      case (issue cur personal ident st0 out st1)
      with put [OF issue(1,3), of st1] show ?thesis
        by (auto simp: issued_by_def ReqNext dest: recordFor_fields split: sum.splits gw_reply.splits)
    qed
  next
    case (ReqRelease v)
    with assms(1) have "handle_give (free_at t) v gw = (r, gw')" by simp
    then show ?thesis
      by (cases rule: handle_give_cases) (use assms(2) put ReqRelease in \<open>auto simp: issued_by_other\<close>)
  next
    case (ReqSettle v)
    with assms(1) have "handle_give (retire_at t) v gw = (r, gw')" by simp
    then show ?thesis
      by (cases rule: handle_give_cases) (use assms(2) put ReqSettle in \<open>auto simp: issued_by_other\<close>)
  next
    case ReqStatus
    with assms(1) have "handle_status lib q t gw = (r, gw')" by simp
    then show ?thesis
      by (cases rule: handle_status_cases) (use assms(2) put ReqStatus in \<open>auto simp: issued_by_other\<close>)
  qed (use assms onshop in \<open>auto simp: issued_by_other dest: handle_peek_same\<close>)
qed

lemma gw_run_Cons:
  "gw_run lib msg q ((t, req) # reqs) gw = (rs, gw2) \<longleftrightarrow>
     (\<exists>r gw1 rs'. handle lib msg q t req gw = (r, gw1) \<and> gw_run lib msg q reqs gw1 = (rs', gw2) \<and> rs = r # rs')"
  by (auto split: prod.splits)

lemmas gw_run_simps = gw_run.simps(1) gw_run_Cons

lemma subseq_distinctI: "subseq xs ys \<Longrightarrow> distinct ys \<Longrightarrow> distinct xs"
  by (induction rule: list_emb.induct) (auto dest: list_emb_set)

lemma run_session:
  assumes "gw_run lib msg q reqs gw = (rs, gw')" "\<forall>(t, req) \<in> set reqs. \<not> is_release req"
    and "chain_store gw n = Some st"
  shows "\<exists>evs st'. ixs.session q st evs st' \<and> (\<forall>i. Freed i \<notin> set evs) \<and>
    subseq (next_indices n reqs rs) (ixs.given_in evs)"
  using assms
proof (induction reqs arbitrary: gw st rs)
  case Nil
  then show ?case by (auto intro!: exI [of _ "[]"] ixs.session.none)
next
  case (Cons treq reqs)
  obtain t req where treq: "treq = (t, req)" by (cases treq)
  from Cons.prems(1) obtain r gw1 rs' where h: "handle lib msg q t req gw = (r, gw1)"
    and run: "gw_run lib msg q reqs gw1 = (rs', gw')" and rs: "rs = r # rs'"
    by (auto simp: treq gw_run_Cons simp del: gw_run.simps)
  from handle_serves [OF h Cons.prems(3)] Cons.prems(2) obtain ev st1 where
    ev: "chain_store gw1 n = Some st1" "ixs.serves q st ev st1" "\<forall>i. ev \<noteq> Freed i"
      "subseq (issued_by n req r) (ixs.given_in [ev])"
    by (auto simp: treq)
  from Cons.IH [OF run _ ev(1)] Cons.prems(2) obtain evs st2 where
    evs: "ixs.session q st1 evs st2" "\<forall>i. Freed i \<notin> set evs"
      "subseq (next_indices n reqs rs') (ixs.given_in evs)"
    by auto
  have "ixs.given_in (ev # evs) = ixs.given_in [ev] @ ixs.given_in evs"
    by (cases ev) (simp_all add: ixs.given_in_simps)
  with ev(4) evs(3) have "subseq (next_indices n (treq # reqs) rs) (ixs.given_in (ev # evs))"
    by (simp add: treq rs list_emb_append_mono)
  with ixs.session.call [OF ev(2) evs(1)] ev(3) evs(2) show ?case
    by (intro exI [of _ "ev # evs"] exI [of _ st2]) auto
qed

lemma run_no_store:
  "gw_run lib msg q reqs gw = (rs, gw') \<Longrightarrow> chain_store gw n = None \<Longrightarrow> next_indices n reqs rs = []"
proof (induction reqs arbitrary: gw rs)
  case (Cons treq reqs)
  obtain t req where treq: "treq = (t, req)" by (cases treq)
  from Cons.prems(1) obtain r gw1 rs' where h: "handle lib msg q t req gw = (r, gw1)"
    and run: "gw_run lib msg q reqs gw1 = (rs', gw')" and rs: "rs = r # rs'"
    by (auto simp: treq gw_run_Cons simp del: gw_run.simps)
  from chain_store_None [OF h Cons.prems(2)] Cons.IH [OF run] show ?case by (simp add: treq rs)
qed simp

section \<open>What the seed file can influence\<close>

definition with_seed :: "seed_doc json_file \<Rightarrow> 'priv gateway \<Rightarrow> 'priv gateway" where
  "with_seed s gw = gw\<lparr>gw_shop := map_option (\<lambda>sh. sh\<lparr>sh_files := (sh_files sh)\<lparr>f_seed := s\<rparr>\<rparr>) (gw_shop gw)\<rparr>"

lemma with_seed_fields [simp]:
  "active (with_seed s gw) = active gw" "receiver (with_seed s gw) n = receiver gw n"
  "gw_type (with_seed s gw) = gw_type gw" "shop_deposit (with_seed s gw) n = shop_deposit gw n"
  "put_store (with_seed s gw) n st = with_seed s (put_store gw n st)"
  by (auto simp: active_def receiver_def shop_deposit_def put_store_def with_seed_def split: option.splits)

lemma shop_change_seed:
  "shop_change w (sh\<lparr>sh_files := (sh_files sh)\<lparr>f_seed := s\<rparr>\<rparr>) c f =
     (case shop_change w sh c f of (r, sh') \<Rightarrow> (r, sh'\<lparr>sh_files := (sh_files sh')\<lparr>f_seed := s\<rparr>\<rparr>))"
  by (auto simp: shop_change_def saveState_def writeAtomic_def split: sum.splits prod.splits io.splits)

lemma on_shop_seed:
  assumes "\<And>sh. f (sh\<lparr>sh_files := (sh_files sh)\<lparr>f_seed := s\<rparr>\<rparr>) =
     (case f sh of (r, sh') \<Rightarrow> (r, sh'\<lparr>sh_files := (sh_files sh')\<lparr>f_seed := s\<rparr>\<rparr>))"
  shows "on_shop f (with_seed s gw) = (case on_shop f gw of (r, gw') \<Rightarrow> (r, with_seed s gw'))"
  by (auto simp: on_shop_def with_seed_def assms split: option.splits prod.splits)

lemma handle_seed:
  assumes "req \<noteq> ReqReveal"
  shows "handle lib msg q t req (with_seed s gw) =
    (case handle lib msg q t req gw of (r, gw') \<Rightarrow> (r, with_seed s gw'))"
proof (cases req)
  case (ReqBind n c)
  show ?thesis
    by (simp only: ReqBind handle.simps)
      (rule on_shop_seed, simp add: shop_bindReceiver_def shop_change_seed)
next
  case (ReqActive n)
  show ?thesis
    by (simp only: ReqActive handle.simps)
      (rule on_shop_seed, simp add: shop_setActive_def shop_change_seed)
next
  case (ReqDojo n d)
  show ?thesis
    by (simp only: ReqDojo handle.simps)
      (rule on_shop_seed, simp add: shop_setDojo_def shop_change_seed)
next
  case ReqIdentity
  show ?thesis
    by (simp only: ReqIdentity handle.simps)
      (rule on_shop_seed, simp add: shop_identity_of_def)
qed (use assms in \<open>auto simp: handle_next_def handle_peek_def handle_give_def handle_status_def
  split: sum.splits option.splits prod.splits\<close>)

lemma gw_run_seed:
  assumes "\<forall>(t, req) \<in> set reqs. req \<noteq> ReqReveal"
  shows "gw_run lib msg q reqs (with_seed s gw) =
    (case gw_run lib msg q reqs gw of (rs, gw') \<Rightarrow> (rs, with_seed s gw'))"
  using assms
proof (induction reqs arbitrary: gw)
  case (Cons treq reqs)
  then show ?case by (cases treq) (auto simp: handle_seed split: prod.splits)
qed simp

section \<open>The announced receiver\<close>

definition announced :: "string \<Rightarrow> string \<Rightarrow> string \<Rightarrow> 'priv gateway \<Rightarrow> bool" where
  "announced n txid code gw \<longleftrightarrow> txid \<noteq> [] \<and> code \<noteq> [] \<and>
     (\<exists>sh b. gw_shop gw = Some sh \<and> map_of (ids_networks (sh_state sh)) n = Some b \<and>
        nb_notificationTxid b = Some txid \<and> nb_receiverPaymentCode b = Some code)"

lemma announced_put_store [simp]: "announced n txid code (put_store gw m st) = announced n txid code gw"
  by (simp add: announced_def put_store_def split: option.splits)

definition keeps_block :: "string \<Rightarrow> string \<Rightarrow> string \<Rightarrow> identity_state \<Rightarrow> bool" where
  "keeps_block n txid code st \<longleftrightarrow> txid \<noteq> [] \<and> code \<noteq> [] \<and> (\<exists>b. map_of (ids_networks st) n = Some b \<and>
     nb_notificationTxid b = Some txid \<and> nb_receiverPaymentCode b = Some code)"

lemma bindReceiver_keeps:
  "keeps_block n txid code st \<Longrightarrow> bindReceiver lib st m c = Inr st' \<Longrightarrow> keeps_block n txid code st'"
  by (auto simp: keeps_block_def bindReceiver_def block_of_def oread_Inherited put_block_def is_set_def Let_def
      split: option.splits sum.splits if_splits slot.splits)

lemma setActive_keeps: "keeps_block n txid code st \<Longrightarrow> setActive st m = Inr st' \<Longrightarrow> keeps_block n txid code st'"
  by (auto simp: keeps_block_def setActive_def split: option.splits)

lemma setDojo_keeps: "keeps_block n txid code st \<Longrightarrow> setDojo st m d = Inr st' \<Longrightarrow> keeps_block n txid code st'"
  by (auto simp: keeps_block_def setDojo_def block_of_def oread_Inherited put_block_def split: option.splits slot.splits)

lemma shop_change_keeps:
  assumes "shop_change w sh c f = (r, sh')" "keeps_block n txid code (sh_state sh)"
    and "\<And>st'. c = Inr st' \<Longrightarrow> keeps_block n txid code st'"
  shows "keeps_block n txid code (sh_state sh')"
  using assms by (auto simp: shop_change_def split: sum.splits prod.splits)

lemma announced_keeps:
  "announced n txid code gw \<longleftrightarrow> (\<exists>sh. gw_shop gw = Some sh \<and> keeps_block n txid code (sh_state sh))"
  by (auto simp: announced_def keeps_block_def)

lemma on_shop_keeps:
  assumes "on_shop f gw = (r, gw')" "announced n txid code gw"
    and "\<And>sh r sh'. f sh = (r, sh') \<Longrightarrow> keeps_block n txid code (sh_state sh) \<Longrightarrow> keeps_block n txid code (sh_state sh')"
  shows "announced n txid code gw'"
  using assms by (auto simp: on_shop_def announced_keeps split: option.splits prod.splits)

lemma handle_announced:
  assumes "handle lib msg q t req gw = (r, gw')" "announced n txid code gw"
  shows "announced n txid code gw'"
proof (cases req)
  case ReqNext
  with assms(1) have "handle_next lib msg q t gw = (r, gw')" by simp
  then show ?thesis by (cases rule: handle_next_cases) (use assms(2) in simp_all)
next
  case (ReqPeek v)
  with assms show ?thesis by (auto dest: handle_peek_same)
next
  case (ReqRelease v)
  with assms(1) have "handle_give (free_at t) v gw = (r, gw')" by simp
  then show ?thesis by (cases rule: handle_give_cases) (use assms(2) in simp_all)
next
  case (ReqSettle v)
  with assms(1) have "handle_give (retire_at t) v gw = (r, gw')" by simp
  then show ?thesis by (cases rule: handle_give_cases) (use assms(2) in simp_all)
next
  case ReqStatus
  with assms(1) have "handle_status lib q t gw = (r, gw')" by simp
  then show ?thesis by (cases rule: handle_status_cases) (use assms(2) in simp_all)
next
  case (ReqBind m c)
  with assms(1) have "on_shop (shop_bindReceiver lib (mo_io t) m c) gw = (r, gw')" by simp
  then show ?thesis
    by (rule on_shop_keeps [OF _ assms(2)])
      (auto simp: shop_bindReceiver_def elim!: shop_change_keeps intro: bindReceiver_keeps)
next
  case (ReqActive m)
  with assms(1) have "on_shop (shop_setActive (mo_io t) m) gw = (r, gw')" by simp
  then show ?thesis
    by (rule on_shop_keeps [OF _ assms(2)])
      (auto simp: shop_setActive_def elim!: shop_change_keeps intro: setActive_keeps)
next
  case (ReqDojo m d)
  with assms(1) have "on_shop (shop_setDojo (mo_io t) m d) gw = (r, gw')" by simp
  then show ?thesis
    by (rule on_shop_keeps [OF _ assms(2)])
      (auto simp: shop_setDojo_def elim!: shop_change_keeps intro: setDojo_keeps)
qed (use assms in \<open>auto elim!: on_shop_keeps\<close>)

lemma gw_run_announced:
  "gw_run lib msg q reqs gw = (rs, gw') \<Longrightarrow> announced n txid code gw \<Longrightarrow> announced n txid code gw'"
proof (induction reqs arbitrary: gw rs)
  case (Cons treq reqs)
  obtain t req where treq: "treq = (t, req)" by (cases treq)
  from Cons.prems(1) obtain r gw1 rs' where "handle lib msg q t req gw = (r, gw1)"
    "gw_run lib msg q reqs gw1 = (rs', gw')"
    by (auto simp: treq gw_run_Cons simp del: gw_run.simps)
  with Cons show ?case by (blast intro: handle_announced)
qed simp

section \<open>A concrete gateway\<close>

definition demo_ident :: "string \<Rightarrow> string store_identity" where
  "demo_ident n = \<lparr>si_code = ''k'', si_network = n\<rparr>"

definition demo_gateway :: "string gateway" where
  "demo_gateway =
     \<lparr>gw_identity = None, gw_personal = None, gw_store = None, gw_type = P2wpkh,
      gw_shop = Some
        \<lparr>sh_state = \<lparr>ids_active = ''bitcoin'', ids_createdAt = to_iso 1,
           ids_networks =
             [(''bitcoin'', empty_block\<lparr>nb_receiverPaymentCode := Some ''PM8Tr'', nb_notificationTxid := Some ''tx''\<rparr>),
              (''testnet4'', empty_block\<lparr>nb_receiverPaymentCode := Some ''PM8Tq''\<rparr>)]\<rparr>,
         sh_files = \<lparr>f_seed = Absent, f_state = Absent\<rparr>,
         sh_identities = [(''bitcoin'', demo_ident ''bitcoin''), (''testnet4'', demo_ident ''testnet4'')]\<rparr>,
      gw_stores = [(''bitcoin'', \<lparr>on_disk = NoFile, cached = None\<rparr>),
        (''testnet4'', \<lparr>on_disk = NoFile, cached = None\<rparr>)]\<rparr>"

definition demo_moment :: moment where
  "demo_moment = \<lparr>mo_now = 5, mo_wall = 6, mo_io = Completed\<rparr>"

lemma blank_store_good: "store_good \<lparr>on_disk = NoFile, cached = None\<rparr>"
  by (simp add: store_good_def store_core_def load_def)

lemma demo_gw_good: "gw_good demo_gateway"
proof -
  have "st = \<lparr>on_disk = NoFile, cached = None\<rparr>" if "chain_store demo_gateway n = Some st" for n st
    using that by (simp add: chain_store_def demo_gateway_def split: if_splits)
  then show ?thesis using blank_store_good unfolding gw_good_def by blast
qed

section \<open>Properties\<close>

lemma active_partsD:
  assumes "active gw = Inr cur" "ch_parts cur = Some (ident, st)" "gw_shop gw = Some sh"
  shows "map_of (sh_identities sh) (ids_active (sh_state sh)) = Some ident \<and>
    ch_network cur = ids_active (sh_state sh)"
  using assms by (auto simp: active_def Let_def split: slot.splits)

lemma active_put_store:
  assumes "active gw = Inr cur" "ch_parts cur = Some (ident, st0)"
  shows "active (put_store gw (ch_network cur) st) = Inr (cur\<lparr>ch_parts := Some (ident, st)\<rparr>)"
proof (cases "gw_shop gw")
  case None
  with assms show ?thesis by (auto simp: active_def put_store_def split: option.splits)
next
  case (Some sh)
  from active_partsD [OF assms Some]
  have "oread (sh_identities sh) (ids_active (sh_state sh)) = Own ident"
    "oread (AList.update (ch_network cur) st (gw_stores gw)) (ids_active (sh_state sh)) = Own st"
    by simp_all
  with Some active_partsD [OF assms Some] show ?thesis
    by (cases cur) (simp add: active_def put_store_def Let_def oread_def)
qed

lemma put_store_fields [simp]:
  "receiver (put_store gw n st) m = receiver gw m" "gw_type (put_store gw n st) = gw_type gw"
  by (cases "gw_shop gw"; simp add: receiver_def put_store_def)+

lemma demo_recordFor:
  assumes "n \<in> {''bitcoin'', ''testnet4''}" "0 \<le> i"
  shows "\<exists>a. recordFor demo_bip47 demo_message ty (demo_ident n) n (of_int i) (''PM8T'' @ x) = Inr a \<and>
    ar_index a = i \<and> ar_network a = n"
  using assms
  by (auto simp: recordFor_def addressFor_index demo_ident_def demo_bip47_def publicCode_def libNetwork_def
      oread_def LIB_NETWORK_def signAddress_def)

lemma demo_receiver:
  "receiver demo_gateway ''bitcoin'' = Some (''PM8T'' @ ''r'')"
  by (simp add: receiver_def demo_gateway_def block_of_def oread_def first_set_def is_set_def)

definition demo_st :: "index_state \<Rightarrow> index_store" where
  "demo_st s = \<lparr>on_disk = Holds s, cached = Some s\<rparr>"

definition demo_core :: "int \<Rightarrow> int list \<Rightarrow> index_state" where
  "demo_core n is = \<lparr>st_v = 1, next_index = n, reclaimed = [], issued = is, updated_at = Some (to_iso 6)\<rparr>"

lemma demo_alloc:
  "alloc_at 10 demo_moment \<lparr>on_disk = NoFile, cached = None\<rparr> = (Inr 0, demo_st (demo_core 1 [0]))"
  "alloc_at 10 demo_moment (demo_st (demo_core 1 [])) = (Inr 1, demo_st (demo_core 2 [1]))"
  by (simp_all add: alloc_at_def allocate_def load_def allocate_core_def persist_def EMPTY_def demo_moment_def
      demo_st_def demo_core_def Let_def)

lemma demo_retire: "retire_at demo_moment 0 (demo_st (demo_core 1 [0])) = (Inr True, demo_st (demo_core 1 []))"
  by (simp add: retire_at_def settle_def load_def settle_core_def persist_def demo_moment_def
      demo_st_def demo_core_def index_of_def splice1_def Let_def)

abbreviation demo_chain :: "index_store \<Rightarrow> string chain" where
  "demo_chain st \<equiv> \<lparr>ch_network = ''bitcoin'', ch_parts = Some (demo_ident ''bitcoin'', st)\<rparr>"

abbreviation demo_put :: "index_store \<Rightarrow> string gateway" where
  "demo_put st \<equiv> put_store demo_gateway ''bitcoin'' st"

lemma demo_active: "active demo_gateway = Inr (demo_chain \<lparr>on_disk = NoFile, cached = None\<rparr>)"
  by (simp add: active_def demo_gateway_def Let_def oread_def)

lemma demo_put_active: "active (demo_put st) = Inr (demo_chain st)"
  using active_put_store [OF demo_active] by simp

lemma demo_put_put: "put_store (demo_put st) ''bitcoin'' st' = demo_put st'"
  by (simp add: put_store_def demo_gateway_def)

lemma demo_next_at:
  assumes "active gw = Inr (demo_chain st)" "receiver gw ''bitcoin'' = Some (''PM8T'' @ ''r'')"
    and "alloc_at 10 demo_moment st = (Inr i, st')" "0 \<le> i"
  shows "\<exists>a. handle demo_bip47 demo_message 10 demo_moment ReqNext gw = (Inr (Rec a), put_store gw ''bitcoin'' st') \<and>
    ar_index a = i \<and> ar_network a = ''bitcoin''"
  using demo_recordFor [of "''bitcoin''" i "gw_type gw" "''r''"] assms
  by (auto simp: handle_next_def)

lemma demo_next:
  "\<exists>a gw'. handle demo_bip47 demo_message 10 demo_moment ReqNext demo_gateway = (Inr (Rec a), gw') \<and> ar_index a = 0"
  using demo_next_at [OF demo_active demo_receiver demo_alloc(1)] by auto

text \<open>C7: a record that \<open>next\<close> answers with verifies against the store's payment code, its index is
  on disk as issued before the answer leaves, and \<open>peek\<close> at that index gives the same record again
  and changes nothing.\<close>

theorem next_record:
  assumes "handle lib msg q t ReqNext gw = (Inr (Rec a), gw')" and "gw_good gw"
    and "active gw = Inr cur" and "ch_parts cur = Some (ident, st)"
    and "signs_for_itself lib msg ident" and "si_network ident = ch_network cur"
  shows "verifySignedAddress lib msg (Some a) (paymentCode lib ident) = Inr () \<and>
    (\<exists>st' s. chain_store gw' (ch_network cur) = Some st' \<and> on_disk st' = Holds s \<and> ar_index a \<in> set (issued s)) \<and>
    handle lib msg q t' (ReqPeek (Num (of_int (ar_index a)))) gw' = (Inr (Rec a), gw')"
proof -
  from assms(1) have "handle_next lib msg q t gw = (Inr (Rec a), gw')" by simp
  then show ?thesis
  proof (cases rule: handle_next_cases)
    case (issue cur' personal ident' st0 out st')
    with assms(3,4) have same: "cur' = cur" "ident' = ident" "st0 = st" by auto
    from issue(6) obtain i where out: "out = Inr i"
      and rec: "recordFor lib msg (gw_type gw) ident (ch_network cur) (of_int i) personal = Inr a"
      by (cases out) (auto simp: same)
    from active_store [OF assms(3,4)] assms(2) have "store_good st" by (auto simp: gw_good_def)
    moreover from issue(4) out same have "alloc_at q t st = (Inr i, st')" by simp
    ultimately obtain s where s: "0 \<le> i" "on_disk st' = Holds s" "i \<in> set (issued s)"
      using alloc_at_disk by blast
    have i: "ar_index a = i" using recordFor_fields [OF rec] by simp
    have gw': "gw' = put_store gw (ch_network cur) st'" using issue(5) same by simp
    have "handle lib msg q t' (ReqPeek (Num (of_int i))) gw' = (Inr (Rec a), gw')"
      using issue(2) s(1) rec same
      by (simp add: gw' handle_peek_def active_put_store [OF assms(3,4)])
    with recordFor_verifies [OF rec assms(5)] assms(6) s i chain_store_put [OF assms(3,4), of st']
    show ?thesis by (auto simp: gw')
  qed simp
qed

theorem next_record_witness:
  "\<exists>a gw'. handle demo_bip47 demo_message 10 demo_moment ReqNext demo_gateway = (Inr (Rec a), gw') \<and>
     handle demo_bip47 demo_message 10 demo_moment (ReqPeek (Num 0)) gw' = (Inr (Rec a), gw')"
proof -
  from demo_next obtain a gw' where h: "handle demo_bip47 demo_message 10 demo_moment ReqNext demo_gateway = (Inr (Rec a), gw')"
    and a: "ar_index a = 0" by blast
  let ?st = "\<lparr>on_disk = NoFile, cached = None\<rparr>"
  have act: "active demo_gateway = Inr \<lparr>ch_network = ''bitcoin'', ch_parts = Some (demo_ident ''bitcoin'', ?st)\<rparr>"
    by (simp add: active_def demo_gateway_def Let_def oread_def)
  have "signs_for_itself demo_bip47 demo_message (demo_ident ''bitcoin'')"
    by (rule demo_signs_for_itself) (simp add: demo_ident_def)
  from next_record [OF h demo_gw_good act _ this] h a show ?thesis
    by (auto simp: demo_ident_def)
qed

text \<open>While no invoice gives its index back, \<open>next\<close> never puts the same index of a network on
  two records: not across switches of network, failed writes, failed derivations or payments.\<close>

theorem open_records_distinct:
  assumes "gw_run lib msg q reqs gw = (rs, gw')" and "gw_good gw"
    and "\<forall>(t, req) \<in> set reqs. \<not> is_release req"
  shows "distinct (next_indices n reqs rs)"
proof (cases "chain_store gw n")
  case None
  with run_no_store [OF assms(1)] show ?thesis by simp
next
  case (Some st)
  from run_session [OF assms(1,3) Some] obtain evs st' where
    "ixs.session q st evs st'" "\<forall>i. Freed i \<notin> set evs" "subseq (next_indices n reqs rs) (ixs.given_in evs)"
    by blast
  with ixs.session_distinct Some assms(2) show ?thesis
    by (auto simp: gw_good_def intro: subseq_distinctI)
qed

definition demo_requests :: "(moment \<times> request) list" where
  "demo_requests = [(demo_moment, ReqNext), (demo_moment, ReqSettle (Num 0)), (demo_moment, ReqNext)]"

lemma demo_run:
  "\<exists>rs gw'. gw_run demo_bip47 demo_message 10 demo_requests demo_gateway = (rs, gw') \<and>
     next_indices ''bitcoin'' demo_requests rs = [0, 1]"
proof -
  let ?s1 = "demo_st (demo_core 1 [0])" and ?s2 = "demo_st (demo_core 1 [])"
  from demo_next_at [OF demo_active demo_receiver demo_alloc(1)] obtain a where
    a: "handle demo_bip47 demo_message 10 demo_moment ReqNext demo_gateway = (Inr (Rec a), demo_put ?s1)"
    "ar_index a = 0" "ar_network a = ''bitcoin''" by auto
  have s: "handle demo_bip47 demo_message 10 demo_moment (ReqSettle (Num 0)) (demo_put ?s1) = (Inr (Okay True), demo_put ?s2)"
    by (simp add: handle_give_def demo_put_active demo_retire demo_put_put)
  have "receiver (demo_put ?s2) ''bitcoin'' = Some (''PM8T'' @ ''r'')" by (simp only: put_store_fields demo_receiver)
  from demo_next_at [OF demo_put_active this demo_alloc(2)] obtain b where
    b: "handle demo_bip47 demo_message 10 demo_moment ReqNext (demo_put ?s2) =
      (Inr (Rec b), put_store (demo_put ?s2) ''bitcoin'' (demo_st (demo_core 2 [1])))"
    "ar_index b = 1" "ar_network b = ''bitcoin''" by auto
  show ?thesis
    by (simp add: demo_requests_def a s b issued_by_def del: handle.simps)
qed

theorem open_records_distinct_witness:
  "\<exists>rs gw'. gw_run demo_bip47 demo_message 10 demo_requests demo_gateway = (rs, gw') \<and>
     next_indices ''bitcoin'' demo_requests rs = [0, 1] \<and> distinct (next_indices ''bitcoin'' demo_requests rs)"
proof -
  from demo_run obtain rs gw' where
    run: "gw_run demo_bip47 demo_message 10 demo_requests demo_gateway = (rs, gw')"
    and idx: "next_indices ''bitcoin'' demo_requests rs = [0, 1]" by blast
  have "distinct (next_indices ''bitcoin'' demo_requests rs)"
    by (rule open_records_distinct [OF run demo_gw_good]) (simp add: demo_requests_def is_release_def)
  with run idx show ?thesis by blast
qed

text \<open>C8: the seed file reaches a client through \<open>reveal-seed\<close> and nothing else: the answers to any
  other requests are the same whatever the file holds.\<close>

theorem only_reveal_shows_seed:
  assumes "\<forall>(t, req) \<in> set reqs. req \<noteq> ReqReveal"
  shows "fst (gw_run lib msg q reqs (with_seed s gw)) = fst (gw_run lib msg q reqs gw)"
  by (simp add: gw_run_seed [OF assms] split: prod.split)

theorem only_reveal_shows_seed_witness:
  "fst (gw_run demo_bip47 demo_message 10 demo_requests
      (with_seed (Doc \<lparr>sd_mnemonic = ''words'', sd_passphrase = None, sd_createdAt = to_iso 1\<rparr>) demo_gateway)) =
   fst (gw_run demo_bip47 demo_message 10 demo_requests demo_gateway)"
  by (rule only_reveal_shows_seed) (simp add: demo_requests_def)

text \<open>C9: once the notification for a receiver is on the chain, no sequence of requests points the
  shop at another receiver on that network, or loses the record of the announcement.\<close>

theorem announced_receiver_kept:
  assumes "announced n txid code gw" and "gw_run lib msg q reqs gw = (rs, gw')"
  shows "announced n txid code gw' \<and> receiver gw' n = Some code"
  using gw_run_announced [OF assms(2,1)]
  by (auto simp: announced_def receiver_def block_of_def first_set_def is_set_def oread_def)

theorem announced_receiver_kept_witness:
  "\<exists>gw'. gw' = snd (gw_run demo_bip47 demo_message 10
       [(demo_moment, ReqBind ''bitcoin'' (Str ''PM8Tother''))] demo_gateway) \<and>
     receiver gw' ''bitcoin'' = Some ''PM8Tr''"
proof -
  have "announced ''bitcoin'' ''tx'' ''PM8Tr'' demo_gateway"
    by (simp add: announced_def demo_gateway_def)
  from announced_receiver_kept [OF this surjective_pairing] show ?thesis by blast
qed

text \<open>A switch of network takes effect with the next request and loses nothing: the next record
  is on the new chain, and no request that follows on it touches a store or a block of the others.\<close>

theorem switch_is_live:
  assumes "handle lib msg q t (ReqActive n) gw = (Inr rep, gw')" and "gw_shop gw = Some sh"
    and "map_of (sh_identities sh) n = Some ident" and "map_of (gw_stores gw) n = Some st"
    and "handle lib msg q t' ReqNext gw' = (r, gw'')"
  shows "active gw' = Inr \<lparr>ch_network = n, ch_parts = Some (ident, st)\<rparr> \<and>
    (\<forall>a. r = Inr (Rec a) \<longrightarrow> ar_network a = n) \<and>
    (\<forall>m. m \<noteq> n \<longrightarrow> chain_store gw'' m = chain_store gw m) \<and>
    (\<exists>sh'. gw_shop gw'' = Some sh' \<and> ids_networks (sh_state sh') = ids_networks (sh_state sh))"
proof -
  from assms(1,2) obtain sh' where gw': "gw' = gw\<lparr>gw_shop := Some sh'\<rparr>"
    and sh': "sh_state sh' = (sh_state sh)\<lparr>ids_active := n\<rparr>" "sh_identities sh' = sh_identities sh"
    by (auto simp: on_shop_def shop_setActive_def shop_change_def setActive_def split: sum.splits option.splits prod.splits)
  have act: "active gw' = Inr \<lparr>ch_network = n, ch_parts = Some (ident, st)\<rparr>"
    using assms(3,4) by (simp add: active_def gw' sh' oread_def)
  have "handle_next lib msg q t' gw' = (r, gw'')" using assms(5) by simp
  then show ?thesis
  proof (cases rule: handle_next_cases)
    case same
    with act sh' assms(2) show ?thesis by (auto simp: gw')
  next
    case (issue cur personal ident' st0 out st1)
    from issue(1) act have cur: "ch_network cur = n" by auto
    have "\<forall>a. r = Inr (Rec a) \<longrightarrow> ar_network a = n"
      using issue(6) cur by (auto dest: recordFor_fields split: sum.splits)
    moreover have "\<forall>m. m \<noteq> n \<longrightarrow> chain_store gw'' m = chain_store gw m"
      using chain_store_put [OF issue(1,3), of st1] issue(5) cur assms(2) by (auto simp: gw')
    moreover have "gw_shop gw'' = Some sh'"
      using issue(5) by (simp add: gw' put_store_def)
    ultimately show ?thesis using act sh' by auto
  qed
qed

theorem switch_is_live_witness:
  "\<exists>gw'. gw' = snd (handle demo_bip47 demo_message 10 demo_moment (ReqActive ''testnet4'') demo_gateway) \<and>
     active gw' = Inr \<lparr>ch_network = ''testnet4'',
       ch_parts = Some (demo_ident ''testnet4'', \<lparr>on_disk = NoFile, cached = None\<rparr>)\<rparr>"
proof -
  let ?h = "handle demo_bip47 demo_message 10 demo_moment (ReqActive ''testnet4'') demo_gateway"
  have "fst ?h = Inr (NowActive ''testnet4'')"
    by (simp add: on_shop_def shop_setActive_def shop_change_def setActive_def block_of_def saveState_def
        writeAtomic_def demo_gateway_def demo_moment_def oread_def)
  then have h: "?h = (Inr (NowActive ''testnet4''), snd ?h)" by (metis prod.collapse)
  from switch_is_live [OF h _ _ _ surjective_pairing] show ?thesis
    by (auto simp: demo_gateway_def)
qed

text \<open>A network name inherited from \<open>Object.prototype\<close> is not refused: the shop becomes active on
  it and the state file says so, and from then on no request for an address, a release or the
  status is answered with anything but an error.\<close>

theorem inherited_network_accepted:
  assumes "gw_shop gw = Some sh" and "n \<in> set proto_keys" and "mo_io t = Completed"
    and "map_of (ids_networks (sh_state sh)) n = None" and "map_of (sh_identities sh) n = None"
    and "map_of (gw_stores gw) n = None"
  shows "\<exists>gw' sh' st. handle lib msg q t (ReqActive n) gw = (Inr (NowActive n), gw') \<and>
    gw_shop gw' = Some sh' \<and> f_state (sh_files sh') = Doc st \<and> ids_active st = n \<and>
    (\<forall>t'. handle lib msg q t' ReqStatus gw' = (Inl NotAFunction, gw')) \<and>
    (\<forall>t' r gw''. handle lib msg q t' ReqNext gw' = (r, gw'') \<longrightarrow>
       gw'' = gw' \<and> (r = Inl NotAFunction \<or> r = Inr (NeedReceiver n)))"
proof -
  let ?st = "(sh_state sh)\<lparr>ids_active := n\<rparr>"
  let ?sh = "sh\<lparr>sh_state := ?st, sh_files := (sh_files sh)\<lparr>f_state := Doc ?st\<rparr>\<rparr>"
  let ?gw = "gw\<lparr>gw_shop := Some ?sh\<rparr>"
  have h: "handle lib msg q t (ReqActive n) gw = (Inr (NowActive n), ?gw)"
    using assms by (simp add: on_shop_def shop_setActive_def shop_change_def setActive_def block_of_def
        saveState_def writeAtomic_def oread_def)
  have act: "active ?gw = Inr \<lparr>ch_network = n, ch_parts = None\<rparr>"
    using assms by (simp add: active_def oread_def)
  have st: "handle lib msg q t' ReqStatus ?gw = (Inl NotAFunction, ?gw)" for t'
    by (simp add: handle_status_def act)
  have nx: "handle lib msg q t' ReqNext ?gw = (r, gw'') \<Longrightarrow>
      gw'' = ?gw \<and> (r = Inl NotAFunction \<or> r = Inr (NeedReceiver n))" for t' r gw''
    by (auto simp: handle_next_def act split: option.splits)
  show ?thesis
    by (rule exI [of _ ?gw], rule exI [of _ ?sh], rule exI [of _ ?st]) (use h st nx in auto)
qed

theorem inherited_network_accepted_witness:
  "\<exists>gw'. handle demo_bip47 demo_message 10 demo_moment (ReqActive ''constructor'') demo_gateway =
     (Inr (NowActive ''constructor''), gw') \<and>
   handle demo_bip47 demo_message 10 demo_moment ReqStatus gw' = (Inl NotAFunction, gw')"
proof -
  let ?n = "''constructor''" and ?sh = "the (gw_shop demo_gateway)"
  have p: "gw_shop demo_gateway = Some ?sh" "?n \<in> set proto_keys" "mo_io demo_moment = Completed"
    "map_of (ids_networks (sh_state ?sh)) ?n = None" "map_of (sh_identities ?sh) ?n = None"
    "map_of (gw_stores demo_gateway) ?n = None"
    by (simp_all add: demo_gateway_def demo_moment_def proto_keys_def)
  from inherited_network_accepted [OF p, where lib = demo_bip47 and msg = demo_message and q = 10]
  show ?thesis by blast
qed

end
