(* ===== verification/GatewaySocket.thy ===== *)
theory GatewaySocket
  imports JsValue "HOL-Library.Multiset"
begin

text \<open>
  The wire between the two processes. \<open>serve\<close> of \<open>gateway/gateway.mjs\<close>: one JSON request per line,
  the listener of \<open>data\<close> events as a machine whose loop is suspended at \<open>await handle(...)\<close>, so that
  several loops can run over the one buffer. \<open>ask\<close> of \<open>server/gateway-client.mjs\<close>: one request, one
  line back, settled once. Texts are the decoded chunks.
\<close>

section \<open>Lines\<close>

abbreviation newline :: char where
  "newline \<equiv> CHR 0x0A"

definition first_line :: "string \<Rightarrow> string" where
  "first_line buf = takeWhile (\<lambda>c. c \<noteq> newline) buf"

definition after_line :: "string \<Rightarrow> string" where
  "after_line buf = tl (dropWhile (\<lambda>c. c \<noteq> newline) buf)"

lemma line_split: "newline \<in> set buf \<Longrightarrow> buf = first_line buf @ newline # after_line buf"
proof -
  assume a: "newline \<in> set buf"
  then have "dropWhile (\<lambda>c. c \<noteq> newline) buf \<noteq> []" by auto
  with hd_dropWhile [OF this] have "dropWhile (\<lambda>c. c \<noteq> newline) buf = newline # after_line buf"
    by (cases "dropWhile (\<lambda>c. c \<noteq> newline) buf") (auto simp: after_line_def)
  then show ?thesis by (metis first_line_def takeWhile_dropWhile_id)
qed

lemma first_line_clean [simp]: "newline \<notin> set (first_line buf)"
  by (auto simp: first_line_def dest: set_takeWhileD)

lemma line_of_append:
  "newline \<notin> set l \<Longrightarrow> first_line (l @ newline # r) = l \<and> after_line (l @ newline # r) = r"
  by (simp add: first_line_def after_line_def takeWhile_append dropWhile_append)


section \<open>The server's side\<close>












section \<open>The client's side\<close>

datatype ask_outcome =
    Resolved val
  | Oversized
  | NotJson string
  | NoAnswerInTime
  | NoSocket
  | CannotReach string
  | ClosedSilently

record ask_state =
  a_buf :: string
  a_settled :: "ask_outcome option"
  a_sent :: bool

datatype ask_event = Connected | Received string | TimedOut | Errored "string option" | HungUp

definition REPLY_CAP :: nat where
  "REPLY_CAP = 256 * 1024"

text \<open>\<open>done\<close> settles the promise once.\<close>

definition settle_once :: "ask_outcome \<Rightarrow> ask_state \<Rightarrow> ask_state" where
  "settle_once out a = (case a_settled a of None \<Rightarrow> a\<lparr>a_settled := Some out\<rparr> | Some _ \<Rightarrow> a)"

definition reply_outcome :: "(string \<Rightarrow> val option) \<Rightarrow> string \<Rightarrow> ask_outcome" where
  "reply_outcome parse line = (case parse line of None \<Rightarrow> NotJson line | Some v \<Rightarrow> Resolved v)"

text \<open>\<open>Errored None\<close> is \<open>ENOENT\<close>. \<open>parse\<close> is \<open>JSON.parse\<close>.\<close>

fun ask_step :: "(string \<Rightarrow> val option) \<Rightarrow> ask_event \<Rightarrow> ask_state \<Rightarrow> ask_state" where
  "ask_step parse Connected a = a\<lparr>a_sent := True\<rparr>"
| "ask_step parse (Received chunk) a =
     (let buf = a_buf a @ chunk; a1 = a\<lparr>a_buf := buf\<rparr>
      in if newline \<notin> set buf
         then (if REPLY_CAP < length buf then settle_once Oversized a1 else a1)
         else settle_once (reply_outcome parse (first_line buf)) a1)"
| "ask_step parse TimedOut a = settle_once NoAnswerInTime a"
| "ask_step parse (Errored None) a = settle_once NoSocket a"
| "ask_step parse (Errored (Some m)) a = settle_once (CannotReach m) a"
| "ask_step parse HungUp a = settle_once ClosedSilently a"

definition ask_start :: ask_state where
  "ask_start = \<lparr>a_buf = [], a_settled = None, a_sent = False\<rparr>"

section \<open>Facts\<close>







lemma first_line_append: "newline \<in> set s \<Longrightarrow> first_line (s @ t) = first_line s \<and> after_line (s @ t) = after_line s @ t"
  using line_split [of s] line_of_append [of "first_line s" "after_line s @ t"]
  by (metis append.assoc append_Cons first_line_clean)






























section \<open>Properties\<close>




lemma settled_stays: "a_settled a = Some out \<Longrightarrow> a_settled (ask_step parse ev a) = Some out"
  by (induction parse ev a rule: ask_step.induct) (auto simp: Let_def settle_once_def split: option.splits)

lemma settled_stays_fold: "a_settled a = Some out \<Longrightarrow> a_settled (fold (ask_step parse) evs a) = Some out"
  by (induction evs arbitrary: a) (simp_all add: settled_stays)

lemma received_no_line:
  assumes "newline \<notin> set (a_buf a @ concat cs)" "length (a_buf a @ concat cs) \<le> REPLY_CAP"
  shows "fold (ask_step parse) (map Received cs) a = a\<lparr>a_buf := a_buf a @ concat cs\<rparr>"
  using assms by (induction cs arbitrary: a) (auto simp: Let_def)

lemma received_line:
  assumes "newline \<in> set (concat cs)" "length (first_line (a_buf a @ concat cs)) \<le> REPLY_CAP"
    and "newline \<notin> set (a_buf a)" "a_settled a = None"
  shows "a_settled (fold (ask_step parse) (map Received cs) a) =
    Some (reply_outcome parse (first_line (a_buf a @ concat cs)))"
  using assms
proof (induction cs arbitrary: a)
  case (Cons ch cs)
  show ?case
  proof (cases "newline \<in> set ch")
    case True
    then have fl: "first_line (a_buf a @ ch @ concat cs) = first_line (a_buf a @ ch)"
      using first_line_append [of "a_buf a @ ch" "concat cs"] by simp
    have "a_settled (ask_step parse (Received ch) a) = Some (reply_outcome parse (first_line (a_buf a @ ch)))"
      using True Cons.prems(4) by (auto simp: Let_def settle_once_def split: option.splits)
    from settled_stays_fold [OF this] show ?thesis by (simp add: fl)
  next
    case False
    have len: "length (a_buf a @ ch) \<le> length (first_line ((a_buf a @ ch) @ concat cs))"
      using False Cons.prems(3) by (simp add: first_line_def takeWhile_append)
    have "ask_step parse (Received ch) a = a\<lparr>a_buf := a_buf a @ ch\<rparr>"
      using False Cons.prems len by (auto simp: Let_def)
    with Cons.IH [of "a\<lparr>a_buf := a_buf a @ ch\<rparr>"] Cons.prems False show ?thesis by simp
  qed
qed simp

text \<open>A request to the gateway is settled by the first whole line that comes back, however it is
  cut into chunks, and nothing that happens on the socket afterwards changes the outcome; without a
  line it is settled when the time is up or the connection ends.\<close>

theorem ask_settles_once:
  assumes "length (first_line (concat cs)) \<le> REPLY_CAP"
  shows "(newline \<in> set (concat cs) \<longrightarrow>
      a_settled (fold (ask_step parse) (Connected # map Received cs @ later) ask_start) =
        Some (reply_outcome parse (first_line (concat cs)))) \<and>
    (newline \<notin> set (concat cs) \<longrightarrow>
      a_settled (fold (ask_step parse) (Connected # map Received cs @ TimedOut # later) ask_start) = Some NoAnswerInTime \<and>
      a_settled (fold (ask_step parse) (Connected # map Received cs @ HungUp # later) ask_start) = Some ClosedSilently)"
proof -
  let ?a = "ask_start\<lparr>a_sent := True\<rparr>"
  have a: "a_buf ?a = []" "a_settled ?a = None" by (simp_all add: ask_start_def)
  have "a_settled (fold (ask_step parse) (map Received cs) ?a) =
      Some (reply_outcome parse (first_line (concat cs)))"
    if "newline \<in> set (concat cs)"
    using received_line [of cs ?a parse] that assms a by simp
  moreover have "fold (ask_step parse) (map Received cs) ?a = ?a\<lparr>a_buf := concat cs\<rparr>" if "newline \<notin> set (concat cs)"
  proof -
    have "first_line (concat cs) = concat cs"
      unfolding first_line_def takeWhile_eq_all_conv using that by metis
    with assms have "length (concat cs) \<le> REPLY_CAP" by simp
    with received_no_line [of ?a cs parse] that a show ?thesis by simp
  qed
  ultimately show ?thesis
    using a by (cases "newline \<in> set (concat cs)")
      (simp_all add: settled_stays_fold settle_once_def del: set_concat)
qed

theorem ask_settles_once_witness:
  "a_settled (fold (ask_step (\<lambda>s. Some (Str s)))
     (Connected # map Received [''ok'', [newline]] @ [HungUp, TimedOut]) ask_start) = Some (Resolved (Str ''ok''))"
  using ask_settles_once [of "[''ok'', [newline]]" "\<lambda>s. Some (Str s)" "[HungUp, TimedOut]"]
  by (simp add: first_line_def REPLY_CAP_def reply_outcome_def)

end
