(* ===== verification/StoreProps.thy ===== *)
theory StoreProps
  imports Store
begin

text \<open>
  Laws of the store. The interface \<open>keyed_store\<close> is what every collection promises its callers, and
  \<open>single_use\<close> what the nonces add to it; both are interpreted on the collections of the model. Below
  them, the invariant that the guards of the write operations establish, over any sequence of calls
  and any failure of the file.
\<close>

section \<open>A collection as an interface\<close>

locale keyed_store =
  fixes look :: "string \<Rightarrow> 's \<Rightarrow> 'v option"
    and save :: "string \<Rightarrow> 'v \<Rightarrow> 's \<Rightarrow> 's"
    and remove :: "string \<Rightarrow> 's \<Rightarrow> 's"
  assumes look_save: "k \<noteq> ''__proto__'' \<Longrightarrow> look k' (save k v s) = (if k' = k then Some v else look k' s)"
    and save_proto: "look k' (save ''__proto__'' v s) = look k' s"
    and look_remove: "look k' (remove k s) = (if k' = k then None else look k' s)"
begin

text \<open>An update saves a value under a key or removes the key.\<close>

definition update :: "string \<times> 'v option \<Rightarrow> 's \<Rightarrow> 's" where
  "update u s = (case snd u of Some v \<Rightarrow> save (fst u) v s | None \<Rightarrow> remove (fst u) s)"

lemma look_update:
  "look k (update u s) =
     (if fst u = k \<and> (snd u = None \<or> k \<noteq> ''__proto__'') then snd u else look k s)"
  by (cases "snd u"; cases "fst u = ''__proto__''") (auto simp: update_def look_save look_remove save_proto)

lemma look_untouched: "k \<notin> fst ` set us \<Longrightarrow> look k (fold update us s) = look k s"
  by (induction us arbitrary: s) (auto simp: look_update)

lemma look_last:
  assumes "k \<noteq> ''__proto__''"
  shows "look k (fold update (us @ (k, x) # vs) s) =
    (if k \<in> fst ` set vs then look k (fold update vs (fold update (us @ [(k, x)]) s)) else x)"
  using assms by (auto simp: look_untouched look_update)

text \<open>What was never saved is not found.\<close>

lemma look_absent:
  "look k s = None \<Longrightarrow> \<forall>v. (k, Some v) \<notin> set us \<Longrightarrow> look k (fold update us s) = None"
proof (induction us arbitrary: s)
  case (Cons u us)
  then have "look k (update u s) = None"
    by (cases u; cases "snd u") (auto simp: look_update)
  with Cons show ?case by simp
qed simp

end

locale single_use = keyed_store look save remove
  for look :: "string \<Rightarrow> 's \<Rightarrow> 'v option" and save remove +
  fixes take :: "string \<Rightarrow> 's \<Rightarrow> 'v option \<times> 's"
  assumes take_law: "take k s = (x, s') \<Longrightarrow> x = look k s \<and> (\<forall>k'. look k' s' = (if k' = k then None else look k' s))"
begin

text \<open>Once taken, a value is not found again until its key has been saved again.\<close>

lemma take_once:
  assumes "take k s = (x, s1)" "\<forall>v. (k, Some v) \<notin> set us" "take k (fold update us s1) = (y, s2)"
  shows "y = None"
  using take_law [OF assms(1)] take_law [OF assms(3)] look_absent [OF _ assms(2)] by auto

lemma take_keeps: "take k s = (x, s') \<Longrightarrow> k' \<noteq> k \<Longrightarrow> look k' s' = look k' s"
  by (auto dest: take_law)

end

section \<open>The collections provide it\<close>

definition take_nonce :: "string \<Rightarrow> shape \<Rightarrow> nonce option \<times> shape" where
  "take_nonce k s = (map_of (nonces s) k, fst (snd (takeNonce k s)))"

lemma map_of_owrite_other: "map_of (owrite ''__proto__'' v m) = map_of m"
  by (simp add: map_of_owrite)

interpretation ncs: single_use "\<lambda>k s. map_of (nonces s) k" "\<lambda>k v s. s\<lparr>nonces := owrite k v (nonces s)\<rparr>"
  "\<lambda>k s. s\<lparr>nonces := odelete k (nonces s)\<rparr>" take_nonce
  by unfold_locales
    (auto simp: map_of_owrite take_nonce_def takeNonce_def oread_Missing split: slot.splits)

interpretation sess: keyed_store "\<lambda>k s. map_of (sessions s) k" "\<lambda>k v s. s\<lparr>sessions := owrite k v (sessions s)\<rparr>"
  "\<lambda>k s. s\<lparr>sessions := odelete k (sessions s)\<rparr>"
  by unfold_locales (auto simp: map_of_owrite)

interpretation subs: keyed_store "\<lambda>k s. map_of (submissions s) k"
  "\<lambda>k v s. s\<lparr>submissions := owrite k v (submissions s)\<rparr>" "\<lambda>k s. s\<lparr>submissions := odelete k (submissions s)\<rparr>"
  by unfold_locales (auto simp: map_of_owrite)

interpretation doms: keyed_store "\<lambda>k s. map_of (domains s) k" "\<lambda>k v s. s\<lparr>domains := owrite k v (domains s)\<rparr>"
  "\<lambda>k s. s\<lparr>domains := odelete k (domains s)\<rparr>"
  by unfold_locales (auto simp: map_of_owrite)

section \<open>Calls\<close>

datatype store_call =
    CPutNonce string nonce
  | CTakeNonce string
  | CGcNonces int
  | CPutSession string session
  | CGetSession int "string option"
  | CDropSession string
  | CPutSubmission submission
  | CGetSubmission string
  | CPruneRejected int int
  | CDeleteSubmission string
  | CPutProduct product
  | CDeleteProduct string
  | CPutInvoice invoice
  | CDeleteInvoice string
  | CPutDomain domain_claim
  | CDeleteDomain string

fun effect :: "store_call \<Rightarrow> shape \<Rightarrow> shape \<times> bool" where
  "effect (CPutNonce k n) s = snd (putNonce k n s)"
| "effect (CTakeNonce k) s = snd (takeNonce k s)"
| "effect (CGcNonces now) s = snd (gcNonces now s)"
| "effect (CPutSession k x) s = snd (putSession k x s)"
| "effect (CGetSession now k) s = snd (getSession now k s)"
| "effect (CDropSession k) s = snd (dropSession k s)"
| "effect (CPutSubmission r) s = snd (putSubmission r s)"
| "effect (CGetSubmission k) s = snd (getSubmission k s)"
| "effect (CPruneRejected d now) s = snd (pruneRejected d now s)"
| "effect (CDeleteSubmission k) s = snd (deleteSubmission k s)"
| "effect (CPutProduct r) s = snd (putProduct r s)"
| "effect (CDeleteProduct k) s = snd (deleteProduct k s)"
| "effect (CPutInvoice r) s = snd (putInvoice r s)"
| "effect (CDeleteInvoice k) s = snd (deleteInvoice k s)"
| "effect (CPutDomain c) s = snd (putDomain c s)"
| "effect (CDeleteDomain k) s = snd (deleteDomain k s)"

definition exec_call :: "io \<Rightarrow> store_call \<Rightarrow> db \<Rightarrow> db" where
  "exec_call w c d = snd (in_store w (\<lambda>s. (Inr (), effect c s)) d)"

text \<open>A run of calls, each with the fate of its write, and possible restarts in between, which lose
  the document in memory.\<close>

datatype store_event = Call io store_call | Restart

fun store_event_step :: "store_event \<Rightarrow> db \<Rightarrow> db" where
  "store_event_step (Call w c) d = exec_call w c d"
| "store_event_step Restart d = d\<lparr>db_cache := None\<rparr>"

section \<open>What the guards establish\<close>

definition submission_ok :: "string \<Rightarrow> submission \<Rightarrow> bool" where
  "submission_ok k r \<longleftrightarrow>
     k = sb_id r \<and> sb_code r = None \<and>
     (\<exists>cs. sb_codes r = Some (map Str cs) \<and> distinct cs \<and> [] \<notin> set cs \<and> (\<exists>c \<in> set cs. looks_like_code (trim c))) \<and>
     hasSignedBlock r"

definition product_ok :: "string \<Rightarrow> product \<Rightarrow> bool" where
  "product_ok k r \<longleftrightarrow>
     pr_id r = Str k \<and> js_is_integer (pr_price_usd_cents r) \<and> 0 \<le> int_of (pr_price_usd_cents r) \<and>
     (pr_inventory r = Null \<or> js_is_integer (pr_inventory r) \<and> 0 \<le> int_of (pr_inventory r))"

definition invoice_ok :: "string \<Rightarrow> invoice \<Rightarrow> bool" where
  "invoice_ok k r \<longleftrightarrow>
     iv_id r = Str k \<and> iv_network r \<in> {Str ''bitcoin'', Str ''testnet4''} \<and>
     is_str (fld (iv_address_record r) ''signed'') \<and> truthy (fld (iv_address_record r) ''signed'') \<and>
     iv_address r = fld (iv_address_record r) ''address'' \<and> truthy (iv_address r) \<and>
     js_is_integer (iv_amount_sats r) \<and> 0 < int_of (iv_amount_sats r) \<and> 0 < iv_rate_usd r \<and>
     (\<exists>t u. iv_created_at r = Some (Instant t) \<and> iv_rate_at r = Some (Instant u) \<and> \<bar>t - u\<bar> \<le> RATE_MAX_AGE_MS)"

definition shape_ok :: "shape \<Rightarrow> bool" where
  "shape_ok s \<longleftrightarrow>
     wf_obj (submissions s) \<and> wf_obj (products s) \<and> wf_obj (invoices s) \<and> wf_obj (domains s) \<and>
     wf_obj (nonces s) \<and> wf_obj (sessions s) \<and>
     (\<forall>(k, r) \<in> set (submissions s). submission_ok k r) \<and>
     (\<forall>(k, r) \<in> set (products s). product_ok k r) \<and>
     (\<forall>(k, r) \<in> set (invoices s). invoice_ok k r) \<and>
     (\<forall>(k, c) \<in> set (domains s). k = dc_paymentCode c)"

lemma is_str_Str: "is_str v \<Longrightarrow> v = Str (str_of v)"
  by (cases v) simp_all

lemma set_owrite: "x \<in> set (owrite k v m) \<Longrightarrow> x = (k, v) \<or> x \<in> set m"
  by (induction m) (auto simp: owrite_def split: if_splits)

lemma strings_only:
  "\<forall>y \<in> set ys. is_str y \<and> truthy y \<Longrightarrow> \<exists>cs. ys = map Str cs \<and> [] \<notin> set cs"
proof (induction ys)
  case (Cons y ys)
  then obtain cs where cs: "ys = map Str cs" "[] \<notin> set cs" by auto
  from Cons.prems obtain c where c: "y = Str c" "c \<noteq> []" by (cases y) auto
  have "y # ys = map Str (c # cs) \<and> [] \<notin> set (c # cs)" using cs c by simp
  then show ?case by (rule exI)
qed simp

lemma normalise_codes:
  "\<exists>cs. sb_codes (normaliseSubmission rec) = Some (map Str cs) \<and> distinct cs \<and> [] \<notin> set cs"
proof -
  define xs where "xs = (case sb_codes rec of Some cs \<Rightarrow> cs
    | None \<Rightarrow> (case sb_code rec of Some c \<Rightarrow> if c = [] then [] else [Str c] | None \<Rightarrow> []))"
  define ys where "ys = dedup (filter (\<lambda>c. is_str c \<and> truthy c) xs)"
  have n: "sb_codes (normaliseSubmission rec) = Some ys"
    by (simp add: normaliseSubmission_def xs_def ys_def)
  have "\<forall>y \<in> set ys. is_str y \<and> truthy y" by (simp add: ys_def)
  then obtain cs where cs: "ys = map Str cs" "[] \<notin> set cs" using strings_only by blast
  have "distinct ys" by (simp add: ys_def)
  with cs have "distinct cs" by (simp add: distinct_map)
  with n cs show ?thesis by blast
qed

lemma putSubmission_ok:
  assumes "putSubmission rec s = (Inr r, s', b)"
  shows "submission_ok (sb_id rec) r \<and> s' = s\<lparr>submissions := owrite (sb_id rec) r (submissions s)\<rparr>"
proof -
  from assms have r: "r = normaliseSubmission rec" "s' = s\<lparr>submissions := owrite (sb_id rec) r (submissions s)\<rparr>"
    and code: "\<exists>c \<in> set (code_list r). is_str c \<and> looks_like_code (trim (str_of c))"
    and signed: "hasSignedBlock r"
    by (auto simp: putSubmission_def Let_def split: if_splits)
  obtain cs where cs: "sb_codes r = Some (map Str cs)" "distinct cs"
    "[] \<notin> set cs" using normalise_codes r(1) by blast
  with code have "\<exists>c \<in> set cs. looks_like_code (trim c)" by (auto simp: code_list_def)
  with cs signed r show ?thesis by (auto simp: submission_ok_def normaliseSubmission_def)
qed

lemma normalise_again:
  assumes cs: "sb_codes r = Some (map Str cs)" "distinct cs" "[] \<notin> set cs" and code: "sb_code r = None"
  shows "normaliseSubmission r = r"
proof -
  from cs(3) have "filter (\<lambda>c. is_str c \<and> truthy c) (map Str cs) = map Str cs"
    by (intro filter_True) auto
  moreover from cs(2) have "distinct (map Str cs)" by (simp add: distinct_map inj_on_def)
  ultimately have "normaliseSubmission r = r\<lparr>sb_codes := sb_codes r, sb_code := sb_code r\<rparr>"
    by (simp add: normaliseSubmission_def cs(1) code)
  then show ?thesis by simp
qed

lemma normalise_ok: "submission_ok k r \<Longrightarrow> normaliseSubmission r = r"
  by (auto simp: submission_ok_def intro: normalise_again)

lemma normalise_all_ok: "shape_ok s \<Longrightarrow> normalise_all s = s"
proof -
  assume "shape_ok s"
  then have "\<forall>(k, r) \<in> set (submissions s). submission_ok k r" by (simp add: shape_ok_def)
  then have "map (\<lambda>(k, r). (k, normaliseSubmission r)) (submissions s) = submissions s"
    by (intro map_idI) (auto simp: normalise_ok)
  then show ?thesis by (simp add: normalise_all_def)
qed

lemma putProduct_ok:
  assumes "putProduct rec s = (Inr r, s', b)"
  shows "product_ok (str_of (pr_id rec)) r \<and> s' = s\<lparr>products := owrite (str_of (pr_id rec)) r (products s)\<rparr>"
  using assms is_str_Str [of "pr_id rec"]
  by (auto simp: putProduct_def product_ok_def Let_def split: if_splits)

lemma bind_date: "Option.bind x date_parse = Some t \<longleftrightarrow> x = Some (Instant t)"
  by (cases x; cases "the x") auto

lemma putInvoice_ok:
  assumes "putInvoice rec s = (Inr r, s', b)"
  shows "invoice_ok (str_of (iv_id rec)) r \<and> s' = s\<lparr>invoices := owrite (str_of (iv_id rec)) r (invoices s)\<rparr>"
proof -
  have n: "invoice_refusal rec = None" and r: "r = rec" and s': "s' = s\<lparr>invoices := owrite (str_of (iv_id rec)) rec (invoices s)\<rparr>"
    using assms by (auto simp: putInvoice_def split: option.splits)
  obtain t u where times: "iv_created_at rec = Some (Instant t)" "iv_rate_at rec = Some (Instant u)"
    "\<bar>t - u\<bar> \<le> RATE_MAX_AGE_MS"
    using n by (auto simp: invoice_refusal_def Let_def bind_date split: if_splits option.splits)
  have "invoice_ok (str_of (iv_id rec)) rec"
    using n times is_str_Str [of "iv_id rec"]
    by (auto simp: invoice_refusal_def invoice_ok_def Let_def split: if_splits option.splits)
  with r s' show ?thesis by blast
qed

section \<open>Every call keeps it\<close>

lemma wf_obj_filter [simp]: "wf_obj m \<Longrightarrow> wf_obj (filter P m)"
  by (auto simp: wf_obj_def distinct_map_filter)

definition all_entries :: "(string \<Rightarrow> 'a \<Rightarrow> bool) \<Rightarrow> 'a obj \<Rightarrow> bool" where
  "all_entries P m \<longleftrightarrow> (\<forall>(k, r) \<in> set m. P k r)"

lemma all_entries_owrite [simp]: "all_entries P m \<Longrightarrow> P k v \<Longrightarrow> all_entries P (owrite k v m)"
  by (auto simp: all_entries_def dest!: set_owrite)

lemma all_entries_odelete [simp]: "all_entries P m \<Longrightarrow> all_entries P (odelete k m)"
  by (auto simp: all_entries_def set_odelete)

lemma all_entries_filter [simp]: "all_entries P m \<Longrightarrow> all_entries P (filter Q m)"
  by (auto simp: all_entries_def)

lemma all_entriesD: "all_entries P m \<Longrightarrow> map_of m k = Some v \<Longrightarrow> P k v"
  by (auto simp: all_entries_def dest: map_of_SomeD)

lemma shape_okD:
  "shape_ok s \<longleftrightarrow>
     wf_obj (submissions s) \<and> wf_obj (products s) \<and> wf_obj (invoices s) \<and> wf_obj (domains s) \<and>
     wf_obj (nonces s) \<and> wf_obj (sessions s) \<and>
     all_entries submission_ok (submissions s) \<and> all_entries product_ok (products s) \<and>
     all_entries invoice_ok (invoices s) \<and> all_entries (\<lambda>k c. k = dc_paymentCode c) (domains s)"
  by (simp add: shape_ok_def all_entries_def)

lemmas store_ops =
  putNonce_def takeNonce_def gcNonces_def putSession_def getSession_def dropSession_def getSubmission_def
  pruneRejected_def deleteSubmission_def deleteProduct_def deleteInvoice_def putDomain_def deleteDomain_def Let_def

lemma effect_put_submission: "shape_ok s \<Longrightarrow> shape_ok (fst (snd (putSubmission r s)))"
proof (cases "putSubmission r s")
  case (fields x s' b)
  then show "shape_ok s \<Longrightarrow> ?thesis"
    using putSubmission_ok [of r s _ s' b]
    by (cases x) (auto simp: shape_okD putSubmission_def Let_def split: if_splits)
qed

lemma effect_put_product: "shape_ok s \<Longrightarrow> shape_ok (fst (snd (putProduct r s)))"
proof (cases "putProduct r s")
  case (fields x s' b)
  then show "shape_ok s \<Longrightarrow> ?thesis"
    using putProduct_ok [of r s _ s' b]
    by (cases x) (auto simp: shape_okD putProduct_def Let_def split: if_splits)
qed

lemma effect_put_invoice: "shape_ok s \<Longrightarrow> shape_ok (fst (snd (putInvoice r s)))"
proof (cases "putInvoice r s")
  case (fields x s' b)
  then show "shape_ok s \<Longrightarrow> ?thesis"
    using putInvoice_ok [of r s _ s' b]
    by (cases x) (auto simp: shape_okD putInvoice_def split: option.splits)
qed

lemma effect_get_submission:
  assumes "shape_ok s"
  shows "shape_ok (fst (snd (getSubmission k s)))"
proof (cases "map_of (submissions s) k")
  case None
  with assms show ?thesis by (simp add: getSubmission_def oread_def)
next
  case (Some rec)
  with assms have ok: "submission_ok k rec" by (auto simp: shape_okD dest: all_entriesD)
  with Some assms show ?thesis by (simp add: getSubmission_def oread_def Let_def normalise_ok shape_okD)
qed

lemma effect_ok [inv_pres]: "shape_ok s \<Longrightarrow> shape_ok (fst (effect c s))"
  by (cases c)
    (auto simp: effect_put_submission effect_put_product effect_put_invoice effect_get_submission,
     auto simp: store_ops shape_okD split: slot.splits option.splits)

section \<open>The file and the document in memory\<close>

definition db_ok :: "db \<Rightarrow> bool" where
  "db_ok d \<longleftrightarrow> (\<forall>s. db_file d = Doc s \<longrightarrow> shape_ok s) \<and> (\<forall>s. db_cache d = Some s \<longrightarrow> shape_ok s)"

lemma EMPTY_SHAPE_ok: "shape_ok EMPTY_SHAPE"
  by (simp add: shape_ok_def EMPTY_SHAPE_def)

lemma load_store_ok:
  "db_ok d \<Longrightarrow> load_store d = (r, d') \<Longrightarrow> db_ok d' \<and> (\<forall>s. r = Inr s \<longrightarrow> shape_ok s)"
  by (auto simp: load_store_def db_ok_def normalise_all_ok EMPTY_SHAPE_ok split: option.splits json_file.splits)

lemma exec_call_ok: "db_ok d \<Longrightarrow> db_ok (exec_call w c d)"
proof -
  assume d: "db_ok d"
  obtain r d1 where l: "load_store d = (r, d1)" by (cases "load_store d")
  from load_store_ok [OF d l] have d1: "db_ok d1" "\<And>s. r = Inr s \<Longrightarrow> shape_ok s" by auto
  show ?thesis
  proof (cases r)
    case (Inl e)
    with d1 l show ?thesis by (simp add: exec_call_def in_store_def)
  next
    case (Inr s)
    obtain s' b where e: "effect c s = (s', b)" by (cases "effect c s")
    with effect_ok [OF d1(2) [OF Inr], of c] have "shape_ok s'" by simp
    with e d1(1) Inr l show ?thesis
      by (cases w) (auto simp: exec_call_def in_store_def Let_def db_ok_def)
  qed
qed

lemma events_db_ok: "db_ok d \<Longrightarrow> db_ok (fold store_event_step evs d)"
proof (induction evs arbitrary: d)
  case (Cons ev evs)
  have "db_ok (store_event_step ev d)"
    using Cons.prems by (cases ev) (auto simp: exec_call_ok, auto simp: db_ok_def)
  then show ?case using Cons.IH by simp
qed simp

section \<open>Nonces through any calls\<close>

lemma map_of_filter_pairs:
  "distinct (map fst m) \<Longrightarrow> map_of (filter P m) k =
     (case map_of m k of Some v \<Rightarrow> if P (k, v) then Some v else None | None \<Rightarrow> None)"
  by (induction m) (auto simp: map_of_eq_None_iff split: option.splits)

lemma gc_keys:
  assumes d: "distinct (map fst m)"
  shows "map_of (filter (\<lambda>(k, v). \<not> P v) m) k =
    (if k \<in> set (map fst (filter (\<lambda>(k, v). P v) m)) then None else map_of m k)"
proof (cases "map_of m k")
  case None
  then show ?thesis by (simp add: map_of_filter_pairs [OF d])
next
  case (Some v)
  then have v: "(k, v) \<in> set m" by (rule map_of_SomeD)
  have "k \<in> set (map fst (filter (\<lambda>(k, v). P v) m)) \<longleftrightarrow> P v"
  proof
    assume "k \<in> set (map fst (filter (\<lambda>(k, v). P v) m))"
    then obtain v' where "(k, v') \<in> set m" "P v'" by auto
    with eq_key_imp_eq_value [OF d v] show "P v" by blast
  next
    assume "P v"
    with v have "(k, v) \<in> set (filter (\<lambda>(k, v). P v) m)" by simp
    then show "k \<in> set (map fst (filter (\<lambda>(k, v). P v) m))" by (metis fst_conv image_eqI set_map)
  qed
  with Some show ?thesis by (simp add: map_of_filter_pairs [OF d] del: set_map set_filter)
qed

lemma removals:
  "map_of (nonces (fold ncs.update (map (\<lambda>k. (k, None)) ks) s)) k =
     (if k \<in> set ks then None else map_of (nonces s) k)"
  by (induction ks arbitrary: s) (auto simp: ncs.look_update)

text \<open>The effect of a call on the nonces, as updates of the collection.\<close>

lemma effect_nonces:
  assumes "shape_ok s"
  shows "\<exists>us. (\<forall>k. map_of (nonces (fst (effect c s))) k = map_of (nonces (fold ncs.update us s)) k) \<and>
    (\<forall>k v. (k, Some v) \<in> set us \<longrightarrow> c = CPutNonce k v)"
proof (cases c)
  case (CPutNonce k n)
  then show ?thesis
    by (intro exI [of _ "[(k, Some n)]"]) (simp add: putNonce_def ncs.update_def)
next
  case (CTakeNonce k)
  have "map_of (nonces (fst (effect c s))) k' = (if k' = k then None else map_of (nonces s) k')" for k'
    using ncs.take_law [of k s "map_of (nonces s) k" "fst (effect c s)"] CTakeNonce
    by (simp add: take_nonce_def)
  then show ?thesis
    by (intro exI [of _ "[(k, None)]"]) (simp add: ncs.look_update)
next
  case (CGcNonces now)
  let ?ks = "map fst (filter (\<lambda>(k, v). nc_expires v < now) (nonces s))"
  have d: "distinct (map fst (nonces s))" using assms by (simp add: shape_ok_def wf_obj_def)
  have "map_of (nonces (fst (effect c s))) k = map_of (nonces (fold ncs.update (map (\<lambda>k. (k, None)) ?ks) s)) k" for k
    by (simp only: removals) (simp add: CGcNonces gcNonces_def Let_def gc_keys [OF d] del: set_map set_filter)
  then show ?thesis by (intro exI [of _ "map (\<lambda>k. (k, None)) ?ks"]) auto
next
  case (CPutSubmission r)
  then show ?thesis by (intro exI [of _ "[]"]) (simp add: putSubmission_def Let_def)
next
  case (CPutProduct r)
  then show ?thesis by (intro exI [of _ "[]"]) (simp add: putProduct_def Let_def)
next
  case (CPutInvoice r)
  then show ?thesis by (intro exI [of _ "[]"]) (simp add: putInvoice_def split: option.split)
qed (intro exI [of _ "[]"]; auto simp: store_ops split: slot.splits option.splits)+

lemma absent_stays:
  assumes "shape_ok s" "map_of (nonces s) k = None" "\<forall>n. CPutNonce k n \<notin> set cs"
  shows "map_of (nonces (fold (\<lambda>c s. fst (effect c s)) cs s)) k = None"
  using assms
proof (induction cs arbitrary: s)
  case (Cons c cs)
  from effect_nonces [OF Cons.prems(1), of c] obtain us where
    us: "map_of (nonces (fst (effect c s))) k = map_of (nonces (fold ncs.update us s)) k"
    "\<forall>k v. (k, Some v) \<in> set us \<longrightarrow> c = CPutNonce k v" by blast
  with Cons.prems(3) have "\<forall>v. (k, Some v) \<notin> set us" by auto
  with us ncs.look_absent [OF Cons.prems(2)] have "map_of (nonces (fst (effect c s))) k = None" by simp
  with Cons effect_ok [OF Cons.prems(1)] show ?case by simp
qed simp

section \<open>Properties\<close>

text \<open>C11: whatever calls are made, in whatever order, with any write failing and any restart in between,
  both the file and the document in memory hold only submissions that name an owner and carry a
  signed block, products with a whole price and stock, and invoices with a signed address on a named
  chain, a positive amount and a rate no older than the limit.\<close>

theorem store_guards_hold:
  "db_ok (fold store_event_step evs \<lparr>db_file = Absent, db_cache = None\<rparr>)"
  by (rule events_db_ok) (simp add: db_ok_def)

text \<open>A nonce can be taken once. After it has been taken no other call brings it back, so a second
  use of it finds nothing, unless it has been issued again.\<close>

theorem nonce_taken_once:
  assumes "shape_ok s" and "takeNonce k s = (r, s1, b)" and "\<forall>n. CPutNonce k n \<notin> set cs"
    and "takeNonce k (fold (\<lambda>c s. fst (effect c s)) cs s1) = (r', s2, b')"
  shows "r' = Inr (if k \<in> set proto_keys then Inherited else Missing)"
proof -
  have s1: "s1 = fst (effect (CTakeNonce k) s)" using assms(2) by simp
  have "map_of (nonces s1) k = None"
    using ncs.take_law [of k s "map_of (nonces s) k" s1] assms(2) by (simp add: take_nonce_def)
  from absent_stays [OF effect_ok [OF assms(1)] _ assms(3), of "CTakeNonce k"] this s1
  have "map_of (nonces (fold (\<lambda>c s. fst (effect c s)) cs s1)) k = None" by simp
  with assms(4) show ?thesis by (auto simp: takeNonce_def oread_def split: if_splits)
qed

theorem nonce_taken_once_witness:
  "fst (takeNonce ''abc'' (fst (effect (CGcNonces 3)
     (fst (snd (takeNonce ''abc'' (EMPTY_SHAPE\<lparr>nonces := [(''abc'', \<lparr>nc_expires = 9, nc_sid = None\<rparr>)]\<rparr>))))))) = Inr Missing"
proof -
  let ?s = "EMPTY_SHAPE\<lparr>nonces := [(''abc'', \<lparr>nc_expires = 9, nc_sid = None\<rparr>)]\<rparr>"
  have ok: "shape_ok ?s" by (simp add: shape_ok_def EMPTY_SHAPE_def wf_obj_def)
  obtain r s1 b where t: "takeNonce ''abc'' ?s = (r, s1, b)" by (cases "takeNonce ''abc'' ?s")
  obtain r' s2 b' where t': "takeNonce ''abc'' (fold (\<lambda>c s. fst (effect c s)) [CGcNonces 3] s1) = (r', s2, b')"
    by (cases "takeNonce ''abc'' (fold (\<lambda>c s. fst (effect c s)) [CGcNonces 3] s1)")
  from nonce_taken_once [OF ok t _ t'] t t' show ?thesis by (simp add: proto_keys_def)
qed

text \<open>A payment on one chain finds only an order on that chain: the invoice that is found names the
  network and the address, its signed record attests that address, and when nothing is found no
  stored invoice names them.\<close>

theorem invoice_lookup_by_chain:
  assumes "shape_ok s" and "address \<noteq> []" and "network \<noteq> []"
  shows "case fst (invoiceByAddress address network s) of
      Inr (Some i) \<Rightarrow> i \<in> set (ovalues (invoices s)) \<and> iv_network i = Str network \<and>
        fld (iv_address_record i) ''address'' = Str address \<and> network \<in> {''bitcoin'', ''testnet4''}
    | Inr None \<Rightarrow> \<not> (\<exists>i \<in> set (ovalues (invoices s)). iv_address i = Str address \<and> iv_network i = Str network)
    | Inl e \<Rightarrow> False"
proof (cases "find (\<lambda>i. iv_address i = Str address \<and> iv_network i = Str network) (ovalues (invoices s))")
  case None
  have "\<not> (\<exists>i \<in> set (ovalues (invoices s)). iv_address i = Str address \<and> iv_network i = Str network)"
    using None by (auto simp: find_None_iff)
  with assms(2,3) show ?thesis by (simp add: invoiceByAddress_def None)
next
  case (Some i)
  then have i: "i \<in> set (ovalues (invoices s))" "iv_address i = Str address" "iv_network i = Str network"
    by (auto simp: find_Some_iff)
  from i(1) assms(1) obtain k where "invoice_ok k i"
    by (auto simp: ovalues_def shape_ok_def)
  with i Some assms(2,3) show ?thesis by (auto simp: invoiceByAddress_def invoice_ok_def)
qed

definition demo_invoice :: "string \<Rightarrow> string \<Rightarrow> invoice" where
  "demo_invoice k network =
     \<lparr>iv_id = Str k, iv_network = Str network, iv_status = ''awaiting_payment'',
      iv_address_record = Obj [(''address'', Str ''tb1q''), (''signed'', Str ''c2ln'')], iv_address = Str ''tb1q'',
      iv_amount_sats = Num 5000, iv_rate_usd = 60000, iv_rate_at = Some (Instant 10), iv_paymentCode = None,
      iv_created_at = Some (Instant 20), iv_details = Null\<rparr>"

definition demo_shape :: shape where
  "demo_shape = EMPTY_SHAPE\<lparr>invoices := [(''a'', demo_invoice ''a'' ''testnet4''), (''b'', demo_invoice ''b'' ''bitcoin'')]\<rparr>"

lemma demo_shape_ok: "shape_ok demo_shape"
  by (simp add: shape_ok_def demo_shape_def EMPTY_SHAPE_def wf_obj_def invoice_ok_def demo_invoice_def
      oread_def RATE_MAX_AGE_MS_def)

theorem invoice_lookup_by_chain_witness:
  "\<exists>i. fst (invoiceByAddress ''tb1q'' ''bitcoin'' demo_shape) = Inr (Some i) \<and> iv_id i = Str ''b'' \<and>
     iv_network i = Str ''bitcoin''"
proof -
  have f: "fst (invoiceByAddress ''tb1q'' ''bitcoin'' demo_shape) = Inr (Some (demo_invoice ''b'' ''bitcoin''))"
    by (simp add: invoiceByAddress_def demo_shape_def EMPTY_SHAPE_def ovalues_def demo_invoice_def)
  with invoice_lookup_by_chain [OF demo_shape_ok, of "''tb1q''" "''bitcoin''"] show ?thesis
    by (simp add: demo_invoice_def)
qed

text \<open>Whatever a record read from the file carries (the older single payment code, entries that are no text,
  repeated or empty codes), normalising it gives a list of distinct non-empty texts and no older field, and a
  normalised record is its own normal form.\<close>

theorem submission_normal_form:
  "(\<exists>cs. sb_codes (normaliseSubmission rec) = Some (map Str cs) \<and> distinct cs \<and> [] \<notin> set cs)
   \<and> sb_code (normaliseSubmission rec) = None
   \<and> normaliseSubmission (normaliseSubmission rec) = normaliseSubmission rec"
proof -
  obtain cs where cs: "sb_codes (normaliseSubmission rec) = Some (map Str cs)" "distinct cs" "[] \<notin> set cs"
    using normalise_codes by blast
  have code: "sb_code (normaliseSubmission rec) = None" by (simp add: normaliseSubmission_def)
  from normalise_again [OF cs code] cs code show ?thesis by blast
qed

end
