(* ===== verification/CryptoProps.thy ===== *)
theory CryptoProps
  imports Crypto "HOL-Library.Multiset"
begin

text \<open>
  What the readers and verifiers of signed blocks guarantee: the comparison of payloads is the comparison
  of the data they hold, a block is read back from its text, a repaired block passes the later audits, and
  each verifier accepts exactly what it says.
\<close>

section \<open>Payloads are compared as data\<close>

text \<open>The data of a value: the members of every object in the order of their names.\<close>

fun canon :: "val \<Rightarrow> val" where
  "canon (Arr xs) = Arr (map canon xs)"
| "canon (Obj m) = Obj (sort_key fst (map (\<lambda>p. (fst p, canon (snd p))) m))"
| "canon v = v"

abbreviation on_snd :: "('b \<Rightarrow> 'c) \<Rightarrow> 'a \<times> 'b \<Rightarrow> 'a \<times> 'c" where
  "on_snd f \<equiv> \<lambda>p. (fst p, f (snd p))"

lemma insort_on_snd: "insort_key fst (on_snd f p) (map (on_snd f) xs) = map (on_snd f) (insort_key fst p xs)"
  by (induction xs) auto

lemma sort_key_on_snd: "sort_key fst (map (on_snd f) m) = map (on_snd f) (sort_key fst m)"
  by (induction m) (simp_all only: list.map sort_key_simps insort_on_snd)

lemma map_fst_on_snd [simp]: "map fst (map (on_snd f) m) = map fst m"
  by simp

lemma distinct_fst_sort: "distinct (map fst (sort_key fst m)) \<longleftrightarrow> distinct (map fst m)"
  by (metis mset_map mset_sort mset_eq_imp_distinct_iff)

lemma clean_canon: "clean v \<Longrightarrow> clean (canon v)"
proof (induction v)
  case (Obj m)
  have "clean (canon b)" if "(a, b) \<in> set m" for a b
    using Obj.IH [OF that, of b] Obj.prems that by (auto simp: list_all_iff)
  moreover have "distinct (map fst (sort_key fst (map (on_snd canon) m)))"
    using Obj.prems by (simp add: distinct_fst_sort comp_def)
  ultimately show ?case by (auto simp: list_all_iff)
qed (auto simp: list_all_iff)

lemma stable_canon: "clean v \<Longrightarrow> stableStringify v = written (canon v)"
proof (induction v)
  case (Arr xs)
  then have "list_all clean (map canon xs)" by (auto simp: list_all_iff intro: clean_canon)
  moreover have "map stableStringify xs = map written (map canon xs)"
    using Arr by (auto simp: list_all_iff)
  ultimately show ?case by (simp add: written_Arr del: map_map)
next
  case (Obj m)
  have c: "clean (canon (Obj m))" using Obj.prems by (rule clean_canon)
  have "stableStringify (snd p) = written (canon (snd p))" if "p \<in> set m" for p
    using Obj.IH [of p "snd p"] Obj.prems that by (cases p) (auto simp: list_all_iff)
  then have "map (on_snd stableStringify) m = map (on_snd written) (map (on_snd canon) m)"
    by simp
  then have "sort_key fst (map (on_snd stableStringify) m) =
      map (on_snd written) (sort_key fst (map (on_snd canon) m))"
    by (simp only: sort_key_on_snd)
  then have "map (\<lambda>p. json_quote (fst p) @ '':'' @ snd p) (sort_key fst (map (on_snd stableStringify) m)) =
      map member_text (sort_key fst (map (on_snd canon) m))"
    by (simp add: member_text_def comp_def)
  then show ?case using c by (simp add: written_Obj)
qed (auto simp: written_def)

lemma stableStringify_reads: "clean v \<Longrightarrow> json_parse (stableStringify v) = Some (canon v)"
  by (simp add: stable_canon json_parse_written clean_canon)

text \<open>The same data: arrays element by element, objects member by member, whatever the order.\<close>

fun same_data :: "val \<Rightarrow> val \<Rightarrow> bool" where
  "same_data (Arr xs) w = (case w of Arr ys \<Rightarrow> list_all2 same_data xs ys | _ \<Rightarrow> False)"
| "same_data (Obj m) w =
     (case w of
        Obj n \<Rightarrow> fst ` set m = fst ` set n \<and>
          (\<forall>p \<in> set m. \<forall>q \<in> set n. fst p = fst q \<longrightarrow> same_data (snd p) (snd q))
      | _ \<Rightarrow> False)"
| "same_data v w = (v = w)"

lemma sort_key_eq_iff:
  assumes "distinct (map fst m)" and "distinct (map fst n)"
  shows "sort_key fst m = sort_key fst n \<longleftrightarrow> set m = set n"
proof
  assume "sort_key fst m = sort_key fst n"
  then show "set m = set n" by (metis set_sort)
next
  assume "set m = set n"
  with assms show "sort_key fst m = sort_key fst n"
    by (intro map_sorted_distinct_set_unique [where f = fst]) (simp_all add: distinct_fst_sort distinct_map)
qed

lemma on_snd_image_sub:
  assumes "\<forall>p \<in> set m. \<forall>q \<in> set n. fst p = fst q \<longrightarrow> f (snd p) = f (snd q)" and "fst ` set m \<subseteq> fst ` set n"
  shows "on_snd f ` set m \<subseteq> on_snd f ` set n"
proof
  fix x assume "x \<in> on_snd f ` set m"
  then obtain p where p: "p \<in> set m" "x = on_snd f p" by blast
  then have "fst p \<in> fst ` set n" using assms(2) by blast
  then obtain q where "q \<in> set n" "fst q = fst p" by force
  with p assms(1) have "x = on_snd f q" by simp
  with \<open>q \<in> set n\<close> show "x \<in> on_snd f ` set n" by blast
qed

lemma on_snd_image_eq:
  assumes "distinct (map fst m)" and "distinct (map fst n)"
  shows "on_snd f ` set m = on_snd f ` set n \<longleftrightarrow>
    fst ` set m = fst ` set n \<and> (\<forall>p \<in> set m. \<forall>q \<in> set n. fst p = fst q \<longrightarrow> f (snd p) = f (snd q))"
proof
  assume eq: "on_snd f ` set m = on_snd f ` set n"
  then have "fst ` on_snd f ` set m = fst ` on_snd f ` set n" by simp
  then have "fst ` set m = fst ` set n" by (simp add: image_image)
  moreover have "f (snd p) = f (snd q)" if "p \<in> set m" "q \<in> set n" "fst p = fst q" for p q
  proof -
    from that eq have "on_snd f p \<in> on_snd f ` set n" by blast
    then obtain q' where q: "q' \<in> set n" "fst p = fst q'" "f (snd p) = f (snd q')" by auto
    moreover from assms(2) have "inj_on fst (set n)" by (simp add: distinct_map)
    ultimately have "q' = q" using that by (intro inj_onD [of fst "set n"]) simp_all
    with q show ?thesis by simp
  qed
  ultimately show "fst ` set m = fst ` set n \<and>
      (\<forall>p \<in> set m. \<forall>q \<in> set n. fst p = fst q \<longrightarrow> f (snd p) = f (snd q))" by blast
next
  assume r: "fst ` set m = fst ` set n \<and> (\<forall>p \<in> set m. \<forall>q \<in> set n. fst p = fst q \<longrightarrow> f (snd p) = f (snd q))"
  then have "on_snd f ` set m \<subseteq> on_snd f ` set n" by (intro on_snd_image_sub) auto
  moreover from r have "on_snd f ` set n \<subseteq> on_snd f ` set m"
    by (intro on_snd_image_sub) (metis, blast)
  ultimately show "on_snd f ` set m = on_snd f ` set n" by blast
qed

lemma canon_eq_iff: "clean v \<Longrightarrow> clean w \<Longrightarrow> canon v = canon w \<longleftrightarrow> same_data v w"
proof (induction v arbitrary: w)
  case (Arr xs)
  show ?case
  proof (cases w)
    case w: (Arr ys)
    have "map canon xs = map canon ys \<longleftrightarrow> list_all2 same_data xs ys"
      unfolding list_all2_conv_all_nth list_eq_iff_nth_eq
      using Arr.IH Arr.prems w by (auto simp: list_all_length)
    with w show ?thesis by simp
  qed auto
next
  case (Obj m)
  show ?case
  proof (cases w)
    case w: (Obj n)
    have d: "distinct (map fst m)" "distinct (map fst n)" using Obj.prems w by simp_all
    have "canon (snd p) = canon (snd q) \<longleftrightarrow> same_data (snd p) (snd q)" if "p \<in> set m" "q \<in> set n" for p q
      using Obj.IH [of p "snd p" "snd q"] Obj.prems w that by (cases p) (auto simp: list_all_iff)
    then have "on_snd canon ` set m = on_snd canon ` set n \<longleftrightarrow> same_data (Obj m) w"
      using w d by (auto simp: on_snd_image_eq)
    then show ?thesis
      using d w sort_key_eq_iff [of "map (on_snd canon) m" "map (on_snd canon) n"] by (simp add: comp_def)
  qed auto
qed (case_tac w; simp)+

section \<open>Reading a block\<close>

text \<open>A text without line breaks is not found across one.\<close>

lemma prefix_before_newline: "newline \<notin> set p \<Longrightarrow> prefix p (v @ newline # s) \<longleftrightarrow> prefix p v"
proof (induction p arbitrary: v)
  case (Cons c p)
  then show ?case by (cases v) auto
qed simp

lemma sublist_newline:
  "newline \<notin> set p \<Longrightarrow> p \<noteq> [] \<Longrightarrow> sublist p (u @ newline # v) \<longleftrightarrow> sublist p u \<or> sublist p v"
proof (induction u)
  case Nil
  then have "\<not> prefix p (newline # v)" by (cases p) auto
  with Nil show ?case by (simp add: sublist_Cons_right)
next
  case (Cons c u)
  then show ?case
    using prefix_before_newline [of p "c # u" v] by (auto simp: sublist_Cons_right)
qed

text \<open>A search passes over what cannot match.\<close>

lemma search_skip:
  "(\<And>v. v \<noteq> [] \<Longrightarrow> suffix v u \<Longrightarrow> f (v @ s) = None) \<Longrightarrow> search f (u @ s) = search f s"
proof (induction u)
  case (Cons c u)
  have "search f (u @ s) = search f s"
    using Cons.prems by (intro Cons.IH) (auto simp: suffix_Cons)
  moreover have "f ((c # u) @ s) = None" using Cons.prems by blast
  ultimately show ?case by simp
qed simp

lemma search_skip_word:
  assumes "newline \<notin> set p" and "p \<noteq> []" and "\<not> sublist p u" and "\<And>s. \<not> prefix p s \<Longrightarrow> f s = None"
  shows "search f (u @ newline # s) = search f s"
proof -
  have "search f (u @ newline # s) = search f (newline # s)"
  proof (rule search_skip, rule assms(4))
    fix v assume "v \<noteq> []" "suffix v u"
    then have "\<not> prefix p v" using assms(3) by (metis prefix_imp_sublist sublist_order.order_trans suffix_imp_sublist)
    then show "\<not> prefix p (v @ newline # s)" by (simp add: prefix_before_newline assms(1))
  qed
  moreover have "f (newline # s) = None" using assms(1,2) by (intro assms(4)) (cases p; auto)
  ultimately show ?thesis by simp
qed

lemma find_text_first:
  assumes "newline \<notin> set p" and "\<not> sublist (newline # p) m"
  shows "find_text (newline # p) (m @ newline # p @ r) = Some (length m)"
  using assms(2)
proof (induction m)
  case (Cons c m)
  have "\<not> prefix (newline # p) (c # m)" using Cons.prems by (auto simp: sublist_Cons_right)
  then have "\<not> prefix (newline # p) (c # m @ newline # p @ r)"
    using prefix_before_newline [OF assms(1), of m "p @ r"] by auto
  with Cons show ?case by (auto simp: sublist_Cons_right)
qed simp

definition end_of_signature :: string where
  "end_of_signature = ''-----END BITCOIN SIGNATURE''"

lemma b64_facts: "is_b64 c \<Longrightarrow> c \<noteq> newline \<and> c \<noteq> CHR ''-'' \<and> c \<noteq> CHR 0x0D \<and> \<not> is_ws c"
  by (auto simp: is_b64_def is_ws_def is_digit_def Let_def)

lemma signature_elsewhere:
  assumes eq: "x @ newline # sig @ newline # end_of_signature @ r = w @ replicate k newline @ end_of_signature @ t"
    and "list_all is_b64 w" and "list_all is_b64 sig" and "sig \<noteq> []" and "\<not> sublist end_of_signature x"
  shows False
proof -
  let ?L = "x @ newline # sig @ newline # end_of_signature @ r" and ?j = "length w + k"
  have no_nl: "newline \<notin> set end_of_signature" and hd: "end_of_signature ! 0 = CHR ''-''"
    and ne: "0 < length end_of_signature" by (simp_all add: end_of_signature_def)
  have E: "?L ! (?j + i) = end_of_signature ! i" if "i < length end_of_signature" for i
    using that by (simp add: eq nth_append)
  have W: "is_b64 (?L ! i)" if "i < length w" for i
    using that assms(2) by (simp add: eq nth_append list_all_length)
  have N: "?L ! i = newline" if "length w \<le> i" "i < ?j" for i
    using that less_diff_conv2 [OF that(1), of k] by (simp add: eq nth_append add.commute)
  have x: "?L ! length x = newline" by (simp add: nth_append)
  have s: "?L ! (length x + 1 + i) = sig ! i" if "i < length sig" for i
    using that by (simp add: nth_append)
  consider "?j + length end_of_signature \<le> length x" | "?j \<le> length x" "length x < ?j + length end_of_signature"
    | "length x < ?j" "?j \<le> length x + length sig" | "length x + length sig < ?j" by linarith
  then show False
  proof cases
    case 1
    have "take (length end_of_signature) (drop ?j ?L) = end_of_signature" by (simp add: eq)
    moreover from 1 have "take (length end_of_signature) (drop ?j ?L) = take (length end_of_signature) (drop ?j x)" by simp
    ultimately show False using assms(5) by (metis sublist_drop sublist_order.order_trans sublist_take)
  next
    case 2
    then have "?L ! length x = end_of_signature ! (length x - ?j)" using E [of "length x - ?j"] by simp
    with x no_nl 2 show False by (metis add.commute less_diff_conv2 nth_mem)
  next
    case 3
    define i where "i = ?j - length x - 1"
    from 3 have i: "length x + 1 + i = ?j" "i < length sig" by (auto simp: i_def)
    have "?L ! ?j = sig ! i" using s [OF i(2)] by (simp only: i(1))
    then have "is_b64 (?L ! ?j)" using i(2) assms(3) by (simp add: list_all_length)
    then show False using E [of 0] hd ne b64_facts by auto
  next
    case 4
    have "length w \<le> length x" using W [of "length x"] x b64_facts by (metis not_le)
    moreover have "0 < length sig" using assms(4) by simp
    moreover from this 4 have "length x + 1 + 0 < ?j" by linarith
    ultimately have "?L ! (length x + 1 + 0) = newline" by (intro N) linarith+
    with s [of 0] \<open>0 < length sig\<close> assms(3) show False using b64_facts by (auto simp: list_all_length)
  qed
qed

text \<open>What a block can carry so that the patterns find its parts again.\<close>

definition block_message :: "string \<Rightarrow> bool" where
  "block_message m \<longleftrightarrow> CHR 0x0D \<notin> set m \<and> \<not> has_text end_of_message m \<and> \<not> has_text ''Address:'' m
     \<and> \<not> has_text end_of_signature m"

definition block_address :: "string \<Rightarrow> bool" where
  "block_address a \<longleftrightarrow> a \<noteq> [] \<and> list_all (\<lambda>c. \<not> is_ws c) a \<and> \<not> has_text end_of_signature a"

definition block_signature :: "string \<Rightarrow> bool" where
  "block_signature s \<longleftrightarrow> 80 \<le> length s \<and> list_all is_b64 s"

lemma unix_lines_block:
  assumes "block_message m" and "block_address a" and "block_signature s"
  shows "unix_lines (signed_block m a s) = signed_block m a s"
proof (rule unix_lines_id)
  have "CHR 0x0D \<notin> set m" using assms(1) by (simp add: block_message_def)
  moreover have "CHR 0x0D \<notin> set a" using assms(2) by (auto simp: block_address_def list_all_iff is_ws_def)
  moreover have "CHR 0x0D \<notin> set s" using assms(3) b64_facts by (auto simp: block_signature_def list_all_iff)
  ultimately show "CHR 0x0D \<notin> set (signed_block m a s)" by (simp add: signed_block_def)
qed

lemma up_to_message: "block_message m \<Longrightarrow> up_to end_of_message (m @ newline # ''-----BEGIN BITCOIN SIGNATURE'' @ r) = Some m"
  using find_text_first [of "''-----BEGIN BITCOIN SIGNATURE''" m r]
  by (simp add: up_to_def end_of_message_def block_message_def has_text_sublist)

lemma search_here: "f s = Some x \<Longrightarrow> search f s = Some x"
  by (cases s) simp_all

definition block_rest :: "string \<Rightarrow> string \<Rightarrow> string" where
  "block_rest a s = ''-----'' @ newline # ''Version: Bitcoin-qt (1.0)'' @
     newline # ''Address: '' @ a @ newline # newline # s @ newline # end_of_signature @ ''-----''"

lemma signed_block_parts:
  "signed_block m a s = ''-----BEGIN BITCOIN SIGNED MESSAGE-----'' @ newline # m @
     newline # ''-----BEGIN BITCOIN SIGNATURE'' @ block_rest a s"
  by (simp add: signed_block_def block_rest_def end_of_signature_def)

lemma messages_of_block:
  assumes "block_message m"
  shows "strict_message (signed_block m a s) = Some m" and "loose_message (signed_block m a s) = Some m"
    and "inner_message (signed_block m a s) = Some m"
proof -
  note [simp] = up_to_message [OF assms, simplified]
  show "strict_message (signed_block m a s) = Some m"
    by (simp add: strict_message_def signed_block_parts drop_text_def search_here is_blank_def Let_def)
  show "loose_message (signed_block m a s) = Some m"
    by (simp add: loose_message_def signed_block_parts drop_text_def search_here is_blank_def Let_def)
  show "inner_message (signed_block m a s) = Some m"
    by (simp add: inner_message_def signed_block_parts drop_text_def search_here is_blank_def Let_def)
qed

lemma dropWhile_stop: "xs \<noteq> [] \<Longrightarrow> \<not> P (hd xs) \<Longrightarrow> dropWhile P (xs @ ys) = xs @ ys"
  by (cases xs) auto

lemma takeWhile_stop: "list_all P xs \<Longrightarrow> \<not> P y \<Longrightarrow> takeWhile P (xs @ y # ys) = xs"
  by (simp add: list_all_iff takeWhile_append2)

lemma dropWhile_all: "list_all P xs \<Longrightarrow> \<not> P y \<Longrightarrow> dropWhile P (xs @ y # ys) = y # ys"
  by (simp add: list_all_iff dropWhile_append2)

lemma drop_text_None: "\<not> prefix p s \<Longrightarrow> drop_text p s = None"
  by (simp add: drop_text_def)

lemma address_of_block:
  assumes "block_message m" and "block_address a"
  shows "address_line (signed_block m a s) = Some a"
proof -
  define f where "f = (\<lambda>s. case drop_text ''Address:'' s of
     Some r \<Rightarrow> (let w = takeWhile (\<lambda>c. \<not> is_ws c) (trim_start r) in if w = [] then None else Some w)
   | None \<Rightarrow> None)"
  have skip: "search f (u @ newline # s) = search f s" if "\<not> sublist ''Address:'' u" for u s
    using that by (intro search_skip_word [where p = "''Address:''"]) (simp_all add: f_def drop_text_None)
  have a: "a \<noteq> []" "\<not> is_ws (hd a)" "list_all (\<lambda>c. \<not> is_ws c) a"
    using assms(2) by (cases a; simp add: block_address_def)+
  have "f (''Address: '' @ a @ newline # r) = Some a" for r
    using a(1,2) takeWhile_stop [OF a(3), of newline r]
    by (simp add: f_def drop_text_def trim_start_def dropWhile_stop is_ws_def Let_def)
  then have "search f (''Address: '' @ a @ newline # r) = Some a" for r by (rule search_here)
  moreover have "\<not> sublist ''Address:'' m" using assms(1) by (simp add: block_message_def has_text_sublist)
  moreover have "\<not> sublist ''Address:'' ''-----BEGIN BITCOIN SIGNED MESSAGE-----''"
      "\<not> sublist ''Address:'' ''-----BEGIN BITCOIN SIGNATURE-----''"
      "\<not> sublist ''Address:'' ''Version: Bitcoin-qt (1.0)''"
    by (simp_all add: sublist_Cons_right)
  ultimately have "search f (signed_block m a s) = Some a"
    unfolding signed_block_def by (simp only: skip not_False_eq_True)
  then show ?thesis by (simp only: address_line_def f_def)
qed

text \<open>The search for the signature passes over a text without the closing marker.\<close>

lemma signature_found:
  assumes sig: "block_signature sig" and x: "\<not> sublist end_of_signature x"
    and gap: "\<And>u v. gap u = Some v \<Longrightarrow> \<exists>k. u = replicate k newline @ v"
    and own: "gap (newline # end_of_signature @ r) = Some (end_of_signature @ r)"
  shows "signature_before gap (x @ newline # sig @ newline # end_of_signature @ r) = Some sig"
proof -
  define f where "f = (\<lambda>s. case drop_text [newline] s of
     Some r \<Rightarrow> (let w = takeWhile is_b64 r in
       case gap (dropWhile is_b64 r) of
         Some u \<Rightarrow> if 80 \<le> length w \<and> prefix ''-----END BITCOIN SIGNATURE'' u then Some w else None
       | None \<Rightarrow> None)
   | None \<Rightarrow> None)"
  let ?s = "newline # sig @ newline # end_of_signature @ r"
  have sig': "80 \<le> length sig" "list_all is_b64 sig" "sig \<noteq> []" using sig by (auto simp: block_signature_def)
  have nl: "\<not> is_b64 newline" using b64_facts by blast
  have "search f (x @ ?s) = search f ?s"
  proof (rule search_skip)
    fix v assume v: "v \<noteq> []" "suffix v x"
    show "f (v @ ?s) = None"
    proof (rule ccontr)
      assume "f (v @ ?s) \<noteq> None"
      then obtain x' u where x': "v = newline # x'" and u: "gap (dropWhile is_b64 (x' @ ?s)) = Some u"
          "prefix end_of_signature u"
        using v(1) by (cases v) (auto simp: f_def end_of_signature_def Let_def split: option.splits if_splits)
      from gap [OF u(1)] u(2) obtain k t where
        "dropWhile is_b64 (x' @ ?s) = replicate k newline @ end_of_signature @ t" by (auto simp: prefix_def)
      then have "x' @ ?s = takeWhile is_b64 (x' @ ?s) @ replicate k newline @ end_of_signature @ t"
        by (metis takeWhile_dropWhile_id)
      moreover have "list_all is_b64 (takeWhile is_b64 (x' @ ?s))"
        unfolding list_all_iff by (blast dest: set_takeWhileD)
      moreover have "\<not> sublist end_of_signature x'"
        using x v(2) x' by (metis suffix_ConsI suffix_imp_sublist suffix_order.order_refl sublist_order.order_trans)
      ultimately show False using sig' signature_elsewhere by blast
    qed
  qed
  moreover have "f ?s = Some sig"
    using sig' takeWhile_stop [OF sig'(2) nl] dropWhile_all [OF sig'(2) nl] own
    by (simp add: f_def end_of_signature_def)
  then have "search f ?s = Some sig" by (rule search_here)
  ultimately show ?thesis by (simp only: signature_before_def f_def)
qed

lemma signatures_of_block:
  assumes "block_message m" and "block_address a" and "block_signature s"
  shows "strict_signature (signed_block m a s) = Some s" and "loose_signature (signed_block m a s) = Some s"
proof -
  define x where "x = ''-----BEGIN BITCOIN SIGNED MESSAGE-----'' @ newline # m @
     newline # ''-----BEGIN BITCOIN SIGNATURE-----'' @ newline # ''Version: Bitcoin-qt (1.0)'' @
     newline # (''Address: '' @ a) @ newline # []"
  have E: "newline \<notin> set end_of_signature" "end_of_signature \<noteq> []" by (simp_all add: end_of_signature_def)
  have "\<not> sublist end_of_signature m" "\<not> sublist end_of_signature a"
    using assms by (simp_all add: block_message_def block_address_def has_text_sublist)
  moreover from this(2) have "\<not> sublist end_of_signature (''Address: '' @ a)"
    by (simp add: sublist_Cons_right end_of_signature_def)
  moreover have "\<not> sublist end_of_signature ''-----BEGIN BITCOIN SIGNED MESSAGE-----''"
      "\<not> sublist end_of_signature ''-----BEGIN BITCOIN SIGNATURE-----''"
      "\<not> sublist end_of_signature ''Version: Bitcoin-qt (1.0)''" "\<not> sublist end_of_signature []"
    by (simp_all add: sublist_Cons_right end_of_signature_def)
  ultimately have x: "\<not> sublist end_of_signature x"
    unfolding x_def by (simp only: sublist_newline [OF E] not_False_eq_True simp_thms)
  have block: "signed_block m a s = x @ newline # s @ newline # end_of_signature @ ''-----''"
    by (simp add: signed_block_def x_def end_of_signature_def)
  show "strict_signature (signed_block m a s) = Some s"
    unfolding strict_signature_def block
  proof (rule signature_found [OF assms(3) x])
    show "\<exists>k. u = replicate k newline @ v" if "drop_text [newline] u = Some v" for u v
      using that by (intro exI [of _ 1]) (auto simp: drop_text_def prefix_def split: if_splits)
  qed (simp add: drop_text_def)
  show "loose_signature (signed_block m a s) = Some s"
    unfolding loose_signature_def block
  proof (rule signature_found [OF assms(3) x])
    show "\<exists>k. u = replicate k newline @ v" if "Some (dropWhile (\<lambda>c. c = newline) u) = Some v" for u v
    proof -
      have "u = takeWhile (\<lambda>c. c = newline) u @ v" using that by (metis option.inject takeWhile_dropWhile_id)
      moreover have "takeWhile (\<lambda>c. c = newline) u = replicate (length (takeWhile (\<lambda>c. c = newline) u)) newline"
        by (rule replicate_length_same [symmetric]) (auto dest: set_takeWhileD)
      ultimately show ?thesis by metis
    qed
  qed (simp add: end_of_signature_def)
qed

lemma trim_word: "list_all (\<lambda>c. \<not> is_ws c) w \<Longrightarrow> trim w = w"
  by (rule trim_id) (cases "w = []", auto simp: list_all_iff)

lemma trim_signature: "block_signature s \<Longrightarrow> trim s = s"
  by (rule trim_word) (auto simp: block_signature_def list_all_iff dest: b64_facts)


section \<open>Claims\<close>

definition payment_code :: "string \<Rightarrow> bool" where
  "payment_code c \<longleftrightarrow> prefix ''PM8T'' c \<and> 4 < length c \<and> list_all is_b58 c"

lemma b58_facts: "is_b58 c \<Longrightarrow> c \<noteq> newline \<and> c \<noteq> CHR '':'' \<and> c \<noteq> CHR 0x0D \<and> c \<noteq> CHR ''-'' \<and> \<not> is_ws c"
  by (auto simp: is_b58_def is_ws_def Let_def)

lemma payment_code_split:
  assumes "payment_code c"
  obtains w where "c = ''PM8T'' @ w" and "w \<noteq> []" and "list_all is_b58 w"
proof -
  from assms obtain w where "c = ''PM8T'' @ w" by (auto simp: payment_code_def prefix_def)
  with assms that show ?thesis by (auto simp: payment_code_def)
qed

lemma code_here_code:
  assumes "payment_code c" and "g = [] \<or> g = '' '' \<or> g = [newline]"
  shows "code_here (''BIP47:'' @ g @ c) = Some c"
proof -
  from assms(1) obtain w where w: "c = ''PM8T'' @ w" "w \<noteq> []" "list_all is_b58 w" by (rule payment_code_split)
  have t: "takeWhile is_b58 w = w" using w(3) by (simp add: list_all_iff)
  have "trim_start (g @ c) = c" using assms(2) by (auto simp: w(1) trim_start_def is_ws_def)
  then show ?thesis using w by (simp add: code_here_def drop_text_def Let_def t)
qed

lemma code_line_after:
  assumes "payment_code c" and "\<not> sublist ''BIP47:'' u" and "g = [] \<or> g = '' '' \<or> g = [newline]"
  shows "code_line (u @ newline # ''BIP47:'' @ g @ c) = Some c"
proof -
  have "search code_here (u @ newline # ''BIP47:'' @ g @ c) = search code_here (''BIP47:'' @ g @ c)"
    using assms(2) by (intro search_skip_word [where p = "''BIP47:''"]) (simp_all add: code_here_def drop_text_None)
  also have "\<dots> = Some c" by (rule search_here) (rule code_here_code [OF assms(1,3)])
  finally show ?thesis by (simp add: code_line_def)
qed

text \<open>An address that can be claimed: one line that does not look like a part of a block.\<close>

definition claimable :: "string \<Rightarrow> bool" where
  "claimable u \<longleftrightarrow> u \<noteq> [] \<and> \<not> is_ws (hd u) \<and> \<not> is_ws (last u) \<and> newline \<notin> set u \<and> CHR 0x0D \<notin> set u
     \<and> \<not> has_text ''BIP47:'' u \<and> \<not> has_text ''Address:'' u \<and> \<not> has_text end_of_signature u"

lemma strip_end_snoc [simp]: "strip_end c (s @ [c]) = strip_end c s"
  by (simp add: strip_end_def)

lemma strip_end_idem [simp]: "strip_end c (strip_end c s) = strip_end c s"
  by (simp add: strip_end_def)

lemma strip_end_last: "s \<noteq> [] \<Longrightarrow> last s \<noteq> c \<Longrightarrow> strip_end c s = s"
  by (cases s rule: rev_cases) (simp_all add: strip_end_def)

lemma strip_end_split: "\<exists>k. s = strip_end c s @ replicate k c"
proof -
  have "rev s = takeWhile (\<lambda>x. x = c) (rev s) @ dropWhile (\<lambda>x. x = c) (rev s)" by simp
  moreover have "takeWhile (\<lambda>x. x = c) (rev s) = replicate (length (takeWhile (\<lambda>x. x = c) (rev s))) c"
    by (rule replicate_length_same [symmetric]) (auto dest: set_takeWhileD)
  ultimately have "rev s = replicate (length (takeWhile (\<lambda>x. x = c) (rev s))) c @ rev (strip_end c s)"
    by (simp add: strip_end_def)
  then show ?thesis by (metis rev_append rev_replicate rev_rev_ident)
qed

lemma strip_end_prefix: "prefix (strip_end c s) s"
  using strip_end_split [of s c] by (auto simp: prefix_def)

lemma split_on_line: "d \<notin> set l \<Longrightarrow> split_on d (l @ d # r) = l # split_on d r"
  by (induction l) auto

lemma sublist_prefix: "\<not> sublist p s \<Longrightarrow> prefix q s \<Longrightarrow> \<not> sublist p q"
  by (metis prefix_imp_sublist sublist_order.order_trans)

lemma sublist_snoc_other: "\<not> sublist p s \<Longrightarrow> c \<notin> set p \<Longrightarrow> \<not> sublist p (s @ [c])"
proof (induction s)
  case Nil
  then show ?case by (cases p) (auto simp: sublist_Cons_right)
next
  case (Cons d s)
  have "prefix p (d # s @ [c]) \<Longrightarrow> prefix p (d # s)"
    using Cons.prems(2) prefix_snoc [of p "d # s" c] by (cases p rule: rev_cases) auto
  with Cons show ?case by (auto simp: sublist_Cons_right)
qed

lemma claim_line:
  assumes "claimable u"
  defines "l \<equiv> strip_end (CHR ''/'') u @ ''/''"
  shows "newline \<notin> set l" and "CHR 0x0D \<notin> set l" and "\<not> sublist ''BIP47:'' l" and "\<not> sublist ''Address:'' l"
    and "\<not> sublist end_of_signature l" and "trim l = l" and "norm_claim l = norm_claim u"
proof -
  have p: "prefix (strip_end (CHR ''/'') u) u" by (rule strip_end_prefix)
  then have sub: "set (strip_end (CHR ''/'') u) \<subseteq> set u" by (rule set_mono_prefix)
  show "newline \<notin> set l" "CHR 0x0D \<notin> set l" using assms sub by (auto simp: claimable_def)
  have word: "\<not> sublist w l" if "\<not> sublist w u" "CHR ''/'' \<notin> set w" for w
    unfolding l_def by (intro sublist_snoc_other sublist_prefix [OF that(1) p] that(2))
  show "\<not> sublist ''BIP47:'' l" "\<not> sublist ''Address:'' l" "\<not> sublist end_of_signature l"
    using assms(1) by (intro word; simp add: claimable_def has_text_sublist end_of_signature_def)+
  have "\<not> is_ws (hd l)"
  proof (cases "strip_end (CHR ''/'') u")
    case Nil
    then show ?thesis by (simp add: l_def is_ws_def)
  next
    case (Cons c cs)
    with p have "hd u = c" by (auto simp: prefix_def)
    with Cons assms show ?thesis by (simp add: l_def claimable_def)
  qed
  then show t: "trim l = l" by (intro trim_id) (simp add: l_def is_ws_def)
  have "trim u = u" using assms by (intro trim_id) (simp add: claimable_def)
  with t show "norm_claim l = norm_claim u" by (simp add: norm_claim_def norm_url_def l_def)
qed

lemma code_clean:
  assumes "payment_code c"
  shows "newline \<notin> set c" and "CHR 0x0D \<notin> set c" and "\<not> sublist ''Address:'' c" and "\<not> sublist end_of_signature c"
proof -
  have c: "\<forall>x \<in> set c. is_b58 x" using assms by (simp add: payment_code_def list_all_iff)
  then show "newline \<notin> set c" "CHR 0x0D \<notin> set c" using b58_facts by blast+
  have sub: "x \<in> set w \<Longrightarrow> \<not> is_b58 x \<Longrightarrow> \<not> sublist w c" for x w
    using c set_mono_sublist by blast
  show "\<not> sublist ''Address:'' c" by (rule sub [of "CHR '':''"]) (simp_all add: is_b58_def)
  show "\<not> sublist end_of_signature c" by (rule sub [of "CHR ''-''"]) (simp_all add: is_b58_def end_of_signature_def)
qed

lemma sublist_newline_word:
  "newline \<notin> set p \<Longrightarrow> sublist (newline # p) (u @ newline # v) \<longleftrightarrow> sublist (newline # p) u \<or> sublist (newline # p) (newline # v)"
proof (induction u)
  case (Cons c u)
  then show ?case
    using prefix_before_newline [of p u v] by (auto simp: sublist_Cons_right)
qed (simp add: sublist_Cons_right)

lemma sublist_skip_line: "newline \<notin> set l \<Longrightarrow> sublist (newline # p) (l @ s) \<longleftrightarrow> sublist (newline # p) s"
  by (induction l) (auto simp: sublist_Cons_right)

lemma no_end_of_message:
  assumes l: "\<not> sublist end_of_message l" and c: "payment_code c" and g: "g = '' '' \<or> g = [newline]"
  shows "\<not> sublist end_of_message (l @ newline # newline # ''BIP47:'' @ g @ c)"
proof -
  define p where "p = ''-----BEGIN BITCOIN SIGNATURE''"
  have E: "end_of_message = newline # p" and p: "newline \<notin> set p" by (simp_all add: end_of_message_def p_def)
  have flat: "\<not> sublist (newline # p) w" if "newline \<notin> set w" for w
    using sublist_skip_line [of w p "[]"] that by simp
  have "\<not> prefix p c" using c by (auto simp: payment_code_def p_def prefix_def)
  then have 1: "\<not> sublist (newline # p) (newline # c)"
    using flat [OF code_clean(1) [OF c]] by (simp add: sublist_Cons_right)
  have "\<not> sublist (newline # p) (''BIP47:'' @ g @ c)"
  proof (cases "g = '' ''")
    case True
    then show ?thesis using code_clean(1) [OF c] by (intro flat) simp
  next
    case False
    with g have "''BIP47:'' @ g @ c = ''BIP47:'' @ newline # c" by simp
    moreover have "\<not> sublist (newline # p) ''BIP47:''" by (rule flat) simp
    ultimately show ?thesis using 1 by (simp only: sublist_newline_word [OF p] simp_thms)
  qed
  moreover have "\<not> prefix (newline # p) (newline # newline # x)" "\<not> prefix (newline # p) (newline # ''BIP47:'' @ x)" for x
    by (simp_all add: p_def)
  ultimately have "\<not> sublist (newline # p) (newline # newline # ''BIP47:'' @ g @ c)"
    by (simp only: sublist_Cons_right [of _ newline] simp_thms)
  with l show ?thesis unfolding E by (simp only: sublist_newline_word [OF p] simp_thms)
qed

lemma claim_message:
  assumes "claimable u" and "payment_code c"
  shows "block_message (claimText u c)" and "strip_end newline (claimText u c) = claimText u c"
    and "norm_claim (first_line (claimText u c)) = norm_claim u" and "code_line (claimText u c) = Some c"
proof -
  define l where "l = strip_end (CHR ''/'') u @ ''/''"
  note l = claim_line [OF assms(1), folded l_def] and c = code_clean [OF assms(2)]
  have t: "claimText u c = l @ newline # newline # ''BIP47: '' @ c" by (simp add: claimText_def l_def)
  have word: "\<not> sublist w (claimText u c)"
    if "newline \<notin> set w" "w \<noteq> []" "\<not> sublist w l" "\<not> sublist w (''BIP47: '' @ c)" for w
  proof -
    have "sublist w (newline # s) \<longleftrightarrow> sublist w s" for s
      using sublist_newline [OF that(1,2), of "[]" s] that(2) by simp
    with that(3,4) show ?thesis unfolding t by (simp only: sublist_newline [OF that(1,2)] simp_thms)
  qed
  have "\<not> sublist ''Address:'' (''BIP47: '' @ c)" using c(3) by (simp add: sublist_Cons_right)
  with l(4) have "\<not> sublist ''Address:'' (claimText u c)" by (intro word) simp_all
  moreover have "\<not> sublist end_of_signature (''BIP47: '' @ c)"
    using c(4) by (simp add: sublist_Cons_right end_of_signature_def)
  with l(5) have "\<not> sublist end_of_signature (claimText u c)" by (intro word) (simp_all add: end_of_signature_def)
  moreover have "\<not> sublist end_of_message l"
    using sublist_skip_line [OF l(1), of "tl end_of_message" "[]"] by (simp add: end_of_message_def)
  ultimately show "block_message (claimText u c)"
    using l(2) c(2) no_end_of_message [of l c "'' ''"] assms(2) by (simp add: block_message_def has_text_sublist t)
  show "strip_end newline (claimText u c) = claimText u c"
    using c(1) assms(2) by (intro strip_end_last) (auto simp: t payment_code_def intro: last_in_set dest: last_in_set)
  show "norm_claim (first_line (claimText u c)) = norm_claim u"
    using l by (simp add: first_line_def t split_on_line)
  show "code_line (claimText u c) = Some c"
    using code_line_after [OF assms(2), of "l @ [newline]" "'' ''"] l(3) by (simp add: t sublist_snoc_other)
qed

text \<open>An address signed as instructed is accepted.\<close>

lemma claim_accepted:
  assumes "claimable url" and "payment_code code" and "block_address a" and "block_signature s"
  shows "verifySignedUrlClaim derive checks (signed_block (claimText url code) a s) url code =
    (if a \<notin> set (notificationAddresses derive code)
     then Refused (Signer_not_accepted a (notificationAddresses derive code))
     else case checks ''bitcoin'' (claimText url code) a s of
         Inl e \<Rightarrow> Refused (Not_verifiable e)
       | Inr v \<Rightarrow> if v then Accepted (Some a) None else Refused Invalid_signature)"
proof -
  note m = claim_message [OF assms(1,2)]
  have "signed_block (claimText url code) a s \<noteq> []" by (simp add: signed_block_def)
  moreover have "code \<noteq> []" using assms(2) by (auto simp: payment_code_def)
  moreover have "trim a = a" using assms(3) by (intro trim_word) (simp add: block_address_def)
  ultimately show ?thesis
    by (simp add: verifySignedUrlClaim_def unix_lines_block [OF m(1) assms(3,4)] messages_of_block [OF m(1)]
      address_of_block [OF m(1) assms(3)] signatures_of_block [OF m(1) assms(3,4)]
      trim_signature [OF assms(4)] m Let_def)
qed

section \<open>Repaired blocks\<close>














lemma json_parse_clean_refl: "same_data v w \<longleftrightarrow> stableStringify v = stableStringify w" if "clean v" "clean w"
proof -
  have "stableStringify v = stableStringify w \<longleftrightarrow> canon v = canon w"
    using stableStringify_reads [OF that(1)] stableStringify_reads [OF that(2)] that
    by (metis option.inject stable_canon)
  then show ?thesis by (simp add: canon_eq_iff that)
qed

section \<open>Properties\<close>

text \<open>The numbers of a value that JavaScript reads exactly: whole ones of at most \<open>2 ^ 53\<close> in size. Of larger
  ones, and of fractions, \<open>JSON.parse\<close> keeps the nearest double, which the model does not round to.\<close>

fun exact_numbers :: "val \<Rightarrow> bool" where
  "exact_numbers (Num r) = (is_integer r \<and> \<bar>r\<bar> \<le> 2 ^ 53)"
| "exact_numbers (Arr xs) = list_all exact_numbers xs"
| "exact_numbers (Obj m) = list_all (\<lambda>p. exact_numbers (snd p)) m"
| "exact_numbers _ = True"

lemma fold_update_entries:
  "distinct (map fst m) \<Longrightarrow> distinct (map fst (fold (\<lambda>p m. AList.update (fst p) (snd p) m) ps m)) \<and>
     set (fold (\<lambda>p m. AList.update (fst p) (snd p) m) ps m) \<subseteq> set m \<union> set ps"
proof (induction ps arbitrary: m)
  case (Cons p ps)
  have sub: "set (AList.update k v xs) \<subseteq> insert (k, v) (set xs)" for k and v :: 'b and xs
    by (induction xs) auto
  from Cons.IH [OF distinct_update [OF Cons.prems, of "fst p" "snd p"]] sub [of "fst p" "snd p" m]
  show ?case by auto
qed simp

text \<open>What the parser reads is clean as soon as its numbers are whole.\<close>

lemma read_value_clean:
  "read_value n s = Some (v, r) \<Longrightarrow> exact_numbers v \<longrightarrow> clean v"
  "read_elements n s = Some (vs, r) \<Longrightarrow> list_all (\<lambda>v. exact_numbers v \<longrightarrow> clean v) vs"
  "read_members n s = Some (ps, r) \<Longrightarrow> list_all (\<lambda>p. exact_numbers (snd p) \<longrightarrow> clean (snd p)) ps"
proof (induction n s and n s and n s arbitrary: v r and vs r and ps r rule: read_value_read_elements_read_members.induct)
  case (2 n s)
  have obj: "exact_numbers (object_of ps) \<longrightarrow> clean (object_of ps)"
    if "list_all (\<lambda>p. exact_numbers (snd p) \<longrightarrow> clean (snd p)) ps" for ps
    using that fold_update_entries [of "[]" ps] by (auto simp: object_of_def list_all_iff)
  have number: "read_number t = Some (v, r) \<Longrightarrow> exact_numbers v \<Longrightarrow> clean v" for t
    by (auto simp: read_number_def Let_def split: prod.splits if_splits)
  show ?case
    using 2 obj by (auto simp: list_all_iff split: list.splits if_splits option.splits dest: number)
next
  case (4 n s)
  then show ?case by (fastforce split: option.splits prod.splits)
next
  case (6 n s)
  then show ?case by (fastforce split: option.splits prod.splits)
qed simp_all

lemma json_parse_clean: "json_parse s = Some v \<Longrightarrow> exact_numbers v \<Longrightarrow> clean v"
  by (auto simp: json_parse_def simp del: read_value.simps split: option.splits if_splits dest: read_value_clean(1))

text \<open>C14: the comparison of a signed payload with a submitted one is the comparison of the data they hold:
  two texts of JSON whose numbers are whole and at most \<open>2 ^ 53\<close> in size are the same payload exactly when
  arrays agree element by element and objects member by member, whatever the order of the members and the
  white space. A text that is not JSON is the same payload as nothing but itself, up to the space around it.\<close>

theorem same_payload_iff:
  assumes "\<And>v. json_parse (trim a) = Some v \<Longrightarrow> exact_numbers v"
    and "\<And>v. json_parse (trim b) = Some v \<Longrightarrow> exact_numbers v"
  shows "sameSignedPayload a b \<longleftrightarrow>
    (case (json_parse (trim a), json_parse (trim b)) of
       (Some v, Some w) \<Rightarrow> same_data v w
     | _ \<Rightarrow> trim a = trim b)"
proof -
  have "sameSignedPayload a b \<longleftrightarrow> same_data v w"
    if p: "json_parse (trim a) = Some v" "json_parse (trim b) = Some w" for v w
  proof -
    have c: "clean v" "clean w" using assms p by (auto intro: json_parse_clean)
    show ?thesis
      using p json_parse_clean_refl [OF c] json_parse_clean_refl [OF c(1) c(1)]
      by (cases "trim a = trim b") (simp_all add: sameSignedPayload_def Let_def)
  qed
  then show ?thesis by (auto simp: sameSignedPayload_def Let_def split: option.splits)
qed

lemma read_string_eqs:
  "read_string (CHR 0x22 # r) = Some ([], r)"
  "c \<noteq> CHR 0x22 \<Longrightarrow> read_string (c # cs) = (case read_char (c # cs) of None \<Rightarrow> None
     | Some (d, r) \<Rightarrow> map_option (\<lambda>(t, r'). (d # t, r')) (read_string r))"
  by (subst read_string.simps, simp)+

lemmas json_eval = json_parse_def skip_ws_def json_ws_def drop_text_def read_string_eqs read_char_def
  read_number_def take_sign_def digits_of_def after_digits_def read_fraction_def read_exponent_def
  is_digit_def digits_val_def digit_val_def object_of_def eval_nat_numeral Let_def

theorem same_payload_iff_witness:
  "sameSignedPayload ('' {'' @ json_quote ''a'' @ '':1, '' @ json_quote ''b'' @ '':null}'')
     (''{'' @ json_quote ''b'' @ '':null,'' @ json_quote ''a'' @ '':1}'')"
proof -
  have a: "json_parse (trim ('' {'' @ json_quote ''a'' @ '':1, '' @ json_quote ''b'' @ '':null}'')) =
      Some (Obj [(''a'', Num 1), (''b'', Null)])"
    by (simp add: trim_def is_ws_def json_quote_def json_char_def json_eval)
  have b: "json_parse (trim (''{'' @ json_quote ''b'' @ '':null,'' @ json_quote ''a'' @ '':1}'')) =
      Some (Obj [(''b'', Null), (''a'', Num 1)])"
    by (simp add: trim_def is_ws_def json_quote_def json_char_def json_eval)
  show ?thesis
    using same_payload_iff [of "'' {'' @ json_quote ''a'' @ '':1, '' @ json_quote ''b'' @ '':null}''"
      "''{'' @ json_quote ''b'' @ '':null,'' @ json_quote ''a'' @ '':1}''"]
    unfolding a b by (simp add: insert_commute is_integer_def)
qed

lemma sample_parts:
  "claimable ''http://op.example/''" "payment_code ''PM8Txyz''" "block_address ''1abc''"
  "block_signature (replicate 80 (CHR ''A''))"
  by (simp_all add: claimable_def payment_code_def block_address_def block_signature_def is_ws_def has_text_def
      end_of_signature_def is_b58_def is_b64_def list_all_iff)

text \<open>An operator who signs an address the way the site asks, with the wallet of the payment code, is
  accepted: whatever the address (one line that does not imitate a part of a block), the verifier reads the
  block back and its own checks of the first line, of the payment code and of the signer pass, so that only the
  cryptographic verdict decides.\<close>

theorem claim_as_instructed:
  assumes "claimable url" and "payment_code code" and "block_address a" and "block_signature s"
    and "a \<in> set (notificationAddresses derive code)"
  shows "verifySignedUrlClaim derive checks (signed_block (claimText url code) a s) url code =
    (case checks ''bitcoin'' (claimText url code) a s of
       Inl e \<Rightarrow> Refused (Not_verifiable e)
     | Inr v \<Rightarrow> if v then Accepted (Some a) None else Refused Invalid_signature)"
  using claim_accepted [OF assms(1-4)] assms(5) by simp

theorem claim_as_instructed_witness:
  "verifySignedUrlClaim (\<lambda>c net. Some ''1abc'') (\<lambda>net m a s. Inr (a = ''1abc''))
     (signed_block (claimText ''http://op.example/'' ''PM8Txyz'') ''1abc'' (replicate 80 (CHR ''A'')))
     ''http://op.example/'' ''PM8Txyz'' = Accepted (Some ''1abc'') None"
proof -
  show ?thesis
    using claim_as_instructed [OF sample_parts, of "\<lambda>c net. Some ''1abc''" "\<lambda>net m a s. Inr (a = ''1abc'')"]
    by (simp add: notificationAddresses_def)
qed

text \<open>C12: nothing else is accepted as a claim. An accepted block carries a message that starts with the
  address being claimed and names the payment code of the session, and its signature verifies for an address
  that this payment code derives.\<close>

theorem claim_accepted_only_if:
  assumes "verifySignedUrlClaim derive checks signed url code = Accepted r c"
  shows "\<exists>m a s. loose_message (unix_lines signed) = Some m \<and>
    norm_claim (first_line (strip_end newline m)) = norm_claim url \<and>
    code_line (strip_end newline m) = Some code \<and> a \<in> set (notificationAddresses derive code) \<and>
    checks ''bitcoin'' (strip_end newline m) a s = Inr True \<and> r = Some a"
proof -
  let ?t = "unix_lines signed"
  have ne: "signed \<noteq> []" "code \<noteq> []" using assms by (auto simp: verifySignedUrlClaim_def split: if_splits)
  with assms obtain m a s where p: "loose_message ?t = Some m" "address_line ?t = Some a" "loose_signature ?t = Some s"
    by (cases "loose_message ?t"; cases "address_line ?t"; cases "loose_signature ?t")
      (simp_all add: verifySignedUrlClaim_def Let_def)
  from assms ne p have l: "norm_claim (first_line (strip_end newline m)) = norm_claim url"
    by (simp add: verifySignedUrlClaim_def Let_def split: if_splits)
  from assms ne p l obtain d where d: "code_line (strip_end newline m) = Some d"
    by (cases "code_line (strip_end newline m)") (simp_all add: verifySignedUrlClaim_def Let_def)
  from assms ne p l d have e: "d = code" "trim a \<in> set (notificationAddresses derive code)"
    by (simp_all add: verifySignedUrlClaim_def Let_def split: if_splits)
  from assms ne p l d e have "checks ''bitcoin'' (strip_end newline m) (trim a) (trim s) = Inr True \<and> r = Some (trim a)"
    by (cases "checks ''bitcoin'' (strip_end newline m) (trim a) (trim s)")
      (simp_all add: verifySignedUrlClaim_def Let_def split: if_splits)
  with p(1) l d e show ?thesis by blast
qed

theorem claim_accepted_only_if_witness:
  "\<exists>m. loose_message (unix_lines (signed_block (claimText ''http://op.example/'' ''PM8Txyz'') ''1abc''
      (replicate 80 (CHR ''A'')))) = Some m \<and> code_line (strip_end newline m) = Some ''PM8Txyz''"
proof -
  have "verifySignedUrlClaim (\<lambda>c net. Some ''1abc'') (\<lambda>net m a s. Inr (a = ''1abc''))
     (signed_block (claimText ''http://op.example/'' ''PM8Txyz'') ''1abc'' (replicate 80 (CHR ''A'')))
     ''http://op.example/'' ''PM8Txyz'' = Accepted (Some ''1abc'') None"
    by (simp add: claim_accepted [OF sample_parts] notificationAddresses_def)
  from claim_accepted_only_if [OF this] show ?thesis by blast
qed






text \<open>The gate on a signed listing. A block is accepted exactly when it parses, its pairing text is the
  submitted payload, its signature verifies over the whole signed text, a payment code inside that text derives
  the signer, and the signer is one of the addresses the session's code could have signed from.\<close>

theorem payload_accepted_iff:
  "ok (verifySignedPayload derive checks signed expected addresses net) \<longleftrightarrow>
     (case parseSignedBlock signed of
        None \<Rightarrow> False
      | Some b \<Rightarrow>
          (case expected of None \<Rightarrow> True | Some m \<Rightarrow> sameSignedPayload (pb_pairing b) m) \<and>
          checks net (pb_message b) (pb_address b) (pb_signature b) = Inr True \<and>
          (case pb_code b of None \<Rightarrow> True | Some c \<Rightarrow> pb_address b \<in> set (notificationAddresses derive c)) \<and>
          (case addresses of None \<Rightarrow> True | Some as \<Rightarrow> pb_address b \<in> set as))"
proof (cases "parseSignedBlock signed")
  case (Some b)
  show ?thesis
  proof (cases "checks net (pb_message b) (pb_address b) (pb_signature b)")
    case (Inr v)
    then show ?thesis
      using Some by (cases v; cases "pb_code b"; cases expected; cases addresses) (auto simp: verifySignedPayload_def Let_def)
  qed (use Some in \<open>auto simp: verifySignedPayload_def split: option.splits\<close>)
qed (simp add: verifySignedPayload_def)

text \<open>C15: a login proof counts only where it was made for. Whatever the library accepts, a session is granted
  only when the address inside the signed challenge is this site's, compared by origin, path and query, and only
  to a payment code.\<close>

theorem login_proof_for_this_site:
  assumes "auth47_verify parse verifyProof proof expected = Accepted a c"
  shows "\<exists>here u r x y n. expected = Some here \<and> parse (js_text (fld proof ''challenge'')) = Some u \<and>
    search_param u ''r'' = Some r \<and> parse r = Some x \<and> parse here = Some y \<and>
    norm_resource x = norm_resource y \<and> c = Some n \<and> n \<noteq> [] \<and>
    (\<exists>d. verifyProof proof = Inr d \<and> fld d ''nym'' = Str n)"
proof -
  from assms obtain here d where h: "expected = Some here" "here \<noteq> []" "verifyProof proof = Inr d"
    by (auto simp: auth47_verify_def split: option.splits if_splits sum.splits)
  with assms obtain u r where u: "parse (js_text (fld proof ''challenge'')) = Some u" "search_param u ''r'' = Some r"
      "sameResource parse r here"
    by (auto simp: auth47_verify_def Let_def split: option.splits if_splits)
  from assms h u obtain n where n: "fld d ''nym'' = Str n" "c = Some n" "n \<noteq> []"
    by (auto simp: auth47_verify_def Let_def split: option.splits if_splits val.splits)
  from u(3) obtain x y where "parse r = Some x" "parse here = Some y" "norm_resource x = norm_resource y"
    by (auto simp: sameResource_def split: option.splits)
  with h u n show ?thesis by blast
qed

definition plain_url :: "string \<Rightarrow> string \<Rightarrow> (string \<times> string) list \<Rightarrow> url_parts" where
  "plain_url origin p ps = \<lparr>u_protocol = ''http:'', u_username = [], u_password = [], u_hostname = drop 7 origin,
     u_port = [], u_origin = origin, u_path = p, u_search = [], u_params = ps\<rparr>"

definition sample_url :: "string \<Rightarrow> url_parts option" where
  "sample_url s =
     (if s = ''c'' then Some (plain_url ''http://w'' [] [(''r'', ''s'')])
      else if s = ''s'' then Some (plain_url ''http://a'' ''/'' []) else None)"

theorem login_proof_for_this_site_witness:
  "\<exists>x y. sample_url ''s'' = Some x \<and> sample_url ''s'' = Some y \<and> norm_resource x = norm_resource y"
proof -
  have "auth47_verify sample_url (\<lambda>p. Inr (Obj [(''nym'', Str ''PM8Txyz'')])) (Obj [(''challenge'', Str ''c'')]) (Some ''s'') =
      Accepted None (Some ''PM8Txyz'')"
    by (simp add: auth47_verify_def sample_url_def plain_url_def search_param_def sameResource_def oread_def)
  from login_proof_for_this_site [OF this] show ?thesis by (auto simp: sample_url_def)
qed

end
