(* ===== verification/DojoVersion.thy ===== *)
theory DojoVersion
  imports Url
begin

text \<open>
  \<open>server/dojo-version.ts\<close>: the network of a pairing URL, the country a location names, and the version a new
  listing must have. The runtime's region names are a parameter (\<open>region cc\<close>: the name, the code itself when
  there is none, nothing when it throws). Components of a version are exact.
\<close>

section \<open>Networks\<close>

definition pairingNetwork :: "url_parser \<Rightarrow> string \<Rightarrow> string option" where
  "pairingNetwork parse url =
     (case parse url of
        None \<Rightarrow> None
      | Some u \<Rightarrow>
          Some (if \<exists>seg \<in> set (split_on (CHR ''/'') (u_path u)). to_lower seg = ''test'' then ''testnet'' else ''mainnet''))"

section \<open>Countries\<close>

definition letter_codes :: "string list" where
  "letter_codes = concat (map (\<lambda>a. map (\<lambda>b. [char_of a, char_of b]) [65 ..< 91 :: nat]) [65 ..< 91 :: nat])"

definition country_aliases :: "(string \<times> string) list" where
  "country_aliases =
     [(''uk'', ''GB''), (''united kingdom'', ''GB''), (''great britain'', ''GB''), (''britain'', ''GB''),
      (''england'', ''GB''), (''scotland'', ''GB''), (''wales'', ''GB''), (''northern ireland'', ''GB''),
      (''usa'', ''US''), (''u.s.a.'', ''US''), (''u.s.'', ''US''), (''america'', ''US''),
      (''holland'', ''NL''), (''czech republic'', ''CZ''), (''south korea'', ''KR''), (''north korea'', ''KP''),
      (''russia'', ''RU''), (''uae'', ''AE''), (''eu'', ''EU''), (''european union'', ''EU'')]"

definition NAME_TO_CODE :: "(string \<Rightarrow> string option) \<Rightarrow> (string \<times> string) list" where
  "NAME_TO_CODE region =
     fold (\<lambda>p m. AList.update (fst p) (snd p) m) country_aliases
       (fold (\<lambda>cc m. case region cc of
            Some name \<Rightarrow> if name \<noteq> [] \<and> name \<noteq> cc then AList.update (to_lower name) cc m else m
          | None \<Rightarrow> m) letter_codes [])"

definition split_any :: "char list \<Rightarrow> string \<Rightarrow> string list" where
  "split_any ds s = fold (\<lambda>d ws. concat (map (split_on d) ws)) ds [s]"

definition drop_final_dot :: "string \<Rightarrow> string" where
  "drop_final_dot s = (if s \<noteq> [] \<and> last s = CHR ''.'' then butlast s else s)"

definition is_letter :: "char \<Rightarrow> bool" where
  "is_letter c \<longleftrightarrow> (let n = of_char (to_lower_char c) :: nat in 97 \<le> n \<and> n \<le> 122)"

definition to_upper_char :: "char \<Rightarrow> char" where
  "to_upper_char c = (let n = of_char c :: nat in if 97 \<le> n \<and> n \<le> 122 then char_of (n - 32) else c)"

definition part_country :: "(string \<Rightarrow> string option) \<Rightarrow> string \<Rightarrow> string option" where
  "part_country region part =
     (case map_of (NAME_TO_CODE region) (drop_final_dot (to_lower part)) of
        Some cc \<Rightarrow> Some cc
      | None \<Rightarrow>
          if length part = 2 \<and> list_all is_letter part
          then (let cc = map to_upper_char part in
                case region cc of Some name \<Rightarrow> if name \<noteq> cc then Some cc else None | None \<Rightarrow> None)
          else None)"

fun first_some :: "('a \<Rightarrow> 'b option) \<Rightarrow> 'a list \<Rightarrow> 'b option" where
  "first_some f [] = None"
| "first_some f (x # xs) = (case f x of Some y \<Rightarrow> Some y | None \<Rightarrow> first_some f xs)"

definition countryFor :: "(string \<Rightarrow> string option) \<Rightarrow> val \<Rightarrow> string option" where
  "countryFor region text =
     (let raw = trim (js_text (nullish text (Str []))) in
      if raw = [] then None
      else (let parts = filter (\<lambda>s. s \<noteq> []) (map trim (split_any '',;/()|'' raw))
            in first_some (part_country region) (sort_key (\<lambda>s. - int (length s)) (raw # parts))))"

section \<open>Versions\<close>

text \<open>\<open>/^(\d+(?:\.\d+)*)/\<close>, split at the dots.\<close>

function more_parts :: "string \<Rightarrow> nat list" where
  "more_parts s =
     (if s \<noteq> [] \<and> hd s = CHR ''.'' \<and> takeWhile is_digit (tl s) \<noteq> []
      then digits_val (takeWhile is_digit (tl s)) # more_parts (dropWhile is_digit (tl s))
      else [])"
  by auto
termination
proof (relation "measure length", simp)
  fix s :: string assume "s \<noteq> [] \<and> hd s = CHR ''.'' \<and> takeWhile is_digit (tl s) \<noteq> []"
  then have "length (dropWhile is_digit (tl s)) \<le> length (tl s)" "length (tl s) < length s"
    using length_dropWhile_le [of is_digit "tl s"] by simp_all
  then show "(dropWhile is_digit (tl s), s) \<in> measure length" by simp
qed

declare more_parts.simps [simp del]

text \<open>\<open>Number.isFinite(Number(digits))\<close>: from here on a numeral reads as \<open>Infinity\<close>.\<close>

definition finite_numeral :: "nat \<Rightarrow> bool" where
  "finite_numeral n \<longleftrightarrow> int n < 2 ^ 1024 - 2 ^ 970"

definition parseVersion :: "val \<Rightarrow> nat list option" where
  "parseVersion v =
     (case v of
        Str s \<Rightarrow>
          (let t = trim s;
               u = (if t \<noteq> [] \<and> to_lower_char (hd t) = CHR ''v'' then tl t else t);
               ds = takeWhile is_digit u
           in if ds = [] then None
              else (let parts = digits_val ds # more_parts (dropWhile is_digit u)
                    in if list_all finite_numeral parts then Some parts else None))
      | _ \<Rightarrow> None)"

fun compare_parts :: "nat list \<Rightarrow> nat list \<Rightarrow> int" where
  "compare_parts [] [] = 0"
| "compare_parts (x # xs) [] = (if x \<noteq> 0 then 1 else compare_parts xs [])"
| "compare_parts [] (y # ys) = (if y \<noteq> 0 then - 1 else compare_parts [] ys)"
| "compare_parts (x # xs) (y # ys) = (if x \<noteq> y then (if y < x then 1 else - 1) else compare_parts xs ys)"

definition parts_or_none :: "val \<Rightarrow> nat list" where
  "parts_or_none v = (case parseVersion v of Some ps \<Rightarrow> ps | None \<Rightarrow> [])"

definition compareVersions :: "val \<Rightarrow> val \<Rightarrow> int" where
  "compareVersions a b = compare_parts (parts_or_none a) (parts_or_none b)"

definition check_disabled :: "string \<Rightarrow> bool" where
  "check_disabled minimum \<longleftrightarrow> minimum = [] \<or> compareVersions (Str minimum) (Str ''0'') = 0"

definition meetsMinimum :: "val \<Rightarrow> string \<Rightarrow> bool" where
  "meetsMinimum version minimum =
     (if check_disabled minimum then True else 0 \<le> compareVersions version (Str minimum))"

datatype version_source = Detected | Declared

datatype version_refusal = NoVersion string | TooOld val string

record judgement =
  j_ok :: bool
  j_version :: val
  j_source :: "version_source option"
  j_reason :: "version_refusal option"

definition judgeVersion :: "val \<Rightarrow> val \<Rightarrow> string \<Rightarrow> judgement" where
  "judgeVersion detected declared minimum =
     (if check_disabled minimum then
        \<lparr>j_ok = True, j_version = js_or detected (js_or declared Null),
         j_source = (if truthy detected then Some Detected else if truthy declared then Some Declared else None),
         j_reason = None\<rparr>
      else (let version = (if parseVersion detected \<noteq> None then detected
                           else if parseVersion declared \<noteq> None then declared else Null);
                source = (if parseVersion detected \<noteq> None then Some Detected
                          else if parseVersion declared \<noteq> None then Some Declared else None)
        in if version = Null
             then \<lparr>j_ok = False, j_version = Null, j_source = None, j_reason = Some (NoVersion minimum)\<rparr>
           else if \<not> meetsMinimum version minimum
             then \<lparr>j_ok = False, j_version = version, j_source = source, j_reason = Some (TooOld version minimum)\<rparr>
           else \<lparr>j_ok = True, j_version = version, j_source = source, j_reason = None\<rparr>))"

section \<open>The order of versions\<close>

text \<open>The reference: the components, with zeros at the end left out, in lexicographic order.\<close>

fun significant :: "nat list \<Rightarrow> nat list" where
  "significant [] = []"
| "significant (x # xs) = (if x = 0 \<and> significant xs = [] then [] else x # significant xs)"

fun lex_less :: "nat list \<Rightarrow> nat list \<Rightarrow> bool" where
  "lex_less xs [] = False"
| "lex_less [] (y # ys) = True"
| "lex_less (x # xs) (y # ys) = (x < y \<or> (x = y \<and> lex_less xs ys))"

lemma significant_last: "significant xs = [] \<longleftrightarrow> list_all (\<lambda>x. x = 0) xs"
  by (induction xs) auto

lemma compare_parts_Nil2: "compare_parts xs [] = (if significant xs = [] then 0 else 1)"
  by (induction xs) auto

lemma compare_parts_Nil1: "compare_parts [] ys = (if significant ys = [] then 0 else - 1)"
  by (induction ys) auto

lemmas compare_parts_zero = compare_parts_Nil1 compare_parts_Nil2

lemma compare_parts_lex:
  "compare_parts xs ys =
     (if significant xs = significant ys then 0 else if lex_less (significant xs) (significant ys) then - 1 else 1)"
proof (induction xs ys rule: compare_parts.induct)
  case (2 x xs)
  then show ?case by (auto simp: compare_parts_zero)
next
  case (3 y ys)
  then show ?case by (cases "significant (y # ys)") (auto simp: compare_parts_zero)
next
  case (4 x xs y ys)
  then show ?case by (cases "significant xs"; cases "significant ys") auto
qed simp

lemma lex_less_irrefl [simp]: "\<not> lex_less xs xs"
  by (induction xs) auto

text \<open>The version gate on new listings. Unless the check is switched off, a listing passes exactly when the
  version the node reports, or failing that the one its payload declares, is not below the minimum in the
  lexicographic order of components that ignores zeros at the end; a node with no readable version never
  passes.\<close>

theorem version_gate_iff:
  "j_ok (judgeVersion detected declared minimum) \<longleftrightarrow>
     check_disabled minimum \<or>
     (case (parseVersion detected, parseVersion declared) of
        (Some ps, _) \<Rightarrow> \<not> lex_less (significant ps) (significant (parts_or_none (Str minimum)))
      | (None, Some ps) \<Rightarrow> \<not> lex_less (significant ps) (significant (parts_or_none (Str minimum)))
      | (None, None) \<Rightarrow> False)"
proof -
  have order: "0 \<le> compareVersions v (Str minimum) \<longleftrightarrow> \<not> lex_less (significant ps) (significant (parts_or_none (Str minimum)))"
    if "parseVersion v = Some ps" for v ps
    using that by (auto simp: compareVersions_def parts_or_none_def compare_parts_lex lex_less_irrefl)
  have null: "parseVersion Null = None" by (simp add: parseVersion_def)
  show ?thesis
  proof (cases "check_disabled minimum")
    case True
    then show ?thesis by (simp add: judgeVersion_def)
  next
    case off: False
    show ?thesis
    proof (cases "parseVersion detected")
      case (Some ps)
      then have "detected \<noteq> Null" using null by auto
      with off Some show ?thesis by (simp add: judgeVersion_def meetsMinimum_def Let_def order [OF Some])
    next
      case det: None
      show ?thesis
      proof (cases "parseVersion declared")
        case (Some ps)
        then have "declared \<noteq> Null" using null by auto
        with off det Some show ?thesis by (simp add: judgeVersion_def meetsMinimum_def Let_def order [OF Some])
      qed (use off det in \<open>simp add: judgeVersion_def Let_def\<close>)
    qed
  qed
qed

end
