(* ===== verification/Api.thy ===== *)
theory Api
  imports Domains DojoVersion
begin

text \<open>
  \<open>server/index.ts\<close>, the part every route shares: a request, what the server sees of the world outside
  (\<open>env\<close>: the clock, fresh random texts, the wallet libraries, the probe, the resolvers, the gateway, the
  published files, all as they answer during the request), the state of the process (\<open>world\<close>) and the
  helpers. A request is handled as one step; what a handler throws becomes the 500 of the dispatcher.
  \<open>Unanswered\<close> is a handler that returns without having replied.
\<close>

section \<open>The world of the server\<close>

record request =
  rq_method :: string
  rq_url :: string
  rq_cookie :: string
  rq_body :: "string list"

record seed_node =
  sn_id :: string
  sn_network :: string
  sn_name :: val

record env =
  e_now :: int
  e_random :: string
  e_sid :: string
  e_base_url :: string
  e_admin_setting :: string
  e_parse :: url_parser
  e_request_url :: url_parser
  e_challenge_uri :: "string \<Rightarrow> int \<Rightarrow> string \<Rightarrow> string"
  e_verify_proof :: "val \<Rightarrow> string + val"
  e_derive :: "string \<Rightarrow> string \<Rightarrow> string option"
  e_checks :: "string \<Rightarrow> string \<Rightarrow> string \<Rightarrow> string \<Rightarrow> string + bool"
  e_lookup :: lookup
  e_words :: "txt_error \<Rightarrow> string"
  e_probe :: "val \<Rightarrow> val \<Rightarrow> string \<Rightarrow> val"
  e_nym :: "string \<Rightarrow> val"
  e_gateway :: "val \<Rightarrow> string + val"
  e_seed :: "seed_node list"
  e_rebuild :: "shape \<Rightarrow> string + val"
  e_collate :: "string \<Rightarrow> string \<Rightarrow> int"
  e_region :: "string \<Rightarrow> string option"
  e_min_version :: string
  e_pending_probe :: val
  e_dojos :: val
  e_history :: val
  e_daily :: val
  e_last_result :: val
  e_updates :: "string + (string \<times> val) list"
  e_service_fields :: "(string \<times> val) list"

record job =
  jb_id :: string
  jb_phase :: string
  jb_log :: "string list"
  jb_done :: bool
  jb_ok :: bool
  jb_error :: "string option"
  jb_subject :: string
  jb_apply :: bool
  jb_result :: val

text \<open>\<open>w_disk\<close>: whether the write of each store call still to come completes. \<open>w_published\<close>: the store the
  public list was last rebuilt from.\<close>

record world =
  w_db :: db
  w_disk :: "io list"
  w_published :: "shape option"
  w_updates_cache :: "(int \<times> val) option"
  w_forced_at :: int
  w_update_job :: "job option"
  w_import_job :: "job option"

datatype thrown = StoreThrew store_failure | ATypeError string | AUriError | Unanswered

type_synonym 'a act = "world \<Rightarrow> (thrown + 'a) \<times> world"

definition give :: "'a \<Rightarrow> 'a act" where
  "give x w = (Inr x, w)"

definition throw :: "thrown \<Rightarrow> 'a act" where
  "throw e w = (Inl e, w)"

definition and_then :: "'a act \<Rightarrow> ('a \<Rightarrow> 'b act) \<Rightarrow> 'b act" where
  "and_then m f w = (case m w of (Inl e, w1) \<Rightarrow> (Inl e, w1) | (Inr x, w1) \<Rightarrow> f x w1)"

text \<open>A call of the store.\<close>

definition on_store :: "'a store_op \<Rightarrow> 'a act" where
  "on_store f w =
     (let (r, d) = in_store (case w_disk w of [] \<Rightarrow> Completed | o' # _ \<Rightarrow> o') f (w_db w);
          w1 = w\<lparr>w_db := d, w_disk := tl (w_disk w)\<rparr>
      in case r of Inl e \<Rightarrow> (Inl (StoreThrew e), w1) | Inr x \<Rightarrow> (Inr x, w1))"

text \<open>An assignment to a field of a record that \<open>getSubmission\<close> returned: the object is the one in the cache.\<close>

definition touch :: "string \<Rightarrow> (submission \<Rightarrow> submission) \<Rightarrow> unit act" where
  "touch k f w =
     (case db_cache (w_db w) of
        None \<Rightarrow> (Inr (), w)
      | Some s \<Rightarrow>
          (Inr (), w\<lparr>w_db := (w_db w)\<lparr>db_cache :=
             Some (s\<lparr>submissions := map (\<lambda>(j, r). (j, if j = k then f r else r)) (submissions s)\<rparr>)\<rparr>\<rparr>))"

section \<open>Replies\<close>

datatype payload_error =
    MissingPayload | NotDojoApi | NotOnion | ExplorerNotOnion | CrossedNetwork string

datatype name_reason = UsedBy string | UsedByNym "string option" string | ReservedBySeed

datatype api_error =
    InvalidJson
  | BadProof refusal
  | UnknownNonce
  | ChallengeExpired
  | NotAuthenticated
  | NotAuthorised
  | NotFound
  | GatewaySaid val
  | GatewayDown string
  | StoreSaid store_failure
  | NetworkRequired
  | NameRequired
  | NameTaken string string name_reason
  | PayloadError payload_error
  | SignatureMissing
  | SignatureGate refusal
  | ConnectionGate val
  | VersionGate "version_refusal option"
  | JobRunning
  | OnionRequired
  | CodeRequired
  | NoHistory
  | DomainRefused domain_error
  | BlockMissing
  | ClaimRefused "claim_failure option"
  | NoClaim
  | ServerError thrown

datatype body =
    Err api_error
  | Json "(string \<times> val) list"
  | Submission submission "(string \<times> val) list"
  | Submissions "submission list" "(string \<times> val) list"
  | Product product
  | Claim "domain_claim option" "(string \<times> val) list"
  | Claims "domain_claim list"
  | Job "job option" "(string \<times> val) list"
  | NameAnswer "name_reason option" "(string \<times> val) list"

record reply =
  re_status :: nat
  re_body :: body
  re_cookie :: "string option"

definition json :: "nat \<Rightarrow> body \<Rightarrow> reply act" where
  "json code b = give \<lparr>re_status = code, re_body = b, re_cookie = None\<rparr>"

definition refuse :: "nat \<Rightarrow> api_error \<Rightarrow> reply act" where
  "refuse code e = json code (Err e)"

section \<open>Helpers\<close>

definition NONCE_TTL :: int where
  "NONCE_TTL = 5 * 60 * 1000"

definition SESSION_TTL :: int where
  "SESSION_TTL = 12 * 60 * 60 * 1000"

definition BODY_LIMIT :: nat where
  "BODY_LIMIT = 64 * 1024"

definition ADMIN_CODES :: "env \<Rightarrow> string list" where
  "ADMIN_CODES e = filter (\<lambda>s. s \<noteq> []) (map trim (split_on (CHR '','') (e_admin_setting e)))"

text \<open>Who a session speaks for. The session object that every plain object inherits (a cookie naming a member
  of \<open>Object.prototype\<close>) has no payment code.\<close>

datatype user = Holder string | Nobody

fun code_text :: "user \<Rightarrow> string" where
  "code_text (Holder c) = c"
| "code_text Nobody = ''undefined''"

fun user_val :: "user \<Rightarrow> val" where
  "user_val (Holder c) = Str c"
| "user_val Nobody = Undef"

definition isAdmin :: "env \<Rightarrow> user \<Rightarrow> bool" where
  "isAdmin e u = (case u of Holder c \<Rightarrow> c \<noteq> [] \<and> c \<in> set (ADMIN_CODES e) | Nobody \<Rightarrow> False)"

text \<open>\<open>readBody\<close>: the pieces received, as long as their total stays within the limit.\<close>

fun in_limit :: "nat \<Rightarrow> nat \<Rightarrow> string list \<Rightarrow> bool" where
  "in_limit limit got [] = True"
| "in_limit limit got (d # ds) = (got + length d \<le> limit \<and> in_limit limit (got + length d) ds)"

definition readBody :: "request \<Rightarrow> string option" where
  "readBody rq = (if in_limit BODY_LIMIT 0 (rq_body rq) then Some (concat (rq_body rq)) else None)"

definition request_json :: "request \<Rightarrow> val option" where
  "request_json rq = (case readBody rq of Some t \<Rightarrow> json_parse t | None \<Rightarrow> None)"

text \<open>A handler that goes on to read members of the parsed body: \<open>null\<close> has none.\<close>

definition with_body :: "request \<Rightarrow> (val \<Rightarrow> reply act) \<Rightarrow> reply act" where
  "with_body rq f =
     (case request_json rq of
        None \<Rightarrow> refuse 400 InvalidJson
      | Some b \<Rightarrow> if b = Null then throw (ATypeError ''null'') else f b)"

text \<open>\<open>decodeURIComponent\<close>, for what decodes to a code unit of 8 bits.\<close>

definition percent_byte :: "string \<Rightarrow> (nat \<times> string) option" where
  "percent_byte s =
     (case s of
        p # a # b # r \<Rightarrow>
          if p = CHR ''%'' then (case (hex_val a, hex_val b) of
              (Some x, Some y) \<Rightarrow> Some (16 * x + y, r) | _ \<Rightarrow> None)
          else None
      | _ \<Rightarrow> None)"

definition decode_char :: "string \<Rightarrow> (char \<times> string) option" where
  "decode_char s =
     (case s of
        [] \<Rightarrow> None
      | c # r \<Rightarrow>
          if c \<noteq> CHR ''%'' then Some (c, r)
          else (case percent_byte s of
              None \<Rightarrow> None
            | Some (x, r1) \<Rightarrow>
                if x < 128 then Some (char_of x, r1)
                else if x = 194 \<or> x = 195
                then (case percent_byte r1 of
                    Some (y, r2) \<Rightarrow> if 128 \<le> y \<and> y < 192 then Some (char_of ((x - 192) * 64 + (y - 128)), r2) else None
                  | None \<Rightarrow> None)
                else None))"

fun decode_text :: "nat \<Rightarrow> string \<Rightarrow> string option" where
  "decode_text n [] = Some []"
| "decode_text 0 (c # cs) = None"
| "decode_text (Suc n) (c # cs) =
     (case decode_char (c # cs) of
        None \<Rightarrow> None
      | Some (d, r) \<Rightarrow> map_option ((#) d) (decode_text n r))"

definition decodeURIComponent :: "string \<Rightarrow> string option" where
  "decodeURIComponent s = decode_text (length s) s"

text \<open>One part of the cookie header, added to what is already read; nothing when decoding throws.\<close>

definition cookie_part :: "string \<Rightarrow> string obj \<Rightarrow> string obj option" where
  "cookie_part p out =
     (case find_text ''='' p of
        None \<Rightarrow> Some out
      | Some i \<Rightarrow>
          if i = 0 then Some out
          else map_option (\<lambda>v. owrite (trim (take i p)) v out) (decodeURIComponent (trim (drop (i + 1) p))))"

fun cookie_parts :: "string list \<Rightarrow> string obj \<Rightarrow> string obj option" where
  "cookie_parts [] out = Some out"
| "cookie_parts (p # ps) out = (case cookie_part p out of None \<Rightarrow> None | Some out' \<Rightarrow> cookie_parts ps out')"

definition parseCookies :: "request \<Rightarrow> string obj option" where
  "parseCookies rq = cookie_parts (split_on (CHR '';'') (rq_cookie rq)) []"

text \<open>\<open>parseCookies(req).mise_sid\<close>.\<close>

definition sid_cookie :: "request \<Rightarrow> string option act" where
  "sid_cookie rq =
     (case parseCookies rq of
        None \<Rightarrow> throw AUriError
      | Some m \<Rightarrow> give (map_of m ''mise_sid''))"

definition sessionFrom :: "env \<Rightarrow> request \<Rightarrow> user option act" where
  "sessionFrom e rq =
     and_then (sid_cookie rq) (\<lambda>sid.
       if sid = None \<or> sid = Some [] then give None
       else and_then (on_store (getSession (e_now e) sid)) (\<lambda>s.
         give (case s of
             Own sess \<Rightarrow> Some (Holder (ss_paymentCode sess))
           | Inherited \<Rightarrow> Some Nobody
           | Missing \<Rightarrow> None)))"

definition with_session :: "env \<Rightarrow> request \<Rightarrow> (user \<Rightarrow> reply act) \<Rightarrow> reply act" where
  "with_session e rq f =
     and_then (sessionFrom e rq) (\<lambda>s. case s of None \<Rightarrow> refuse 401 NotAuthenticated | Some u \<Rightarrow> f u)"

definition adminFrom :: "env \<Rightarrow> request \<Rightarrow> (user \<Rightarrow> reply act) \<Rightarrow> reply act" where
  "adminFrom e rq f =
     with_session e rq (\<lambda>u. if isAdmin e u then f u else refuse 403 NotAuthorised)"

definition owns :: "submission \<Rightarrow> user \<Rightarrow> bool" where
  "owns rec u = (case u of Holder pc \<Rightarrow> owned_by pc rec | Nobody \<Rightarrow> False)"

definition cleanSigned :: "val \<Rightarrow> string option" where
  "cleanSigned v =
     (let t = trim (map (\<lambda>c. if of_char c = (160 :: nat) then CHR '' '' else c)
            (filter (\<lambda>c. c \<noteq> CHR 0x0D) (text_or_empty v)))
      in if t = [] then None else Some t)"

definition slug_char :: "char \<Rightarrow> bool" where
  "slug_char c \<longleftrightarrow> ((97 :: nat) \<le> of_char c \<and> of_char c \<le> (122 :: nat)) \<or> is_digit c"

text \<open>\<open>replace(/[^a-z0-9]+/g, "-")\<close>.\<close>

fun dashed :: "string \<Rightarrow> string" where
  "dashed [] = []"
| "dashed (c # cs) =
     (if slug_char c then c # dashed cs
      else (case cs of
          [] \<Rightarrow> ''-''
        | d # _ \<Rightarrow> if slug_char d then CHR ''-'' # dashed cs else dashed cs))"

definition slugify :: "val \<Rightarrow> string" where
  "slugify name =
     take 40 (strip_end (CHR ''-'') (dropWhile (\<lambda>c. c = CHR ''-'') (dashed (to_lower (text_or_empty name)))))"

definition listing_id :: "string \<Rightarrow> string \<Rightarrow> string" where
  "listing_id network slug = network @ ''-'' @ slug"

definition names_slug :: "string \<Rightarrow> string \<Rightarrow> submission \<Rightarrow> bool" where
  "names_slug network slug r \<longleftrightarrow>
     sb_network r = network \<and> (slugify (Str (sb_name r)) = slug \<or> sb_id r = listing_id network slug)"

definition seed_names_slug :: "string \<Rightarrow> string \<Rightarrow> seed_node \<Rightarrow> bool" where
  "seed_names_slug network slug n \<longleftrightarrow>
     sn_network n = network \<and> (slugify (sn_name n) = slug \<or> sn_id n = listing_id network slug)"

definition nameConflict :: "env \<Rightarrow> string \<Rightarrow> string \<Rightarrow> user \<Rightarrow> name_reason option act" where
  "nameConflict e network slug u =
     and_then (on_store listSubmissions) (\<lambda>rs.
       give (case find (\<lambda>r. names_slug network slug r \<and> \<not> owns r u) rs of
           Some r \<Rightarrow> Some (UsedBy (sb_status r))
         | None \<Rightarrow> if \<exists>n \<in> set (e_seed e). seed_names_slug network slug n then Some ReservedBySeed else None))"

definition ownedRecordFor :: "string \<Rightarrow> string \<Rightarrow> user \<Rightarrow> submission option act" where
  "ownedRecordFor network slug u =
     and_then (on_store listSubmissions) (\<lambda>rs. give (find (\<lambda>r. names_slug network slug r \<and> owns r u) rs))"

definition slugTakenByOther :: "env \<Rightarrow> string \<Rightarrow> string \<Rightarrow> string \<Rightarrow> name_reason option act" where
  "slugTakenByOther e network slug excludeId =
     and_then (on_store listSubmissions) (\<lambda>rs.
       give (case find (\<lambda>r. sb_id r \<noteq> excludeId \<and> names_slug network slug r) rs of
           Some r \<Rightarrow> Some (UsedByNym (sb_paynym r) (sb_status r))
         | None \<Rightarrow>
             if \<exists>n \<in> set (e_seed e). sn_id n \<noteq> excludeId \<and> seed_names_slug network slug n
             then Some ReservedBySeed else None))"

text \<open>The order of the manage panel, and a stable sort by it.\<close>

definition submissionOrder :: "env \<Rightarrow> submission \<Rightarrow> submission \<Rightarrow> int" where
  "submissionOrder e a b =
     (if sb_network a \<noteq> sb_network b then (if sb_network a = ''mainnet'' then - 1 else 1)
      else e_collate e (if sb_name a = [] then sb_id a else sb_name a) (if sb_name b = [] then sb_id b else sb_name b))"

fun insert_by :: "('a \<Rightarrow> 'a \<Rightarrow> int) \<Rightarrow> 'a \<Rightarrow> 'a list \<Rightarrow> 'a list" where
  "insert_by cmp x [] = [x]"
| "insert_by cmp x (y # ys) = (if cmp x y \<le> 0 then x # y # ys else y # insert_by cmp x ys)"

definition sort_by :: "('a \<Rightarrow> 'a \<Rightarrow> int) \<Rightarrow> 'a list \<Rightarrow> 'a list" where
  "sort_by cmp xs = foldr (insert_by cmp) xs []"

definition isPlainOnionUrl :: "env \<Rightarrow> val \<Rightarrow> bool" where
  "isPlainOnionUrl e u =
     (case e_parse e (js_text u) of
        Some x \<Rightarrow> u_protocol x = ''http:'' \<and> ends_with ''.onion'' (u_hostname x)
      | None \<Rightarrow> False)"

definition is_object :: "val \<Rightarrow> bool" where
  "is_object v = (case v of Obj m \<Rightarrow> True | Arr xs \<Rightarrow> True | _ \<Rightarrow> False)"

definition validatePayload :: "env \<Rightarrow> val \<Rightarrow> string option \<Rightarrow> payload_error option" where
  "validatePayload e payload network =
     (let p = fld payload ''pairing'' in
      if \<not> is_object payload then Some MissingPayload
      else if \<not> truthy p \<or> fld p ''type'' \<noteq> Str ''dojo.api'' \<or> \<not> truthy (fld p ''url'') then Some NotDojoApi
      else if \<not> isPlainOnionUrl e (fld p ''url'') then Some NotOnion
      else if truthy (fld payload ''explorer'') \<and> \<not> isPlainOnionUrl e (fld (fld payload ''explorer'') ''url'')
        then Some ExplorerNotOnion
      else (case network of
          None \<Rightarrow> None
        | Some n \<Rightarrow>
            if n = [] then None
            else (case pairingNetwork (e_parse e) (js_text (fld p ''url'')) of
                Some looks \<Rightarrow> if looks \<noteq> n then Some (CrossedNetwork n) else None
              | None \<Rightarrow> None)))"

definition networkOf :: "string \<Rightarrow> string" where
  "networkOf r = (if r = ''testnet'' then ''testnet'' else ''bitcoin'')"

text \<open>\<open>extractNym\<close> and \<open>resolvePayNym\<close> of \<open>server/paynym.mjs\<close>; \<open>e_nym\<close> is \<open>fetchNymInfo\<close>.\<close>

definition extractNym :: "val \<Rightarrow> string option" where
  "extractNym obj =
     (if \<not> is_object obj then None
      else (let direct = js_or (js_or (fld obj ''nymName'') (fld obj ''nym_name'')) (fld obj ''nym'') in
        if is_str direct \<and> str_of direct \<noteq> [] then Some (str_of direct)
        else (case fld obj ''codes'' of
            Arr (c # _) \<Rightarrow> if truthy c \<and> is_str (fld c ''claimed'') then Some (str_of (fld c ''claimed'')) else None
          | _ \<Rightarrow> None)))"

definition plus_nym :: "string \<Rightarrow> string" where
  "plus_nym n = (if starts_with ''+'' n then n else CHR ''+'' # n)"

definition resolvePayNym :: "env \<Rightarrow> string \<Rightarrow> string option" where
  "resolvePayNym e c =
     (case extractNym (e_nym e c) of Some n \<Rightarrow> if n = [] then None else Some (plus_nym n) | None \<Rightarrow> None)"

text \<open>\<open>tryRebuild\<close>: the public list is rebuilt from the store as it is.\<close>

definition rebuild_failed :: "string \<Rightarrow> val" where
  "rebuild_failed m =
     Obj [(''error'', Str m), (''msg'', Str (''rebuild failed: '' @ m @ '' (the updater retries every 10 minutes)''))]"

definition tryRebuild :: "env \<Rightarrow> val act" where
  "tryRebuild e w =
     (case load_store (w_db w) of
        (Inl f, d) \<Rightarrow> (Inr (rebuild_failed ''unreadable store''), w\<lparr>w_db := d\<rparr>)
      | (Inr s, d) \<Rightarrow>
          (case e_rebuild e s of
             Inl m \<Rightarrow> (Inr (rebuild_failed m), w\<lparr>w_db := d\<rparr>)
           | Inr out \<Rightarrow> (Inr out, w\<lparr>w_db := d, w_published := Some s\<rparr>)))"

definition some_text :: "string \<Rightarrow> string option" where
  "some_text s = (if s = [] then None else Some s)"

definition null_or :: "string option \<Rightarrow> val" where
  "null_or s = (case s of Some t \<Rightarrow> Str t | None \<Rightarrow> Null)"

end
