(* ===== verification/ApiRoutes.thy ===== *)
theory ApiRoutes
  imports Api
begin

text \<open>
  The routes of \<open>server/index.ts\<close> for signing in, the shop's identity, products, invoices and moderation. Each
  handler is a function of the request and of what the outside answers during it.
\<close>

section \<open>Signing in\<close>

definition challenge :: "env \<Rightarrow> request \<Rightarrow> reply act" where
  "challenge e rq =
     and_then (on_store (gcNonces (e_now e))) (\<lambda>_.
       (let nonce = e_random e; expires = e_now e + NONCE_TTL;
            uri = e_challenge_uri e nonce (expires div 1000) (e_base_url e)
        in and_then (on_store (putNonce nonce \<lparr>nc_expires = expires, nc_sid = None\<rparr>)) (\<lambda>_.
             json 200 (Json [(''nonce'', Str nonce), (''uri'', Str uri), (''expires'', Num (of_int expires))]))))"

definition clear_updates_cache :: "unit act" where
  "clear_updates_cache w = (Inr (), w\<lparr>w_updates_cache := None\<rparr>)"

text \<open>What \<open>rec.expires < Date.now()\<close> says of what \<open>takeNonce\<close> answered: an inherited member has no \<open>expires\<close>.\<close>

definition nonce_expired :: "nonce slot \<Rightarrow> int \<Rightarrow> bool" where
  "nonce_expired s now = (case s of Own n \<Rightarrow> nc_expires n < now | _ \<Rightarrow> False)"

definition proof_nonce :: "env \<Rightarrow> val \<Rightarrow> string" where
  "proof_nonce e prf =
     (case e_parse e (js_text (fld prf ''challenge'')) of Some u \<Rightarrow> u_hostname u | None \<Rightarrow> [])"

definition take_if :: "string \<Rightarrow> nonce slot act" where
  "take_if nonce = (if nonce = [] then give Missing else on_store (takeNonce nonce))"

definition claimed_key :: "string \<Rightarrow> string" where
  "claimed_key nonce = ''claimed:'' @ nonce"

definition callback :: "env \<Rightarrow> request \<Rightarrow> reply act" where
  "callback e rq =
     (case request_json rq of
        None \<Rightarrow> refuse 400 InvalidJson
      | Some prf \<Rightarrow>
          (case auth47_verify (e_parse e) (e_verify_proof e) prf (Some (e_base_url e)) of
             Refused r \<Rightarrow> refuse 401 (BadProof r)
           | Accepted _ code \<Rightarrow>
               (let nonce = proof_nonce e prf in
                and_then (take_if nonce) (\<lambda>rec.
                  if rec = Missing then refuse 401 UnknownNonce
                  else if nonce_expired rec (e_now e) then refuse 401 ChallengeExpired
                  else and_then (on_store (putSession (e_sid e)
                         \<lparr>ss_paymentCode = the code, ss_expires = e_now e + SESSION_TTL\<rparr>)) (\<lambda>sid.
                    and_then clear_updates_cache (\<lambda>_.
                    and_then (on_store (putNonce (claimed_key nonce)
                         \<lparr>nc_expires = e_now e + NONCE_TTL, nc_sid = Some sid\<rparr>)) (\<lambda>_.
                      json 200 (Json [(''ok'', Bool True)]))))))))"

text \<open>The query of the request: \<open>new URL(req.url, "http://x").searchParams\<close>.\<close>

definition with_query :: "env \<Rightarrow> request \<Rightarrow> (url_parts \<Rightarrow> reply act) \<Rightarrow> reply act" where
  "with_query e rq f = (case e_request_url e (rq_url rq) of None \<Rightarrow> throw (ATypeError ''url'') | Some u \<Rightarrow> f u)"

definition sid_text :: "nonce slot \<Rightarrow> string" where
  "sid_text s = (case s of Own n \<Rightarrow> (case nc_sid n of Some t \<Rightarrow> t | None \<Rightarrow> ''null'') | _ \<Rightarrow> ''undefined'')"

definition session_cookie :: "string \<Rightarrow> int \<Rightarrow> string" where
  "session_cookie sid age = ''mise_sid='' @ sid @ ''; HttpOnly; SameSite=Strict; Path=/; Max-Age='' @ int_text age"

definition poll :: "env \<Rightarrow> request \<Rightarrow> reply act" where
  "poll e rq =
     with_query e rq (\<lambda>u.
       (let nonce = (case search_param u ''nonce'' of Some n \<Rightarrow> n | None \<Rightarrow> [])
        in and_then (on_store (takeNonce (claimed_key nonce))) (\<lambda>claim.
             if claim = Missing then json 200 (Json [(''authenticated'', Bool False)])
             else give \<lparr>re_status = 200, re_body = Json [(''authenticated'', Bool True)],
                     re_cookie = Some (session_cookie (sid_text claim) (SESSION_TTL div 1000))\<rparr>)))"

definition submissions_of :: "user \<Rightarrow> submission list act" where
  "submissions_of u = (case u of Holder pc \<Rightarrow> on_store (submissionsFor pc) | Nobody \<Rightarrow> on_store (\<lambda>s. (Inr [], s, False)))"

definition me :: "env \<Rightarrow> request \<Rightarrow> reply act" where
  "me e rq =
     and_then (sessionFrom e rq) (\<lambda>s.
       case s of
         None \<Rightarrow> json 200 (Json [(''authenticated'', Bool False)])
       | Some u \<Rightarrow>
           and_then (submissions_of u) (\<lambda>mine.
             json 200 (Submissions (sort_by (submissionOrder e) mine)
               [(''authenticated'', Bool True), (''paymentCode'', user_val u), (''admin'', Bool (isAdmin e u))])))"

definition logout :: "env \<Rightarrow> request \<Rightarrow> reply act" where
  "logout e rq =
     and_then (sid_cookie rq) (\<lambda>sid.
       and_then (case sid of Some k \<Rightarrow> if k = [] then give () else on_store (dropSession k) | None \<Rightarrow> give ()) (\<lambda>_.
         give \<lparr>re_status = 200, re_body = Json [(''ok'', Bool True)], re_cookie = Some (session_cookie [] 0)\<rparr>))"

section \<open>The shop's identity\<close>

definition viaGateway :: "env \<Rightarrow> val \<Rightarrow> ((string \<times> val) list \<Rightarrow> reply act) \<Rightarrow> reply act" where
  "viaGateway e req f =
     (case e_gateway e req of
        Inl m \<Rightarrow> refuse 503 (GatewayDown m)
      | Inr out \<Rightarrow>
          if truthy (fld out ''error'') then refuse 400 (GatewaySaid (fld out ''error''))
          else if truthy out then f (case out of Obj m \<Rightarrow> m | _ \<Rightarrow> [])
          else throw Unanswered)"

definition store_identity :: "env \<Rightarrow> request \<Rightarrow> reply act" where
  "store_identity e rq =
     adminFrom e rq (\<lambda>_. viaGateway e (Obj [(''op'', Str ''identity'')]) (\<lambda>m.
       json 200 (Json (fold (\<lambda>p o'. AList.update (fst p) (snd p) o') m [(''admin'', Bool True)]))))"

definition set_receiver :: "env \<Rightarrow> request \<Rightarrow> reply act" where
  "set_receiver e rq =
     adminFrom e rq (\<lambda>_. with_body rq (\<lambda>b.
       viaGateway e (Obj [(''op'', Str ''bind-receiver''), (''network'', fld b ''network''), (''code'', fld b ''code'')])
         (\<lambda>m. json 200 (Json m))))"

definition set_network :: "env \<Rightarrow> request \<Rightarrow> reply act" where
  "set_network e rq =
     adminFrom e rq (\<lambda>_. with_body rq (\<lambda>b.
       viaGateway e (Obj [(''op'', Str ''set-active''), (''network'', fld b ''network'')]) (\<lambda>m. json 200 (Json m))))"

definition reveal_seed :: "env \<Rightarrow> request \<Rightarrow> reply act" where
  "reveal_seed e rq =
     adminFrom e rq (\<lambda>_. viaGateway e (Obj [(''op'', Str ''reveal-seed'')]) (\<lambda>m. json 200 (Json m)))"

section \<open>Products and invoices\<close>

definition stamp_val :: "stamp option \<Rightarrow> val" where
  "stamp_val s = (case s of Some (Instant t) \<Rightarrow> Num (of_int t) | Some (Unreadable x) \<Rightarrow> js_or (Str x) Null | None \<Rightarrow> Null)"

text \<open>The view of a product in a list. A time is shown by its milliseconds.\<close>

definition productListView :: "product \<Rightarrow> (string \<times> val) list" where
  "productListView p =
     [(''id'', pr_id p), (''name'', pr_name p), (''description'', pr_description p),
      (''price_usd_cents'', pr_price_usd_cents p), (''inventory'', pr_inventory p),
      (''image_path'', nullish (pr_image_path p) Null), (''status'', pr_status p),
      (''has_payload'', Bool (truthy (pr_payload_ref p))),
      (''created_at'', stamp_val (pr_created_at p)), (''updated_at'', stamp_val (pr_updated_at p))]"

definition admin_products :: "env \<Rightarrow> request \<Rightarrow> reply act" where
  "admin_products e rq =
     adminFrom e rq (\<lambda>_. and_then (on_store listProducts) (\<lambda>ps.
       json 200 (Json [(''admin'', Bool True), (''products'', Arr (map (\<lambda>p. Obj (productListView p)) ps))])))"

definition admin_product :: "env \<Rightarrow> request \<Rightarrow> reply act" where
  "admin_product e rq =
     adminFrom e rq (\<lambda>_. and_then (on_store (getProduct (last (split_on (CHR ''/'') (rq_url rq))))) (\<lambda>s.
       case s of
         Missing \<Rightarrow> refuse 404 NotFound
       | Own p \<Rightarrow> json 200 (Product p)
       | Inherited \<Rightarrow> json 200 (Json [(''product'', Undef)])))"

text \<open>The record a save asks the store to keep. \<open>old\<close> is what is stored under the id the caller gave; an inherited
  member counts as a record without fields.\<close>

definition blank_product :: product where
  "blank_product = \<lparr>pr_id = Undef, pr_name = Undef, pr_description = Undef, pr_price_usd_cents = Undef, pr_inventory = Undef,
     pr_image_path = Undef, pr_payload_ref = Undef, pr_status = Undef, pr_created_at = None, pr_updated_at = None\<rparr>"

definition saved_product :: "env \<Rightarrow> val \<Rightarrow> product slot \<Rightarrow> product" where
  "saved_product e b old =
     (let p = (case old of Own p \<Rightarrow> p | _ \<Rightarrow> blank_product); now = Some (to_iso (e_now e))
      in \<lparr>pr_id = (if old \<noteq> Missing then pr_id p
                  else if truthy (fld b ''id'') then Str (js_text (fld b ''id'')) else Str (''p_'' @ e_random e)),
          pr_name = nullish (fld b ''name'') (pr_name p),
          pr_description = nullish (nullish (fld b ''description'') (pr_description p)) (Str []),
          pr_price_usd_cents = nullish (fld b ''price_usd_cents'') (pr_price_usd_cents p),
          pr_inventory = (if fld b ''inventory'' = Undef then nullish (pr_inventory p) Null else fld b ''inventory''),
          pr_image_path = nullish (nullish (fld b ''image_path'') (pr_image_path p)) Null,
          pr_payload_ref = nullish (nullish (fld b ''digital_payload_ref'') (pr_payload_ref p)) Null,
          pr_status = nullish (nullish (fld b ''status'') (pr_status p)) (Str ''draft''),
          pr_created_at = stamp_or (pr_created_at p) now,
          pr_updated_at = now\<rparr>)"

definition attempt :: "'a act \<Rightarrow> (thrown + 'a) act" where
  "attempt m w = (case m w of (r, w1) \<Rightarrow> (Inr r, w1))"

definition save_product :: "env \<Rightarrow> request \<Rightarrow> reply act" where
  "save_product e rq =
     adminFrom e rq (\<lambda>_. with_body rq (\<lambda>b.
       and_then (if truthy (fld b ''id'') then on_store (getProduct (js_text (fld b ''id''))) else give Missing) (\<lambda>old.
       and_then (attempt (on_store (putProduct (saved_product e b old)))) (\<lambda>r.
         case r of
           Inr saved \<Rightarrow> json 200 (Json [(''ok'', Bool True), (''product'', Obj (productListView saved))])
         | Inl (StoreThrew f) \<Rightarrow> refuse 400 (StoreSaid f)
         | Inl t \<Rightarrow> throw t))))"

definition delete_product :: "env \<Rightarrow> request \<Rightarrow> reply act" where
  "delete_product e rq =
     adminFrom e rq (\<lambda>_. with_body rq (\<lambda>b.
       and_then (on_store (getProduct (js_text (fld b ''id'')))) (\<lambda>s.
         if s = Missing then refuse 404 NotFound
         else and_then (on_store (deleteProduct (js_text (fld b ''id'')))) (\<lambda>_. json 200 (Json [(''ok'', Bool True)])))))"

definition invoice_view :: "invoice \<Rightarrow> (string \<times> val) list" where
  "invoice_view i =
     (let d = (\<lambda>k. fld (iv_details i) k) in
      [(''id'', iv_id i), (''product_id'', d ''product_id''), (''quantity'', d ''quantity''), (''status'', Str (iv_status i)),
       (''address'', iv_address i), (''address_index'', d ''address_index''),
       (''price_usd_cents'', d ''price_usd_cents''), (''amount_sats'', iv_amount_sats i),
       (''rate_usd'', Num (iv_rate_usd i)), (''rate_at'', stamp_val (iv_rate_at i)), (''expires_at'', d ''expires_at''),
       (''paid_sats'', nullish (d ''paid_sats'') (Num 0)), (''txid'', nullish (d ''txid'') Null),
       (''paymentCode'', null_or (iv_paymentCode i)),
       (''created_at'', stamp_val (iv_created_at i)), (''updated_at'', js_or (d ''updated_at'') Null)])"

definition admin_invoices :: "env \<Rightarrow> request \<Rightarrow> reply act" where
  "admin_invoices e rq =
     adminFrom e rq (\<lambda>_. and_then (on_store listInvoices) (\<lambda>is.
       json 200 (Json [(''admin'', Bool True), (''invoices'', Arr (map (\<lambda>i. Obj (invoice_view i)) is))])))"

section \<open>Moderation\<close>

text \<open>\<open>publishedView\<close>: the last entry of each id of the published list, with its history.\<close>

definition elements :: "val \<Rightarrow> val list" where
  "elements v = (case v of Arr xs \<Rightarrow> xs | _ \<Rightarrow> [])"

definition published_entry :: "env \<Rightarrow> val \<Rightarrow> val" where
  "published_entry e n =
     Obj [(''status'', js_or (fld n ''status'') Null), (''checked_at'', js_or (fld n ''checked_at'') Null),
          (''block_height'', nullish (fld n ''block_height'') Null),
          (''detected_version'', js_or (fld n ''detected_version'') Null),
          (''checks'', js_or (fld (fld (fld (e_history e) ''nodes'') (js_text (fld n ''id''))) ''checks'') (Arr []))]"

definition publishedView :: "env \<Rightarrow> (val \<times> val) list" where
  "publishedView e =
     fold (\<lambda>n m. AList.update (fld n ''id'') (published_entry e n) m) (elements (fld (e_dojos e) ''nodes'')) []"

definition pending_nodes :: "env \<Rightarrow> val" where
  "pending_nodes e = js_or (fld (e_pending_probe e) ''nodes'') (Obj [])"

definition moderation_view :: "env \<Rightarrow> submission \<Rightarrow> (string \<times> val) list" where
  "moderation_view e s =
     (let live = map_of (publishedView e) (Str (sb_id s)); probe = fld (pending_nodes e) (sb_id s);
          detected = (case live of Some v \<Rightarrow> fld v ''detected_version'' | None \<Rightarrow> Undef);
          pairing = fld (sb_payload s) ''pairing''
      in [(''id'', Str (sb_id s)), (''network'', Str (sb_network s)), (''status'', Str (sb_status s)),
          (''name'', js_or (Str (sb_name s)) Null), (''paynym'', js_or (null_or (sb_paynym s)) Null),
          (''paymentCodes'', Arr (code_list s)), (''jurisdiction'', js_or (null_or (sb_jurisdiction s)) Null),
          (''country'', js_or (null_or (sb_country s)) Null), (''hardware'', js_or (null_or (sb_hardware s)) Null),
          (''signed'', Bool (truthy (null_or (sb_signed s)))),
          (''version'', js_or (js_or (js_or detected (fld probe ''detected_version'')) (fld pairing ''version'')) Null),
          (''pairingUrl'', js_or (fld pairing ''url'') Null),
          (''created_at'', stamp_val (sb_created_at s)), (''updated_at'', stamp_val (sb_updated_at s)),
          (''probe'', (case live of Some v \<Rightarrow> v | None \<Rightarrow> js_or probe Null)),
          (''probe_source'', (if live \<noteq> None then Str ''published'' else if truthy probe then Str ''pending'' else Null))])"

definition admin_submissions :: "env \<Rightarrow> request \<Rightarrow> reply act" where
  "admin_submissions e rq =
     adminFrom e rq (\<lambda>_. and_then (on_store listSubmissions) (\<lambda>rs.
       json 200 (Json [(''admin'', Bool True), (''submissions'', Arr (map (\<lambda>s. Obj (moderation_view e s)) rs))])))"

text \<open>\<open>getSubmission(body.id)\<close>, and what the handlers do with each kind of answer. A member of \<open>Object.prototype\<close>
  is taken for a record and fails later, when it is written.\<close>

definition id_key :: "val \<Rightarrow> string" where
  "id_key b = js_text (fld b ''id'')"

definition with_record :: "val \<Rightarrow> (string \<Rightarrow> submission \<Rightarrow> reply act) \<Rightarrow> reply act" where
  "with_record b f =
     and_then (on_store (getSubmission (id_key b))) (\<lambda>s.
       case s of
         Missing \<Rightarrow> refuse 404 NotFound
       | Inherited \<Rightarrow> throw (ATypeError (id_key b))
       | Own rec \<Rightarrow> f (id_key b) rec)"

definition stamped :: "env \<Rightarrow> submission \<Rightarrow> submission" where
  "stamped e rec = rec\<lparr>sb_updated_at := Some (to_iso (e_now e))\<rparr>"

definition first_code :: "submission \<Rightarrow> string option" where
  "first_code rec = (case code_list rec of c # _ \<Rightarrow> if is_str c then Some (str_of c) else None | [] \<Rightarrow> None)"

definition put_and_publish :: "env \<Rightarrow> submission \<Rightarrow> (submission \<Rightarrow> val \<Rightarrow> reply act) \<Rightarrow> reply act" where
  "put_and_publish e rec f =
     and_then (on_store (putSubmission rec)) (\<lambda>saved. and_then (tryRebuild e) (\<lambda>out. f saved out))"

definition approve :: "env \<Rightarrow> request \<Rightarrow> reply act" where
  "approve e rq =
     adminFrom e rq (\<lambda>_. with_body rq (\<lambda>b. with_record b (\<lambda>k rec.
       (let approved = (\<lambda>r. stamped e (r\<lparr>sb_status := ''approved''\<rparr>));
            done = (\<lambda>nym. \<lambda>r. case nym of Some n \<Rightarrow> r\<lparr>sb_paynym := Some n\<rparr> | None \<Rightarrow> r);
            finish = (\<lambda>nym.
              and_then (touch k (done nym)) (\<lambda>_.
                put_and_publish e (done nym (approved rec)) (\<lambda>saved out.
                  json 200 (Submission saved [(''ok'', Bool True), (''rebuild'', out)]))))
        in and_then (touch k approved) (\<lambda>_.
             if truthy (fld b ''paynym'')
             then (case fld b ''paynym'' of
                 Str n \<Rightarrow> finish (Some (plus_nym n))
               | _ \<Rightarrow> throw (ATypeError ''startsWith''))
             else if sb_paynym rec = None \<or> sb_paynym rec = Some []
             then finish (case first_code rec of Some c \<Rightarrow> resolvePayNym e c | None \<Rightarrow> None)
             else finish None)))))"

definition reject :: "env \<Rightarrow> request \<Rightarrow> reply act" where
  "reject e rq =
     adminFrom e rq (\<lambda>_. with_body rq (\<lambda>b. with_record b (\<lambda>k rec.
       (let rejected = (\<lambda>r. stamped e (r\<lparr>sb_status := ''rejected''\<rparr>))
        in and_then (touch k rejected) (\<lambda>_.
             put_and_publish e (rejected rec) (\<lambda>saved out.
               json 200 (Json [(''ok'', Bool True), (''rebuild'', out)])))))))"

definition remove :: "env \<Rightarrow> request \<Rightarrow> reply act" where
  "remove e rq =
     adminFrom e rq (\<lambda>_. with_body rq (\<lambda>b.
       and_then (on_store (deleteSubmission (id_key b))) (\<lambda>_.
         and_then (tryRebuild e) (\<lambda>out. json 200 (Json [(''ok'', Bool True), (''rebuild'', out)])))))"

end
