(* ===== verification/ApiDojo.thy ===== *)
theory ApiDojo
  imports ApiRoutes
begin

text \<open>
  The routes of \<open>server/index.ts\<close> for an operator's own listings: the name check, the submission with its
  gates, the edits and the deletion.
\<close>

definition name_check :: "env \<Rightarrow> request \<Rightarrow> reply act" where
  "name_check e rq =
     with_session e rq (\<lambda>u. with_query e rq (\<lambda>q.
       (let network = (if search_param q ''network'' = Some ''testnet'' then ''testnet'' else ''mainnet'');
            slug = slugify (null_or (search_param q ''name''))
        in if slug = [] then refuse 400 NameRequired
           else and_then (nameConflict e network slug u) (\<lambda>conflict.
             and_then (if conflict \<noteq> None then give None else ownedRecordFor network slug u) (\<lambda>mine.
               json 200 (NameAnswer conflict [(''available'', Bool (conflict = None)), (''slug'', Str slug),
                 (''update'', Bool (mine \<noteq> None)),
                 (''id'', Str (case mine of Some r \<Rightarrow> sb_id r | None \<Rightarrow> listing_id network slug))]))))))"

definition body_network :: "val \<Rightarrow> string option" where
  "body_network b =
     (if fld b ''network'' = Str ''testnet'' then Some ''testnet''
      else if fld b ''network'' = Str ''mainnet'' then Some ''mainnet'' else None)"

text \<open>\<open>String(v || "").trim().slice(0, n)\<close> and \<open>(v || "").toString().slice(0, n) || null\<close>.\<close>

definition short_text :: "nat \<Rightarrow> val \<Rightarrow> string" where
  "short_text n v = take n (trim (text_or_empty v))"

definition short_field :: "nat \<Rightarrow> val \<Rightarrow> string option" where
  "short_field n v = some_text (take n (text_or_empty v))"

text \<open>The signature gate, on the text as pasted: the block to store, or why it is refused. \<open>net\<close> is the network
  the message prefix is taken from.\<close>

definition session_addresses :: "env \<Rightarrow> user \<Rightarrow> string list" where
  "session_addresses e u = (case u of Holder c \<Rightarrow> notificationAddresses (e_derive e) c | Nobody \<Rightarrow> [])"

definition signature_gate :: "env \<Rightarrow> user \<Rightarrow> string \<Rightarrow> val \<Rightarrow> val \<Rightarrow> api_error + string" where
  "signature_gate e u net payload pasted =
     (case cleanSigned pasted of
        None \<Rightarrow> Inl SignatureMissing
      | Some t \<Rightarrow>
          (let signed = (case repairSignedBlock (e_derive e) (e_checks e) (Str t) of Some (block, _) \<Rightarrow> block | None \<Rightarrow> t)
           in case verifySignedPayload (e_derive e) (e_checks e) (Str signed) (Some (canonicalPairing payload))
                     (Some (session_addresses e u)) net of
                Refused r \<Rightarrow> Inl (SignatureGate r)
              | Accepted _ _ \<Rightarrow> Inr signed))"

definition stored_payload :: "val \<Rightarrow> val" where
  "stored_payload p = Obj [(''pairing'', fld p ''pairing''), (''explorer'', fld p ''explorer'')]"

definition union_codes :: "submission option \<Rightarrow> user \<Rightarrow> val list" where
  "union_codes existing u = dedup ((case existing of Some r \<Rightarrow> code_list r | None \<Rightarrow> []) @ [user_val u])"

definition nonempty :: "string option \<Rightarrow> string option" where
  "nonempty s = (case s of Some t \<Rightarrow> some_text t | None \<Rightarrow> None)"

definition keep_or :: "string option \<Rightarrow> string option \<Rightarrow> string option" where
  "keep_or a b = (if nonempty a \<noteq> None then a else nonempty b)"

definition new_listing ::
  "env \<Rightarrow> user \<Rightarrow> val \<Rightarrow> string \<Rightarrow> string \<Rightarrow> string \<Rightarrow> submission option \<Rightarrow> val \<Rightarrow> string \<Rightarrow> submission" where
  "new_listing e u b network name slug existing check signed =
     \<lparr>sb_id = (case existing of Some r \<Rightarrow> sb_id r | None \<Rightarrow> listing_id network slug),
      sb_network = network, sb_name = name, sb_status = ''pending'',
      sb_codes = Some (union_codes existing u), sb_code = None,
      sb_paynym = keep_or (case u of Holder c \<Rightarrow> resolvePayNym e c | Nobody \<Rightarrow> None) (Option.bind existing sb_paynym),
      sb_jurisdiction = short_field 64 (fld b ''jurisdiction''),
      sb_country = keep_or (countryFor (e_region e) (fld b ''jurisdiction'')) (Option.bind existing sb_country),
      sb_hardware = short_field 120 (fld b ''hardware''),
      sb_payload = stored_payload (fld b ''payload''),
      sb_signed = some_text signed, sb_last_probe = check,
      sb_created_at = (case existing of Some r \<Rightarrow> sb_created_at r | None \<Rightarrow> Some (to_iso (e_now e))),
      sb_updated_at = Some (to_iso (e_now e)), sb_source = None\<rparr>"

definition probe_of :: "env \<Rightarrow> val \<Rightarrow> string \<Rightarrow> val" where
  "probe_of e payload network =
     e_probe e (fld (fld payload ''pairing'') ''url'') (fld (fld payload ''pairing'') ''apikey'') network"

definition version_gate :: "env \<Rightarrow> submission option \<Rightarrow> val \<Rightarrow> val \<Rightarrow> judgement" where
  "version_gate e existing check payload =
     (case existing of
        Some _ \<Rightarrow> \<lparr>j_ok = True, j_version = Null, j_source = None, j_reason = None\<rparr>
      | None \<Rightarrow> judgeVersion (fld check ''detectedVersion'') (fld (fld payload ''pairing'') ''version'') (e_min_version e))"

text \<open>The gates in their order, for a body whose network is known.\<close>

definition submit_to :: "env \<Rightarrow> user \<Rightarrow> val \<Rightarrow> string \<Rightarrow> reply act" where
  "submit_to e u b network =
     (let name = short_text 40 (fld b ''name''); slug = slugify (Str name); payload = fld b ''payload'' in
      if slug = [] then refuse 400 NameRequired
      else and_then (nameConflict e network slug u) (\<lambda>conflict.
        case conflict of
          Some r \<Rightarrow> refuse 409 (NameTaken name network r)
        | None \<Rightarrow>
            (case validatePayload e payload (Some network) of
               Some err \<Rightarrow> refuse 400 (PayloadError err)
             | None \<Rightarrow>
                 (case signature_gate e u (networkOf network) payload (fld b ''signed'') of
                    Inl err \<Rightarrow> refuse 400 err
                  | Inr signed \<Rightarrow>
                      (let check = probe_of e payload network in
                       if \<not> truthy (fld check ''up'') then refuse 422 (ConnectionGate check)
                       else and_then (ownedRecordFor network slug u) (\<lambda>existing.
                         (let v = version_gate e existing check payload in
                          if \<not> j_ok v then refuse 422 (VersionGate (j_reason v))
                          else and_then
                            (on_store (putSubmission (new_listing e u b network name slug existing check signed)))
                            (\<lambda>saved. json 200 (Submission saved [(''ok'', Bool True)])))))))))"

definition submit :: "env \<Rightarrow> request \<Rightarrow> reply act" where
  "submit e rq =
     with_session e rq (\<lambda>u. with_body rq (\<lambda>b.
       case body_network b of
         None \<Rightarrow> refuse 400 NetworkRequired
       | Some network \<Rightarrow> submit_to e u b network))"

section \<open>Edits\<close>

definition edited :: "env \<Rightarrow> val \<Rightarrow> submission \<Rightarrow> submission" where
  "edited e b rec =
     stamped e (rec\<lparr>sb_name := short_text 40 (fld b ''name''),
       sb_hardware := some_text (short_text 120 (fld b ''hardware''))\<rparr>)"

definition publish_if_approved :: "env \<Rightarrow> submission \<Rightarrow> val act" where
  "publish_if_approved e rec = (if sb_status rec = ''approved'' then tryRebuild e else give Null)"

text \<open>The assignments reach the record in the cache before \<open>putSubmission\<close> looks at it.\<close>

definition change_record :: "env \<Rightarrow> string \<Rightarrow> (submission \<Rightarrow> submission) \<Rightarrow> submission \<Rightarrow> reply act" where
  "change_record e k f rec =
     and_then (touch k f) (\<lambda>_.
     and_then (on_store (putSubmission (f rec))) (\<lambda>saved.
     and_then (publish_if_approved e saved) (\<lambda>out.
       json 200 (Submission saved [(''ok'', Bool True), (''rebuild'', out)]))))"

definition applyEdit :: "env \<Rightarrow> string \<Rightarrow> submission \<Rightarrow> val \<Rightarrow> reply act" where
  "applyEdit e k rec b =
     (let name = short_text 40 (fld b ''name''); slug = slugify (Str name) in
      if slug = [] then refuse 400 NameRequired
      else and_then (slugTakenByOther e (sb_network rec) slug (sb_id rec)) (\<lambda>taken.
        case taken of
          Some r \<Rightarrow> refuse 409 (NameTaken name (sb_network rec) r)
        | None \<Rightarrow> change_record e k (edited e b) rec))"

text \<open>An operator's own record; anything else is not found.\<close>

definition with_own_record :: "user \<Rightarrow> val \<Rightarrow> (string \<Rightarrow> submission \<Rightarrow> reply act) \<Rightarrow> reply act" where
  "with_own_record u b f =
     and_then (on_store (getSubmission (id_key b))) (\<lambda>s.
       case s of
         Own rec \<Rightarrow> if owns rec u then f (id_key b) rec else refuse 404 NotFound
       | _ \<Rightarrow> refuse 404 NotFound)"

definition edit :: "env \<Rightarrow> request \<Rightarrow> reply act" where
  "edit e rq =
     with_session e rq (\<lambda>u. with_body rq (\<lambda>b. with_own_record u b (\<lambda>k rec. applyEdit e k rec b)))"

definition admin_edit :: "env \<Rightarrow> request \<Rightarrow> reply act" where
  "admin_edit e rq =
     adminFrom e rq (\<lambda>_. with_body rq (\<lambda>b. with_record b (\<lambda>k rec. applyEdit e k rec b)))"

definition repaired :: "env \<Rightarrow> val \<Rightarrow> string \<Rightarrow> val \<Rightarrow> submission \<Rightarrow> submission" where
  "repaired e payload signed check rec =
     stamped e (rec\<lparr>sb_payload := stored_payload payload, sb_signed := some_text signed, sb_last_probe := check\<rparr>)"

definition pairing :: "env \<Rightarrow> request \<Rightarrow> reply act" where
  "pairing e rq =
     with_session e rq (\<lambda>u. with_body rq (\<lambda>b. with_own_record u b (\<lambda>k rec.
       (let network = (if sb_network rec = ''testnet'' then ''testnet'' else ''mainnet''); payload = fld b ''payload'' in
        case validatePayload e payload (Some network) of
          Some err \<Rightarrow> refuse 400 (PayloadError err)
        | None \<Rightarrow>
            (case signature_gate e u ''bitcoin'' payload (fld b ''signed'') of
               Inl err \<Rightarrow> refuse 400 err
             | Inr signed \<Rightarrow>
                 (let check = probe_of e payload network in
                  if \<not> truthy (fld check ''up'') then refuse 422 (ConnectionGate check)
                  else change_record e k (repaired e payload signed check) rec))))))"

definition delete_listing :: "env \<Rightarrow> request \<Rightarrow> reply act" where
  "delete_listing e rq =
     with_session e rq (\<lambda>u. with_body rq (\<lambda>b. with_own_record u b (\<lambda>k rec.
       and_then (on_store (deleteSubmission k)) (\<lambda>_. json 200 (Json [(''ok'', Bool True)])))))"

end
