(* ===== verification/ApiDomain.thy ===== *)
theory ApiDomain
  imports ApiDojo
begin

text \<open>
  The routes of \<open>server/index.ts\<close> for verified domains, and the two sweeps the backend runs on a timer.
\<close>

section \<open>The operator's claim\<close>

text \<open>The key of a session's claim, and the payment code a signature is checked against: a session without a code
  has none.\<close>

fun claim_code :: "user \<Rightarrow> string" where
  "claim_code (Holder c) = c"
| "claim_code Nobody = []"

text \<open>What the handlers make of the answer of \<open>getDomain\<close>: an inherited member is a claim without fields, whose
  payment code reads as \<open>undefined\<close>.\<close>

definition blank_claim :: domain_claim where
  "blank_claim = \<lparr>dc_paymentCode = ''undefined'', dc_domain = ''undefined'', dc_signed = [], dc_verified = False,
     dc_verified_at = None, dc_last_check = None, dc_last_result = None, dc_fail_since = None, dc_created_at = None,
     dc_revoked = False, dc_also_claimed_by = None\<rparr>"

definition slot_claim :: "domain_claim slot \<Rightarrow> domain_claim option" where
  "slot_claim s = (case s of Own c \<Rightarrow> Some c | Inherited \<Rightarrow> Some blank_claim | Missing \<Rightarrow> None)"

definition get_domain :: "env \<Rightarrow> request \<Rightarrow> reply act" where
  "get_domain e rq =
     with_session e rq (\<lambda>u. and_then (on_store (getDomain (code_text u))) (\<lambda>s.
       json 200 (Claim (slot_claim s)
         [(''txt_host'', Str txtHost), (''txt_prefix'', Str (txtName ''<your-domain>'')),
          (''txt_value'', Str (txtValue (code_text u)))])))"

definition prepare :: "env \<Rightarrow> request \<Rightarrow> reply act" where
  "prepare e rq =
     with_session e rq (\<lambda>u.
       case request_json rq of
         None \<Rightarrow> refuse 400 InvalidJson
       | Some b \<Rightarrow>
           (case normaliseDomain (e_parse e) (fld b ''domain'') of
              Inl err \<Rightarrow> refuse 400 (DomainRefused err)
            | Inr (domain, puny) \<Rightarrow>
                json 200 (Json [(''domain'', Str domain), (''punycode'', Bool puny), (''txt_host'', Str txtHost),
                  (''txt_name'', Str (txtName domain)), (''txt_value'', Str (txtValue (code_text u))),
                  (''sign_text'', Str (signingText domain (code_text u)))])))"

text \<open>The wording of a failure, for \<open>last_result\<close>.\<close>

definition failure_words :: "env \<Rightarrow> claim_result \<Rightarrow> string \<Rightarrow> string" where
  "failure_words e r d = (case cr_error r of Some (BadRecord x) \<Rightarrow> or_text (e_words e) x d | _ \<Rightarrow> d)"

definition new_claim :: "env \<Rightarrow> user \<Rightarrow> string \<Rightarrow> string \<Rightarrow> claim_result \<Rightarrow> domain_claim slot \<Rightarrow> domain_claim option \<Rightarrow> domain_claim" where
  "new_claim e u domain signed r prev clash =
     (let now = Some (to_iso (e_now e)) in
      \<lparr>dc_paymentCode = code_text u, dc_domain = domain, dc_signed = signed, dc_verified = cr_ok r,
       dc_verified_at = (if cr_ok r then now else None), dc_last_check = (if cr_ok r then now else None),
       dc_last_result = Some (if cr_ok r then ''ok'' else failure_words e r ''awaiting the TXT record''),
       dc_fail_since = None,
       dc_created_at = (case prev of Own c \<Rightarrow> stamp_or (dc_created_at c) now | _ \<Rightarrow> now),
       dc_revoked = False, dc_also_claimed_by = map_option dc_paymentCode clash\<rparr>)"

definition post_domain :: "env \<Rightarrow> request \<Rightarrow> reply act" where
  "post_domain e rq =
     with_session e rq (\<lambda>u.
       case request_json rq of
         None \<Rightarrow> refuse 400 InvalidJson
       | Some b \<Rightarrow>
           (case normaliseDomain (e_parse e) (fld b ''domain'') of
              Inl err \<Rightarrow> refuse 400 (DomainRefused err)
            | Inr (domain, puny) \<Rightarrow>
                (let pasted = trim (text_or_empty (fld b ''signed'')) in
                 if pasted = [] then refuse 400 BlockMissing
                 else (let signed = (case repairSignedBlock (e_derive e) (e_checks e) (Str pasted) of
                                Some (block, _) \<Rightarrow> block | None \<Rightarrow> pasted) in
                   and_then (on_store listDomains) (\<lambda>cs.
                     (let clash = find (\<lambda>c. dc_verified c \<and> dc_domain c = domain \<and> dc_paymentCode c \<noteq> code_text u) cs;
                          r = verifyClaim (e_derive e) (e_checks e) (e_lookup e) domain (claim_code u) signed
                      in and_then (on_store (getDomain (code_text u))) (\<lambda>prev.
                        if \<not> cr_ok r \<and> cr_stage r = Some Signature then refuse 400 (ClaimRefused (cr_error r))
                        else and_then (on_store (putDomain (new_claim e u domain signed r prev clash))) (\<lambda>c.
                          and_then (tryRebuild e) (\<lambda>out.
                            json (if cr_ok r then 200 else 202)
                              (Claim (Some c) [(''ok'', Bool (cr_ok r)), (''rebuild'', out)]))))))))))"

definition rechecked_claim :: "env \<Rightarrow> domain_claim \<Rightarrow> claim_result \<Rightarrow> domain_claim" where
  "rechecked_claim e c r =
     c\<lparr>dc_last_check := Some (to_iso (e_now e)), dc_verified := cr_ok r,
       dc_verified_at := (if cr_ok r then stamp_or (dc_verified_at c) (Some (to_iso (e_now e))) else dc_verified_at c),
       dc_last_result := Some (if cr_ok r then ''ok'' else failure_words e r ''no matching TXT record''),
       dc_fail_since := (if cr_ok r then None else dc_fail_since c)\<rparr>"

definition recheck_domain :: "env \<Rightarrow> request \<Rightarrow> reply act" where
  "recheck_domain e rq =
     with_session e rq (\<lambda>u. and_then (on_store (getDomain (code_text u))) (\<lambda>s.
       case slot_claim s of
         Some c \<Rightarrow>
           (let r = verifyClaim (e_derive e) (e_checks e) (e_lookup e) (dc_domain c) (dc_paymentCode c) (dc_signed c)
            in and_then (on_store (putDomain (rechecked_claim e c r))) (\<lambda>c'.
                 and_then (tryRebuild e) (\<lambda>out.
                   json (if cr_ok r then 200 else 202)
                     (Claim (Some c') [(''ok'', Bool (cr_ok r)), (''inconclusive'', Bool (cr_inconclusive r)), (''rebuild'', out)]))))
       | None \<Rightarrow> refuse 404 NoClaim))"

definition delete_domain :: "env \<Rightarrow> request \<Rightarrow> reply act" where
  "delete_domain e rq =
     with_session e rq (\<lambda>u. and_then (on_store (deleteDomain (code_text u))) (\<lambda>_.
       and_then (tryRebuild e) (\<lambda>out. json 200 (Json [(''ok'', Bool True), (''rebuild'', out)]))))"

section \<open>The administrator's side\<close>

definition revoked_claim :: "env \<Rightarrow> domain_claim \<Rightarrow> domain_claim" where
  "revoked_claim e c =
     c\<lparr>dc_verified := False, dc_revoked := True, dc_last_result := Some ''revoked by admin'',
       dc_last_check := Some (to_iso (e_now e))\<rparr>"

definition revoke_domain :: "env \<Rightarrow> request \<Rightarrow> reply act" where
  "revoke_domain e rq =
     adminFrom e rq (\<lambda>_.
       case request_json rq of
         None \<Rightarrow> refuse 400 InvalidJson
       | Some b \<Rightarrow>
           and_then (on_store (getDomain (text_or_empty (fld b ''paymentCode'')))) (\<lambda>s.
             case slot_claim s of
               Some c \<Rightarrow>
                 and_then (on_store (putDomain (revoked_claim e c))) (\<lambda>_.
                   and_then (tryRebuild e) (\<lambda>out. json 200 (Json [(''ok'', Bool True), (''rebuild'', out)])))
             | None \<Rightarrow> refuse 404 NoClaim))"

definition admin_domains :: "env \<Rightarrow> request \<Rightarrow> reply act" where
  "admin_domains e rq = adminFrom e rq (\<lambda>_. and_then (on_store listDomains) (\<lambda>cs. json 200 (Claims cs)))"

section \<open>Sweeps\<close>

definition retention_days :: int where
  "retention_days = 14"

definition sweepRejected :: "env \<Rightarrow> string list act" where
  "sweepRejected e =
     and_then (attempt (on_store (pruneRejected retention_days (e_now e)))) (\<lambda>r.
       give (case r of Inr gone \<Rightarrow> gone | Inl _ \<Rightarrow> []))"

text \<open>The claims as they were listed when the sweep began; each changed one is written as it is decided. The flag
  says whether a badge appeared or disappeared.\<close>

fun sweep_claims :: "env \<Rightarrow> domain_claim list \<Rightarrow> bool \<Rightarrow> bool act" where
  "sweep_claims e [] changed = give changed"
| "sweep_claims e (c # cs) changed =
     (if dc_revoked c \<or> \<not> isDue c (e_now e) then sweep_claims e cs changed
      else (let next' = applyRecheck (e_words e) c (recheckClaim (e_lookup e) c) (e_now e) in
        if next' = c then sweep_claims e cs changed
        else and_then (on_store (putDomain next')) (\<lambda>_.
          sweep_claims e cs (changed \<or> dc_verified next' \<noteq> dc_verified c))))"

definition sweepDomains :: "env \<Rightarrow> bool act" where
  "sweepDomains e =
     and_then (on_store listDomains) (\<lambda>cs.
       and_then (sweep_claims e cs False) (\<lambda>changed.
         if changed then and_then (tryRebuild e) (\<lambda>_. give True) else give False))"

end
