(* ===== verification/ApiServer.thy ===== *)
theory ApiServer
  imports ApiDomain
begin

text \<open>
  The rest of \<open>server/index.ts\<close>: the background jobs (self-update and import) and the answers about them, the
  cached update check, the history export and the dispatcher. A job is started by its route and then advances
  on its own, in the steps \<open>run_update\<close> and \<open>run_import\<close>, with the outcome of each call outside as an argument.
  The cross that starts the log line of a failure is written \<open>x\<close>.
\<close>

section \<open>Jobs\<close>

definition log_line :: "nat \<Rightarrow> string \<Rightarrow> job \<Rightarrow> job" where
  "log_line cap line j =
     (let l = jb_log j @ [line] in j\<lparr>jb_log := (if cap < length l then tl l else l)\<rparr>)"

definition log_lines :: "nat \<Rightarrow> string list \<Rightarrow> job \<Rightarrow> job" where
  "log_lines cap lines j = fold (log_line cap) lines j"

definition UPDATE_LOG :: nat where
  "UPDATE_LOG = 200"

definition IMPORT_LOG :: nat where
  "IMPORT_LOG = 400"

definition new_job :: "string \<Rightarrow> string \<Rightarrow> bool \<Rightarrow> job" where
  "new_job i subject apply' =
     \<lparr>jb_id = i, jb_phase = ''starting'', jb_log = [], jb_done = False, jb_ok = False, jb_error = None,
      jb_subject = subject, jb_apply = apply', jb_result = Null\<rparr>"

definition running :: "job option \<Rightarrow> bool" where
  "running j = (case j of Some x \<Rightarrow> \<not> jb_done x | None \<Rightarrow> False)"

definition fail_job :: "nat \<Rightarrow> string \<Rightarrow> job \<Rightarrow> job" where
  "fail_job cap m j =
     log_line cap (''x '' @ m) (j\<lparr>jb_error := Some m, jb_ok := False, jb_done := True, jb_phase := ''failed''\<rparr>)"

text \<open>\<open>replace(/^https?:\/\//, "").replace(/\/.*$/, "")\<close>; a line break after a slash keeps it, and the check that
  follows then fails.\<close>

definition onion_host :: "val \<Rightarrow> string" where
  "onion_host v =
     (let s = text_or_empty v;
          t = (if prefix ''http://'' s then drop 7 s else if prefix ''https://'' s then drop 8 s else s);
          path = dropWhile (\<lambda>c. c \<noteq> CHR ''/'') t
      in if newline \<in> set path \<or> CHR 0x0D \<in> set path then t else takeWhile (\<lambda>c. c \<noteq> CHR ''/'') t)"

definition onion_char :: "char \<Rightarrow> bool" where
  "onion_char c \<longleftrightarrow> (let n = of_char c :: nat in (97 \<le> n \<and> n \<le> 122) \<or> (50 \<le> n \<and> n \<le> 55))"

text \<open>\<open>/^[a-z2-7]{56}\.onion$/\<close>.\<close>

definition is_onion_host :: "string \<Rightarrow> bool" where
  "is_onion_host h \<longleftrightarrow> length h = 62 \<and> list_all onion_char (take 56 h) \<and> drop 56 h = ''.onion''"

text \<open>\<open>JSON.parse(await readBody(req))\<close>, or \<open>{}\<close> when that throws.\<close>

definition body_or_empty :: "request \<Rightarrow> (val \<Rightarrow> reply act) \<Rightarrow> reply act" where
  "body_or_empty rq f =
     (let b = (case request_json rq of Some b \<Rightarrow> b | None \<Rightarrow> Obj [])
      in if b = Null then throw (ATypeError ''null'') else f b)"

definition set_update_job :: "job \<Rightarrow> unit act" where
  "set_update_job j w = (Inr (), w\<lparr>w_update_job := Some j\<rparr>)"

definition set_import_job :: "job \<Rightarrow> unit act" where
  "set_import_job j w = (Inr (), w\<lparr>w_import_job := Some j\<rparr>)"

definition start_update :: "env \<Rightarrow> request \<Rightarrow> reply act" where
  "start_update e rq =
     adminFrom e rq (\<lambda>_ w.
       (if running (w_update_job w) then refuse 409 JobRunning
        else body_or_empty rq (\<lambda>b.
          and_then (set_update_job
              (new_job (e_random e) (if fld b ''source'' = Str ''peer'' then ''peer'' else ''github'') True)) (\<lambda>_.
            json 202 (Json [(''started'', Bool True), (''id'', Str (e_random e))])))) w)"

text \<open>The detached part of a self-update. \<open>fetched\<close> is the outcome of the download with the lines it logged,
  \<open>applied\<close> that of the installation.\<close>

definition run_update ::
  "val \<Rightarrow> string list \<times> (string + string \<times> string) \<Rightarrow> string list \<times> (string + unit) \<Rightarrow> job \<Rightarrow> job" where
  "run_update b fetched applied j =
     (let j1 = j\<lparr>jb_phase := ''fetching''\<rparr> in
      if jb_subject j = ''peer'' \<and> \<not> is_onion_host (onion_host (fld b ''onion''))
      then fail_job UPDATE_LOG ''a valid peer .onion is required'' j1
      else (let j2 = log_lines UPDATE_LOG (fst fetched) j1 in
        case snd fetched of
          Inl m \<Rightarrow> fail_job UPDATE_LOG m j2
        | Inr (version, label) \<Rightarrow>
            (let j3 = log_lines UPDATE_LOG (fst applied) (j2\<lparr>jb_result := Str version, jb_phase := ''applying''\<rparr>) in
             case snd applied of
               Inl m \<Rightarrow> fail_job UPDATE_LOG m j3
             | Inr _ \<Rightarrow>
                 log_line UPDATE_LOG (''update staged from '' @ label @ ''; service is restarting.'')
                   (j3\<lparr>jb_phase := ''restarting'', jb_ok := True, jb_done := True\<rparr>))))"

text \<open>\<open>/^(PM8T|PM8[A-Za-z0-9])/\<close> and at least 100 characters.\<close>

definition alnum :: "char \<Rightarrow> bool" where
  "alnum c \<longleftrightarrow> is_letter c \<or> is_digit c"

definition trusted_code :: "val \<Rightarrow> string" where
  "trusted_code b = trim (text_or_empty (fld b ''code''))"

definition looks_like_peer_code :: "string \<Rightarrow> bool" where
  "looks_like_peer_code c \<longleftrightarrow> prefix ''PM8'' c \<and> 100 \<le> length c \<and> alnum (c ! 3)"

definition start_import :: "env \<Rightarrow> request \<Rightarrow> reply act" where
  "start_import e rq =
     adminFrom e rq (\<lambda>_ w.
       (if running (w_import_job w) then refuse 409 JobRunning
        else body_or_empty rq (\<lambda>b.
          if \<not> is_onion_host (onion_host (fld b ''onion'')) then refuse 400 OnionRequired
          else if \<not> looks_like_peer_code (trusted_code b) then refuse 400 CodeRequired
          else and_then (set_import_job
              (new_job (e_random e) (onion_host (fld b ''onion'')) (fld b ''apply'' = Bool True))) (\<lambda>_.
            json 202 (Json [(''started'', Bool True), (''id'', Str (e_random e)),
              (''apply'', Bool (fld b ''apply'' = Bool True))])))) w)"

text \<open>The detached part of an import: the import itself, the rebuild after an applied one, and the probe cycle when
  something was imported. \<open>cycle\<close> says whether a cycle was running already, and otherwise how the one started
  here ended.\<close>

definition imported_any :: "val \<Rightarrow> bool" where
  "imported_any result = (case fld result ''imported'' of Num n \<Rightarrow> 0 < n | _ \<Rightarrow> False)"

definition probe_cycle :: "string option option \<Rightarrow> job \<Rightarrow> job" where
  "probe_cycle cycle j =
     (case cycle of
        None \<Rightarrow> log_line IMPORT_LOG ''a probe cycle is already running; the imported nodes will get their status from it'' j
      | Some outcome \<Rightarrow>
          (let j1 = log_line IMPORT_LOG ''probing the imported nodes over Tor (this takes a minute)'' j in
           case outcome of
             None \<Rightarrow> log_line IMPORT_LOG ''probe cycle complete: the imported nodes show their own status'' j1
           | Some m \<Rightarrow>
               log_lines IMPORT_LOG [''! probe cycle failed: '' @ m,
                 ''  the import is complete; the update timer will fill in statuses within ten minutes''] j1))"

definition run_import ::
  "env \<Rightarrow> string list \<times> (string + val) \<Rightarrow> string option option \<Rightarrow> job \<Rightarrow> job act" where
  "run_import e outcome cycle j =
     (let j1 = log_lines IMPORT_LOG (fst outcome) (j\<lparr>jb_phase := (if jb_apply j then ''importing'' else ''planning'')\<rparr>) in
      case snd outcome of
        Inl m \<Rightarrow> give (fail_job IMPORT_LOG m j1)
      | Inr result \<Rightarrow>
          (let j2 = j1\<lparr>jb_result := result\<rparr>;
               done = (\<lambda>j. j\<lparr>jb_ok := True, jb_done := True, jb_phase := ''done''\<rparr>)
           in if \<not> jb_apply j then give (done j2)
              else and_then (tryRebuild e) (\<lambda>_.
                give (done (if imported_any result
                  then probe_cycle cycle (j2\<lparr>jb_phase := ''probing''\<rparr>)
                  else j2\<lparr>jb_phase := ''rebuilding''\<rparr>)))))"

definition import_status :: "env \<Rightarrow> request \<Rightarrow> reply act" where
  "import_status e rq = adminFrom e rq (\<lambda>_ w. json 200 (Job (w_import_job w) []) w)"

definition update_status :: "env \<Rightarrow> request \<Rightarrow> reply act" where
  "update_status e rq =
     adminFrom e rq (\<lambda>_ w. json 200 (Job (w_update_job w) [(''lastResult'', e_last_result e)]) w)"

section \<open>The update check\<close>

definition updateCacheDecision :: "int option \<Rightarrow> int \<Rightarrow> bool \<Rightarrow> int \<Rightarrow> int \<Rightarrow> int \<Rightarrow> bool \<times> int" where
  "updateCacheDecision cachedAt now forced forcedAt ttlMs floorMs =
     (let fresh = (case cachedAt of Some t \<Rightarrow> now - t < ttlMs | None \<Rightarrow> False); since = now - forcedAt in
      if \<not> fresh then (False, 0)
      else if \<not> forced then (True, 0)
      else if forcedAt \<noteq> 0 \<and> since < floorMs then (True, - ((since - floorMs) div 1000))
      else (False, 0))"

definition UPDATE_TTL_MS :: int where
  "UPDATE_TTL_MS = 6 * 3600 * 1000"

definition FORCED_UPDATE_FLOOR :: int where
  "FORCED_UPDATE_FLOOR = 60 * 1000"

text \<open>\<open>/[?&]refresh=1(&|$)/\<close>.\<close>

definition wants_refresh :: "string \<Rightarrow> bool" where
  "wants_refresh url =
     list_ex (\<lambda>u. (prefix ''?refresh=1'' u \<or> prefix ''&refresh=1'' u) \<and>
       (length u = 10 \<or> u ! 10 = CHR ''&'')) (suffixes url)"

definition set_forced :: "int \<Rightarrow> unit act" where
  "set_forced t w = (Inr (), w\<lparr>w_forced_at := t\<rparr>)"

definition set_updates_cache :: "int \<Rightarrow> val \<Rightarrow> unit act" where
  "set_updates_cache t r w = (Inr (), w\<lparr>w_updates_cache := Some (t, r)\<rparr>)"

definition fields_of :: "val \<Rightarrow> (string \<times> val) list" where
  "fields_of v = (case v of Obj m \<Rightarrow> m | _ \<Rightarrow> [])"

definition check_updates :: "env \<Rightarrow> bool \<Rightarrow> reply act" where
  "check_updates e forced =
     and_then (if forced then set_forced (e_now e) else give ()) (\<lambda>_.
       case e_updates e of
         Inl m \<Rightarrow> json 200 (Json [(''available'', Bool False), (''error'', Str m)])
       | Inr found \<Rightarrow>
           (let r = fold (\<lambda>p m. AList.update (fst p) (snd p) m) found
                  ((''available'', Bool True) # e_service_fields e @
                   [(''rulePath'', Str ''/etc/polkit-1/rules.d/49-mise-restart.rules'')])
            in and_then (set_updates_cache (e_now e) (Obj r)) (\<lambda>_. json 200 (Json r))))"

definition updates :: "env \<Rightarrow> request \<Rightarrow> reply act" where
  "updates e rq =
     adminFrom e rq (\<lambda>_ w.
       (let forced = wants_refresh (rq_url rq);
            (serve, wait) = updateCacheDecision (map_option fst (w_updates_cache w)) (e_now e) forced (w_forced_at w)
              UPDATE_TTL_MS FORCED_UPDATE_FLOOR
        in case w_updates_cache w of
             Some (t, r) \<Rightarrow>
               if serve
               then json 200 (Json (if wait \<noteq> 0 then AList.update ''refresh_wait_s'' (Num (of_int wait)) (fields_of r)
                                    else fields_of r))
               else check_updates e forced
           | None \<Rightarrow> check_updates e forced) w)"

section \<open>The history export\<close>

definition key_list :: "val \<Rightarrow> string list" where
  "key_list v = (case v of Obj m \<Rightarrow> okeys m | _ \<Rightarrow> [])"

definition nodes_of :: "val \<Rightarrow> val" where
  "nodes_of v = js_or (fld v ''nodes'') (Obj [])"

definition export_entry :: "val \<Rightarrow> val \<Rightarrow> val" where
  "export_entry h d =
     (let retired = js_or (fld h ''retired'') (fld d ''retired'') in
      Obj ([(''checks'', js_or (fld h ''checks'') (Arr [])), (''days'', js_or (fld d ''days'') (Arr []))] @
           (if truthy retired then [(''retired'', retired)] else [])))"

definition export_nodes :: "env \<Rightarrow> string list \<Rightarrow> val obj" where
  "export_nodes e ids =
     fold (\<lambda>k m.
       (let h = fld (nodes_of (e_history e)) k; d = fld (nodes_of (e_daily e)) k in
        if \<not> truthy h \<and> \<not> truthy d then m else owrite k (export_entry h d) m)) ids []"

definition history_export :: "env \<Rightarrow> request \<Rightarrow> reply act" where
  "history_export e rq =
     with_query e rq (\<lambda>u.
       (let wanted = (case search_param u ''id'' of Some i \<Rightarrow> i | None \<Rightarrow> []);
            ids = (if wanted \<noteq> [] then [wanted]
                   else sort (dedup (key_list (nodes_of (e_history e)) @ key_list (nodes_of (e_daily e)))));
            nodes = export_nodes e ids
        in if wanted \<noteq> [] \<and> oread nodes wanted = Missing then refuse 404 NoHistory
           else json 200 (Json [(''generated_at'', Num (of_int (e_now e))),
             (''interval_minutes'', js_or (fld (e_history e) ''interval_minutes'') (Num 10)),
             (''window_checks'', js_or (fld (e_history e) ''window_checks'') (Num 144)), (''nodes'', Obj nodes)])))"

section \<open>The dispatcher\<close>

definition is_product_path :: "string \<Rightarrow> bool" where
  "is_product_path p =
     (case drop_text ''/api/admin/product/'' p of
        Some r \<Rightarrow> r \<noteq> [] \<and> list_all (\<lambda>c. alnum c \<or> c = CHR ''_'' \<or> c = CHR ''-'') r
      | None \<Rightarrow> False)"

definition post_routes :: "(string \<times> (env \<Rightarrow> request \<Rightarrow> reply act)) list" where
  "post_routes =
     [(''/api/auth47/challenge'', challenge), (''/api/auth47/callback'', callback),
      (''/api/admin/store-identity/receiver'', set_receiver), (''/api/admin/store-identity/network'', set_network),
      (''/api/admin/store-identity/seed'', reveal_seed), (''/api/admin/product'', save_product),
      (''/api/admin/product/delete'', delete_product), (''/api/admin/approve'', approve), (''/api/admin/reject'', reject),
      (''/api/admin/remove'', remove), (''/api/logout'', logout), (''/api/dojo'', submit), (''/api/dojo/edit'', edit),
      (''/api/dojo/pairing'', pairing), (''/api/admin/edit'', admin_edit), (''/api/admin/update'', start_update),
      (''/api/admin/import'', start_import), (''/api/dojo/delete'', delete_listing), (''/api/domain/prepare'', prepare),
      (''/api/domain'', post_domain), (''/api/domain/recheck'', recheck_domain), (''/api/admin/domain/revoke'', revoke_domain)]"

definition get_routes :: "(string \<times> (env \<Rightarrow> request \<Rightarrow> reply act)) list" where
  "get_routes =
     [(''/api/auth47/poll'', poll), (''/api/me'', me), (''/api/admin/store-identity'', store_identity),
      (''/api/admin/products'', admin_products), (''/api/admin/invoices'', admin_invoices),
      (''/api/admin/submissions'', admin_submissions), (''/api/dojo/name-check'', name_check),
      (''/api/admin/import/status'', import_status), (''/api/admin/update/status'', update_status),
      (''/api/admin/updates'', updates), (''/api/history/export'', history_export), (''/api/domain'', get_domain),
      (''/api/admin/domains'', admin_domains)]"

definition route_of :: "string \<Rightarrow> string \<Rightarrow> (env \<Rightarrow> request \<Rightarrow> reply act) option" where
  "route_of method path =
     (if method = ''POST'' then map_of post_routes path
      else if method = ''GET'' then (case map_of get_routes path of
          Some h \<Rightarrow> Some h
        | None \<Rightarrow> if is_product_path path then Some admin_product else None)
      else if method = ''DELETE'' \<and> path = ''/api/domain'' then Some delete_domain
      else None)"

definition server_error :: "thrown \<Rightarrow> reply" where
  "server_error t = \<lparr>re_status = 500, re_body = Err (ServerError t), re_cookie = None\<rparr>"

definition dispatch :: "env \<Rightarrow> request \<Rightarrow> world \<Rightarrow> reply option \<times> world" where
  "dispatch e rq w =
     (case e_request_url e (rq_url rq) of
        None \<Rightarrow> (Some (server_error (ATypeError ''url'')), w)
      | Some u \<Rightarrow>
          (case route_of (rq_method rq) (u_path u) of
             None \<Rightarrow> (Some \<lparr>re_status = 404, re_body = Err NotFound, re_cookie = None\<rparr>, w)
           | Some h \<Rightarrow>
               (case h e rq w of
                  (Inr r, w') \<Rightarrow> (Some r, w')
                | (Inl Unanswered, w') \<Rightarrow> (None, w')
                | (Inl t, w') \<Rightarrow> (Some (server_error t), w'))))"

end
