(* ===== verification/ApiProps.thy ===== *)
theory ApiProps
  imports ApiServer StoreProps
begin

text \<open>
  What the routes guarantee: nobody but an administrator gets past the lookup of the session on an admin route,
  nobody changes a listing of somebody else, and what a submission and a login have to pass. The proofs go
  through a small logic of triples over the handlers.
\<close>

section \<open>Invariants of actions\<close>

definition keeps :: "(world \<Rightarrow> bool) \<Rightarrow> 'a act \<Rightarrow> bool" where
  "keeps I m \<longleftrightarrow> (\<forall>w. I w \<longrightarrow> I (snd (m w)))"

text \<open>From \<open>P\<close> to \<open>Q\<close>, whatever is given or thrown, and for a given value \<open>R\<close> of it.\<close>

definition triple :: "(world \<Rightarrow> bool) \<Rightarrow> 'a act \<Rightarrow> ('a \<Rightarrow> world \<Rightarrow> bool) \<Rightarrow> (world \<Rightarrow> bool) \<Rightarrow> bool" where
  "triple P m R Q \<longleftrightarrow> (\<forall>w. P w \<longrightarrow> (case m w of (Inl t, w') \<Rightarrow> Q w' | (Inr x, w') \<Rightarrow> R x w'))"

named_theorems act_rules \<open>what the building blocks of the handlers keep\<close>

lemma keepsI: "(\<And>w. I w \<Longrightarrow> I (snd (m w))) \<Longrightarrow> keeps I m"
  by (simp add: keeps_def)

lemma keepsD: "keeps I m \<Longrightarrow> I w \<Longrightarrow> I (snd (m w))"
  by (simp add: keeps_def)

lemma keeps_and_then [act_rules]: "keeps I m \<Longrightarrow> (\<And>x. keeps I (f x)) \<Longrightarrow> keeps I (and_then m f)"
  unfolding keeps_def and_then_def by (fastforce split: prod.splits sum.splits)

lemma keeps_give [act_rules]: "keeps I (give x)"
  by (simp add: keeps_def give_def)

lemma keeps_throw [act_rules]: "keeps I (throw t)"
  by (simp add: keeps_def throw_def)

lemma keeps_json [act_rules]: "keeps I (json c b)" "keeps I (refuse c x)"
  by (simp_all add: json_def refuse_def keeps_give)

lemma keeps_attempt [act_rules]: "keeps I m \<Longrightarrow> keeps I (attempt m)"
  by (simp add: keeps_def attempt_def split: prod.splits) (metis snd_conv)

lemma triple_mono:
  assumes "triple P m R Q" and "\<And>w. Q w \<Longrightarrow> Q' w"
  shows "triple P m R Q'"
  unfolding triple_def
proof (intro allI impI)
  fix w assume "P w"
  with assms(1) have "case m w of (Inl t, w') \<Rightarrow> Q w' | (Inr x, w') \<Rightarrow> R x w'" by (simp add: triple_def)
  then show "case m w of (Inl t, w') \<Rightarrow> Q' w' | (Inr x, w') \<Rightarrow> R x w'"
    using assms(2) by (cases "m w"; cases "fst (m w)") auto
qed

lemma triple_and_then:
  "triple P m R Q \<Longrightarrow> (\<And>x w. R x w \<Longrightarrow> Q (snd (f x w))) \<Longrightarrow> P w \<Longrightarrow> Q (snd (and_then m f w))"
proof -
  assume t: "triple P m R Q" and f: "\<And>x w. R x w \<Longrightarrow> Q (snd (f x w))" and p: "P w"
  obtain r w1 where m: "m w = (r, w1)" by (cases "m w")
  with t p have c: "case r of Inl t \<Rightarrow> Q w1 | Inr x \<Rightarrow> R x w1" by (auto simp: triple_def split: sum.splits)
  show ?thesis
  proof (cases r)
    case (Inl t)
    with m c show ?thesis by (simp add: and_then_def)
  next
    case (Inr x)
    with m c f show ?thesis by (simp add: and_then_def)
  qed
qed

text \<open>The submissions in memory are exactly \<open>M\<close>; or are those of \<open>M\<close> but for the key \<open>k\<close>.\<close>

definition subs_are :: "submission obj \<Rightarrow> world \<Rightarrow> bool" where
  "subs_are M w \<longleftrightarrow> (\<exists>s. db_cache (w_db w) = Some s \<and> submissions s = M)"

definition differ_at :: "submission obj \<Rightarrow> string \<Rightarrow> world \<Rightarrow> bool" where
  "differ_at M k w \<longleftrightarrow> (\<exists>s. db_cache (w_db w) = Some s \<and> (\<forall>j. j \<noteq> k \<longrightarrow> map_of (submissions s) j = map_of M j))"

definition leaves_submissions :: "'a store_op \<Rightarrow> bool" where
  "leaves_submissions f \<longleftrightarrow> (\<forall>s. submissions (fst (snd (f s))) = submissions s)"

lemma on_store_loaded:
  "db_cache (w_db w) = Some s \<Longrightarrow> db_cache (w_db (snd (on_store f w))) = Some (fst (snd (f s)))"
  by (auto simp: on_store_def in_store_def load_store_def Let_def split: prod.splits sum.splits io.splits)

lemma keeps_loaded:
  assumes "\<And>s. J s \<Longrightarrow> J (fst (snd (f s)))"
  shows "keeps (\<lambda>w. \<exists>s. db_cache (w_db w) = Some s \<and> J s) (on_store f)"
proof (rule keepsI, elim exE conjE)
  fix w :: world and s assume "db_cache (w_db w) = Some s" "J s"
  then show "\<exists>s. db_cache (w_db (snd (on_store f w))) = Some s \<and> J s"
    using on_store_loaded [of w s f] assms by blast
qed

lemma subs_are_store: "(\<And>s. submissions s = M \<Longrightarrow> submissions (fst (snd (f s))) = M) \<Longrightarrow> keeps (subs_are M) (on_store f)"
  using keeps_loaded [of "\<lambda>s. submissions s = M" f] by (simp add: subs_are_def [abs_def])

lemma differ_store:
  "(\<And>s. \<forall>j. j \<noteq> k \<longrightarrow> map_of (submissions s) j = map_of M j \<Longrightarrow>
      \<forall>j. j \<noteq> k \<longrightarrow> map_of (submissions (fst (snd (f s)))) j = map_of M j) \<Longrightarrow> keeps (differ_at M k) (on_store f)"
  using keeps_loaded [of "\<lambda>s. \<forall>j. j \<noteq> k \<longrightarrow> map_of (submissions s) j = map_of M j" f]
  by (simp add: differ_at_def [abs_def])

lemma subs_are_on_store [act_rules]: "leaves_submissions f \<Longrightarrow> keeps (subs_are M) (on_store f)"
  by (rule subs_are_store) (simp add: leaves_submissions_def)

lemma differ_on_store [act_rules]: "leaves_submissions f \<Longrightarrow> keeps (differ_at M k) (on_store f)"
  by (rule differ_store) (simp add: leaves_submissions_def)

lemma leaves_simple [act_rules]:
  "leaves_submissions (gcNonces now)" "leaves_submissions (putNonce n d)" "leaves_submissions (takeNonce n)"
  "leaves_submissions (putSession sid d')" "leaves_submissions (getSession now s')" "leaves_submissions (dropSession sid)"
  "leaves_submissions listSubmissions" "leaves_submissions (submissionsFor pc)"
  "leaves_submissions listProducts" "leaves_submissions (getProduct i)" "leaves_submissions (putProduct p)"
  "leaves_submissions (deleteProduct i)" "leaves_submissions listInvoices"
  "leaves_submissions listDomains" "leaves_submissions (getDomain pc)" "leaves_submissions (putDomain c)"
  "leaves_submissions (deleteDomain pc)" "leaves_submissions (\<lambda>s. (x, s, b))"
  by (auto simp: leaves_submissions_def gcNonces_def putNonce_def takeNonce_def putSession_def getSession_def dropSession_def
      listSubmissions_def submissionsFor_def listProducts_def getProduct_def putProduct_def deleteProduct_def listInvoices_def
      listDomains_def getDomain_def putDomain_def deleteDomain_def Let_def split: slot.splits option.splits)

lemma keeps_world_field [act_rules]:
  "keeps (subs_are M) clear_updates_cache" "keeps (subs_are M) (set_update_job j)" "keeps (subs_are M) (set_import_job j)"
  "keeps (subs_are M) (set_forced t)" "keeps (subs_are M) (set_updates_cache t v)"
  by (simp_all add: keeps_def subs_are_def clear_updates_cache_def set_update_job_def set_import_job_def set_forced_def
      set_updates_cache_def)

lemma tryRebuild_cache: "db_cache (w_db w) = Some s \<Longrightarrow> db_cache (w_db (snd (tryRebuild e w))) = Some s"
  by (simp add: tryRebuild_def load_store_def split: sum.splits)

lemma keeps_tryRebuild [act_rules]: "keeps (subs_are M) (tryRebuild e)" "keeps (differ_at M k) (tryRebuild e)"
  by (auto simp: keeps_def subs_are_def differ_at_def dest: tryRebuild_cache)

lemma subs_are_differ: "subs_are M w \<Longrightarrow> differ_at M k w"
  by (auto simp: subs_are_def differ_at_def)

section \<open>Handlers that leave the listings alone\<close>

lemma sid_cookie_keeps [act_rules]: "keeps I (sid_cookie rq)"
  by (auto simp: sid_cookie_def intro!: act_rules split: option.splits)

lemma sessionFrom_keeps [act_rules]: "keeps (subs_are M) (sessionFrom e rq)"
  unfolding sessionFrom_def by (auto intro!: act_rules)

lemma with_session_keeps [act_rules]: "(\<And>u. keeps (subs_are M) (f u)) \<Longrightarrow> keeps (subs_are M) (with_session e rq f)"
  unfolding with_session_def by (auto intro!: act_rules split: option.splits)

lemma with_query_keeps [act_rules]: "(\<And>u. keeps I (f u)) \<Longrightarrow> keeps I (with_query e rq f)"
  by (auto simp: with_query_def intro!: act_rules split: option.splits)

lemma with_body_keeps [act_rules]: "(\<And>b. keeps I (f b)) \<Longrightarrow> keeps I (with_body rq f)"
  by (auto simp: with_body_def intro!: act_rules split: option.splits)

lemma name_lookups_keep [act_rules]:
  "keeps (subs_are M) (nameConflict e n sl u)" "keeps (subs_are M) (ownedRecordFor n sl u)"
  "keeps (subs_are M) (slugTakenByOther e n sl i)"
  unfolding nameConflict_def ownedRecordFor_def slugTakenByOther_def by (auto intro!: act_rules)

lemma take_if_keeps [act_rules]: "keeps (subs_are M) (take_if n)"
  by (auto simp: take_if_def intro!: act_rules)

lemma submissions_of_keeps [act_rules]: "keeps (subs_are M) (submissions_of u)"
  by (auto simp: submissions_of_def intro!: act_rules split: user.splits)

lemma challenge_keeps [act_rules]: "keeps (subs_are M) (challenge e rq)"
  unfolding challenge_def Let_def by (intro act_rules)

lemma callback_keeps [act_rules]: "keeps (subs_are M) (callback e rq)"
  unfolding callback_def Let_def by (auto intro!: act_rules split: option.splits verdict.splits)

lemma poll_keeps [act_rules]: "keeps (subs_are M) (poll e rq)"
  unfolding poll_def Let_def by (auto intro!: act_rules)

lemma me_keeps [act_rules]: "keeps (subs_are M) (me e rq)"
  unfolding me_def by (auto intro!: act_rules split: option.splits)

lemma logout_keeps [act_rules]: "keeps (subs_are M) (logout e rq)"
  unfolding logout_def by (auto intro!: act_rules split: option.splits)

lemma name_check_keeps [act_rules]: "keeps (subs_are M) (name_check e rq)"
  unfolding name_check_def Let_def by (auto intro!: act_rules split: option.splits)

lemma history_export_keeps [act_rules]: "keeps (subs_are M) (history_export e rq)"
  unfolding history_export_def Let_def by (auto intro!: act_rules split: option.splits)

lemma get_domain_keeps [act_rules]: "keeps (subs_are M) (get_domain e rq)"
  unfolding get_domain_def by (intro act_rules)

lemma prepare_keeps [act_rules]: "keeps (subs_are M) (prepare e rq)"
  unfolding prepare_def by (auto intro!: act_rules split: option.splits sum.splits)

lemma post_domain_keeps [act_rules]: "keeps (subs_are M) (post_domain e rq)"
  unfolding post_domain_def Let_def by (auto intro!: act_rules split: option.splits sum.splits)

lemma recheck_domain_keeps [act_rules]: "keeps (subs_are M) (recheck_domain e rq)"
  unfolding recheck_domain_def Let_def by (auto intro!: act_rules split: option.splits)

lemma delete_domain_keeps [act_rules]: "keeps (subs_are M) (delete_domain e rq)"
  unfolding delete_domain_def by (intro act_rules)

section \<open>An operator's own listings\<close>

text \<open>The listings as the store keeps them: one per key, normalised, filed under their id, and named after their
  network.\<close>

definition listings_ok :: "submission obj \<Rightarrow> bool" where
  "listings_ok M \<longleftrightarrow> wf_obj M \<and>
     list_all (\<lambda>(k, r). normaliseSubmission r = r \<and> sb_id r = k \<and> (sb_network r = ''mainnet'' \<or> sb_network r = ''testnet'') \<and>
       prefix (sb_network r @ ''-'') k) M"

lemma listings_okD:
  assumes "listings_ok M" and "map_of M k = Some r"
  shows "normaliseSubmission r = r" and "sb_id r = k" and "sb_network r = ''mainnet'' \<or> sb_network r = ''testnet''"
    and "prefix (sb_network r @ ''-'') k" and "k \<noteq> ''__proto__''"
proof -
  from assms(2) have "(k, r) \<in> set M" by (rule map_of_SomeD)
  with assms(1) show "normaliseSubmission r = r" "sb_id r = k" "sb_network r = ''mainnet'' \<or> sb_network r = ''testnet''"
      "prefix (sb_network r @ ''-'') k" "k \<noteq> ''__proto__''"
    by (auto simp: listings_ok_def list_all_iff wf_obj_def)
qed

text \<open>What the caller does not own is as it was.\<close>

definition others_kept :: "submission obj \<Rightarrow> user \<Rightarrow> world \<Rightarrow> bool" where
  "others_kept M u w \<longleftrightarrow> (\<exists>s. db_cache (w_db w) = Some s \<and>
     (\<forall>k r. map_of M k = Some r \<longrightarrow> \<not> owns r u \<longrightarrow> map_of (submissions s) k = Some r))"

lemma others_same: "subs_are M w \<Longrightarrow> others_kept M u w"
  by (auto simp: subs_are_def others_kept_def)

lemma others_differ: "differ_at M k w \<Longrightarrow> (\<And>r. map_of M k = Some r \<Longrightarrow> owns r u) \<Longrightarrow> others_kept M u w"
  by (auto simp: differ_at_def others_kept_def) metis

lemma update_same: "map_of m k = Some v \<Longrightarrow> AList.update k v m = m"
  by (induction m) auto

lemma getSubmission_eq:
  assumes "listings_ok (submissions s)"
  shows "getSubmission k s = (Inr (oread (submissions s) k), s, False)"
proof (cases "oread (submissions s) k")
  case (Own r)
  then have m: "map_of (submissions s) k = Some r" by simp
  note ok = listings_okD [OF assms m]
  have "owrite k r (submissions s) = submissions s" using ok(5) by (simp add: owrite_def update_same [OF m])
  then show ?thesis by (simp add: getSubmission_def Own ok(1))
qed (simp_all add: getSubmission_def)

lemma getSubmission_same:
  "listings_ok (submissions s) \<Longrightarrow> submissions (fst (snd (getSubmission k s))) = submissions s"
  by (simp add: getSubmission_eq)

lemma getSubmission_subs: "listings_ok M \<Longrightarrow> keeps (subs_are M) (on_store (getSubmission k))"
  by (rule subs_are_store) (auto simp: getSubmission_same)

lemma getSubmission_value:
  assumes "listings_ok M"
  shows "triple (subs_are M) (on_store (getSubmission k)) (\<lambda>x w. subs_are M w \<and> x = oread M k) (subs_are M)"
  unfolding triple_def
proof (intro allI impI)
  fix w assume w: "subs_are M w"
  then obtain s where s: "db_cache (w_db w) = Some s" "submissions s = M" by (auto simp: subs_are_def)
  obtain r w1 where m: "on_store (getSubmission k) w = (r, w1)" by (cases "on_store (getSubmission k) w")
  with keepsD [OF getSubmission_subs [OF assms] w, of k] have w1: "subs_are M w1" by simp
  have "r = Inr (oread M k)"
    using m s assms by (auto simp: on_store_def in_store_def load_store_def getSubmission_eq Let_def)
  with m w1 show "case on_store (getSubmission k) w of (Inl t, w') \<Rightarrow> subs_are M w' | (Inr x, w') \<Rightarrow> subs_are M w' \<and> x = oread M k"
    by simp
qed

text \<open>Writes at one key.\<close>

lemma differ_put [act_rules]: "sb_id rec = k \<Longrightarrow> keeps (differ_at M k) (on_store (putSubmission rec))"
  by (rule differ_store) (auto simp: putSubmission_def Let_def map_of_owrite)

lemma differ_delete [act_rules]: "keeps (differ_at M k) (on_store (deleteSubmission k))"
  by (rule differ_store) (auto simp: deleteSubmission_def)

lemma map_of_touch: "j \<noteq> k \<Longrightarrow> map_of (map (\<lambda>(i, r). (i, if i = k then f r else r)) m) j = map_of m j"
  by (induction m) auto

lemma differ_touch [act_rules]: "keeps (differ_at M k) (touch k f)"
  by (rule keepsI) (auto simp: differ_at_def touch_def map_of_touch split: option.splits)

lemma differ_publish [act_rules]: "keeps (differ_at M k) (publish_if_approved e rec)"
  by (auto simp: publish_if_approved_def intro!: act_rules)

lemma change_record_keeps [act_rules]:
  "sb_id (f rec) = k \<Longrightarrow> keeps (differ_at M k) (change_record e k f rec)"
  unfolding change_record_def by (auto intro!: act_rules)

lemma normalise_id [simp]: "sb_id (normaliseSubmission r) = sb_id r"
  by (simp add: normaliseSubmission_def Let_def)

text \<open>An action started on the listings \<open>M\<close> leaves those of others alone.\<close>

definition spares :: "submission obj \<Rightarrow> user \<Rightarrow> 'a act \<Rightarrow> bool" where
  "spares M u m \<longleftrightarrow> (\<forall>w. subs_are M w \<longrightarrow> others_kept M u (snd (m w)))"

lemma spares_same: "keeps (subs_are M) m \<Longrightarrow> spares M u m"
  by (auto simp: spares_def dest: keepsD intro: others_same)

lemma spares_differ:
  assumes "keeps (differ_at M k) m" and "\<And>r. map_of M k = Some r \<Longrightarrow> owns r u"
  shows "spares M u m"
  unfolding spares_def
proof (intro allI impI)
  fix w assume "subs_are M w"
  from keepsD [OF assms(1) subs_are_differ [OF this]] assms(2) show "others_kept M u (snd (m w))"
    by (rule others_differ)
qed

lemma spares_after:
  assumes "triple (subs_are M) m (\<lambda>x w. subs_are M w \<and> R x) (subs_are M)" and "\<And>x. R x \<Longrightarrow> spares M u (f x)"
  shows "spares M u (and_then m f)"
  unfolding spares_def
proof (intro allI impI)
  fix w assume w: "subs_are M w"
  show "others_kept M u (snd (and_then m f w))"
  proof (rule triple_and_then [where P = "subs_are M" and R = "\<lambda>x w. subs_are M w \<and> R x"])
    show "subs_are M w" by (rule w)
    show "triple (subs_are M) m (\<lambda>x w. subs_are M w \<and> R x) (others_kept M u)"
      by (rule triple_mono [OF assms(1)]) (rule others_same)
    show "others_kept M u (snd (f x w'))" if "subs_are M w' \<and> R x" for x w'
      using assms(2) [of x] that by (simp add: spares_def)
  qed
qed

lemma triple_keeps: "keeps (subs_are M) m \<Longrightarrow> triple (subs_are M) m (\<lambda>x w. subs_are M w \<and> True) (subs_are M)"
  unfolding triple_def keeps_def by (auto split: prod.splits sum.splits)

lemma with_body_spares: "(\<And>b. spares M u (f b)) \<Longrightarrow> spares M u (with_body rq f)"
  by (auto simp: with_body_def intro!: spares_same act_rules split: option.splits)

lemma with_own_record_spares:
  assumes "listings_ok M" and "\<And>k rec. map_of M k = Some rec \<Longrightarrow> sb_id rec = k \<Longrightarrow> owns rec u \<Longrightarrow> spares M u (f k rec)"
  shows "spares M u (with_own_record u b f)"
  unfolding with_own_record_def
proof (rule spares_after [OF getSubmission_value [OF assms(1)]])
  fix x assume x: "x = oread M (id_key b)"
  show "spares M u (case x of Own rec \<Rightarrow> if owns rec u then f (id_key b) rec else refuse 404 NotFound | _ \<Rightarrow> refuse 404 NotFound)"
  proof (cases x)
    case (Own rec)
    with x have m: "map_of M (id_key b) = Some rec" by (metis oread_Own)
    show ?thesis
      using Own assms(2) [OF m listings_okD(2) [OF assms(1) m]] by (auto intro!: spares_same act_rules)
  qed (auto intro!: spares_same act_rules)
qed

lemma edit_spares:
  assumes "listings_ok M"
  shows "spares M u (with_body rq (\<lambda>b. with_own_record u b (\<lambda>k rec. applyEdit e k rec b)))"
proof (intro with_body_spares with_own_record_spares [OF assms])
  fix b k rec assume r: "map_of M k = Some rec" "sb_id rec = k" "owns rec u"
  show "spares M u (applyEdit e k rec b)"
    unfolding applyEdit_def Let_def
  proof (split if_split, intro conjI impI)
    show "spares M u (and_then (slugTakenByOther e (sb_network rec) (slugify (Str (short_text 40 (fld b ''name'')))) (sb_id rec))
        (\<lambda>taken. case taken of
            Some r \<Rightarrow> refuse 409 (NameTaken (short_text 40 (fld b ''name'')) (sb_network rec) r)
          | None \<Rightarrow> change_record e k (edited e b) rec))"
    proof (rule spares_after [OF triple_keeps])
      fix x :: "name_reason option"
      have "keeps (differ_at M k) (change_record e k (edited e b) rec)"
        by (rule change_record_keeps) (simp add: edited_def stamped_def r(2))
      then have "spares M u (change_record e k (edited e b) rec)" by (rule spares_differ) (use r in simp)
      then show "spares M u (case x of
            Some r \<Rightarrow> refuse 409 (NameTaken (short_text 40 (fld b ''name'')) (sb_network rec) r)
          | None \<Rightarrow> change_record e k (edited e b) rec)"
        by (auto intro!: spares_same act_rules split: option.splits)
    qed (rule act_rules)
  qed (rule spares_same, rule act_rules)
qed

lemma pairing_spares:
  assumes "listings_ok M" and "map_of M k = Some rec" and "sb_id rec = k" and "owns rec u"
  shows "spares M u (change_record e k (repaired e payload signed check) rec)"
proof (rule spares_differ)
  show "keeps (differ_at M k) (change_record e k (repaired e payload signed check) rec)"
    by (rule change_record_keeps) (simp add: repaired_def stamped_def assms(3))
qed (use assms in simp)

lemma delete_spares:
  assumes "map_of M k = Some rec" and "owns rec u"
  shows "spares M u (and_then (on_store (deleteSubmission k)) (\<lambda>_. json 200 b))"
  by (rule spares_differ [where k = k]) (auto intro!: act_rules simp: assms)

section \<open>Submitting\<close>

lemma on_store_read:
  assumes "db_cache (w_db w) = Some s" and "f s = (Inr v, s, False)"
  shows "on_store f w = (Inr v, w\<lparr>w_disk := tl (w_disk w)\<rparr>)"
  using assms by (simp add: on_store_def in_store_def load_store_def Let_def)

lemma read_then_give:
  assumes "\<And>s. submissions s = M \<Longrightarrow> f s = (Inr v, s, False)"
  shows "triple (subs_are M) (and_then (on_store f) (\<lambda>x. give (g x))) (\<lambda>x w. subs_are M w \<and> x = g v) (subs_are M)"
  unfolding triple_def
proof (intro allI impI)
  fix w assume "subs_are M w"
  then obtain s where s: "db_cache (w_db w) = Some s" "submissions s = M" by (auto simp: subs_are_def)
  from on_store_read [of w s f, OF s(1) assms [OF s(2)]] s
  show "case and_then (on_store f) (\<lambda>x. give (g x)) w of (Inl t, w') \<Rightarrow> subs_are M w' | (Inr x, w') \<Rightarrow> subs_are M w' \<and> x = g v"
    by (simp add: and_then_def give_def subs_are_def)
qed

definition conflict_in :: "env \<Rightarrow> submission obj \<Rightarrow> string \<Rightarrow> string \<Rightarrow> user \<Rightarrow> name_reason option" where
  "conflict_in e M network slug u =
     (case find (\<lambda>r. names_slug network slug r \<and> \<not> owns r u) (ovalues M) of
        Some r \<Rightarrow> Some (UsedBy (sb_status r))
      | None \<Rightarrow> if \<exists>n \<in> set (e_seed e). seed_names_slug network slug n then Some ReservedBySeed else None)"

definition owned_in :: "submission obj \<Rightarrow> string \<Rightarrow> string \<Rightarrow> user \<Rightarrow> submission option" where
  "owned_in M network slug u = find (\<lambda>r. names_slug network slug r \<and> owns r u) (ovalues M)"

lemma nameConflict_value:
  "triple (subs_are M) (nameConflict e network slug u) (\<lambda>x w. subs_are M w \<and> x = conflict_in e M network slug u) (subs_are M)"
  unfolding nameConflict_def conflict_in_def by (rule read_then_give) (simp add: listSubmissions_def)

lemma ownedRecordFor_value:
  "triple (subs_are M) (ownedRecordFor network slug u) (\<lambda>x w. subs_are M w \<and> x = owned_in M network slug u) (subs_are M)"
  unfolding ownedRecordFor_def owned_in_def by (rule read_then_give) (simp add: listSubmissions_def)

text \<open>The key a submission is filed under holds a listing of the caller, or none.\<close>

lemma own_key:
  assumes ok: "listings_ok M" and net: "network = ''mainnet'' \<or> network = ''testnet''"
    and "conflict_in e M network slug u = None"
    and k: "k = (case owned_in M network slug u of Some r \<Rightarrow> sb_id r | None \<Rightarrow> listing_id network slug)"
    and m: "map_of M k = Some r"
  shows "owns r u"
proof (cases "owned_in M network slug u")
  case (Some q)
  then have q: "q \<in> set (ovalues M)" "owns q u" unfolding owned_in_def by (auto dest: find_Some_mem)
  then obtain j where j: "map_of M j = Some q"
    using ok by (auto simp: listings_ok_def ovalues_map_of)
  have "sb_id q = j" by (rule listings_okD(2) [OF ok j])
  with Some k m j q(2) show ?thesis by simp
next
  case None
  from listings_okD [OF ok m] None k have id: "sb_id r = listing_id network slug"
    and "sb_network r = ''mainnet'' \<or> sb_network r = ''testnet''" and "prefix (sb_network r @ ''-'') (listing_id network slug)"
    by simp_all
  with net have "sb_network r = network" by (auto simp: listing_id_def)
  with id have names: "names_slug network slug r" by (simp add: names_slug_def)
  have "find (\<lambda>r. names_slug network slug r \<and> \<not> owns r u) (ovalues M) = None"
    using assms(3) by (auto simp: conflict_in_def split: option.splits)
  moreover have "r \<in> set (ovalues M)" using m map_of_SomeD by (force simp: ovalues_def)
  ultimately show ?thesis using names by (auto simp: find_None_mem)
qed

lemma body_network_cases: "body_network b = Some n \<Longrightarrow> n = ''mainnet'' \<or> n = ''testnet''"
  by (auto simp: body_network_def split: if_splits)

lemma refuse_spares [intro, simp]: "spares M u (refuse c x)" "spares M u (json c b)"
  by (auto intro!: spares_same act_rules)

lemma put_listing_spares:
  assumes ok: "listings_ok M" and net: "network = ''mainnet'' \<or> network = ''testnet''"
    and "conflict_in e M network slug u = None" and "existing = owned_in M network slug u"
    and keep: "\<And>x. keeps (differ_at M (sb_id (new_listing e u b network name slug existing check signed))) (f x)"
  shows "spares M u (and_then (on_store (putSubmission (new_listing e u b network name slug existing check signed))) f)"
proof (rule spares_differ)
  fix r assume "map_of M (sb_id (new_listing e u b network name slug existing check signed)) = Some r"
  then show "owns r u"
    using own_key [OF ok net assms(3) refl] assms(4) by (simp add: new_listing_def)
qed (intro act_rules refl keep)

lemma submit_to_spares:
  assumes ok: "listings_ok M" and net: "network = ''mainnet'' \<or> network = ''testnet''"
  shows "spares M u (submit_to e u b network)"
  unfolding submit_to_def Let_def
  by (auto intro!: spares_after [OF nameConflict_value] spares_after [OF ownedRecordFor_value] put_listing_spares [OF ok net] act_rules
      split: option.splits sum.splits)

section \<open>The routes\<close>

definition caller :: "env \<Rightarrow> request \<Rightarrow> world \<Rightarrow> user" where
  "caller e rq w = (case fst (sessionFrom e rq w) of Inr (Some u) \<Rightarrow> u | _ \<Rightarrow> Nobody)"

lemma with_session_result:
  "with_session e rq f w =
     (case sessionFrom e rq w of
        (Inl t, w1) \<Rightarrow> (Inl t, w1)
      | (Inr None, w1) \<Rightarrow> refuse 401 NotAuthenticated w1
      | (Inr (Some u), w1) \<Rightarrow> f u w1)"
  by (auto simp: with_session_def and_then_def split: prod.splits sum.splits option.splits)

lemma with_session_spares:
  assumes "\<And>u. spares M u (f u)" and "subs_are M w"
  shows "others_kept M (caller e rq w) (snd (with_session e rq f w))"
proof -
  obtain r w1 where s: "sessionFrom e rq w = (r, w1)" by (cases "sessionFrom e rq w")
  have w1: "subs_are M w1" using keepsD [OF sessionFrom_keeps assms(2), of e rq] s by simp
  show ?thesis
  proof (cases r)
    case (Inl t)
    then show ?thesis using w1 by (simp add: with_session_result s others_same)
  next
    case (Inr o')
    show ?thesis
    proof (cases o')
      case None
      then show ?thesis using w1 Inr by (simp add: with_session_result s refuse_def json_def give_def others_same)
    next
      case (Some u)
      then show ?thesis using assms(1) [of u] w1 Inr by (simp add: with_session_result s caller_def spares_def)
    qed
  qed
qed

lemma submit_others:
  assumes "listings_ok M" and "subs_are M w"
  shows "others_kept M (caller e rq w) (snd (submit e rq w))"
  unfolding submit_def
  by (rule with_session_spares [OF _ assms(2)], rule with_body_spares)
    (auto intro!: submit_to_spares [OF assms(1)] dest: body_network_cases split: option.splits)

lemma edit_others:
  assumes "listings_ok M" and "subs_are M w"
  shows "others_kept M (caller e rq w) (snd (edit e rq w))"
  unfolding edit_def by (rule with_session_spares [OF _ assms(2)]) (rule edit_spares [OF assms(1)])

lemma pairing_others:
  assumes "listings_ok M" and "subs_are M w"
  shows "others_kept M (caller e rq w) (snd (pairing e rq w))"
  unfolding pairing_def Let_def
  by (rule with_session_spares [OF _ assms(2)], rule with_body_spares, rule with_own_record_spares [OF assms(1)])
    (auto intro!: pairing_spares [OF assms(1)] split: option.splits sum.splits)

lemma delete_others:
  assumes "listings_ok M" and "subs_are M w"
  shows "others_kept M (caller e rq w) (snd (delete_listing e rq w))"
  unfolding delete_listing_def
  by (rule with_session_spares [OF _ assms(2)], rule with_body_spares, rule with_own_record_spares [OF assms(1)])
    (rule delete_spares)

definition open_handlers :: "(env \<Rightarrow> request \<Rightarrow> reply act) set" where
  "open_handlers = {challenge, callback, logout, prepare, post_domain, recheck_domain, poll, me, name_check,
     history_export, get_domain, delete_domain}"

lemma open_handlers_keep: "h \<in> open_handlers \<Longrightarrow> keeps (subs_are M) (h e rq)"
  by (auto simp: open_handlers_def intro: act_rules)

lemma product_path_admin: "is_product_path p \<Longrightarrow> prefix ''/api/admin/'' p"
  by (auto simp: is_product_path_def drop_text_def prefix_def split: if_splits)

lemma user_routes:
  "route_of m p = Some h \<Longrightarrow> \<not> prefix ''/api/admin/'' p \<Longrightarrow> h \<in> open_handlers \<union> {submit, edit, pairing, delete_listing}"
  by (auto simp: route_of_def post_routes_def get_routes_def open_handlers_def
      split: if_splits option.splits dest: product_path_admin)

lemma dispatch_world:
  "e_request_url e (rq_url rq) = Some x \<Longrightarrow> route_of (rq_method rq) (u_path x) = Some h \<Longrightarrow>
     snd (dispatch e rq w) = snd (h e rq w)"
  by (auto simp: dispatch_def split: prod.splits sum.splits thrown.splits)

lemma user_request_others:
  assumes "listings_ok M" and "subs_are M w" and "e_request_url e (rq_url rq) = Some x"
    and "\<not> prefix ''/api/admin/'' (u_path x)"
  shows "others_kept M (caller e rq w) (snd (dispatch e rq w))"
proof (cases "route_of (rq_method rq) (u_path x)")
  case None
  then show ?thesis using assms(2,3) by (simp add: dispatch_def others_same)
next
  case (Some h)
  note d = dispatch_world [OF assms(3) Some]
  from user_routes [OF Some assms(4)] consider "h \<in> open_handlers" | "h = submit" | "h = edit" | "h = pairing" | "h = delete_listing"
    by blast
  then show ?thesis
  proof cases
    case 1
    then show ?thesis unfolding d using keepsD [OF open_handlers_keep assms(2)] by (intro others_same) blast
  qed (use assms d in \<open>simp_all add: submit_others edit_others pairing_others delete_others\<close>)
qed

section \<open>The administrator's routes\<close>

definition gated :: "(env \<Rightarrow> request \<Rightarrow> reply act) \<Rightarrow> bool" where
  "gated h \<longleftrightarrow> (\<exists>f. \<forall>e rq. h e rq = adminFrom e rq (f e rq))"

lemma gatedI: "(\<And>e rq. h e rq = adminFrom e rq (f e rq)) \<Longrightarrow> gated h"
  by (auto simp: gated_def)

lemma admin_handlers_gated:
  "gated store_identity" "gated set_receiver" "gated set_network" "gated reveal_seed" "gated admin_products"
  "gated admin_product" "gated save_product" "gated delete_product" "gated admin_invoices" "gated admin_submissions"
  "gated approve" "gated reject" "gated remove" "gated admin_edit" "gated start_update" "gated start_import"
  "gated import_status" "gated update_status" "gated updates" "gated revoke_domain" "gated admin_domains"
  by (rule gatedI, rule store_identity_def set_receiver_def set_network_def reveal_seed_def admin_products_def
      admin_product_def save_product_def delete_product_def admin_invoices_def admin_submissions_def approve_def
      reject_def remove_def admin_edit_def start_update_def start_import_def import_status_def update_status_def
      updates_def revoke_domain_def admin_domains_def)+

lemma admin_routes: "route_of m p = Some h \<Longrightarrow> prefix ''/api/admin/'' p \<Longrightarrow> gated h"
  by (auto simp: route_of_def post_routes_def get_routes_def admin_handlers_gated split: if_splits option.splits)

lemma adminFrom_refused:
  assumes "\<not> isAdmin e (caller e rq w)"
  shows "(\<exists>rep. fst (adminFrom e rq f w) = Inr rep \<and> re_status rep \<in> {401, 403}) \<or> (\<exists>t. fst (adminFrom e rq f w) = Inl t \<and> t \<noteq> Unanswered)"
    and "snd (adminFrom e rq f w) = snd (sessionFrom e rq w)"
proof -
  obtain r w1 where s: "sessionFrom e rq w = (r, w1)" by (cases "sessionFrom e rq w")
  have t: "t \<noteq> Unanswered" if "r = Inl t" for t
    using s that by (auto simp: sessionFrom_def and_then_def sid_cookie_def throw_def give_def on_store_def Let_def
      split: option.splits prod.splits sum.splits if_splits)
  show "(\<exists>rep. fst (adminFrom e rq f w) = Inr rep \<and> re_status rep \<in> {401, 403}) \<or>
      (\<exists>t. fst (adminFrom e rq f w) = Inl t \<and> t \<noteq> Unanswered)"
    using assms s t by (auto simp: adminFrom_def with_session_result caller_def refuse_def json_def give_def
      split: sum.splits option.splits)
  show "snd (adminFrom e rq f w) = snd (sessionFrom e rq w)"
    using assms s by (auto simp: adminFrom_def with_session_result caller_def refuse_def json_def give_def
      split: sum.splits option.splits)
qed

text \<open>What looking up a session can change: an unloaded store is loaded, and the session the cookie names is
  deleted, in memory and in the file, when it has expired. The write can fail, which leaves the file as it was.\<close>

definition drops_expired :: "env \<Rightarrow> request \<Rightarrow> shape \<Rightarrow> db \<Rightarrow> db \<Rightarrow> bool" where
  "drops_expired e rq s d d' \<longleftrightarrow>
     (\<exists>m sid sess. parseCookies rq = Some m \<and> map_of m ''mise_sid'' = Some sid \<and>
        oread (sessions s) sid = Own sess \<and> ss_expires sess < e_now e \<and>
        db_cache d' = Some (s\<lparr>sessions := odelete sid (sessions s)\<rparr>) \<and>
        db_file d' \<in> {db_file d, Doc (s\<lparr>sessions := odelete sid (sessions s)\<rparr>)})"

definition only_expired_session :: "env \<Rightarrow> request \<Rightarrow> world \<Rightarrow> world \<Rightarrow> bool" where
  "only_expired_session e rq w w' \<longleftrightarrow>
     w'\<lparr>w_db := w_db w, w_disk := w_disk w\<rparr> = w \<and> w_disk w' \<in> {w_disk w, tl (w_disk w)} \<and>
     (w_db w' = w_db w \<or>
      (\<exists>s. fst (load_store (w_db w)) = Inr s \<and>
         (w_db w' = (w_db w)\<lparr>db_cache := Some s\<rparr> \<or> drops_expired e rq s (w_db w) (w_db w'))))"

lemma only_expired_session_refl [simp]: "only_expired_session e rq w w"
  by (simp add: only_expired_session_def)

lemma load_store_db: "load_store d = (r, d') \<Longrightarrow> d' = d \<or> (\<exists>s. r = Inr s \<and> d' = d\<lparr>db_cache := Some s\<rparr>)"
  by (auto simp: load_store_def split: option.splits json_file.splits)

lemma load_store_Inl: "load_store d = (Inl x, d') \<Longrightarrow> d' = d"
  by (auto simp: load_store_def split: option.splits json_file.splits)

lemma load_store_Inr: "load_store d = (Inr s, d') \<Longrightarrow> d' = d\<lparr>db_cache := Some s\<rparr>"
  by (auto simp: load_store_def split: option.splits json_file.splits)

lemma getSession_in_store:
  assumes "parseCookies rq = Some m" and "map_of m ''mise_sid'' = sid"
    and "in_store f (getSession (e_now e) sid) d = (r, d')"
  shows "d' = d \<or> (\<exists>s. fst (load_store d) = Inr s \<and> (d' = d\<lparr>db_cache := Some s\<rparr> \<or> drops_expired e rq s d d'))"
proof (cases "load_store d")
  case (Pair l d1)
  show ?thesis
  proof (cases l)
    case (Inl x)
    with assms(3) Pair load_store_Inl [of d x d1] show ?thesis by (simp add: in_store_def)
  next
    case (Inr s)
    with Pair have d1: "d1 = d\<lparr>db_cache := Some s\<rparr>" by (simp add: load_store_Inr)
    have "d' = d\<lparr>db_cache := Some s\<rparr> \<or> drops_expired e rq s d d'"
      using assms Pair Inr unfolding in_store_def d1 getSession_def drops_expired_def
      by (auto simp: Let_def split: option.splits if_splits slot.splits io.splits)
    with Pair Inr show ?thesis by auto
  qed
qed

lemma sessionFrom_only: "only_expired_session e rq w (snd (sessionFrom e rq w))"
proof (cases "parseCookies rq")
  case None
  then show ?thesis by (simp add: sessionFrom_def sid_cookie_def and_then_def throw_def)
next
  case (Some m)
  let ?sid = "map_of m ''mise_sid''"
  have "only_expired_session e rq w (snd (on_store (getSession (e_now e) ?sid) w))"
    using getSession_in_store [OF Some refl, of "case w_disk w of [] \<Rightarrow> Completed | o' # _ \<Rightarrow> o'" e "w_db w"]
    by (auto simp: only_expired_session_def on_store_def Let_def split: prod.splits sum.splits)
  then show ?thesis
    by (auto simp: sessionFrom_def sid_cookie_def and_then_def give_def Some split: prod.splits sum.splits)
qed

section \<open>What a submission has passed\<close>

lemma and_then_Inr:
  "and_then m f w = (Inr y, w') \<longleftrightarrow> (\<exists>x w1. m w = (Inr x, w1) \<and> f x w1 = (Inr y, w'))"
  by (auto simp: and_then_def split: prod.splits sum.splits)

lemma refuse_Inr: "refuse c x w = (Inr rep, w') \<longleftrightarrow> rep = \<lparr>re_status = c, re_body = Err x, re_cookie = None\<rparr> \<and> w' = w"
  by (auto simp: refuse_def json_def give_def)

lemma json_Inr: "json c b w = (Inr rep, w') \<longleftrightarrow> rep = \<lparr>re_status = c, re_body = b, re_cookie = None\<rparr> \<and> w' = w"
  by (auto simp: json_def give_def)

lemma putSubmission_Inr:
  assumes "on_store (putSubmission rec) w = (Inr saved, w')" and "subs_are M w"
  shows "saved = normaliseSubmission rec"
    and "\<exists>s. db_cache (w_db w') = Some s \<and> submissions s = owrite (sb_id rec) saved M"
    and "\<exists>c \<in> set (code_list saved). is_str c \<and> looks_like_code (trim (str_of c))"
proof -
  from assms(2) obtain s where s: "db_cache (w_db w) = Some s" "submissions s = M" by (auto simp: subs_are_def)
  have cached: "db_cache (w_db w') = Some (fst (snd (putSubmission rec s)))"
    using on_store_loaded [OF s(1), of "putSubmission rec"] assms(1) by simp
  have r: "fst (putSubmission rec s) = Inr saved"
    using assms(1) s by (auto simp: on_store_def in_store_def load_store_def Let_def split: prod.splits sum.splits io.splits if_splits)
  then show "saved = normaliseSubmission rec" "\<exists>c \<in> set (code_list saved). is_str c \<and> looks_like_code (trim (str_of c))"
    by (auto simp: putSubmission_def Let_def split: if_splits)
  from r cached s show "\<exists>s. db_cache (w_db w') = Some s \<and> submissions s = owrite (sb_id rec) saved M"
    by (auto simp: putSubmission_def Let_def split: if_splits)
qed

lemma normalise_fields [simp]:
  "sb_status (normaliseSubmission r) = sb_status r" "sb_signed (normaliseSubmission r) = sb_signed r"
  "sb_payload (normaliseSubmission r) = sb_payload r" "sb_last_probe (normaliseSubmission r) = sb_last_probe r"
  "code_list (normaliseSubmission r) = dedup (filter (\<lambda>c. is_str c \<and> truthy c)
     (case sb_codes r of Some cs \<Rightarrow> cs | None \<Rightarrow> (case sb_code r of Some c \<Rightarrow> if c = [] then [] else [Str c] | None \<Rightarrow> [])))"
  by (simp_all add: normaliseSubmission_def code_list_def Let_def)

lemma canonical_stored [simp]: "canonicalPairing (stored_payload p) = canonicalPairing p"
  by (simp add: canonicalPairing_def stored_payload_def oread_def)

lemma signature_gate_verified:
  assumes "signature_gate e u net payload pasted = Inr signed"
  shows "signed \<noteq> []" and "ok (verifySignedPayload (e_derive e) (e_checks e) (Str signed) (Some (canonicalPairing payload))
    (Some (session_addresses e u)) net)"
proof -
  show v: "ok (verifySignedPayload (e_derive e) (e_checks e) (Str signed) (Some (canonicalPairing payload))
      (Some (session_addresses e u)) net)"
    using assms by (auto simp: signature_gate_def Let_def split: option.splits verdict.splits prod.splits)
  show "signed \<noteq> []"
    using v by (auto simp: verifySignedPayload_def parseSignedBlock_def)
qed

text \<open>The listing a successful submission leaves behind.\<close>

definition attested :: "env \<Rightarrow> user \<Rightarrow> string \<Rightarrow> submission \<Rightarrow> bool" where
  "attested e u network rec \<longleftrightarrow>
     sb_status rec = ''pending'' \<and> truthy (fld (sb_last_probe rec) ''up'') \<and>
     (case sb_signed rec of
        None \<Rightarrow> False
      | Some signed \<Rightarrow> ok (verifySignedPayload (e_derive e) (e_checks e) (Str signed)
          (Some (canonicalPairing (sb_payload rec))) (Some (session_addresses e u)) (networkOf network)))"

lemma submit_to_result:
  assumes "subs_are M w" and "submit_to e u b network w = (Inr rep, w')" and "re_status rep = 200"
  shows "\<exists>rec s. re_body rep = Submission rec [(''ok'', Bool True)] \<and> db_cache (w_db w') = Some s \<and>
    submissions s = owrite (sb_id rec) rec M \<and> attested e u network rec \<and> (\<forall>c. u = Holder c \<and> c \<noteq> [] \<longrightarrow> owned_by c rec) \<and>
    (\<exists>c. u = Holder c)"
proof -
  define name where "name = short_text 40 (fld b ''name'')"
  define slug where "slug = slugify (Str name)"
  define check where "check = probe_of e (fld b ''payload'') network"
  let ?new = "\<lambda>existing signed. new_listing e u b network name slug existing check signed"
  from assms(2,3) have "slug \<noteq> []" by (auto simp: submit_to_def name_def slug_def Let_def refuse_Inr split: if_splits)
  define gates where "gates = (case validatePayload e (fld b ''payload'') (Some network) of
               Some err \<Rightarrow> refuse 400 (PayloadError err)
             | None \<Rightarrow> (case signature_gate e u (networkOf network) (fld b ''payload'') (fld b ''signed'') of
        Inl err \<Rightarrow> refuse 400 err
      | Inr signed \<Rightarrow>
          if \<not> truthy (fld check ''up'') then refuse 422 (ConnectionGate check)
          else and_then (ownedRecordFor network slug u) (\<lambda>existing.
             if \<not> j_ok (version_gate e existing check (fld b ''payload''))
             then refuse 422 (VersionGate (j_reason (version_gate e existing check (fld b ''payload''))))
             else and_then (on_store (putSubmission (?new existing signed)))
               (\<lambda>saved. json 200 (Submission saved [(''ok'', Bool True)])))))"
  from \<open>slug \<noteq> []\<close> assms(2) have "and_then (nameConflict e network slug u) (\<lambda>conflict.
        case conflict of Some r \<Rightarrow> refuse 409 (NameTaken name network r) | None \<Rightarrow> gates) w = (Inr rep, w')"
    unfolding submit_to_def name_def [symmetric] slug_def [symmetric] check_def [symmetric] Let_def gates_def by simp
  then obtain x w1 where w1x: "nameConflict e network slug u w = (Inr x, w1)"
    and x: "(case x of Some r \<Rightarrow> refuse 409 (NameTaken name network r) | None \<Rightarrow> gates) w1 = (Inr rep, w')"
    unfolding and_then_Inr by blast
  from x assms(3) have "x = None" by (cases x) (simp_all add: refuse_Inr)
  with w1x x have w1: "nameConflict e network slug u w = (Inr None, w1)" and gates: "gates w1 = (Inr rep, w')" by simp_all
  from gates assms(3) have rest: "(case signature_gate e u (networkOf network) (fld b ''payload'') (fld b ''signed'') of
        Inl err \<Rightarrow> refuse 400 err
      | Inr signed \<Rightarrow>
          if \<not> truthy (fld check ''up'') then refuse 422 (ConnectionGate check)
          else and_then (ownedRecordFor network slug u) (\<lambda>existing.
             if \<not> j_ok (version_gate e existing check (fld b ''payload''))
             then refuse 422 (VersionGate (j_reason (version_gate e existing check (fld b ''payload''))))
             else and_then (on_store (putSubmission (?new existing signed)))
               (\<lambda>saved. json 200 (Submission saved [(''ok'', Bool True)])))) w1 = (Inr rep, w')"
    by (cases "validatePayload e (fld b ''payload'') (Some network)") (simp_all add: gates_def refuse_Inr)
  from rest assms(3) obtain signed where g: "signature_gate e u (networkOf network) (fld b ''payload'') (fld b ''signed'') = Inr signed"
    and up: "truthy (fld check ''up'')"
    by (auto simp: refuse_Inr split: sum.splits if_splits)
  with rest assms(3) obtain existing w2 saved where w2: "ownedRecordFor network slug u w1 = (Inr existing, w2)"
    and put: "on_store (putSubmission (?new existing signed)) w2 = (Inr saved, w')"
    and rep: "re_body rep = Submission saved [(''ok'', Bool True)]"
    by (auto simp: and_then_Inr refuse_Inr json_Inr split: if_splits)
  have "subs_are M w1" using keepsD [OF name_lookups_keep(1) assms(1), of e network slug u] w1 by simp
  then have M2: "subs_are M w2" using keepsD [OF name_lookups_keep(2), of M w1 network slug u] w2 by simp
  have ex: "existing = owned_in M network slug u"
    using ownedRecordFor_value [of M network slug u] \<open>subs_are M w1\<close> w2 by (auto simp: triple_def split: prod.splits)
  note p = putSubmission_Inr [OF put M2]
  note sg = signature_gate_verified [OF g]
  have codes: "code_list saved = dedup (filter (\<lambda>c. is_str c \<and> truthy c) (union_codes existing u))"
    by (simp add: p(1) new_listing_def)
  have "\<exists>c. u = Holder c"
  proof (cases u)
    case Nobody
    then have "existing = None" unfolding ex by (simp add: owned_in_def owns_def find_None_mem)
    with Nobody codes p(3) show ?thesis by (auto simp: union_codes_def)
  qed simp
  moreover have "owned_by c saved" if "u = Holder c" "c \<noteq> []" for c
    using that codes by (auto simp: owned_by_def code_list_def p(1) normaliseSubmission_def new_listing_def union_codes_def Let_def)
  moreover have "attested e u network saved"
    using sg up by (auto simp: attested_def p(1) new_listing_def some_text_def)
  moreover obtain s where "db_cache (w_db w') = Some s" "submissions s = owrite (sb_id saved) saved M"
    using p(1,2) by auto
  ultimately show ?thesis using rep by blast
qed

section \<open>What a login has passed\<close>

lemma on_store_ok:
  assumes "on_store f w = (Inr x, w')" and "db_cache (w_db w) = Some s"
  shows "fst (f s) = Inr x" and "db_cache (w_db w') = Some (fst (snd (f s)))"
  using on_store_loaded [OF assms(2), of f] assms
  by (auto simp: on_store_def in_store_def load_store_def Let_def split: prod.splits sum.splits io.splits if_splits)

lemma take_nonce_ok:
  assumes "take_if n w = (Inr r, w1)" and "db_cache (w_db w) = Some s" and "r \<noteq> Missing"
  shows "r = oread (nonces s) n" and "db_cache (w_db w1) = Some (s\<lparr>nonces := odelete n (nonces s)\<rparr>)"
proof -
  from assms have "on_store (takeNonce n) w = (Inr r, w1)" by (auto simp: take_if_def give_def split: if_splits)
  note step = on_store_ok [OF this assms(2)]
  have "r = oread (nonces s) n \<and> fst (snd (takeNonce n s)) = s\<lparr>nonces := odelete n (nonces s)\<rparr>"
    using step(1) assms(3) unfolding takeNonce_def by (cases "oread (nonces s) n"; auto simp del: oread_Own)
  with step(2) show "r = oread (nonces s) n" "db_cache (w_db w1) = Some (s\<lparr>nonces := odelete n (nonces s)\<rparr>)"
    by metis+
qed

lemma callback_steps:
  assumes "callback e rq w = (Inr rep, w')" and "re_status rep = 200" and "db_cache (w_db w) = Some s"
  obtains proof_text code a r where "request_json rq = Some proof_text"
    and "auth47_verify (e_parse e) (e_verify_proof e) proof_text (Some (e_base_url e)) = Accepted a code"
    and "r = oread (nonces s) (proof_nonce e proof_text)" and "r \<noteq> Missing" and "\<not> nonce_expired r (e_now e)"
    and "db_cache (w_db w') = Some (s\<lparr>sessions := owrite (e_sid e)
        \<lparr>ss_paymentCode = the code, ss_expires = e_now e + SESSION_TTL\<rparr> (sessions s),
      nonces := owrite (claimed_key (proof_nonce e proof_text)) \<lparr>nc_expires = e_now e + NONCE_TTL, nc_sid = Some (e_sid e)\<rparr>
        (odelete (proof_nonce e proof_text) (nonces s))\<rparr>)"
proof -
  from assms(1,2) obtain proof_text where proof_text: "request_json rq = Some proof_text"
    by (cases "request_json rq") (auto simp: callback_def refuse_Inr)
  with assms(1,2) obtain a code where v: "auth47_verify (e_parse e) (e_verify_proof e) proof_text (Some (e_base_url e)) = Accepted a code"
    by (cases "auth47_verify (e_parse e) (e_verify_proof e) proof_text (Some (e_base_url e))") (auto simp: callback_def refuse_Inr)
  define n where "n = proof_nonce e proof_text"
  let ?sess = "\<lparr>ss_paymentCode = the code, ss_expires = e_now e + SESSION_TTL\<rparr>"
  let ?then = "and_then (on_store (putSession (e_sid e) ?sess)) (\<lambda>sid. and_then clear_updates_cache (\<lambda>_.
      and_then (on_store (putNonce (claimed_key n) \<lparr>nc_expires = e_now e + NONCE_TTL, nc_sid = Some sid\<rparr>)) (\<lambda>_.
        json 200 (Json [(''ok'', Bool True)]))))"
  from assms(1) proof_text v obtain r w1 where r: "take_if n w = (Inr r, w1)"
    and k: "(if r = Missing then refuse 401 UnknownNonce
      else if nonce_expired r (e_now e) then refuse 401 ChallengeExpired else ?then) w1 = (Inr rep, w')"
    by (auto simp: callback_def and_then_Inr n_def [symmetric] Let_def)
  from k assms(2) have live: "r \<noteq> Missing" "\<not> nonce_expired r (e_now e)"
    by (auto simp: refuse_Inr split: if_splits)
  note t = take_nonce_ok [OF r assms(3) live(1)]
  let ?s1 = "s\<lparr>nonces := odelete n (nonces s)\<rparr>"
  from k live obtain sid w2 w3 u w4 where
    p: "on_store (putSession (e_sid e) ?sess) w1 = (Inr sid, w2)" "clear_updates_cache w2 = (Inr u, w3)"
      "on_store (putNonce (claimed_key n) \<lparr>nc_expires = e_now e + NONCE_TTL, nc_sid = Some sid\<rparr>) w3 = (Inr (), w4)" "w' = w4"
    by (auto simp: and_then_Inr json_Inr)
  from on_store_ok [OF p(1) t(2)] have sid: "sid = e_sid e"
    and s2: "db_cache (w_db w2) = Some (?s1\<lparr>sessions := owrite (e_sid e) ?sess (sessions s)\<rparr>)"
    by (simp_all add: putSession_def)
  from p(2) s2 have "db_cache (w_db w3) = Some (?s1\<lparr>sessions := owrite (e_sid e) ?sess (sessions s)\<rparr>)"
    by (auto simp: clear_updates_cache_def)
  from on_store_ok(2) [OF p(3) this] have "db_cache (w_db w') = Some (s\<lparr>sessions := owrite (e_sid e) ?sess (sessions s),
      nonces := owrite (claimed_key n) \<lparr>nc_expires = e_now e + NONCE_TTL, nc_sid = Some (e_sid e)\<rparr> (odelete n (nonces s))\<rparr>)"
    by (simp add: putNonce_def p(4) sid)
  with that [OF proof_text v t(1) [unfolded n_def] live] show thesis by (simp add: n_def)
qed

end
