(* ===== verification/ApiClaims.thy ===== *)
theory ApiClaims
  imports ApiProps
begin

text \<open>
  The properties of the backend as a whole (\<open>server/index.ts\<close> over \<open>server/store.ts\<close>): what a request may change
  for whom, what a listing and a session have behind them, and the bounds of what it keeps.
\<close>

section \<open>A server to try them on\<close>

definition ex_url :: "string \<Rightarrow> string \<Rightarrow> string \<Rightarrow> url_parts" where
  "ex_url host path query = \<lparr>u_protocol = ''http:'', u_username = [], u_password = [], u_hostname = host, u_port = [],
     u_origin = ''http://'' @ host, u_path = path, u_search = query, u_params = []\<rparr>"

definition ex_env :: "string \<Rightarrow> env" where
  "ex_env path = \<lparr>e_now = 1000, e_random = ''0a'', e_sid = ''5e'', e_base_url = ''http://mise.onion'', e_admin_setting = ''PMadmin'',
     e_parse = (\<lambda>t. Some ((ex_url ''7f.onion'' path [])\<lparr>u_params := [(''r'', t)]\<rparr>)), e_request_url = (\<lambda>t. Some (ex_url ''x'' path [])),
     e_challenge_uri = (\<lambda>n t u. n), e_verify_proof = (\<lambda>v. Inr (Obj [(''nym'', Str ''PM1'')])),
     e_derive = (\<lambda>c k. Some (''1'' @ c)), e_checks = (\<lambda>t a s k. Inr True), e_lookup = (\<lambda>n q. \<lparr>ta_ok = False, ta_inconclusive = True, ta_answered = None, ta_agreed = None, ta_error = None\<rparr>),
     e_words = (\<lambda>x. []), e_probe = (\<lambda>u k n. Obj [(''up'', Bool True)]), e_nym = (\<lambda>c. Null), e_gateway = (\<lambda>v. Inr (Obj [])),
     e_seed = [], e_rebuild = (\<lambda>s. Inr Null), e_collate = (\<lambda>a b. 0), e_region = (\<lambda>c. None), e_min_version = [],
     e_pending_probe = Null, e_dojos = Null, e_history = Null, e_daily = Null, e_last_result = Null, e_updates = Inr [],
     e_service_fields = []\<rparr>"

definition ex_store :: shape where
  "ex_store = EMPTY_SHAPE\<lparr>
     submissions := [(''mainnet-a'', \<lparr>sb_id = ''mainnet-a'', sb_network = ''mainnet'', sb_name = ''a'', sb_status = ''approved'',
       sb_codes = Some [Str ''PMaaaaaa''], sb_code = None, sb_paynym = None, sb_jurisdiction = None, sb_country = None,
       sb_hardware = None, sb_payload = Null, sb_signed = None, sb_last_probe = Null, sb_created_at = None,
       sb_updated_at = None, sb_source = None\<rparr>)],
     sessions := [(''ab'', \<lparr>ss_paymentCode = ''PMbbbbbb'', ss_expires = 2000\<rparr>)],
     nonces := [(''7f.onion'', \<lparr>nc_expires = 1500, nc_sid = None\<rparr>)]\<rparr>"

definition ex_world :: world where
  "ex_world = \<lparr>w_db = \<lparr>db_file = Absent, db_cache = Some ex_store\<rparr>, w_disk = [], w_published = None, w_updates_cache = None,
     w_forced_at = 0, w_update_job = None, w_import_job = None\<rparr>"

definition ex_request :: "string \<Rightarrow> string \<Rightarrow> string \<Rightarrow> request" where
  "ex_request method path body = \<lparr>rq_method = method, rq_url = path, rq_cookie = ''mise_sid=ab'', rq_body = [body]\<rparr>"

section \<open>Whose listings a request may change\<close>



text \<open>C20: no request to an administrator's route gets past the gate without a session of a payment code named in
  the setting: the answer is a refusal (401, 403, 404 or, when reading the cookie or the store throws, 500), and
  nothing changes, in memory or in the file, but that an unloaded store is loaded and that, at most, the session
  the cookie names is deleted when it has expired.\<close>

theorem admin_routes_closed:
  assumes "e_request_url e (rq_url rq) = Some x" and "prefix ''/api/admin/'' (u_path x)"
    and "\<not> isAdmin e (caller e rq w)"
  shows "(\<exists>rep. fst (dispatch e rq w) = Some rep \<and> re_status rep \<in> {401, 403, 404, 500})
    \<and> only_expired_session e rq w (snd (dispatch e rq w))"
proof (cases "route_of (rq_method rq) (u_path x)")
  case None
  with assms(1) show ?thesis by (simp add: dispatch_def)
next
  case (Some h)
  from admin_routes [OF this assms(2)] obtain f where f: "h e rq = adminFrom e rq (f e rq)"
    by (auto simp: gated_def)
  have "snd (dispatch e rq w) = snd (sessionFrom e rq w)"
    using dispatch_world [OF assms(1) Some] adminFrom_refused(2) [OF assms(3)] by (simp add: f)
  moreover have "\<exists>rep. fst (dispatch e rq w) = Some rep \<and> re_status rep \<in> {401, 403, 404, 500}"
    using adminFrom_refused(1) [OF assms(3), of "f e rq"] assms(1) Some
    by (cases "adminFrom e rq (f e rq) w") (auto simp: dispatch_def f server_error_def split: thrown.splits)
  ultimately show ?thesis by (simp add: sessionFrom_only)
qed

theorem admin_routes_closed_witness:
  "\<not> isAdmin (ex_env ''/api/admin/approve'') (caller (ex_env ''/api/admin/approve'') (ex_request ''POST'' [] []) ex_world) \<and>
   only_expired_session (ex_env ''/api/admin/approve'') (ex_request ''POST'' [] []) ex_world
     (snd (dispatch (ex_env ''/api/admin/approve'') (ex_request ''POST'' [] []) ex_world))"
proof -
  have n: "\<not> isAdmin (ex_env ''/api/admin/approve'') (caller (ex_env ''/api/admin/approve'') (ex_request ''POST'' [] []) ex_world)"
    by code_simp
  have "prefix ''/api/admin/'' (u_path (ex_url ''x'' ''/api/admin/approve'' []))" by code_simp
  from admin_routes_closed [OF _ this n] n show ?thesis by (simp add: ex_env_def)
qed

section \<open>What a listing has behind it\<close>

lemma answered_200:
  assumes "fst (dispatch e rq w) = Some rep" and "re_status rep = 200" and "e_request_url e (rq_url rq) = Some x"
    and "route_of (rq_method rq) (u_path x) = Some h"
  obtains w' where "h e rq w = (Inr rep, w')" and "snd (dispatch e rq w) = w'"
  using assms by (cases "h e rq w") (auto simp: dispatch_def server_error_def split: sum.splits thrown.splits)

lemma with_session_200:
  assumes "with_session e rq f w = (Inr rep, w')" and "re_status rep = 200" and "subs_are M w"
  obtains w1 where "f (caller e rq w) w1 = (Inr rep, w')" and "subs_are M w1"
proof -
  obtain r w1 where s: "sessionFrom e rq w = (r, w1)" by (cases "sessionFrom e rq w")
  with assms(1,2) obtain u where "r = Inr (Some u)" "f u w1 = (Inr rep, w')"
    by (auto simp: with_session_result refuse_Inr split: sum.splits option.splits)
  moreover have "subs_are M w1" using keepsD [OF sessionFrom_keeps assms(3), of e rq] s by simp
  ultimately show thesis using that s by (simp add: caller_def)
qed

lemma with_body_200:
  assumes "with_body rq f w = (Inr rep, w')" and "re_status rep = 200"
  obtains b where "request_json rq = Some b" and "f b w = (Inr rep, w')"
  using assms that by (auto simp: with_body_def refuse_Inr throw_def split: option.splits if_splits)

lemma submit_route: "route_of ''POST'' ''/api/dojo'' = Some submit"
  by (simp add: route_of_def post_routes_def)

text \<open>C21: a submission that is answered with success was made by a signed-in payment code and leaves exactly one
  listing changed, which is pending, holds that payment code, was probed up, and carries a signed block that
  verifies over the very pairing that is stored, for an address the session's payment code derives.\<close>

theorem submission_passed_every_gate:
  assumes "db_cache (w_db w) = Some s" and "e_request_url e (rq_url rq) = Some x"
    and "rq_method rq = ''POST''" and "u_path x = ''/api/dojo''"
    and "fst (dispatch e rq w) = Some rep" and "re_status rep = 200"
  shows "\<exists>c b network rec s'. caller e rq w = Holder c \<and> request_json rq = Some b \<and> body_network b = Some network
    \<and> re_body rep = Submission rec [(''ok'', Bool True)]
    \<and> db_cache (w_db (snd (dispatch e rq w))) = Some s' \<and> submissions s' = owrite (sb_id rec) rec (submissions s)
    \<and> attested e (Holder c) network rec \<and> (c \<noteq> [] \<longrightarrow> owned_by c rec)"
proof -
  have M: "subs_are (submissions s) w" using assms(1) by (simp add: subs_are_def)
  have "route_of (rq_method rq) (u_path x) = Some submit" using assms(3,4) submit_route by simp
  from answered_200 [OF assms(5,6,2) this] obtain w' where w': "submit e rq w = (Inr rep, w')" "snd (dispatch e rq w) = w'" .
  from with_session_200 [OF w'(1) [unfolded submit_def] assms(6) M] obtain w1 where
    h: "with_body rq (\<lambda>b. case body_network b of None \<Rightarrow> refuse 400 NetworkRequired
       | Some network \<Rightarrow> submit_to e (caller e rq w) b network) w1 = (Inr rep, w')" and M1: "subs_are (submissions s) w1" .
  from with_body_200 [OF h assms(6)] obtain b where b: "request_json rq = Some b"
    "(case body_network b of None \<Rightarrow> refuse 400 NetworkRequired
       | Some network \<Rightarrow> submit_to e (caller e rq w) b network) w1 = (Inr rep, w')" .
  from b(2) assms(6) obtain network where n: "body_network b = Some network"
    "submit_to e (caller e rq w) b network w1 = (Inr rep, w')" by (auto simp: refuse_Inr split: option.splits)
  from submit_to_result [OF M1 n(2) assms(6)] b(1) n(1) w'(2) show ?thesis by fastforce
qed

definition ex_payload :: val where
  "ex_payload = Obj [(''pairing'', Obj [(''type'', Str ''dojo.api''), (''url'', Str ''u'')]), (''explorer'', Null)]"

definition ex_body :: val where
  "ex_body = Obj [(''network'', Str ''mainnet''), (''name'', Str ''n''), (''payload'', ex_payload),
     (''signed'', Str (signed_block (canonicalPairing ex_payload @ [newline, newline] @ ''BIP47: PMbbbbbb'') ''1PMbbbbbb''
        (replicate 80 (CHR ''A''))))]"

lemma ex_request_json:
  assumes "clean v" and "length (written v) \<le> BODY_LIMIT"
  shows "request_json (ex_request m p (written v)) = Some v"
  using assms by (simp add: request_json_def readBody_def ex_request_def json_parse_written)

lemma ex_body_json: "request_json (ex_request m p (written ex_body)) = Some ex_body"
proof (rule ex_request_json)
  show "length (written ex_body) \<le> BODY_LIMIT" by code_simp
  show "clean ex_body" by code_simp
qed

lemma ex_submit:
  "case submit_to (ex_env ''/api/dojo'') (Holder ''PMbbbbbb'') ex_body ''mainnet'' ex_world of
     (Inr rep, w') \<Rightarrow> re_status rep = 200 | _ \<Rightarrow> False"
  by code_simp

lemma ex_session: "sessionFrom (ex_env p) (ex_request m p' b) ex_world = (Inr (Some (Holder ''PMbbbbbb'')), ex_world)"
proof -
  have "parseCookies (ex_request m p' b) = Some [(''mise_sid'', ''ab'')]"
    unfolding parseCookies_def ex_request_def by simp code_simp
  then show ?thesis
    by (simp add: sessionFrom_def and_then_def sid_cookie_def give_def on_store_def in_store_def load_store_def getSession_def
        ex_world_def ex_store_def ex_env_def EMPTY_SHAPE_def oread_def)
qed

theorem submission_passed_every_gate_witness:
  "\<exists>c network rec. caller (ex_env ''/api/dojo'') (ex_request ''POST'' ''/api/dojo'' (written ex_body)) ex_world = Holder c \<and>
     attested (ex_env ''/api/dojo'') (Holder c) network rec"
proof -
  let ?e = "ex_env ''/api/dojo''" and ?rq = "ex_request ''POST'' ''/api/dojo'' (written ex_body)"
  obtain rep w' where s: "submit_to ?e (Holder ''PMbbbbbb'') ex_body ''mainnet'' ex_world = (Inr rep, w')" "re_status rep = 200"
    using ex_submit by (auto split: prod.splits sum.splits)
  have n: "body_network ex_body = Some ''mainnet''" by code_simp
  have r: "rq_method ?rq = ''POST''" "e_request_url ?e (rq_url ?rq) = Some (ex_url ''x'' ''/api/dojo'' [])"
    by (simp_all add: ex_request_def ex_env_def)
  have u: "u_path (ex_url ''x'' ''/api/dojo'' []) = ''/api/dojo''" by (simp add: ex_url_def)
  have "ex_body \<noteq> Null" by (simp add: ex_body_def)
  with s n have "submit ?e ?rq ex_world = (Inr rep, w')"
    by (simp add: submit_def with_session_result ex_session with_body_def ex_body_json)
  then have "fst (dispatch ?e ?rq ex_world) = Some rep"
    using r u submit_route by (simp add: dispatch_def)
  from submission_passed_every_gate [OF _ r(2,1) u this s(2)] show ?thesis by (auto simp: ex_world_def)
qed

section \<open>What a session has behind it\<close>

text \<open>C22: a session is opened only by a proof that the wallet library verified for this site and whose challenge
  names a nonce that the loaded store holds and that has not expired, or else names a member that every plain
  object inherits (\<open>constructor\<close>), which the code takes for a nonce although none is held. Afterwards no nonce of
  that name is held, so a challenge over a nonce that was held opens no second session.\<close>

theorem login_consumes_live_nonce:
  assumes "db_cache (w_db w) = Some s" and "callback e rq w = (Inr rep, w')" and "re_status rep = 200"
    and "e_sid e \<noteq> ''__proto__''"
  shows "\<exists>p a code s'. request_json rq = Some p
    \<and> auth47_verify (e_parse e) (e_verify_proof e) p (Some (e_base_url e)) = Accepted a code
    \<and> ((\<exists>n. map_of (nonces s) (proof_nonce e p) = Some n \<and> e_now e \<le> nc_expires n) \<or>
       map_of (nonces s) (proof_nonce e p) = None \<and> proof_nonce e p \<in> set proto_keys)
    \<and> db_cache (w_db w') = Some s' \<and> map_of (nonces s') (proof_nonce e p) = None
    \<and> map_of (sessions s') (e_sid e) = Some \<lparr>ss_paymentCode = the code, ss_expires = e_now e + SESSION_TTL\<rparr>"
proof -
  from callback_steps [OF assms(2,3,1)] obtain p a code r where c: "request_json rq = Some p"
      "auth47_verify (e_parse e) (e_verify_proof e) p (Some (e_base_url e)) = Accepted a code"
    and r: "r = oread (nonces s) (proof_nonce e p)" "r \<noteq> Missing" "\<not> nonce_expired r (e_now e)"
    and w: "db_cache (w_db w') = Some (s\<lparr>sessions := owrite (e_sid e)
        \<lparr>ss_paymentCode = the code, ss_expires = e_now e + SESSION_TTL\<rparr> (sessions s),
      nonces := owrite (claimed_key (proof_nonce e p)) \<lparr>nc_expires = e_now e + NONCE_TTL, nc_sid = Some (e_sid e)\<rparr>
        (odelete (proof_nonce e p) (nonces s))\<rparr>)" by metis
  from r have "(\<exists>n. map_of (nonces s) (proof_nonce e p) = Some n \<and> e_now e \<le> nc_expires n) \<or>
      map_of (nonces s) (proof_nonce e p) = None \<and> proof_nonce e p \<in> set proto_keys"
    by (auto simp: oread_def nonce_expired_def split: option.splits if_splits)
  moreover have "m \<noteq> claimed_key m" for m by (simp add: claimed_key_def)
  ultimately show ?thesis using c w assms(4) by (auto simp: map_of_owrite)
qed

definition ex_proof :: val where
  "ex_proof = Obj [(''challenge'', Str ''c'')]"

lemma ex_proof_json: "request_json (ex_request m p (written ex_proof)) = Some ex_proof"
proof (rule ex_request_json)
  show "length (written ex_proof) \<le> BODY_LIMIT" by code_simp
  show "clean ex_proof" by code_simp
qed

theorem login_consumes_live_nonce_witness:
  "\<exists>s'. db_cache (w_db (snd (callback (ex_env []) (ex_request ''POST'' [] (written ex_proof)) ex_world))) = Some s' \<and>
     map_of (nonces s') ''7f.onion'' = None"
proof -
  let ?e = "ex_env []" and ?rq = "ex_request ''POST'' [] (written ex_proof)"
  have v: "auth47_verify (e_parse ?e) (e_verify_proof ?e) ex_proof (Some (e_base_url ?e)) = Accepted None (Some ''PM1'')"
    by code_simp
  have n: "proof_nonce ?e p = ''7f.onion''" for p by (simp add: proof_nonce_def ex_env_def ex_url_def)
  have "fst (callback ?e ?rq ex_world) = Inr \<lparr>re_status = 200, re_body = Json [(''ok'', Bool True)], re_cookie = None\<rparr>"
    unfolding callback_def ex_proof_json option.case v verdict.case n Let_def
    by (simp add: and_then_def take_if_def on_store_def in_store_def load_store_def takeNonce_def putSession_def putNonce_def
        clear_updates_cache_def json_def give_def nonce_expired_def ex_world_def ex_store_def EMPTY_SHAPE_def ex_env_def oread_def)
  then obtain rep w' where c: "callback ?e ?rq ex_world = (Inr rep, w')" "re_status rep = 200"
    by (cases "callback ?e ?rq ex_world") auto
  have "e_sid ?e \<noteq> ''__proto__''" "db_cache (w_db ex_world) = Some ex_store"
    by (simp_all add: ex_env_def ex_world_def)
  then show ?thesis using login_consumes_live_nonce [OF _ c, of ex_store] c n by auto
qed

section \<open>The jobs\<close>

text \<open>The log of a job is the last lines written to it.\<close>

definition last_lines :: "nat \<Rightarrow> 'a list \<Rightarrow> 'a list" where
  "last_lines n xs = drop (length xs - n) xs"

lemma last_lines_snoc:
  "(if n < length (last_lines n ys @ [x]) then tl (last_lines n ys @ [x]) else last_lines n ys @ [x]) = last_lines n (ys @ [x])"
proof (cases n)
  case (Suc m)
  have "tl (drop (length ys - Suc m) ys) = drop (length ys - m) ys" if "m < length ys"
    using that by (simp add: tl_drop drop_Suc [symmetric] Suc_diff_Suc)
  then show ?thesis by (cases "m < length ys") (auto simp: last_lines_def Suc Suc_diff_le)
qed (simp add: last_lines_def)

lemma log_lines_log: "length (jb_log j) \<le> cap \<Longrightarrow> jb_log (log_lines cap ls j) = last_lines cap (jb_log j @ ls)"
proof (induction ls rule: rev_induct)
  case (snoc l ls)
  then show ?case
    using last_lines_snoc [of cap "jb_log j @ ls" l] by (simp add: log_lines_def log_line_def Let_def)
qed (simp add: log_lines_def last_lines_def)

lemma log_line_fields [simp]:
  "jb_done (log_line cap l j) = jb_done j" "jb_ok (log_line cap l j) = jb_ok j" "jb_error (log_line cap l j) = jb_error j"
  "jb_apply (log_line cap l j) = jb_apply j"
  by (simp_all add: log_line_def Let_def)

lemma log_lines_fields [simp]:
  "jb_done (log_lines cap ls j) = jb_done j" "jb_ok (log_lines cap ls j) = jb_ok j" "jb_error (log_lines cap ls j) = jb_error j"
  "jb_apply (log_lines cap ls j) = jb_apply j"
  by (induction ls arbitrary: j) (simp_all add: log_lines_def)

definition capped :: "nat \<Rightarrow> job \<Rightarrow> bool" where
  "capped cap j \<longleftrightarrow> length (jb_log j) \<le> cap"

lemma capped_log [simp]:
  "capped cap j \<Longrightarrow> capped cap (log_line cap l j)" "capped cap j \<Longrightarrow> capped cap (log_lines cap ls j)"
  by (auto simp: capped_def log_line_def Let_def log_lines_log last_lines_def)

lemma capped_fields [simp]:
  "capped cap (j\<lparr>jb_phase := p\<rparr>) = capped cap j" "capped cap (j\<lparr>jb_result := v\<rparr>) = capped cap j"
  "capped cap (j\<lparr>jb_ok := b\<rparr>) = capped cap j" "capped cap (j\<lparr>jb_done := b\<rparr>) = capped cap j"
  "capped cap (j\<lparr>jb_error := x\<rparr>) = capped cap j" "capped cap (new_job i subject a)"
  by (simp_all add: capped_def new_job_def)

definition ended :: "nat \<Rightarrow> job \<Rightarrow> bool" where
  "ended cap j \<longleftrightarrow> length (jb_log j) \<le> cap \<and> jb_done j \<and> jb_ok j = (jb_error j = None)"

lemma ended_well: "capped cap j \<Longrightarrow> jb_done j \<Longrightarrow> jb_ok j \<Longrightarrow> jb_error j = None \<Longrightarrow> ended cap j"
  by (simp add: ended_def capped_def)

lemma new_job_fields [simp]: "jb_error (new_job i subject a) = None" "jb_apply (new_job i subject a) = a"
  by (simp_all add: new_job_def)

lemma failed_ended [simp]: "capped cap j \<Longrightarrow> ended cap (fail_job cap m j)"
  using capped_log(1) [of cap "j\<lparr>jb_error := Some m, jb_ok := False, jb_done := True, jb_phase := ''failed''\<rparr>"]
  by (simp add: ended_def fail_job_def capped_def [symmetric])

lemma probe_cycle_simps [simp]:
  "capped IMPORT_LOG j \<Longrightarrow> capped IMPORT_LOG (probe_cycle cycle j)" "jb_error (probe_cycle cycle j) = jb_error j"
  by (auto simp: probe_cycle_def Let_def split: option.splits)

lemma tryRebuild_returns: "\<exists>v w'. tryRebuild e w = (Inr v, w')"
  by (auto simp: tryRebuild_def split: prod.splits sum.splits)

text \<open>A job that was started ends, whatever the download, the installation or the import does: it is done,
  reports success exactly when it reports no error, and its log stays within the cap however much was logged.\<close>

theorem jobs_end_capped:
  "ended UPDATE_LOG (run_update b fetched applied (new_job i subject True)) \<and>
   (\<exists>j w'. run_import e outcome cycle (new_job i subject a) w = (Inr j, w') \<and> ended IMPORT_LOG j)"
proof
  show "ended UPDATE_LOG (run_update b fetched applied (new_job i subject True))"
    by (auto simp: run_update_def Let_def intro!: ended_well split: sum.splits prod.splits)
  obtain v w' where t: "tryRebuild e w = (Inr v, w')" using tryRebuild_returns by blast
  show "\<exists>j w'. run_import e outcome cycle (new_job i subject a) w = (Inr j, w') \<and> ended IMPORT_LOG j"
    by (cases "snd outcome") (auto simp: run_import_def Let_def give_def and_then_def t intro!: ended_well)
qed

end
