(* ===== verification/Archive.thy ===== *)
theory Archive
  imports Probe "HOL-Library.Word" "HOL-Library.List_Lexorder" "HOL-Library.Char_ord"
begin

text \<open>
  The source archive: \<open>scripts/pack-source.mjs\<close> chooses the files of the running instance and writes them as a zip,
  \<open>server/self-update.mjs\<close> reads a zip of a peer or of GitHub and stages its files, \<open>scripts/apply-update.mjs\<close> lays
  them over the web root. Bytes are characters, file names are their bytes, a tree is a list of files with their
  contents; the compression is a parameter (\<open>deflate\<close>, and \<open>inflate\<close> with the most it may produce).
\<close>

unbundle bit_operations_syntax

section \<open>Which files go in\<close>

type_synonym tree = "(string \<times> string) list"

definition INCLUDE_FILES :: "string list" where
  "INCLUDE_FILES =
     [''index.html'', ''manifest.json'', ''sw.js'', ''favicon.svg'', ''og-image.png'', ''LICENSE'', ''THIRD-PARTY-NOTICES.md'',
      ''README.md'', ''CONTRIBUTING.md'', ''SECURITY.md'', ''package.json'', ''tsconfig.json'', ''types.d.ts'',
      ''install.sh'', ''uninstall.sh'', ''data/version.json'']"

definition INCLUDE_DIRS :: "string list" where
  "INCLUDE_DIRS = [''assets'', ''content'', ''deploy'', ''docs'', ''scripts'', ''server'', ''.github'']"

definition DENY :: "string list" where
  "DENY =
     [''server/data'', ''server/node_modules'', ''node_modules'', ''.git'', ''data/dojos.json'', ''data/history.json'',
      ''data/history-daily.json'', ''data/avatars'', ''data/seed.json'', ''data/operator.json'', ''data/paynym-codes.json'',
      ''data/updates'', ''data/backups'']"

definition under :: "string \<Rightarrow> string \<Rightarrow> bool" where
  "under d p \<longleftrightarrow> prefix (d @ ''/'') p"

definition basename :: "string \<Rightarrow> string" where
  "basename p = last (split_on (CHR ''/'') p)"

definition denied :: "string \<Rightarrow> bool" where
  "denied rel \<longleftrightarrow> list_ex (\<lambda>d. rel = d \<or> under d rel) DENY \<or> suffix ''.zip'' rel \<or> basename rel = ''.DS_Store''"

text \<open>The directories on the way to a file, and the file: what the walk asks about.\<close>

definition path_prefixes :: "string \<Rightarrow> string list" where
  "path_prefixes p = map (\<lambda>i. take i p) (filter (\<lambda>i. i = length p \<or> p ! i = CHR ''/'') [0..<Suc (length p)])"

definition walked :: "string \<Rightarrow> string \<Rightarrow> bool" where
  "walked d p \<longleftrightarrow> under d p \<and> list_all (\<lambda>q. \<not> denied q) (filter (\<lambda>q. length d < length q) (path_prefixes p))"

definition collected :: "tree \<Rightarrow> string list" where
  "collected wr =
     sort (filter (\<lambda>f. f \<in> fst ` set wr) INCLUDE_FILES @
       concat (map (\<lambda>d. filter (walked d) (map fst wr)) INCLUDE_DIRS))"

section \<open>The checksum\<close>

definition crc_step :: "32 word \<Rightarrow> 32 word" where
  "crc_step c = (if bit c 0 then 0xedb88320 XOR drop_bit 1 c else drop_bit 1 c)"

definition CRC_TABLE :: "32 word list" where
  "CRC_TABLE = map (\<lambda>n. (crc_step ^^ 8) (of_nat n)) [0..<256]"

definition byte_word :: "char \<Rightarrow> 32 word" where
  "byte_word b = of_nat (of_char b)"

definition crc32 :: "string \<Rightarrow> 32 word" where
  "crc32 buf = fold (\<lambda>b c. (CRC_TABLE ! unat ((c XOR byte_word b) AND 0xff)) XOR drop_bit 8 c) buf 0xffffffff XOR 0xffffffff"

section \<open>The writer\<close>

record moment =
  mo_year :: int
  mo_month :: int
  mo_day :: int
  mo_hours :: int
  mo_minutes :: int
  mo_seconds :: int

record zip_file =
  zf_name :: string
  zf_data :: string
  zf_mtime :: moment
  zf_mode :: int

definition u16 :: "int \<Rightarrow> string" where
  "u16 n = [byte (nat (n mod 256)), byte (nat (n div 256 mod 256))]"

definition u32 :: "int \<Rightarrow> string" where
  "u32 n = [byte (nat (n mod 256)), byte (nat (n div 256 mod 256)), byte (nat (n div 65536 mod 256)), byte (nat (n div 16777216 mod 256))]"

definition dosTime :: "moment \<Rightarrow> int" where
  "dosTime d = (push_bit 11 (mo_hours d) OR push_bit 5 (mo_minutes d) OR drop_bit 1 (mo_seconds d)) AND 0xffff"

definition dosDate :: "moment \<Rightarrow> int" where
  "dosDate d = (push_bit 9 (mo_year d - 1980) OR push_bit 5 (mo_month d + 1) OR mo_day d) AND 0xffff"

definition zip_body :: "(string \<Rightarrow> string) \<Rightarrow> string \<Rightarrow> int \<times> string" where
  "zip_body deflate data = (if length (deflate data) < length data then (8, deflate data) else (0, data))"

definition zip_common :: "(string \<Rightarrow> string) \<Rightarrow> zip_file \<Rightarrow> string" where
  "zip_common deflate e =
     (let (method, body) = zip_body deflate (zf_data e)
      in u16 20 @ u16 0x0800 @ u16 method @ u16 (dosTime (zf_mtime e)) @ u16 (dosDate (zf_mtime e)) @ u32 (uint (crc32 (zf_data e))) @
         u32 (int (length body)) @ u32 (int (length (zf_data e))) @ u16 (int (length (zf_name e))) @ u16 0)"

definition zip_local :: "(string \<Rightarrow> string) \<Rightarrow> zip_file \<Rightarrow> string" where
  "zip_local deflate e = u32 0x04034b50 @ zip_common deflate e @ zf_name e @ snd (zip_body deflate (zf_data e))"

text \<open>\<open>(0o100000 | mode)\<close>, shifted into the high word.\<close>

definition zip_central :: "(string \<Rightarrow> string) \<Rightarrow> nat \<Rightarrow> zip_file \<Rightarrow> string" where
  "zip_central deflate offset e =
     u32 0x02014b50 @ u16 (768 OR 20) @ zip_common deflate e @ u16 0 @ u16 0 @ u16 0 @
     u32 (((0x8000 OR zf_mode e) mod 4294967296) * 65536) @ u32 (int offset) @ zf_name e"

fun zip_parts :: "(string \<Rightarrow> string) \<Rightarrow> nat \<Rightarrow> zip_file list \<Rightarrow> string \<times> string" where
  "zip_parts deflate offset [] = ([], [])"
| "zip_parts deflate offset (e # es) =
     (let l = zip_local deflate e; (locals, centrals) = zip_parts deflate (offset + length l) es
      in (l @ locals, zip_central deflate offset e @ centrals))"

definition zip_end :: "nat \<Rightarrow> nat \<Rightarrow> nat \<Rightarrow> string" where
  "zip_end count len offset =
     u32 0x06054b50 @ u16 0 @ u16 0 @ u16 (int count) @ u16 (int count) @ u32 (int len) @ u32 (int offset) @ u16 0"

definition buildZip :: "(string \<Rightarrow> string) \<Rightarrow> zip_file list \<Rightarrow> string" where
  "buildZip deflate entries =
     (let (locals, cd) = zip_parts deflate 0 entries
      in locals @ cd @ zip_end (length entries) (length cd) (length locals))"

text \<open>\<open>stat\<close> gives the times and the mode of a file.\<close>

definition packed_entries :: "(string \<Rightarrow> moment \<times> int) \<Rightarrow> tree \<Rightarrow> zip_file list" where
  "packed_entries stat wr =
     map (\<lambda>rel. \<lparr>zf_name = ''mise/'' @ rel, zf_data = (case map_of wr rel of Some data \<Rightarrow> data | None \<Rightarrow> []),
       zf_mtime = fst (stat rel), zf_mode = snd (stat rel) AND 0x1ff\<rparr>) (collected wr)"

definition packSource :: "(string \<Rightarrow> string) \<Rightarrow> (string \<Rightarrow> moment \<times> int) \<Rightarrow> tree \<Rightarrow> string" where
  "packSource deflate stat wr = buildZip deflate (packed_entries stat wr)"

section \<open>The reader\<close>

definition MAX_INFLATED_BYTES :: nat where
  "MAX_INFLATED_BYTES = 32 * 1024 * 1024"

definition MAX_ENTRIES :: nat where
  "MAX_ENTRIES = 2000"

definition MAX_SOURCE_ZIP_BYTES :: nat where
  "MAX_SOURCE_ZIP_BYTES = 8 * 1024 * 1024"

datatype inflated = Inflated string | PastLimit | Corrupt string

datatype archive_error =
    NotAZip | TooManyEntries nat | BadDirectory | ReadOutOfRange | InflatesPastLimit string | InflateThrew string
  | UnsafePath string | NotASourceTree | NotWritable string | NoBackup nat

text \<open>A read past the end throws.\<close>

definition read_u16 :: "string \<Rightarrow> nat \<Rightarrow> nat option" where
  "read_u16 buf i = (if i + 2 \<le> length buf then Some (byte_at buf i + 256 * byte_at buf (i + 1)) else None)"

definition read_u32 :: "string \<Rightarrow> nat \<Rightarrow> nat option" where
  "read_u32 buf i =
     (if i + 4 \<le> length buf
      then Some (byte_at buf i + 256 * byte_at buf (i + 1) + 65536 * byte_at buf (i + 2) + 16777216 * byte_at buf (i + 3))
      else None)"

definition slice :: "string \<Rightarrow> nat \<Rightarrow> nat \<Rightarrow> string" where
  "slice buf i n = take n (drop i buf)"

fun find_eocd :: "string \<Rightarrow> nat \<Rightarrow> nat option" where
  "find_eocd buf i =
     (if read_u32 buf i = Some 0x06054b50 then Some i else (case i of 0 \<Rightarrow> None | Suc j \<Rightarrow> find_eocd buf j))"

declare find_eocd.simps [simp del]

type_synonym inflate = "nat \<Rightarrow> string \<Rightarrow> inflated"

text \<open>The data of an entry, with what is left of the allowance.\<close>

definition entry_data :: "inflate \<Rightarrow> nat \<Rightarrow> nat \<Rightarrow> string \<Rightarrow> string \<Rightarrow> archive_error + string" where
  "entry_data inflate used method name packed =
     (let remaining = MAX_INFLATED_BYTES - used
      in if method = 8
         then (case inflate remaining packed of
             Inflated d \<Rightarrow> Inr d | PastLimit \<Rightarrow> Inl (InflatesPastLimit name) | Corrupt e \<Rightarrow> Inl (InflateThrew e))
         else if remaining < length packed then Inl (InflatesPastLimit name) else Inr packed)"

text \<open>One entry of the central directory at an offset: its name, its data, and where the next one is.\<close>

definition read_entry :: "inflate \<Rightarrow> string \<Rightarrow> nat \<Rightarrow> nat \<Rightarrow> archive_error + string \<times> string \<times> nat" where
  "read_entry inflate buf used off =
     (case read_u32 buf off of
        None \<Rightarrow> Inl ReadOutOfRange
      | Some sig \<Rightarrow>
          if sig \<noteq> 0x02014b50 then Inl BadDirectory
          else (case (read_u16 buf (off + 10), read_u32 buf (off + 20), read_u16 buf (off + 28), read_u16 buf (off + 30),
                      read_u16 buf (off + 32), read_u32 buf (off + 42)) of
              (Some method, Some compSize, Some nameLen, Some extraLen, Some commentLen, Some lho) \<Rightarrow>
                (case (read_u16 buf (lho + 26), read_u16 buf (lho + 28)) of
                   (Some lnameLen, Some lextraLen) \<Rightarrow>
                     (let name = slice buf (off + 46) nameLen; packed = slice buf (lho + 30 + lnameLen + lextraLen) compSize
                      in case entry_data inflate used method name packed of
                           Inl e \<Rightarrow> Inl e
                         | Inr d \<Rightarrow> Inr (name, d, off + 46 + nameLen + extraLen + commentLen))
                 | _ \<Rightarrow> Inl ReadOutOfRange)
            | _ \<Rightarrow> Inl ReadOutOfRange))"

fun read_entries :: "inflate \<Rightarrow> string \<Rightarrow> nat \<Rightarrow> nat \<Rightarrow> nat \<Rightarrow> archive_error + (string \<times> string) list" where
  "read_entries inflate buf 0 used off = Inr []"
| "read_entries inflate buf (Suc n) used off =
     (case read_entry inflate buf used off of
        Inl e \<Rightarrow> Inl e
      | Inr (name, d, nxt) \<Rightarrow>
          (case read_entries inflate buf n (used + length d) nxt of
             Inl e \<Rightarrow> Inl e
           | Inr fs \<Rightarrow> Inr ((name, d) # fs)))"

definition unzip :: "inflate \<Rightarrow> string \<Rightarrow> archive_error + (string \<times> string) list" where
  "unzip inflate buf =
     (if length buf < 22 then Inl NotAZip
      else (case find_eocd buf (length buf - 22) of
          None \<Rightarrow> Inl NotAZip
        | Some eocd \<Rightarrow>
            (case (read_u16 buf (eocd + 10), read_u32 buf (eocd + 16)) of
               (Some count, Some off) \<Rightarrow>
                 if MAX_ENTRIES < count then Inl (TooManyEntries count) else read_entries inflate buf count 0 off
             | _ \<Rightarrow> Inl ReadOutOfRange)))"

text \<open>\<open>stripTopLevel\<close>: one name segment goes; directories and instance data are skipped.\<close>

fun stripTopLevel :: "(string \<times> string) list \<Rightarrow> archive_error + (string \<times> string) list" where
  "stripTopLevel [] = Inr []"
| "stripTopLevel ((name, data) # fs) =
     (if CHR ''/'' \<notin> set name then stripTopLevel fs
      else (let rel = tl (dropWhile (\<lambda>c. c \<noteq> CHR ''/'') name)
        in if has_text ''..'' rel \<or> starts_with ''/'' rel then Inl (UnsafePath name)
           else if rel = [] \<or> ends_with ''/'' rel \<or> rel = ''data'' \<or> starts_with ''data/'' rel then stripTopLevel fs
           else (case stripTopLevel fs of Inl e \<Rightarrow> Inl e | Inr out \<Rightarrow> Inr ((rel, data) # out))))"

section \<open>The update\<close>

text \<open>Where \<open>path.join\<close> puts a relative path without \<open>..\<close>: empty segments and single dots go.\<close>

definition placed :: "string \<Rightarrow> string" where
  "placed rel = join_with ''/'' (filter (\<lambda>s. s \<noteq> [] \<and> s \<noteq> ''.'') (split_on (CHR ''/'') rel))"

text \<open>The staging directory after the writes; a file cannot stand where a directory does.\<close>

fun stage :: "tree \<Rightarrow> (string \<times> string) list \<Rightarrow> archive_error + tree" where
  "stage t [] = Inr t"
| "stage t ((rel, data) # fs) =
     (let p = placed rel
      in if p = [] \<or> list_ex (\<lambda>q. under p q \<or> under q p) (map fst t) then Inl (NotWritable rel)
         else stage (AList.update p data t) fs)"

definition BACKUP_ROOTS :: "string list" where
  "BACKUP_ROOTS =
     [''assets'', ''content'', ''deploy'', ''scripts'', ''server'', ''.github'', ''index.html'', ''manifest.json'', ''sw.js'',
      ''package.json'', ''README.md'', ''CONTRIBUTING.md'', ''install.sh'']"

definition backup_path :: "string \<Rightarrow> bool" where
  "backup_path p \<longleftrightarrow> list_all (\<lambda>seg. seg \<noteq> ''node_modules'' \<and> seg \<noteq> ''data'') (split_on (CHR ''/'') p)"

definition in_root :: "string \<Rightarrow> string \<Rightarrow> bool" where
  "in_root r p \<longleftrightarrow> p = r \<or> under r p"

text \<open>\<open>copies r\<close>: the copy of an entry completes; the files of one that fails are not counted on.\<close>

definition backed_up_roots :: "(string \<Rightarrow> bool) \<Rightarrow> tree \<Rightarrow> string list" where
  "backed_up_roots copies t = filter (\<lambda>r. list_ex (in_root r) (map fst t) \<and> copies r) BACKUP_ROOTS"

definition backup :: "(string \<Rightarrow> bool) \<Rightarrow> tree \<Rightarrow> tree" where
  "backup copies t = filter (\<lambda>(p, d). list_ex (\<lambda>r. in_root r p) (backed_up_roots copies t) \<and> backup_path p) t"

record update_ready =
  ur_staging :: tree
  ur_backup :: tree
  ur_entries :: nat

definition applyUpdate :: "inflate \<Rightarrow> (string \<Rightarrow> bool) \<Rightarrow> string \<Rightarrow> tree \<Rightarrow> archive_error + update_ready" where
  "applyUpdate inflate copies bytes webRoot =
     (case unzip inflate bytes of
        Inl e \<Rightarrow> Inl e
      | Inr files \<Rightarrow> (case stripTopLevel files of
          Inl e \<Rightarrow> Inl e
        | Inr entries \<Rightarrow>
            if ''server/index.mjs'' \<notin> fst ` set entries \<or> ''assets/js/app.js'' \<notin> fst ` set entries then Inl NotASourceTree
            else (case stage [] entries of
                Inl e \<Rightarrow> Inl e
              | Inr staging \<Rightarrow>
                  (let n = length (backed_up_roots copies webRoot)
                   in if n < 2 then Inl (NoBackup n)
                      else Inr \<lparr>ur_staging = staging, ur_backup = backup copies webRoot, ur_entries = length entries\<rparr>))))"

text \<open>The helper: the dependencies go into staging, staging over the web root, then the version marker, the rebuild
  and the packing of the new code, the record of the outcome and the restart. What it runs and what can throw is the
  record \<open>helper_env\<close>: what npm leaves in its cache and the modules it installs, or its failure; after how many files
  the copy stops, the failure of the marker's write, the restart's, each with its message; the two programs of the new
  code as they leave the web root. The web root is taken without the staging and backup trees under it.\<close>

record helper_env =
  he_cache :: tree
  he_npm :: "string + tree"
  he_copy :: "(nat \<times> string) option"
  he_marker :: "string option"
  he_rebuild :: "tree \<Rightarrow> tree"
  he_pack :: "tree \<Rightarrow> tree"
  he_restart :: "string option"
  he_notes :: bool
  he_at :: string

datatype helper_result = DependenciesFailed | CopyFailed | MarkerFailed | Updated bool

definition overlay :: "tree \<Rightarrow> tree \<Rightarrow> tree" where
  "overlay new t = fold (\<lambda>(p, d) t. AList.update p d t) new t"

text \<open>\<open>JSON.stringify(obj, null, 2)\<close> of a record of texts and truth values, written out.\<close>

definition json_lines :: "(string \<times> string) list \<Rightarrow> string" where
  "json_lines fs =
     ''{'' @ [CHR 0x0A] @ join_with ('','' @ [CHR 0x0A]) (map (\<lambda>(k, v). ''  '' @ json_quote k @ '': '' @ v) fs) @ [CHR 0x0A] @ ''}''"

definition version_file :: "string \<Rightarrow> string \<Rightarrow> string" where
  "version_file version built =
     json_lines [(''commit'', json_quote (take 7 version)), (''built'', json_quote built)] @ [CHR 0x0A]"

text \<open>\<open>writeResult\<close>; its failure is swallowed.\<close>

definition note_result :: "helper_env \<Rightarrow> string \<Rightarrow> (string \<times> string) list \<Rightarrow> tree \<Rightarrow> tree" where
  "note_result h version fs t =
     (if he_notes h
      then AList.update ''data/updates/last-result.json''
             (json_lines (fs @ [(''at'', json_quote (he_at h)), (''version'', json_quote version)])) t
      else t)"

definition failed_fields :: "string \<Rightarrow> (string \<times> string) list" where
  "failed_fields e = [(''ok'', ''false''), (''error'', json_quote e)]"

definition npm_failed_fields :: "string \<Rightarrow> (string \<times> string) list" where
  "npm_failed_fields e =
     [(''ok'', ''false''), (''restarting'', ''false''),
      (''error'', json_quote (''dependency install failed, so nothing was changed: '' @ e))]"

definition updated_fields :: "string option \<Rightarrow> (string \<times> string) list" where
  "updated_fields restart =
     (case restart of
        None \<Rightarrow> [(''ok'', ''true''), (''restarting'', ''true'')]
      | Some m \<Rightarrow> [(''ok'', ''true''), (''restarting'', ''false''),
          (''note'', json_quote (''code updated; restart mise-server manually: '' @ m))])"

definition apply_update :: "helper_env \<Rightarrow> string \<Rightarrow> tree \<Rightarrow> tree \<Rightarrow> helper_result \<times> tree" where
  "apply_update h version staging webRoot =
     (let t0 = overlay (he_cache h) webRoot in
      case he_npm h of
        Inl e \<Rightarrow> (DependenciesFailed, note_result h version (npm_failed_fields e) t0)
      | Inr modules \<Rightarrow>
          (case he_copy h of
             Some (k, e) \<Rightarrow> (CopyFailed, note_result h version (failed_fields e) (overlay (take k (staging @ modules)) t0))
           | None \<Rightarrow>
               (let t1 = overlay (staging @ modules) t0
                in case (if version = [] then None else he_marker h) of
                     Some e \<Rightarrow> (MarkerFailed, note_result h version (failed_fields e) t1)
                   | None \<Rightarrow>
                       (let t2 = (if version = [] then t1
                                  else AList.update ''data/version.json'' (version_file version (he_at h)) t1);
                            t3 = he_pack h (he_rebuild h t2)
                        in (Updated (he_restart h = None), note_result h version (updated_fields (he_restart h)) t3)))))"

end
