(* ===== verification/ArchiveProps.thy ===== *)
theory ArchiveProps
  imports Archive
begin

text \<open>
  The archive is read as it was written, its checksum is the bitwise one, no archive gets past the budgets of the
  reader, and an update leaves the instance's own data alone.
\<close>

unbundle bit_operations_syntax

section \<open>The checksum\<close>

text \<open>The reference: one shift for every bit.\<close>

definition crc_bitwise :: "string \<Rightarrow> 32 word" where
  "crc_bitwise buf = fold (\<lambda>b c. (crc_step ^^ 8) (c XOR byte_word b)) buf 0xffffffff XOR 0xffffffff"

lemma crc_step_xor: "crc_step (x XOR y) = crc_step x XOR crc_step y"
  by (auto simp: crc_step_def bit_simps drop_bit_xor ac_simps)

lemma crc_steps_xor: "(crc_step ^^ n) (x XOR y) = (crc_step ^^ n) x XOR (crc_step ^^ n) y"
  by (induction n) (simp_all add: crc_step_xor)

lemma crc_steps_clear: "(\<And>i. i < n \<Longrightarrow> \<not> bit x i) \<Longrightarrow> (crc_step ^^ n) x = drop_bit n x"
proof (induction n arbitrary: x)
  case (Suc n)
  have "crc_step x = drop_bit 1 x" using Suc.prems [of 0] by (simp add: crc_step_def)
  moreover have "(crc_step ^^ n) (drop_bit 1 x) = drop_bit n (drop_bit 1 x)"
    by (rule Suc.IH) (simp add: bit_simps Suc.prems)
  ultimately show ?case by (simp add: funpow_Suc_right del: funpow.simps)
qed simp

lemma crc_table_step: "(crc_step ^^ 8) x = (CRC_TABLE ! unat (x AND 0xff)) XOR drop_bit 8 x"
proof -
  have m: "(0xff :: 32 word) = mask 8" by (simp add: mask_eq_exp_minus_1)
  have "x = (x AND mask 8) XOR (x AND NOT (mask 8))" by (rule bit_eqI) (auto simp: bit_simps)
  then have "(crc_step ^^ 8) x = (crc_step ^^ 8) (x AND mask 8) XOR (crc_step ^^ 8) (x AND NOT (mask 8))"
    by (metis crc_steps_xor)
  also have "(crc_step ^^ 8) (x AND NOT (mask 8)) = drop_bit 8 (x AND NOT (mask 8))"
    by (rule crc_steps_clear) (simp add: bit_simps)
  also have "\<dots> = drop_bit 8 x" by (rule bit_eqI) (auto simp: bit_simps dest: bit_imp_le_length)
  also have "(crc_step ^^ 8) (x AND mask 8) = CRC_TABLE ! unat (x AND mask 8)"
  proof -
    have "unat (x AND mask 8) < 256" using and_mask_less' [of 8 x] by (simp add: word_less_nat_alt)
    then show ?thesis by (simp add: CRC_TABLE_def)
  qed
  finally show ?thesis unfolding m .
qed

lemma byte_word_high: "drop_bit 8 (byte_word b) = 0"
proof -
  have "of_char b < (256 :: nat)" by simp
  then have "of_char b mod (4294967296 :: nat) < 256" by (meson mod_less_eq_dividend order_le_less_trans)
  then have "unat (byte_word b) < 256" by (simp add: byte_word_def unat_of_nat)
  then show ?thesis by (simp add: word_eq_iff_unsigned unsigned_drop_bit_eq drop_bit_eq_div take_bit_eq_mod word_arith_nat_div)
qed

text \<open>The checksum computed with the table is the checksum computed bit by bit, for every file.\<close>

theorem crc_of_the_table: "crc32 buf = crc_bitwise buf"
proof -
  have "(\<lambda>b c. (CRC_TABLE ! unat ((c XOR byte_word b) AND 0xff)) XOR drop_bit 8 c) = (\<lambda>b c. (crc_step ^^ 8) (c XOR byte_word b))"
    by (intro ext) (simp only: crc_table_step drop_bit_xor byte_word_high xor.right_neutral)
  then show ?thesis by (simp only: crc32_def crc_bitwise_def)
qed

section \<open>Fields\<close>

lemma length_u [simp]: "length (u16 n) = 2" "length (u32 n) = 4"
  by (simp_all add: u16_def u32_def)

lemma of_char_byte [simp]: "n < 256 \<Longrightarrow> of_char (byte n) = (n :: nat)"
  by (simp add: byte_def)

lemma le_split: "0 \<le> n \<Longrightarrow> nat (n mod 256) + 256 * nat (n div 256) = nat n" for n :: int
proof -
  assume "0 \<le> n"
  then obtain m where "n = int m" by (metis nat_0_le)
  then show ?thesis by (simp add: nat_mod_distrib nat_div_distrib)
qed

lemma drop_room: "drop i s = x @ r \<Longrightarrow> x \<noteq> [] \<Longrightarrow> i + length x \<le> length s"
proof -
  assume d: "drop i s = x @ r" "x \<noteq> []"
  then have "i \<le> length s" by (metis append_is_Nil_conv drop_all nle_le)
  moreover have "length x \<le> length s - i" using arg_cong [OF d(1), of length] by simp
  ultimately show ?thesis by linarith
qed

lemma byte_at_drop: "drop i s = x @ r \<Longrightarrow> k < length x \<Longrightarrow> byte_at s (i + k) = of_char (x ! k)"
proof -
  assume d: "drop i s = x @ r" and k: "k < length x"
  then have "i \<le> length s" using drop_room [OF d] by fastforce
  then have "s ! (i + k) = drop i s ! k" by simp
  then show ?thesis using k by (simp add: byte_at_def d nth_append)
qed

lemma read_u16_at: "drop i s = u16 n @ r \<Longrightarrow> 0 \<le> n \<Longrightarrow> n < 65536 \<Longrightarrow> read_u16 s i = Some (nat n)"
proof -
  assume d: "drop i s = u16 n @ r" and n: "0 \<le> n" "n < 65536"
  have l: "i + 2 \<le> length s" using drop_room [OF d] by (simp add: u16_def)
  have "n div 256 mod 256 = n div 256" using n by simp
  then have "byte_at s i + 256 * byte_at s (i + 1) = nat n"
    using byte_at_drop [OF d, of 0] byte_at_drop [OF d, of 1] le_split [OF n(1)] n by (simp add: u16_def)
  then show ?thesis using l by (simp add: read_u16_def)
qed

lemma read_u32_at: "drop i s = u32 n @ r \<Longrightarrow> 0 \<le> n \<Longrightarrow> n < 4294967296 \<Longrightarrow> read_u32 s i = Some (nat n)"
proof -
  assume d: "drop i s = u32 n @ r" and n: "0 \<le> n" "n < 4294967296"
  have l: "i + 4 \<le> length s" using drop_room [OF d] by (simp add: u32_def)
  define a where "a = n div 256"
  define b where "b = a div 256"
  have "n div (256 * 256) = n div 256 div 256" by (rule zdiv_zmult2_eq) simp
  then have b: "n div 65536 = b" by (simp add: a_def b_def)
  have "n div (65536 * 256) = n div 65536 div 256" by (rule zdiv_zmult2_eq) simp
  then have "n div 16777216 = b div 256" by (simp add: b)
  moreover have a0: "0 \<le> a" unfolding a_def using n(1) by (simp add: pos_imp_zdiv_nonneg_iff)
  moreover from a0 have "0 \<le> b" unfolding b_def by (simp add: pos_imp_zdiv_nonneg_iff)
  ultimately have ab: "0 \<le> a" "0 \<le> b" "n div 65536 = b" "n div 16777216 = b div 256" using b by simp_all
  have "b div 256 < 256" "0 \<le> b div 256" using n ab(2,4) by simp_all
  moreover from this have "nat (b div 256) < 256" by linarith
  moreover have "nat (x mod 256) < 256" for x :: int using pos_mod_bound [of 256 x] by linarith
  ultimately have "byte_at s i + 256 * byte_at s (i + 1) + 65536 * byte_at s (i + 2) + 16777216 * byte_at s (i + 3) =
      nat (n mod 256) + 256 * (nat (a mod 256) + 256 * (nat (b mod 256) + 256 * nat (b div 256)))"
    using byte_at_drop [OF d, of 0] byte_at_drop [OF d, of 1] byte_at_drop [OF d, of 2] byte_at_drop [OF d, of 3]
    by (simp add: u32_def ab a_def [symmetric] algebra_simps)
  also have "\<dots> = nat n" using le_split [OF n(1)] le_split [OF ab(1)] le_split [OF ab(2)] by (simp add: a_def b_def)
  finally show ?thesis using l by (simp add: read_u32_def)
qed


section \<open>The headers\<close>

definition fits :: "(string \<Rightarrow> string) \<Rightarrow> zip_file \<Rightarrow> bool" where
  "fits deflate e \<longleftrightarrow> length (zf_name e) < 65536 \<and> length (zf_data e) < 4294967296"

lemma body_le: "length (snd (zip_body deflate data)) \<le> length data"
  by (simp add: zip_body_def)

lemma length_common [simp]: "length (zip_common deflate e) = 26"
  by (simp add: zip_common_def split_beta)

lemma length_local [simp]: "length (zip_local deflate e) = 30 + length (zf_name e) + length (snd (zip_body deflate (zf_data e)))"
  by (simp add: zip_local_def)

lemma length_central [simp]: "length (zip_central deflate off e) = 46 + length (zf_name e)"
  by (simp add: zip_central_def)

lemma drop_u [simp]:
  "2 \<le> n \<Longrightarrow> drop n (u16 x @ r) = drop (n - 2) r" "4 \<le> n \<Longrightarrow> drop n (u32 x @ r) = drop (n - 4) r"
  by simp_all

text \<open>The fields of the shared part, which starts at 6 in a central header and at 4 in a local one.\<close>

lemma common_fields:
  assumes "drop i s = zip_common deflate e @ r" and "fits deflate e"
  shows "read_u16 s (i + 4) = Some (nat (fst (zip_body deflate (zf_data e))))"
    and "read_u32 s (i + 14) = Some (length (snd (zip_body deflate (zf_data e))))"
    and "read_u16 s (i + 22) = Some (length (zf_name e))" and "read_u16 s (i + 24) = Some 0"
proof -
  obtain m b where mb: "zip_body deflate (zf_data e) = (m, b)" by (cases "zip_body deflate (zf_data e)")
  have m: "0 \<le> m" "m < 65536" using mb by (auto simp: zip_body_def split: if_splits)
  have b: "length b < 4294967296" using body_le [of deflate "zf_data e"] assms(2) by (simp add: mb fits_def)
  have d: "drop (i + k) s = drop k (zip_common deflate e @ r)" for k using assms(1) by (metis add.commute drop_drop)
  note c = d [unfolded zip_common_def mb prod.case append_assoc]
  have "drop (i + 4) s = u16 m @ drop 6 (zip_common deflate e @ r)" unfolding c by (simp add: zip_common_def mb del: drop_append)
  from read_u16_at [OF this m] show "read_u16 s (i + 4) = Some (nat (fst (zip_body deflate (zf_data e))))" by (simp add: mb)
  have "drop (i + 14) s = u32 (int (length b)) @ drop 18 (zip_common deflate e @ r)" unfolding c by (simp add: zip_common_def mb del: drop_append)
  from read_u32_at [OF this] b show "read_u32 s (i + 14) = Some (length (snd (zip_body deflate (zf_data e))))" by (simp add: mb)
  have "drop (i + 22) s = u16 (int (length (zf_name e))) @ drop 24 (zip_common deflate e @ r)" unfolding c by (simp add: zip_common_def mb del: drop_append)
  from read_u16_at [OF this] assms(2) show "read_u16 s (i + 22) = Some (length (zf_name e))" by (simp add: fits_def)
  have "drop (i + 24) s = u16 0 @ drop 26 (zip_common deflate e @ r)" unfolding c by (simp add: zip_common_def mb del: drop_append)
  from read_u16_at [OF this] show "read_u16 s (i + 24) = Some 0" by simp
qed


lemma drop_at: "length a = i \<Longrightarrow> drop i (a @ x) = x"
  by simp

lemma slice_at: "drop i s = x @ r \<Longrightarrow> slice s i (length x) = x"
  by (simp add: slice_def)

lemma drop_more: "drop i s = x @ r \<Longrightarrow> length x = k \<Longrightarrow> drop (i + k) s = r"
  by (metis add.commute append_eq_conv_conj drop_drop)

lemma drop_to: "drop i s = x @ r \<Longrightarrow> i + length x = j \<Longrightarrow> drop j s = r"
  using drop_more by blast

lemma local_fields:
  assumes "drop i s = zip_local deflate e @ r" and "fits deflate e"
  shows "read_u16 s (i + 26) = Some (length (zf_name e))" and "read_u16 s (i + 28) = Some 0"
    and "drop (i + 30 + length (zf_name e)) s = snd (zip_body deflate (zf_data e)) @ r"
proof -
  have "drop i s = u32 0x04034b50 @ zip_common deflate e @ zf_name e @ snd (zip_body deflate (zf_data e)) @ r"
    using assms(1) by (simp add: zip_local_def)
  from this have d: "drop (i + 4) s = zip_common deflate e @ zf_name e @ snd (zip_body deflate (zf_data e)) @ r" by (rule drop_to) simp_all
  from common_fields [OF d assms(2)] show "read_u16 s (i + 26) = Some (length (zf_name e))" "read_u16 s (i + 28) = Some 0"
    by (simp_all add: ac_simps)
  have "drop (i + 30) s = zf_name e @ snd (zip_body deflate (zf_data e)) @ r" by (rule drop_to [OF d]) simp_all
  from this show "drop (i + 30 + length (zf_name e)) s = snd (zip_body deflate (zf_data e)) @ r" by (rule drop_to) simp_all
qed

lemma central_fields:
  assumes "drop i s = zip_central deflate off e @ r" and "fits deflate e" and "off < 4294967296"
  shows "read_u32 s i = Some 0x02014b50" and "read_u16 s (i + 10) = Some (nat (fst (zip_body deflate (zf_data e))))"
    and "read_u32 s (i + 20) = Some (length (snd (zip_body deflate (zf_data e))))"
    and "read_u16 s (i + 28) = Some (length (zf_name e))" and "read_u16 s (i + 30) = Some 0" and "read_u16 s (i + 32) = Some 0"
    and "read_u32 s (i + 42) = Some off" and "slice s (i + 46) (length (zf_name e)) = zf_name e"
proof -
  define mode where "mode = ((0x8000 OR zf_mode e) mod 4294967296) * 65536"
  have d: "drop i s = u32 0x02014b50 @ u16 (768 OR 20) @ zip_common deflate e @ u16 0 @ u16 0 @ u16 0 @ u32 mode @ u32 (int off) @ zf_name e @ r"
    using assms(1) by (simp add: zip_central_def mode_def)
  show "read_u32 s i = Some 0x02014b50" using read_u32_at [OF d] by simp
  have "drop (i + 4) s = u16 (768 OR 20) @ zip_common deflate e @ u16 0 @ u16 0 @ u16 0 @ u32 mode @ u32 (int off) @ zf_name e @ r" by (rule drop_to [OF d]) simp_all
  from this have c: "drop (i + 6) s = zip_common deflate e @ u16 0 @ u16 0 @ u16 0 @ u32 mode @ u32 (int off) @ zf_name e @ r" by (rule drop_to) simp_all
  from common_fields [OF c assms(2)] show "read_u16 s (i + 10) = Some (nat (fst (zip_body deflate (zf_data e))))"
    "read_u32 s (i + 20) = Some (length (snd (zip_body deflate (zf_data e))))"
    "read_u16 s (i + 28) = Some (length (zf_name e))" "read_u16 s (i + 30) = Some 0" by (simp_all add: ac_simps)
  have t: "drop (i + 32) s = u16 0 @ u16 0 @ u16 0 @ u32 mode @ u32 (int off) @ zf_name e @ r" by (rule drop_to [OF c]) simp_all
  show "read_u16 s (i + 32) = Some 0" using read_u16_at [OF t] by simp
  have "drop (i + 34) s = u16 0 @ u16 0 @ u32 mode @ u32 (int off) @ zf_name e @ r" by (rule drop_to [OF t]) simp_all
  from this have "drop (i + 36) s = u16 0 @ u32 mode @ u32 (int off) @ zf_name e @ r" by (rule drop_to) simp_all
  from this have "drop (i + 38) s = u32 mode @ u32 (int off) @ zf_name e @ r" by (rule drop_to) simp_all
  from this have o: "drop (i + 42) s = u32 (int off) @ zf_name e @ r" by (rule drop_to) simp_all
  show "read_u32 s (i + 42) = Some off" using read_u32_at [OF o] assms(3) by simp
  have "drop (i + 46) s = zf_name e @ r" by (rule drop_to [OF o]) simp_all
  from slice_at [OF this] show "slice s (i + 46) (length (zf_name e)) = zf_name e" .
qed

section \<open>The round trip\<close>

text \<open>What the library promises of its two functions, at the files that are packed.\<close>

definition restores :: "(string \<Rightarrow> string) \<Rightarrow> inflate \<Rightarrow> string \<Rightarrow> bool" where
  "restores deflate inflate data \<longleftrightarrow> (\<forall>n. length data \<le> n \<longrightarrow> inflate n (deflate data) = Inflated data)"

lemma entry_data_body:
  assumes "restores deflate inflate data" and "used + length data \<le> MAX_INFLATED_BYTES"
  shows "entry_data inflate used (nat (fst (zip_body deflate data))) name (snd (zip_body deflate data)) = Inr data"
proof -
  have "length data \<le> MAX_INFLATED_BYTES - used" using assms(2) by linarith
  with assms(1) show ?thesis by (auto simp: entry_data_def zip_body_def restores_def Let_def)
qed

lemma read_entry_back:
  assumes "drop i s = zip_central deflate off e @ r" and "drop off s = zip_local deflate e @ r'" and "fits deflate e"
    and "off < 4294967296" and "restores deflate inflate (zf_data e)" and "used + length (zf_data e) \<le> MAX_INFLATED_BYTES"
  shows "read_entry inflate s used i = Inr (zf_name e, zf_data e, i + 46 + length (zf_name e))"
proof -
  note c = central_fields [OF assms(1,3,4)] and l = local_fields [OF assms(2,3)]
  have "slice s (off + 30 + length (zf_name e)) (length (snd (zip_body deflate (zf_data e)))) = snd (zip_body deflate (zf_data e))"
    by (rule slice_at [OF l(3)])
  then show ?thesis
    unfolding read_entry_def c(1-7) l(1,2) option.case prod.case Let_def c(8)
    by (simp add: entry_data_body [OF assms(5,6)])
qed

lemma read_entries_back:
  assumes "zip_parts deflate (length a) es = (L, C)" and "list_all (fits deflate) es"
    and "\<forall>e \<in> set es. restores deflate inflate (zf_data e)" and "used + sum_list (map (\<lambda>e. length (zf_data e)) es) \<le> MAX_INFLATED_BYTES"
    and "s = a @ L @ m @ C @ p" and "length s < 4294967296"
  shows "read_entries inflate s (length es) used (length (a @ L @ m)) = Inr (map (\<lambda>e. (zf_name e, zf_data e)) es)"
  using assms
proof (induction es arbitrary: a L m C used)
  case (Cons e es)
  let ?l = "zip_local deflate e" and ?c = "zip_central deflate (length a) e"
  obtain L' C' where z: "zip_parts deflate (length (a @ ?l)) es = (L', C')" by (cases "zip_parts deflate (length (a @ ?l)) es")
  then have LC: "L = ?l @ L'" "C = ?c @ C'" using Cons.prems(1) by (auto simp: Let_def)
  have s: "s = (a @ ?l) @ L' @ (m @ ?c) @ C' @ p" using Cons.prems(5) by (simp add: LC)
  have ih: "read_entries inflate s (length es) (used + length (zf_data e)) (length ((a @ ?l) @ L' @ (m @ ?c))) =
      Inr (map (\<lambda>e. (zf_name e, zf_data e)) es)"
    by (rule Cons.IH [OF z _ _ _ s Cons.prems(6)]) (use Cons.prems in \<open>simp_all add: list_all_iff\<close>)
  have "read_entry inflate s used (length (a @ L @ m)) = Inr (zf_name e, zf_data e, length (a @ L @ m) + 46 + length (zf_name e))"
  proof (rule read_entry_back)
    show "drop (length (a @ L @ m)) s = ?c @ C' @ p" by (simp add: s LC)
    show "drop (length a) s = ?l @ L' @ m @ ?c @ C' @ p" by (simp add: s)
    show "length a < 4294967296" using Cons.prems(6) by (simp add: s)
  qed (use Cons.prems in \<open>simp_all add: list_all_iff\<close>)
  moreover have "length (a @ L @ m) + 46 + length (zf_name e) = length ((a @ ?l) @ L' @ (m @ ?c))" by (simp add: LC)
  ultimately show ?case by (simp only: read_entries.simps length_Cons list.size(4) sum.case prod.case ih list.map)
qed simp

lemma find_eocd_here: "read_u32 buf i = Some 0x06054b50 \<Longrightarrow> find_eocd buf i = Some i"
  by (subst find_eocd.simps) simp

lemma unzip_built:
  assumes "\<forall>e \<in> set es. restores deflate inflate (zf_data e)" and "list_all (fits deflate) es"
    and "length es \<le> MAX_ENTRIES" and "sum_list (map (\<lambda>e. length (zf_data e)) es) \<le> MAX_INFLATED_BYTES"
    and "length (buildZip deflate es) < 4294967296"
  shows "unzip inflate (buildZip deflate es) = Inr (map (\<lambda>e. (zf_name e, zf_data e)) es)"
proof -
  obtain L C where z: "zip_parts deflate 0 es = (L, C)" by (cases "zip_parts deflate 0 es")
  define z where "z = zip_end (length es) (length C) (length L)"
  let ?s = "buildZip deflate es"
  have s: "?s = L @ C @ z" by (simp add: buildZip_def z z_def)
  have lz: "length z = 22" by (simp add: z_def zip_end_def)
  then have i: "length ?s - 22 = length (L @ C)" by (simp add: s)
  have d: "drop (length (L @ C)) ?s = u32 0x06054b50 @ u16 0 @ u16 0 @ u16 (int (length es)) @ u16 (int (length es)) @
      u32 (int (length C)) @ u32 (int (length L)) @ u16 0"
    by (simp add: s z_def zip_end_def)
  have sig: "read_u32 ?s (length (L @ C)) = Some 0x06054b50" using read_u32_at [OF d] by simp
  have small: "length es < 65536" "length L < 4294967296" using assms(3,5) by (simp_all add: MAX_ENTRIES_def s)
  have "drop (length (L @ C) + 4) ?s = u16 0 @ u16 0 @ u16 (int (length es)) @ u16 (int (length es)) @
      u32 (int (length C)) @ u32 (int (length L)) @ u16 0" by (rule drop_to [OF d]) simp_all
  from this have "drop (length (L @ C) + 6) ?s = u16 0 @ u16 (int (length es)) @ u16 (int (length es)) @
      u32 (int (length C)) @ u32 (int (length L)) @ u16 0" by (rule drop_to) simp_all
  from this have "drop (length (L @ C) + 8) ?s = u16 (int (length es)) @ u16 (int (length es)) @
      u32 (int (length C)) @ u32 (int (length L)) @ u16 0" by (rule drop_to) simp_all
  from this have n: "drop (length (L @ C) + 10) ?s = u16 (int (length es)) @
      u32 (int (length C)) @ u32 (int (length L)) @ u16 0" by (rule drop_to) simp_all
  have "drop (length (L @ C) + 12) ?s = u32 (int (length C)) @ u32 (int (length L)) @ u16 0" by (rule drop_to [OF n]) simp_all
  from this have o: "drop (length (L @ C) + 16) ?s = u32 (int (length L)) @ u16 0" by (rule drop_to) simp_all
  have count: "read_u16 ?s (length (L @ C) + 10) = Some (length es)" using read_u16_at [OF n] small by simp
  have off: "read_u32 ?s (length (L @ C) + 16) = Some (length L)" using read_u32_at [OF o] small by simp
  have "read_entries inflate ?s (length es) 0 (length ([] @ L @ [])) = Inr (map (\<lambda>e. (zf_name e, zf_data e)) es)"
    by (rule read_entries_back [where C = C and p = z]) (use z assms s in simp_all)
  moreover have "\<not> length ?s < 22" by (simp add: s lz)
  ultimately show ?thesis
    unfolding unzip_def i find_eocd_here [OF sig] option.case count off prod.case using assms(3) by simp
qed


text \<open>C31: an archive is read as it was written: whatever the names, contents, times and modes of the files, unzipping a
  built zip gives back every name with its bytes, in order, given that inflating undoes deflating and that the sizes stay
  within the format and the budgets of the reader.\<close>

theorem unzip_reads_buildZip:
  assumes "\<forall>e \<in> set es. restores deflate inflate (zf_data e)" and "list_all (fits deflate) es"
    and "length es \<le> MAX_ENTRIES" and "sum_list (map (\<lambda>e. length (zf_data e)) es) \<le> MAX_INFLATED_BYTES"
    and "length (buildZip deflate es) < 4294967296"
  shows "unzip inflate (buildZip deflate es) = Inr (map (\<lambda>e. (zf_name e, zf_data e)) es)"
  by (rule unzip_built [OF assms])

section \<open>The budgets\<close>

lemma entry_data_budget:
  "\<forall>n c d. inflate n c = Inflated d \<longrightarrow> length d \<le> n \<Longrightarrow> used \<le> MAX_INFLATED_BYTES \<Longrightarrow> entry_data inflate used m name packed = Inr d \<Longrightarrow>
     used + length d \<le> MAX_INFLATED_BYTES"
proof -
  assume l: "\<forall>n c d. inflate n c = Inflated d \<longrightarrow> length d \<le> n" and u: "used \<le> MAX_INFLATED_BYTES"
    and e: "entry_data inflate used m name packed = Inr d"
  from e l have "length d \<le> MAX_INFLATED_BYTES - used"
    by (auto simp: entry_data_def Let_def split: if_splits inflated.splits)
  with u show ?thesis by linarith
qed

lemma read_entry_data:
  "read_entry inflate s used off = Inr (name, d, nxt) \<Longrightarrow> \<exists>m packed. entry_data inflate used m name packed = Inr d"
  by (auto simp: read_entry_def Let_def split: option.splits if_splits sum.splits)

lemma read_entries_budget:
  assumes "\<forall>n c d. inflate n c = Inflated d \<longrightarrow> length d \<le> n" and "used \<le> MAX_INFLATED_BYTES"
    and "read_entries inflate s n used off = Inr fs"
  shows "length fs = n \<and> used + sum_list (map (\<lambda>(_, d). length d) fs) \<le> MAX_INFLATED_BYTES"
  using assms(2,3)
proof (induction n arbitrary: used off fs)
  case (Suc n)
  obtain name d nxt where r: "read_entry inflate s used off = Inr (name, d, nxt)"
    using Suc.prems(2) by (auto split: sum.splits)
  obtain gs where g: "read_entries inflate s n (used + length d) nxt = Inr gs" "fs = (name, d) # gs"
    using Suc.prems(2) by (auto simp: r split: sum.splits)
  have "used + length d \<le> MAX_INFLATED_BYTES"
    using entry_data_budget [OF assms(1) Suc.prems(1)] read_entry_data [OF r] by blast
  from Suc.IH [OF this g(1)] g(2) show ?case by simp
qed simp

text \<open>No archive gets past the budgets: whatever bytes a peer sends, what unzipping hands on are at most 2000 files of
  at most 32 MiB in all.\<close>

theorem unzip_within_budgets:
  assumes "\<forall>n c d. inflate n c = Inflated d \<longrightarrow> length d \<le> n" and "unzip inflate bytes = Inr files"
  shows "length files \<le> MAX_ENTRIES \<and> sum_list (map (\<lambda>(_, d). length d) files) \<le> MAX_INFLATED_BYTES"
proof -
  obtain count off where "read_entries inflate bytes count 0 off = Inr files" "count \<le> MAX_ENTRIES"
    using assms(2) by (auto simp: unzip_def split: if_splits option.splits)
  with read_entries_budget [OF assms(1), of 0 bytes count off files] show ?thesis by simp
qed

section \<open>Where the files land\<close>

definition plain_seg :: "string \<Rightarrow> bool" where
  "plain_seg s \<longleftrightarrow> s \<noteq> [] \<and> s \<noteq> ''.'' \<and> s \<noteq> ''..''"

definition plain_path :: "string \<Rightarrow> bool" where
  "plain_path p \<longleftrightarrow> list_all plain_seg (split_on (CHR ''/'') p)"

lemma placed_plain: "plain_path p \<Longrightarrow> placed p = p"
proof -
  assume "plain_path p"
  then have "filter (\<lambda>s. s \<noteq> [] \<and> s \<noteq> ''.'') (split_on (CHR ''/'') p) = split_on (CHR ''/'') p"
    by (auto simp: plain_path_def plain_seg_def list_all_iff filter_id_conv)
  then show ?thesis by (simp add: placed_def join_split)
qed

lemma seg_sublist: "s \<in> set (split_on d p) \<Longrightarrow> sublist s p"
proof (induction p arbitrary: s)
  case (Cons c p)
  obtain w ws where w: "split_on d p = w # ws" by (cases "split_on d p") auto
  have hd: "prefix w p"
  proof -
    have "join_with [d] (w # ws) = p" using join_split [of d p] by (simp add: w)
    then show ?thesis by (cases ws) auto
  qed
  show ?case
  proof (cases "c = d")
    case True
    with Cons show ?thesis by (auto simp: sublist_Cons_right)
  next
    case False
    with Cons.prems w consider "s = c # w" | "s \<in> set ws" by auto
    then show ?thesis
    proof cases
      case 1
      with hd show ?thesis by (simp add: prefix_imp_sublist)
    next
      case 2
      with Cons.IH [of s] w show ?thesis by (auto simp: sublist_Cons_right)
    qed
  qed
qed auto

text \<open>A name that survives: its relative path, and what the checks say of it.\<close>

definition survives :: "string \<Rightarrow> string \<Rightarrow> bool" where
  "survives name rel \<longleftrightarrow> CHR ''/'' \<in> set name \<and> rel = tl (dropWhile (\<lambda>c. c \<noteq> CHR ''/'') name) \<and>
     \<not> has_text ''..'' rel \<and> \<not> prefix ''/'' rel \<and> rel \<noteq> [] \<and> rel \<noteq> ''data'' \<and> \<not> prefix ''data/'' rel"

lemma stripped:
  "stripTopLevel files = Inr out \<Longrightarrow> (rel, d) \<in> set out \<Longrightarrow> \<exists>name. (name, d) \<in> set files \<and> survives name rel"
proof (induction files arbitrary: out)
  case (Cons f files)
  obtain name data where f: "f = (name, data)" by (cases f)
  define rel' where "rel' = tl (dropWhile (\<lambda>c. c \<noteq> CHR ''/'') name)"
  note out = Cons.prems(1) [unfolded f stripTopLevel.simps Let_def rel'_def [symmetric]]
  show ?case
  proof (cases "CHR ''/'' \<notin> set name \<or> rel' = [] \<or> ends_with ''/'' rel' \<or> rel' = ''data'' \<or> starts_with ''data/'' rel'")
    case True
    with out have "stripTopLevel files = Inr out" by (auto split: if_splits)
    from Cons.IH [OF this Cons.prems(2)] show ?thesis by auto
  next
    case False
    with out obtain out' where o: "stripTopLevel files = Inr out'" "out = (rel', data) # out'"
      and n: "\<not> has_text ''..'' rel'" "\<not> starts_with ''/'' rel'" by (auto split: if_splits sum.splits)
    show ?thesis
    proof (cases "(rel, d) \<in> set out'")
      case True
      from Cons.IH [OF o(1) True] show ?thesis by auto
    next
      case new: False
      with Cons.prems(2) o(2) have "rel = rel'" "d = data" by auto
      with False n have "survives name rel" by (simp add: survives_def starts_with_def flip: rel'_def)
      with \<open>d = data\<close> show ?thesis by (auto simp: f)
    qed
  qed
qed simp

lemma no_dots_seg: "\<not> has_text ''..'' rel \<Longrightarrow> s \<in> set (split_on (CHR ''/'') rel) \<Longrightarrow> s \<noteq> ''..''"
  using seg_sublist by (auto simp: has_text_sublist)

lemma placed_segs: "placed rel \<noteq> [] \<Longrightarrow>
    split_on (CHR ''/'') (placed rel) = filter (\<lambda>s. s \<noteq> [] \<and> s \<noteq> ''.'') (split_on (CHR ''/'') rel)"
proof -
  assume "placed rel \<noteq> []"
  then have "filter (\<lambda>s. s \<noteq> [] \<and> s \<noteq> ''.'') (split_on (CHR ''/'') rel) \<noteq> []" by (metis join_with.simps(1) placed_def)
  then show ?thesis unfolding placed_def by (rule split_join) (auto dest: split_on_no_sep)
qed

lemma placed_path: "\<not> has_text ''..'' rel \<Longrightarrow> placed rel \<noteq> [] \<Longrightarrow> plain_path (placed rel)"
  using no_dots_seg by (auto simp: plain_path_def placed_segs plain_seg_def list_all_iff)

lemma stage_keys: "stage t fs = Inr t' \<Longrightarrow> fst ` set t' = fst ` set t \<union> (placed \<circ> fst) ` set fs \<and> [] \<notin> (placed \<circ> fst) ` set fs"
  by (induction t fs rule: stage.induct) (auto simp: Let_def dom_update [unfolded dom_map_of_conv_image_fst] split: if_splits)


text \<open>A name with an empty or a dot segment before its last one, which \<open>path.join\<close> takes away after the checks.\<close>

definition dotted :: "string \<Rightarrow> bool" where
  "dotted name \<longleftrightarrow> list_ex (\<lambda>s. s = [] \<or> s = ''.'') (butlast (split_on (CHR ''/'') name))"

lemma split_first: "CHR ''/'' \<in> set name \<Longrightarrow>
    split_on (CHR ''/'') name = takeWhile (\<lambda>c. c \<noteq> CHR ''/'') name # split_on (CHR ''/'') (tl (dropWhile (\<lambda>c. c \<noteq> CHR ''/'') name))"
  by (induction name) auto

lemma split_hd_data:
  assumes "split_on (CHR ''/'') rel = ''data'' # ws"
  shows "rel = ''data'' \<or> prefix ''data/'' rel"
  using join_split [of "CHR ''/''" rel] unfolding assms by (cases ws) auto

lemma survivor_outside_data:
  assumes "survives name rel" and "\<not> dotted name"
  shows "placed rel \<noteq> ''data'' \<and> \<not> under ''data'' (placed rel)"
proof -
  obtain w ws where r: "split_on (CHR ''/'') rel = w # ws" by (cases "split_on (CHR ''/'') rel") auto
  have n: "split_on (CHR ''/'') name = takeWhile (\<lambda>c. c \<noteq> CHR ''/'') name # w # ws"
    using split_first [of name] assms(1) r by (simp add: survives_def)
  have w: "w \<noteq> ''data''" using split_hd_data [of rel ws] r assms(1) by (auto simp: survives_def)
  have first: "hd (split_on (CHR ''/'') (placed rel)) \<noteq> ''data'' \<or> placed rel = []"
  proof (cases "ws = []")
    case True
    with join_split [of "CHR ''/''" rel] r have "rel = w" by simp
    then show ?thesis using w r True by (auto simp: placed_def)
  next
    case False
    then have "w \<noteq> []" "w \<noteq> ''.''" using assms(2) n by (auto simp: dotted_def)
    moreover have "placed rel \<noteq> [] \<Longrightarrow> split_on (CHR ''/'') (placed rel) = filter (\<lambda>s. s \<noteq> [] \<and> s \<noteq> ''.'') (w # ws)"
      using placed_segs [of rel] by (simp add: r)
    ultimately show ?thesis using w by (cases "placed rel = []") auto
  qed
  have "hd (split_on (CHR ''/'') p) = ''data'' \<and> p \<noteq> []" if "p = ''data'' \<or> under ''data'' p" for p
  proof -
    from that consider "p = ''data''" | y where "p = ''data/'' @ y" by (auto simp: under_def prefix_def)
    then show ?thesis by cases simp_all
  qed
  with first show ?thesis by blast
qed

lemma overlay_other: "p \<notin> fst ` set new \<Longrightarrow> map_of (overlay new t) p = map_of t p"
  unfolding overlay_def by (induction new arbitrary: t) (auto simp: update_conv')

text \<open>What the helper writes under \<open>data/\<close>: the version marker, the record of its outcome and npm's cache; the new
  code's rebuild and packing write the public list, the histories and the source archive, under a temporary name
  first; staging and backups are kept there.\<close>

definition generated :: "string \<Rightarrow> bool" where
  "generated p \<longleftrightarrow> list_ex (\<lambda>g. prefix g p)
     [''data/dojos.json'', ''data/history.json'', ''data/history-daily.json'', ''data/mise-src.zip'']"

definition helper_writes :: "string \<Rightarrow> bool" where
  "helper_writes p \<longleftrightarrow> p = ''data/version.json'' \<or> under ''data/updates'' p \<or> under ''data/backups'' p \<or>
     under ''data/.npm'' p \<or> generated p"

definition spares_others :: "(tree \<Rightarrow> tree) \<Rightarrow> bool" where
  "spares_others f \<longleftrightarrow> (\<forall>t p. \<not> generated p \<longrightarrow> map_of (f t) p = map_of t p)"

lemma spares_othersD: "spares_others f \<Longrightarrow> \<not> generated p \<Longrightarrow> map_of (f t) p = map_of t p"
  by (simp add: spares_others_def)

lemma note_result_other: "\<not> under ''data/updates'' p \<Longrightarrow> map_of (note_result h v fs t) p = map_of t p"
  by (auto simp: note_result_def update_conv' under_def)

lemma apply_update_other:
  assumes "\<not> helper_writes p" and "p \<notin> fst ` set staging" and "list_all (\<lambda>(p, _). under ''data/.npm'' p) (he_cache h)"
    and "\<And>modules. he_npm h = Inr modules \<Longrightarrow> p \<notin> fst ` set modules"
    and "spares_others (he_rebuild h)" and "spares_others (he_pack h)"
  shows "map_of (snd (apply_update h version staging webRoot)) p = map_of webRoot p"
proof -
  have w: "p \<noteq> ''data/version.json''" "\<not> under ''data/updates'' p" "\<not> generated p"
    using assms(1) by (simp_all add: helper_writes_def)
  have cache: "map_of (overlay (he_cache h) webRoot) p = map_of webRoot p"
    using assms(1,3) by (intro overlay_other) (auto simp: helper_writes_def list_all_iff)
  have run: "map_of (he_pack h (he_rebuild h t)) p = map_of t p" for t
    using assms(5,6) w(3) by (simp add: spares_othersD)
  show ?thesis
  proof (cases "he_npm h")
    case (Inr modules)
    have part: "map_of (overlay (take k (staging @ modules)) t) p = map_of t p" for k t
      using assms(2) assms(4) [OF Inr] by (intro overlay_other) (force dest: in_set_takeD)
    have "map_of (overlay (staging @ modules) t) p = map_of t p" for t
      using part [of "length (staging @ modules)" t] by simp
    then show ?thesis using Inr cache part run w
      by (auto simp: apply_update_def Let_def note_result_other update_conv' split: option.splits)
  qed (simp add: apply_update_def note_result_other w cache)
qed

text \<open>C32: an update leaves the instance's files under \<open>data/\<close> as they were, whatever the archive holds as long as
  none of its names has an empty segment or a single dot in it, and wherever the helper stops. The exceptions are
  the helper's own: the version marker, the record of its outcome, npm's cache, the staging and backup trees, and
  what the rebuild and the packing write, the public list, the two histories and the source archive.\<close>

theorem update_spares_instance_data:
  assumes "applyUpdate inflate copies bytes site = Inr r" and "unzip inflate bytes = Inr files"
    and "list_all (\<lambda>(name, _). \<not> dotted name) files"
    and "case he_npm h of Inr modules \<Rightarrow> list_all (\<lambda>(p, _). under ''server/node_modules'' p) modules | Inl _ \<Rightarrow> True"
    and "list_all (\<lambda>(p, _). under ''data/.npm'' p) (he_cache h)"
    and "spares_others (he_rebuild h)" and "spares_others (he_pack h)"
    and "p = ''data'' \<or> under ''data'' p" and "\<not> helper_writes p"
  shows "map_of (snd (apply_update h version (ur_staging r) site)) p = map_of site p"
proof -
  obtain entries where e: "stripTopLevel files = Inr entries" "stage [] entries = Inr (ur_staging r)"
    using assms(1) by (auto simp: applyUpdate_def assms(2) Let_def split: sum.splits if_splits)
  have staged: "p \<notin> fst ` set (ur_staging r)"
  proof
    assume "p \<in> fst ` set (ur_staging r)"
    then obtain rel d where rd: "(rel, d) \<in> set entries" "p = placed rel" using stage_keys [OF e(2)] by auto
    obtain name where "(name, d) \<in> set files" "survives name rel" using stripped [OF e(1) rd(1)] by blast
    with survivor_outside_data [of name rel] assms(3,8) rd(2) show False by (auto simp: list_all_iff)
  qed
  have modules: "p \<notin> fst ` set modules" if "he_npm h = Inr modules" for modules
  proof
    assume "p \<in> fst ` set modules"
    then have "under ''server/node_modules'' p" using assms(4) that by (auto simp: list_all_iff)
    with assms(8) show False by (auto simp: under_def prefix_def)
  qed
  show ?thesis by (rule apply_update_other [OF assms(9) staged assms(5) modules assms(6,7)])
qed

definition ex_moment :: moment where
  "ex_moment = \<lparr>mo_year = 2025, mo_month = 0, mo_day = 1, mo_hours = 12, mo_minutes = 0, mo_seconds = 0\<rparr>"

definition ex_site :: tree where
  "ex_site = [(''assets/js/app.js'', []), (''server/index.mjs'', []), (''data/seed.json'', ''{}'')]"

definition ex_inflate :: inflate where
  "ex_inflate n c = (if length c \<le> n then Inflated c else PastLimit)"

definition ex_zip :: string where
  "ex_zip = packSource (\<lambda>d. d) (\<lambda>p. (ex_moment, 0x1a4)) ex_site"

lemma ex_packed: "packed_entries (\<lambda>p. (ex_moment, 0x1a4)) ex_site =
    [\<lparr>zf_name = ''mise/assets/js/app.js'', zf_data = [], zf_mtime = ex_moment, zf_mode = 0x1a4\<rparr>,
     \<lparr>zf_name = ''mise/server/index.mjs'', zf_data = [], zf_mtime = ex_moment, zf_mode = 0x1a4\<rparr>]"
  by code_simp

lemma ex_unzip: "unzip ex_inflate ex_zip = Inr [(''mise/assets/js/app.js'', []), (''mise/server/index.mjs'', [])]"
  unfolding ex_zip_def packSource_def ex_packed
  by (subst unzip_built) (simp_all add: restores_def ex_inflate_def fits_def MAX_ENTRIES_def MAX_INFLATED_BYTES_def
      buildZip_def zip_body_def zip_end_def Let_def)

lemma ex_update: "case applyUpdate ex_inflate (\<lambda>r. True) ex_zip ex_site of Inr r \<Rightarrow> ur_entries r = 2 | Inl e \<Rightarrow> False"
  unfolding applyUpdate_def ex_unzip sum.case by code_simp


definition ex_helper :: helper_env where
  "ex_helper = \<lparr>he_cache = [(''data/.npm/_logs'', [])], he_npm = Inr [(''server/node_modules/ws/index.js'', [])], he_copy = None,
     he_marker = None, he_rebuild = AList.update ''data/dojos.json'' ''[]'', he_pack = AList.update ''data/mise-src.zip'' ''PK'',
     he_restart = None, he_notes = True, he_at = ''now''\<rparr>"

lemma ex_helper_spares: "spares_others (he_rebuild ex_helper)" "spares_others (he_pack ex_helper)"
  by (auto simp: spares_others_def ex_helper_def update_conv' generated_def)

theorem update_spares_instance_data_witness:
  "\<exists>r. applyUpdate ex_inflate (\<lambda>r. True) ex_zip ex_site = Inr r \<and>
     map_of (snd (apply_update ex_helper ''abc'' (ur_staging r) ex_site)) ''data/seed.json'' = Some ''{}''"
proof -
  obtain r where r: "applyUpdate ex_inflate (\<lambda>r. True) ex_zip ex_site = Inr r" using ex_update by (auto split: sum.splits)
  have d: "list_all (\<lambda>(name, _). \<not> dotted name) [(''mise/assets/js/app.js'', []), (''mise/server/index.mjs'', [])]" by code_simp
  have n: "case he_npm ex_helper of Inr modules \<Rightarrow> list_all (\<lambda>(p, _). under ''server/node_modules'' p) modules | Inl _ \<Rightarrow> True"
    "list_all (\<lambda>(p, _). under ''data/.npm'' p) (he_cache ex_helper)" by (simp_all add: ex_helper_def under_def)
  have "map_of (snd (apply_update ex_helper ''abc'' (ur_staging r) ex_site)) ''data/seed.json'' = map_of ex_site ''data/seed.json''"
    by (rule update_spares_instance_data [OF r ex_unzip d n ex_helper_spares])
      (simp_all add: under_def helper_writes_def generated_def)
  then show ?thesis using r by (simp add: ex_site_def)
qed

theorem unzip_reads_buildZip_witness:
  "unzip ex_inflate (buildZip (\<lambda>d. d) [\<lparr>zf_name = ''a'', zf_data = ''b'', zf_mtime = ex_moment, zf_mode = 0\<rparr>]) = Inr [(''a'', ''b'')]"
  by (subst unzip_reads_buildZip) (simp_all add: restores_def ex_inflate_def fits_def MAX_ENTRIES_def MAX_INFLATED_BYTES_def
      buildZip_def zip_body_def zip_end_def Let_def)

theorem unzip_within_budgets_witness:
  "length [(''mise/assets/js/app.js'', []), (''mise/server/index.mjs'', [])] \<le> MAX_ENTRIES"
proof -
  have "\<forall>n c d. ex_inflate n c = Inflated d \<longrightarrow> length d \<le> n" by (simp add: ex_inflate_def)
  from unzip_within_budgets [OF this ex_unzip] show ?thesis by simp
qed

text \<open>A dot segment passes the checks and is gone afterwards: the file lands under \<open>data/\<close>.\<close>

theorem dotted_name_reaches_data:
  "stripTopLevel [(''m/./data/seed.json'', x)] = Inr [(''./data/seed.json'', x)] \<and> placed ''./data/seed.json'' = ''data/seed.json''"
  by (simp add: has_text_def starts_with_def ends_with_def placed_def suffix_to_prefix)

text \<open>Only \<open>data/\<close> is left out: a file under \<open>server/data/\<close>, where the store is, is staged and overlaid.\<close>

lemma store_data_is_staged:
  "stripTopLevel [(''m/server/data/store.json'', x)] = Inr [(''server/data/store.json'', x)] \<and>
   placed ''server/data/store.json'' = ''server/data/store.json''"
  by (simp add: has_text_def starts_with_def ends_with_def placed_def suffix_to_prefix)

section \<open>From one instance to another\<close>

definition site_ok :: "tree \<Rightarrow> bool" where
  "site_ok site \<longleftrightarrow> list_all (\<lambda>(p, _). plain_path p \<and> \<not> has_text ''..'' p) site \<and>
     (\<forall>p \<in> fst ` set site. \<forall>q \<in> fst ` set site. \<not> under p q)"

lemma plain_ends: "plain_path p \<Longrightarrow> p \<noteq> [] \<and> \<not> prefix ''/'' p \<and> \<not> suffix ''/'' p"
proof -
  assume p: "plain_path p"
  have "\<exists>w ws. split_on (CHR ''/'') (q @ ''/'') = w # ws @ [[]]" for q
  proof (induction q)
    case (Cons c q)
    then obtain w ws where w: "split_on (CHR ''/'') (q @ ''/'') = w # ws @ [[]]" by blast
    show ?case
    proof (cases "c = CHR ''/''")
      case True
      with w show ?thesis by (intro exI [of _ "[]"] exI [of _ "w # ws"]) simp
    next
      case False
      with w show ?thesis by (intro exI [of _ "c # w"] exI [of _ ws]) simp
    qed
  qed (intro exI [of _ "[]"], simp)
  then have "[] \<in> set (split_on (CHR ''/'') (q @ ''/''))" for q by (metis in_set_conv_decomp list.set_intros(2))
  with p show ?thesis by (auto simp: plain_path_def plain_seg_def list_all_iff prefix_def suffix_def)
qed

lemma strip_packed:
  "list_all (\<lambda>p. plain_path p \<and> \<not> has_text ''..'' p) rels \<Longrightarrow>
     stripTopLevel (map (\<lambda>p. (''mise/'' @ p, c p)) rels) =
       Inr (map (\<lambda>p. (p, c p)) (filter (\<lambda>p. p \<noteq> ''data'' \<and> \<not> under ''data'' p) rels))"
proof (induction rels)
  case (Cons p rels)
  then have "plain_path p" "\<not> has_text ''..'' p" by simp_all
  with Cons plain_ends [of p] show ?case by (simp add: Let_def starts_with_def ends_with_def under_def)
qed simp

lemma stage_plain:
  "list_all plain_path rels \<Longrightarrow> (\<forall>p \<in> set rels \<union> fst ` set t. \<forall>q \<in> set rels \<union> fst ` set t. \<not> under p q) \<Longrightarrow>
     \<exists>t'. stage t (map (\<lambda>p. (p, c p)) rels) = Inr t' \<and> (\<forall>p. map_of t' p = (if p \<in> set rels then Some (c p) else map_of t p))"
proof (induction rels arbitrary: t)
  case (Cons p rels)
  have pl: "placed p = p" "p \<noteq> []" using Cons.prems(1) placed_plain plain_ends by auto
  have keys: "fst ` set (AList.update p (c p) t) = insert p (fst ` set t)" by (simp add: dom_update [unfolded dom_map_of_conv_image_fst])
  have "\<exists>t'. stage (AList.update p (c p) t) (map (\<lambda>p. (p, c p)) rels) = Inr t' \<and>
      (\<forall>q. map_of t' q = (if q \<in> set rels then Some (c q) else map_of (AList.update p (c p) t) q))"
    by (rule Cons.IH) (use Cons.prems in \<open>auto simp: keys\<close>)
  moreover have "\<not> list_ex (\<lambda>q. under p q \<or> under q p) (map fst t)" using Cons.prems(2) by (auto simp: list_ex_iff)
  ultimately show ?case by (auto simp: pl update_conv')
qed simp

lemma collected_in: "p \<in> set (collected site) \<Longrightarrow> p \<in> fst ` set site"
  by (auto simp: collected_def)

lemma collected_data: "p \<in> set (collected site) \<Longrightarrow> p \<noteq> ''data'' \<and> (under ''data'' p \<longrightarrow> p = ''data/version.json'')"
proof -
  assume "p \<in> set (collected site)"
  then have "p \<in> set INCLUDE_FILES \<or> (\<exists>d \<in> set INCLUDE_DIRS. under d p)" by (auto simp: collected_def walked_def)
  then show ?thesis by (auto simp: INCLUDE_FILES_def INCLUDE_DIRS_def under_def prefix_def)
qed

text \<open>C33: what an instance packs its peer stages, the version marker excepted: the archive of a site, fetched and
  unpacked by another instance, stages exactly the collected files but \<open>data/version.json\<close>, with their contents, and
  nothing else, when no file name of the site has two dots in a row (\<open>site_ok\<close>; such an archive is refused), the archive
  keeps the budgets and the peer can make its backup.\<close>

theorem peer_stages_the_packed_code:
  assumes "site_ok site" and "\<forall>(p, d) \<in> set site. restores deflate inflate d"
    and "list_all (fits deflate) (packed_entries stat site)" and "length (collected site) \<le> MAX_ENTRIES"
    and "sum_list (map (\<lambda>e. length (zf_data e)) (packed_entries stat site)) \<le> MAX_INFLATED_BYTES"
    and "length (packSource deflate stat site) < 4294967296"
    and "''server/index.mjs'' \<in> set (collected site)" and "''assets/js/app.js'' \<in> set (collected site)"
    and "2 \<le> length (backed_up_roots copies peer)"
  shows "\<exists>r. applyUpdate inflate copies (packSource deflate stat site) peer = Inr r \<and>
    (\<forall>p. map_of (ur_staging r) p = (if p \<in> set (collected site) \<and> p \<noteq> ''data/version.json'' then map_of site p else None))"
proof -
  define c where "c = (\<lambda>p. case map_of site p of Some d \<Rightarrow> d | None \<Rightarrow> [])"
  define kept where "kept = filter (\<lambda>p. p \<noteq> ''data'' \<and> \<not> under ''data'' p) (collected site)"
  have kept: "p \<in> set kept \<longleftrightarrow> p \<in> set (collected site) \<and> p \<noteq> ''data/version.json''" for p
    using collected_data [of p site] by (auto simp: kept_def under_def)
  have held: "map_of site p = Some (c p)" if "p \<in> set (collected site)" for p
    using collected_in [OF that] by (auto simp: c_def weak_map_of_SomeI split: option.splits dest: map_of_SomeD simp: map_of_eq_None_iff)
  have names: "map (\<lambda>e. (zf_name e, zf_data e)) (packed_entries stat site) = map (\<lambda>p. (''mise/'' @ p, c p)) (collected site)"
    by (simp add: packed_entries_def c_def)
  have "\<forall>e \<in> set (packed_entries stat site). restores deflate inflate (zf_data e)"
  proof
    fix e assume "e \<in> set (packed_entries stat site)"
    then obtain p where p: "p \<in> set (collected site)" "zf_data e = c p" by (auto simp: packed_entries_def c_def)
    with held [OF p(1)] assms(2) show "restores deflate inflate (zf_data e)" by (auto dest: map_of_SomeD)
  qed
  from unzip_built [OF this assms(3) _ assms(5)] assms(4,6)
  have u: "unzip inflate (packSource deflate stat site) = Inr (map (\<lambda>p. (''mise/'' @ p, c p)) (collected site))"
    by (simp add: packSource_def names) (simp add: packed_entries_def)
  have plain: "plain_path p \<and> \<not> has_text ''..'' p" if "p \<in> set (collected site)" for p
    using collected_in [OF that] assms(1) by (auto simp: site_ok_def list_all_iff)
  have st: "stripTopLevel (map (\<lambda>p. (''mise/'' @ p, c p)) (collected site)) = Inr (map (\<lambda>p. (p, c p)) kept)"
    unfolding kept_def by (rule strip_packed) (simp add: list_all_iff plain)
  have "\<exists>t. stage [] (map (\<lambda>p. (p, c p)) kept) = Inr t \<and> (\<forall>p. map_of t p = (if p \<in> set kept then Some (c p) else map_of [] p))"
  proof (rule stage_plain)
    have "\<not> under p q" if "p \<in> set (collected site)" "q \<in> set (collected site)" for p q
      using assms(1) that [THEN collected_in] by (auto simp: site_ok_def)
    then show "\<forall>p \<in> set kept \<union> fst ` set []. \<forall>q \<in> set kept \<union> fst ` set []. \<not> under p q" by (simp add: kept)
  qed (simp add: kept list_all_iff plain)
  then obtain t where t: "stage [] (map (\<lambda>p. (p, c p)) kept) = Inr t" "\<forall>p. map_of t p = (if p \<in> set kept then Some (c p) else None)"
    by auto
  have "''server/index.mjs'' \<in> set kept" "''assets/js/app.js'' \<in> set kept" using assms(7,8) by (simp_all add: kept)
  then have src: "''server/index.mjs'' \<in> fst ` set (map (\<lambda>p. (p, c p)) kept)" "''assets/js/app.js'' \<in> fst ` set (map (\<lambda>p. (p, c p)) kept)"
    by force+
  then have found: "\<not> (''server/index.mjs'' \<notin> fst ` set (map (\<lambda>p. (p, c p)) kept) \<or> ''assets/js/app.js'' \<notin> fst ` set (map (\<lambda>p. (p, c p)) kept))"
    by blast
  have "\<not> length (backed_up_roots copies peer) < 2" using assms(9) by simp
  then have "applyUpdate inflate copies (packSource deflate stat site) peer =
      Inr \<lparr>ur_staging = t, ur_backup = backup copies peer, ur_entries = length (map (\<lambda>p. (p, c p)) kept)\<rparr>"
    unfolding applyUpdate_def u sum.case st if_not_P [OF found] t(1) Let_def by simp
  with t(2) held kept show ?thesis by simp
qed

theorem peer_stages_the_packed_code_witness:
  "\<exists>r. applyUpdate ex_inflate (\<lambda>r. True) (packSource (\<lambda>d. d) (\<lambda>p. (ex_moment, 0x1a4)) ex_site) ex_site = Inr r \<and>
     map_of (ur_staging r) ''server/index.mjs'' = Some [] \<and> map_of (ur_staging r) ''data/seed.json'' = None"
proof -
  have c: "collected ex_site = [''assets/js/app.js'', ''server/index.mjs'']" by code_simp
  have a: "site_ok ex_site" unfolding site_ok_def by code_simp
  have b: "2 \<le> length (backed_up_roots (\<lambda>r. True) ex_site)" by code_simp
  have "\<exists>r. applyUpdate ex_inflate (\<lambda>r. True) (packSource (\<lambda>d. d) (\<lambda>p. (ex_moment, 0x1a4)) ex_site) ex_site = Inr r \<and>
    (\<forall>p. map_of (ur_staging r) p = (if p \<in> set (collected ex_site) \<and> p \<noteq> ''data/version.json'' then map_of ex_site p else None))"
    by (rule peer_stages_the_packed_code [OF a _ _ _ _ _ _ _ b])
      (simp_all add: c ex_packed packSource_def restores_def ex_inflate_def fits_def MAX_ENTRIES_def MAX_INFLATED_BYTES_def
        buildZip_def zip_body_def zip_end_def Let_def)
  moreover have "map_of ex_site ''server/index.mjs'' = Some []" by (simp add: ex_site_def)
  ultimately show ?thesis by (auto simp: c)
qed

end
