(* ===== verification/Import.thy ===== *)
theory Import
  imports Publish Crypto
begin

text \<open>
  \<open>scripts/bootstrap-import.mjs\<close>: the listings, the domain claims and the histories of another instance, taken over
  when its operator binding verifies. What the fetches bring is an argument; a document that arrives has the shape its
  writer gives it. The log is left out.
\<close>

section \<open>What is known here\<close>

record import_env =
  im_derive :: "string \<Rightarrow> string \<Rightarrow> string option"
  im_checks :: "string \<Rightarrow> string \<Rightarrow> string \<Rightarrow> string \<Rightarrow> string + bool"
  im_operator :: "val option"
  im_dojos :: "public_doc option"
  im_hist :: "check history_doc option"
  im_daily :: "day history_doc option"
  im_codes :: "string \<Rightarrow> string list"
  im_rank :: "stamp \<Rightarrow> nat"
  im_day_rank :: "string \<Rightarrow> nat"
  im_now :: stamp
  im_put :: "string \<Rightarrow> io"
  im_domain :: "string \<Rightarrow> io"
  im_file :: "string \<Rightarrow> io"

definition pairingKey :: "val \<Rightarrow> string option" where
  "pairingKey payload =
     (case fld (fld payload ''pairing'') ''url'' of
        Str u \<Rightarrow> if u = [] then None else Some (strip_end (CHR ''/'') (to_lower (trim u)))
      | _ \<Rightarrow> None)"

definition key_of :: "string option \<Rightarrow> string option" where
  "key_of k = text_or_none k"

text \<open>The store first, then what only the seed lists.\<close>

definition listed_urls :: "shape \<Rightarrow> seed_entry option list doc_file \<Rightarrow> (string \<times> string) list" where
  "listed_urls s seed =
     (let stored = fold (\<lambda>r m. case key_of (pairingKey (sb_payload r)) of Some k \<Rightarrow> AList.update k (sb_id r) m | None \<Rightarrow> m)
            (ovalues (submissions s)) []
      in case seed of
           Holds ns \<Rightarrow> fold (\<lambda>x m. case x of
               None \<Rightarrow> m
             | Some n \<Rightarrow> (case key_of (pairingKey (sb_payload (se_rec n))) of
                 None \<Rightarrow> m
               | Some k \<Rightarrow> if map_of m k = None then AList.update k (sb_id (se_rec n)) m else m)) ns stored
         | _ \<Rightarrow> stored)"

section \<open>The plan\<close>

datatype import_refusal = NoBlockHere | NotVerified refusal | NoCodeHere

datatype action = Skip | Merge string | Refuse import_refusal | Admit "val list"

definition imported_record :: "import_env \<Rightarrow> string \<Rightarrow> string \<Rightarrow> public_node \<Rightarrow> val list \<Rightarrow> submission" where
  "imported_record env onionHost status n codes =
     \<lparr>sb_id = pn_id n, sb_network = pn_network n, sb_name = (if pn_name n = [] then pn_id n else pn_name n), sb_status = status,
      sb_codes = Some codes, sb_code = None, sb_paynym = text_or_none (pn_paynym n), sb_jurisdiction = text_or_none (pn_jurisdiction n),
      sb_country = text_or_none (pn_country n), sb_hardware = text_or_none (pn_hardware n), sb_payload = pn_payload n,
      sb_signed = text_or_none (pn_signed n), sb_last_probe = Undef, sb_created_at = Some (im_now env),
      sb_updated_at = Some (im_now env), sb_source = Some (''bootstrap-import:'' @ onionHost)\<rparr>"

definition node_codes :: "import_env \<Rightarrow> public_node \<Rightarrow> val list" where
  "node_codes env n =
     (let own = (if truthy (pn_paymentCode n) then [pn_paymentCode n] else []);
          variants = (case text_or_none (pn_paynym n) of Some nym \<Rightarrow> map Str (im_codes env nym) | None \<Rightarrow> [])
      in if variants = [] then own else dedup (variants @ own))"

definition node_verdict :: "import_env \<Rightarrow> public_node \<Rightarrow> verdict" where
  "node_verdict env n =
     verifySignedPayload (im_derive env) (im_checks env) (case pn_signed n of Some t \<Rightarrow> Str t | None \<Rightarrow> Null)
       (Some (canonicalPairing (pn_payload n))) None (if pn_network n = ''testnet'' then ''testnet'' else ''bitcoin'')"

definition plan_node :: "import_env \<Rightarrow> string list \<Rightarrow> (string \<times> string) list \<Rightarrow> public_node \<Rightarrow> action" where
  "plan_node env existing urls n =
     (if pn_id n \<in> set existing then Skip
      else (case text_or_none (Option.bind (pairingKey (pn_payload n)) (map_of urls)) of
          Some dupOf \<Rightarrow> Merge dupOf
        | None \<Rightarrow>
            if \<not> hasSignedBlock (imported_record env [] [] n []) then Refuse NoBlockHere
            else (case node_verdict env n of
                Refused e \<Rightarrow> Refuse (NotVerified e)
              | Accepted _ _ \<Rightarrow> if node_codes env n = [] then Refuse NoCodeHere else Admit (node_codes env n))))"

definition import_nodes :: "public_doc \<Rightarrow> public_node list" where
  "import_nodes d = filter (\<lambda>n. truthy (fld (fld (pn_payload n) ''pairing'') ''url'')) (pd_nodes d)"

definition import_plan :: "import_env \<Rightarrow> shape \<Rightarrow> seed_entry option list doc_file \<Rightarrow> public_doc \<Rightarrow> (public_node \<times> action) list" where
  "import_plan env s seed d =
     map (\<lambda>n. (n, plan_node env (map sb_id (ovalues (submissions s))) (listed_urls s seed) n)) (import_nodes d)"

definition admitted :: "(public_node \<times> action) list \<Rightarrow> (public_node \<times> val list) list" where
  "admitted plan = concat (map (\<lambda>(n, a). case a of Admit codes \<Rightarrow> [(n, codes)] | _ \<Rightarrow> []) plan)"

definition merges :: "(public_node \<times> action) list \<Rightarrow> (string \<times> string) list" where
  "merges plan = concat (map (\<lambda>(n, a). case a of Merge dupOf \<Rightarrow> [(pn_id n, dupOf)] | _ \<Rightarrow> []) plan)"

section \<open>Writing it\<close>

datatype import_error =
    NotFetched string | OperatorRefused refusal | OtherOperator | StoreThrew store_failure | FileWriteThrew string

fun put_all :: "import_env \<Rightarrow> string \<Rightarrow> string \<Rightarrow> (public_node \<times> val list) list \<Rightarrow> db \<Rightarrow> (import_error + unit) \<times> db" where
  "put_all env onionHost status [] d = (Inr (), d)"
| "put_all env onionHost status ((n, codes) # ps) d =
     (case in_store (im_put env (pn_id n)) (putSubmission (imported_record env onionHost status n codes)) d of
        (Inl e, d') \<Rightarrow> (Inl (StoreThrew e), d')
      | (Inr _, d') \<Rightarrow> put_all env onionHost status ps d')"

text \<open>The claims behind the badges: the first for each payment code.\<close>

definition portable_claims :: "public_doc \<Rightarrow> domain_proof list" where
  "portable_claims d =
     fold (\<lambda>n cs. case pn_operator_proof n of
         None \<Rightarrow> cs
       | Some pf \<Rightarrow>
           if dp_domain pf = [] \<or> dp_paymentCode pf = [] \<or> dp_signed pf = [] then cs
           else if dp_paymentCode pf \<in> dp_paymentCode ` set cs then cs
           else cs @ [pf]) (pd_nodes d) []"

definition unverified_claim :: "import_env \<Rightarrow> string \<Rightarrow> domain_proof \<Rightarrow> domain_claim" where
  "unverified_claim env onionHost pf =
     \<lparr>dc_paymentCode = dp_paymentCode pf, dc_domain = dp_domain pf, dc_signed = dp_signed pf, dc_verified = False,
      dc_verified_at = None, dc_last_check = None,
      dc_last_result = Some (''imported from '' @ onionHost @ ''; awaiting our own DNS check''), dc_fail_since = None,
      dc_created_at = Some (im_now env), dc_revoked = False, dc_also_claimed_by = None\<rparr>"


text \<open>A claim that is here already stays; one that does not verify is left out. The numbers are those taken and refused.\<close>

fun put_claims :: "import_env \<Rightarrow> string \<Rightarrow> domain_proof list \<Rightarrow> db \<Rightarrow> (import_error + nat \<times> nat) \<times> db" where
  "put_claims env onionHost [] d = (Inr (0, 0), d)"
| "put_claims env onionHost (pf # pfs) d =
     (case in_store Completed (getDomain (dp_paymentCode pf)) d of
        (Inl e, d') \<Rightarrow> (Inl (StoreThrew e), d')
      | (Inr found, d') \<Rightarrow>
          if found \<noteq> Missing then put_claims env onionHost pfs d'
          else if \<not> ok (verifySignedUrlClaim (im_derive env) (im_checks env) (dp_signed pf) (''https://'' @ dp_domain pf) (dp_paymentCode pf))
          then (case put_claims env onionHost pfs d' of
              (Inl e, d2) \<Rightarrow> (Inl e, d2)
            | (Inr (taken, refused), d2) \<Rightarrow> (Inr (taken, Suc refused), d2))
          else (case in_store (im_domain env (dp_paymentCode pf)) (putDomain (unverified_claim env onionHost pf)) d' of
              (Inl e, d2) \<Rightarrow> (Inl (StoreThrew e), d2)
            | (Inr _, d2) \<Rightarrow> (case put_claims env onionHost pfs d2 of
                (Inl e, d3) \<Rightarrow> (Inl e, d3)
              | (Inr (taken, refused), d3) \<Rightarrow> (Inr (Suc taken, refused), d3))))"

section \<open>Histories\<close>

text \<open>Two series of one machine: one row for each stamp, ours over theirs, in the order of the stamps.\<close>

definition combined :: "('a \<Rightarrow> 'k) \<Rightarrow> ('k \<Rightarrow> bool) \<Rightarrow> ('k \<Rightarrow> nat) \<Rightarrow> nat \<Rightarrow> 'a list \<Rightarrow> 'a list \<Rightarrow> 'a list" where
  "combined stamp stamped rank cap theirs mine =
     last_n cap (sort_key (rank \<circ> stamp) (map snd (map_from (map (\<lambda>x. (stamp x, x)) (filter (stamped \<circ> stamp) (theirs @ mine))))))"

text \<open>One remote entry.\<close>

definition carry_entry ::
  "('a list \<Rightarrow> 'a list \<Rightarrow> 'a list) \<Rightarrow> string list \<Rightarrow> (string \<times> string) list \<Rightarrow> string \<times> 'a tracked \<Rightarrow>
     'a tracked obj \<times> nat \<Rightarrow> 'a tracked obj \<times> nat" where
  "carry_entry combine admitted_ids merge_ids e acc =
     (case (e, acc) of ((i, entry), (local, added)) \<Rightarrow>
        if oread local i = Missing \<and> i \<in> set admitted_ids then (owrite i entry local, Suc added)
        else (case map_of merge_ids i of
            None \<Rightarrow> (local, added)
          | Some dupOf \<Rightarrow>
              if tr_series entry = [] then (local, added)
              else (owrite dupOf \<lparr>tr_series = combine (tr_series entry)
                      (case map_of local dupOf of Some mine \<Rightarrow> tr_series mine | None \<Rightarrow> []), tr_retired = None\<rparr> local, Suc added)))"

text \<open>One file. An absent or unreadable one counts as empty.\<close>

definition carry_file ::
  "(nat \<Rightarrow> nat \<Rightarrow> 'a list \<Rightarrow> 'a list \<Rightarrow> 'a list) \<Rightarrow> string \<Rightarrow> io \<Rightarrow> string list \<Rightarrow> (string \<times> string) list \<Rightarrow> 'a history_doc option \<Rightarrow>
     'a history_doc doc_file \<Rightarrow> (import_error + unit) \<times> 'a history_doc doc_file" where
  "carry_file combine name w admitted_ids merge_ids remote f =
     (let none = \<lparr>hd_generated_at = None, hd_limit = 0, hd_nodes = []\<rparr>;
          r = (case remote of Some r \<Rightarrow> r | None \<Rightarrow> none);
          l = (case f of Holds l \<Rightarrow> l | _ \<Rightarrow> none);
          (nodes, added) = fold (carry_entry (combine (hd_limit r) (hd_limit l)) admitted_ids merge_ids) (hd_nodes r) (hd_nodes l, 0)
      in if added = 0 then (Inr (), f)
         else (case w of
             Failed \<Rightarrow> (Inl (FileWriteThrew name), f)
           | Completed \<Rightarrow> (Inr (), Holds (l\<lparr>hd_limit := (if hd_limit l = 0 then hd_limit r else hd_limit l), hd_nodes := nodes\<rparr>))))"

definition stamp_present :: "stamp \<Rightarrow> bool" where
  "stamp_present t \<longleftrightarrow> t \<noteq> Unreadable []"

definition combine_checks :: "import_env \<Rightarrow> nat \<Rightarrow> nat \<Rightarrow> check list \<Rightarrow> check list \<Rightarrow> check list" where
  "combine_checks env remote_limit local_limit =
     combined ck_t stamp_present (im_rank env)
       (if remote_limit \<noteq> 0 then remote_limit else if local_limit \<noteq> 0 then local_limit else 144)"

definition combine_days :: "import_env \<Rightarrow> nat \<Rightarrow> nat \<Rightarrow> day list \<Rightarrow> day list \<Rightarrow> day list" where
  "combine_days env _ _ = combined dy_d (\<lambda>d. d \<noteq> []) (im_day_rank env) 90"

section \<open>The import\<close>

record import_summary =
  is_imported :: nat
  is_planned :: nat
  is_merged :: nat
  is_refused :: nat
  is_domains :: nat
  is_domains_refused :: nat

definition refused_nodes :: "(public_node \<times> action) list \<Rightarrow> public_node list" where
  "refused_nodes plan = map fst (filter (\<lambda>(n, a). case a of Refuse _ \<Rightarrow> True | _ \<Rightarrow> False) plan)"

definition trusted_operator :: "import_env \<Rightarrow> string \<Rightarrow> string \<Rightarrow> import_error option" where
  "trusted_operator env onionHost trustedCode =
     (case im_operator env of
        None \<Rightarrow> Some (NotFetched ''/data/operator.json'')
      | Some doc \<Rightarrow>
          (case verifyOperatorDoc (im_derive env) (im_checks env) doc (Some (''http://'' @ onionHost)) of
             Refused e \<Rightarrow> Some (OperatorRefused e)
           | Accepted _ _ \<Rightarrow> if fld doc ''paymentCode'' \<noteq> Str trustedCode then Some OtherOperator else None))"

definition run_plan ::
  "import_env \<Rightarrow> string \<Rightarrow> string \<Rightarrow> public_doc \<Rightarrow> (public_node \<times> action) list \<Rightarrow> db \<Rightarrow> public_files \<Rightarrow>
     (import_error + import_summary) \<times> db \<times> public_files" where
  "run_plan env onionHost status dojos plan d fs =
     (let new = admitted plan; ids = map (\<lambda>(n, _). pn_id n) new; dups = merges plan
      in case put_all env onionHost status new d of
           (Inl e, d1) \<Rightarrow> (Inl e, d1, fs)
         | (Inr _, d1) \<Rightarrow>
             (case put_claims env onionHost (portable_claims dojos) d1 of
                (Inl e, d2) \<Rightarrow> (Inl e, d2, fs)
              | (Inr (taken, refused), d2) \<Rightarrow>
                  (case carry_file (combine_checks env) ''history.json'' (im_file env ''history.json'') ids dups (im_hist env) (pf_hist fs) of
                     (Inl e, h) \<Rightarrow> (Inl e, d2, fs\<lparr>pf_hist := h\<rparr>)
                   | (Inr _, h) \<Rightarrow>
                       (case carry_file (combine_days env) ''history-daily.json'' (im_file env ''history-daily.json'') ids dups
                               (im_daily env) (pf_daily fs) of
                          (Inl e, dl) \<Rightarrow> (Inl e, d2, fs\<lparr>pf_hist := h, pf_daily := dl\<rparr>)
                        | (Inr _, dl) \<Rightarrow>
                            (Inr \<lparr>is_imported = length new, is_planned = length new, is_merged = length dups,
                               is_refused = length (refused_nodes plan), is_domains = taken, is_domains_refused = refused\<rparr>,
                             d2, fs\<lparr>pf_hist := h, pf_daily := dl\<rparr>)))))"

definition bootstrapImport ::
  "import_env \<Rightarrow> string \<Rightarrow> string \<Rightarrow> bool \<Rightarrow> string \<Rightarrow> db \<Rightarrow> public_files \<Rightarrow> (import_error + import_summary) \<times> db \<times> public_files" where
  "bootstrapImport env onionHost trustedCode dryRun status d fs =
     (case trusted_operator env onionHost trustedCode of
        Some e \<Rightarrow> (Inl e, d, fs)
      | None \<Rightarrow>
          (case im_dojos env of
             None \<Rightarrow> (Inl (NotFetched ''/data/dojos.json''), d, fs)
           | Some dojos \<Rightarrow>
               (case load_store d of
                  (Inl e, d1) \<Rightarrow> (Inl (StoreThrew e), d1, fs)
                | (Inr s, d1) \<Rightarrow>
                    (let plan = import_plan env s (pf_seed fs) dojos in
                     if dryRun
                     then (Inr \<lparr>is_imported = 0, is_planned = length (admitted plan), is_merged = length (merges plan),
                             is_refused = length (refused_nodes plan), is_domains = 0, is_domains_refused = 0\<rparr>, d1, fs)
                     else run_plan env onionHost status dojos plan d1 fs))))"

end
