(* ===== verification/ImportProps.thy ===== *)
theory ImportProps
  imports Import
begin

text \<open>
  What an import can bring into the store: nothing without the operator's own consent (the trust gate), and then only
  listings and claims whose signatures verify here.
\<close>

section \<open>A map that only grows\<close>

definition grown_by :: "('k \<Rightarrow> 'v \<Rightarrow> bool) \<Rightarrow> ('k \<rightharpoonup> 'v) \<Rightarrow> ('k \<rightharpoonup> 'v) \<Rightarrow> bool" where
  "grown_by P old new \<longleftrightarrow> old \<subseteq>\<^sub>m new \<and> (\<forall>k v. new k = Some v \<longrightarrow> old k = Some v \<or> P k v)"

lemma grown_by_refl [simp]: "grown_by P m m"
  by (simp add: grown_by_def)

lemma grown_by_owrite:
  assumes "grown_by P m0 (map_of m)" "m0 k = None" "P k v"
  shows "grown_by P m0 (map_of (owrite k v m))"
  using assms by (auto simp: grown_by_def map_of_owrite map_le_def split: if_splits)

lemma grown_by_old: "grown_by P m0 m \<Longrightarrow> m k = None \<Longrightarrow> m0 k = None"
  by (cases "m0 k") (auto simp: grown_by_def map_le_def dom_def)

section \<open>A step on the store\<close>

lemma in_store_loaded:
  assumes "fst (load_store d) = Inr s" "f s = (r0, s', writes)" "in_store w f d = (r, d')"
  shows "fst (load_store d') = Inr s'" "r = Inr x \<Longrightarrow> r0 = Inr x"
proof -
  obtain d1 where l: "load_store d = (Inr s, d1)" using assms(1) by (cases "load_store d") auto
  then have "db_cache d' = Some s'" and "r = Inr x \<Longrightarrow> r0 = Inr x"
    using assms(2,3) by (auto simp: in_store_def Let_def split: if_splits io.splits)
  then show "fst (load_store d') = Inr s'" "r = Inr x \<Longrightarrow> r0 = Inr x" by (simp_all add: load_store_def)
qed

lemma putSubmission_grows:
  assumes "putSubmission rec s = (r, s', w)" "grown_by P m0 (map_of (submissions s))" "m0 (sb_id rec) = None"
    "P (sb_id rec) (normaliseSubmission rec)"
  shows "grown_by P m0 (map_of (submissions s'))" "s'\<lparr>submissions := submissions s\<rparr> = s"
  using assms by (auto simp: putSubmission_def Let_def grown_by_owrite split: if_splits)

section \<open>The listings\<close>

definition vouched_listing :: "import_env \<Rightarrow> string \<Rightarrow> public_doc \<Rightarrow> string \<Rightarrow> submission \<Rightarrow> bool" where
  "vouched_listing env status dojos k r \<longleftrightarrow>
     list_ex (\<lambda>n. pn_id n = k \<and> ok (node_verdict env n) \<and> sb_payload r = pn_payload n \<and>
       sb_signed r = text_or_none (pn_signed n) \<and> sb_status r = status) (pd_nodes dojos)"

definition vouched_claim :: "import_env \<Rightarrow> public_doc \<Rightarrow> string \<Rightarrow> domain_claim \<Rightarrow> bool" where
  "vouched_claim env dojos k c \<longleftrightarrow>
     \<not> dc_verified c \<and> dc_last_check c = None \<and>
     ok (verifySignedUrlClaim (im_derive env) (im_checks env) (dc_signed c) (''https://'' @ dc_domain c) k)"

lemma imported_record_fields [simp]:
  "sb_id (imported_record env h st n cs) = pn_id n"
  "sb_payload (normaliseSubmission (imported_record env h st n cs)) = pn_payload n"
  "sb_signed (normaliseSubmission (imported_record env h st n cs)) = text_or_none (pn_signed n)"
  "sb_status (normaliseSubmission (imported_record env h st n cs)) = st"
  by (simp_all add: imported_record_def normaliseSubmission_def Let_def)

text \<open>What the plan lets in.\<close>

lemma admitted_verified:
  assumes "(n, codes) \<in> set (admitted (import_plan env s seed dojos))"
  shows "n \<in> set (pd_nodes dojos)" "ok (node_verdict env n)" "pn_id n \<notin> sb_id ` set (ovalues (submissions s))"
  using assms by (auto simp: admitted_def import_plan_def import_nodes_def plan_node_def
      split: action.splits if_splits option.splits verdict.splits)

lemma put_all_grows:
  assumes "fst (load_store d) = Inr s" "grown_by P m0 (map_of (submissions s))"
    and "\<And>n codes. (n, codes) \<in> set ps \<Longrightarrow> m0 (pn_id n) = None \<and>
      P (pn_id n) (normaliseSubmission (imported_record env h status n codes))"
    and "put_all env h status ps d = (r, d')"
  shows "\<exists>s'. fst (load_store d') = Inr s' \<and> grown_by P m0 (map_of (submissions s')) \<and> s'\<lparr>submissions := submissions s\<rparr> = s"
  using assms
proof (induction ps arbitrary: d s)
  case (Cons p ps)
  obtain n codes where p: "p = (n, codes)" by (cases p)
  let ?f = "putSubmission (imported_record env h status n codes)"
  obtain r0 s1 w where f: "?f s = (r0, s1, w)" by (cases "?f s") auto
  have m: "m0 (pn_id n) = None \<and> P (pn_id n) (normaliseSubmission (imported_record env h status n codes))"
    by (rule Cons.prems(3)) (simp add: p)
  have g: "grown_by P m0 (map_of (submissions s1))" "s1\<lparr>submissions := submissions s\<rparr> = s"
    using putSubmission_grows [OF f Cons.prems(2)] m by simp_all
  obtain res d1 where i: "in_store (im_put env (pn_id n)) ?f d = (res, d1)" by (cases "in_store (im_put env (pn_id n)) ?f d")
  have l: "fst (load_store d1) = Inr s1" by (rule in_store_loaded(1) [OF Cons.prems(1) f i])
  show ?case
  proof (cases res)
    case (Inl e)
    then show ?thesis using Cons.prems(4) i p l g by auto
  next
    case (Inr x)
    then have "put_all env h status ps d1 = (r, d')" using Cons.prems(4) i p by simp
    from Cons.IH [OF l g(1) Cons.prems(3) this]
    obtain s' where s': "fst (load_store d') = Inr s'" "grown_by P m0 (map_of (submissions s'))"
        "s'\<lparr>submissions := submissions s1\<rparr> = s1" by auto
    from s'(3) g(2) have "s'\<lparr>submissions := submissions s\<rparr> = s" by (cases s; cases s1; cases s') simp
    with s'(1,2) show ?thesis by blast
  qed
qed auto

section \<open>The claims\<close>

lemma claim_grows:
  assumes "grown_by P m0 (map_of m)" "oread m (dp_paymentCode pf) = Missing" "P (dp_paymentCode pf) (unverified_claim env h pf)"
  shows "grown_by P m0 (map_of (owrite (dp_paymentCode pf) (unverified_claim env h pf) m))"
  using assms by (intro grown_by_owrite) (auto simp: oread_Missing intro: grown_by_old)

lemma put_claims_grows:
  assumes "fst (load_store d) = Inr s" "grown_by P m0 (map_of (Store.domains s))"
    and "\<And>pf. ok (verifySignedUrlClaim (im_derive env) (im_checks env) (dp_signed pf) (''https://'' @ dp_domain pf) (dp_paymentCode pf)) \<Longrightarrow>
      P (dp_paymentCode pf) (unverified_claim env h pf)"
    and "put_claims env h pfs d = (r, d')"
  shows "\<exists>s'. fst (load_store d') = Inr s' \<and> grown_by P m0 (map_of (Store.domains s')) \<and> s'\<lparr>Store.domains := Store.domains s\<rparr> = s"
  using assms
proof (induction pfs arbitrary: d s r)
  case (Cons pf pfs)
  let ?pc = "dp_paymentCode pf"
  obtain res d1 where g: "in_store Completed (getDomain ?pc) d = (res, d1)" by (cases "in_store Completed (getDomain ?pc) d")
  have l1: "fst (load_store d1) = Inr s" and found: "res = Inr x \<Longrightarrow> x = oread (Store.domains s) ?pc" for x
    using in_store_loaded [OF Cons.prems(1) getDomain_def g] by simp_all
  note go = Cons.IH [OF _ _ Cons.prems(3)]
  consider (threw) e where "res = Inl e" | (skip) r' where "put_claims env h pfs d1 = (r', d')"
    | (taken) d2 res2 where "res = Inr Missing" "ok (verifySignedUrlClaim (im_derive env) (im_checks env) (dp_signed pf) (''https://'' @ dp_domain pf) ?pc)"
        "in_store (im_domain env ?pc) (putDomain (unverified_claim env h pf)) d1 = (res2, d2)"
        "(\<exists>e. res2 = Inl e \<and> d' = d2) \<or> (\<exists>r'. put_claims env h pfs d2 = (r', d'))"
    using Cons.prems(4) g
    by (cases "in_store (im_domain env ?pc) (putDomain (unverified_claim env h pf)) d1")
      (auto split: sum.splits if_splits prod.splits)
  then show ?case
  proof cases
    case threw
    then show ?thesis using Cons.prems g l1 by auto
  next
    case skip
    from go [OF l1 Cons.prems(2) _ skip] show ?thesis by simp
  next
    case taken
    let ?s2 = "s\<lparr>Store.domains := owrite ?pc (unverified_claim env h pf) (Store.domains s)\<rparr>"
    have "putDomain (unverified_claim env h pf) s = (Inr (unverified_claim env h pf), ?s2, True)"
      by (simp add: putDomain_def unverified_claim_def)
    from in_store_loaded(1) [OF l1 this taken(3)] have l2: "fst (load_store d2) = Inr ?s2" .
    have g2: "grown_by P m0 (map_of (Store.domains ?s2))"
      using claim_grows [OF Cons.prems(2)] found [OF taken(1)] Cons.prems(3) [OF taken(2)] by simp
    have restored: "s'\<lparr>Store.domains := Store.domains ?s2\<rparr> = ?s2 \<Longrightarrow> s'\<lparr>Store.domains := Store.domains s\<rparr> = s" for s'
      by (cases s; cases s') simp
    from taken(4) show ?thesis
    proof (elim disjE exE conjE)
      fix e assume "d' = d2"
      with l2 g2 show ?thesis by (intro exI [of _ ?s2]) simp
    next
      fix r' assume "put_claims env h pfs d2 = (r', d')"
      from go [OF l2 g2 _ this] restored show ?thesis by (auto simp del: shape.update_convs)
    qed
  qed
qed auto

section \<open>The whole import\<close>

lemma run_plan_store:
  assumes "run_plan env h status dojos plan d fs = (r, d', fs')"
  shows "\<exists>r1 d1. put_all env h status (admitted plan) d = (r1, d1) \<and>
    (d' = d1 \<or> (\<exists>r2. put_claims env h (portable_claims dojos) d1 = (r2, d')))"
  using assms by (auto simp: run_plan_def Let_def split: prod.splits sum.splits)

lemma run_plan_grows:
  assumes "run_plan env h status dojos (import_plan env s0 seed dojos) d fs = (r, d', fs')"
    and "fst (load_store d) = Inr s0" "list_all (\<lambda>(k, x). sb_id x = k) (submissions s0)"
  shows "\<exists>s. fst (load_store d') = Inr s \<and>
    grown_by (vouched_listing env status dojos) (map_of (submissions s0)) (map_of (submissions s)) \<and>
    grown_by (vouched_claim env dojos) (map_of (Store.domains s0)) (map_of (Store.domains s)) \<and>
    s\<lparr>submissions := submissions s0, Store.domains := Store.domains s0\<rparr> = s0"
proof -
  let ?plan = "import_plan env s0 seed dojos"
  from run_plan_store [OF assms(1)] obtain r1 d1 where p: "put_all env h status (admitted ?plan) d = (r1, d1)"
    and c: "d' = d1 \<or> (\<exists>r2. put_claims env h (portable_claims dojos) d1 = (r2, d'))" by blast
  have new: "map_of (submissions s0) (pn_id n) = None \<and>
      vouched_listing env status dojos (pn_id n) (normaliseSubmission (imported_record env h status n codes))"
    if "(n, codes) \<in> set (admitted ?plan)" for n codes
  proof
    have "pn_id n \<notin> fst ` set (submissions s0)"
      using admitted_verified(3) [OF that] assms(3) by (force simp: ovalues_def list_all_iff)
    then show "map_of (submissions s0) (pn_id n) = None" by (simp add: map_of_eq_None_iff)
    show "vouched_listing env status dojos (pn_id n) (normaliseSubmission (imported_record env h status n codes))"
      using admitted_verified(1,2) [OF that] by (auto simp: vouched_listing_def list_ex_iff)
  qed
  from put_all_grows [OF assms(2) grown_by_refl new p] obtain s1 where s1: "fst (load_store d1) = Inr s1"
    "grown_by (vouched_listing env status dojos) (map_of (submissions s0)) (map_of (submissions s1))"
    "s1\<lparr>submissions := submissions s0\<rparr> = s0" by blast
  have dom: "Store.domains s1 = Store.domains s0" using s1(3) by (cases s0; cases s1) simp
  show ?thesis
  proof (cases "d' = d1")
    case True
    then show ?thesis using s1 dom by (intro exI [of _ s1]) (cases s0; cases s1; simp)
  next
    case False
    with c obtain r2 where "put_claims env h (portable_claims dojos) d1 = (r2, d')" by blast
    from put_claims_grows [OF s1(1) _ _ this, of "vouched_claim env dojos" "map_of (Store.domains s0)"]
    obtain s2 where "fst (load_store d') = Inr s2" "grown_by (vouched_claim env dojos) (map_of (Store.domains s0)) (map_of (Store.domains s2))"
      "s2\<lparr>Store.domains := Store.domains s1\<rparr> = s1" by (auto simp: dom vouched_claim_def unverified_claim_def)
    with s1(2,3) show ?thesis by (intro exI [of _ s2]) (cases s0; cases s1; cases s2; simp)
  qed
qed

lemma run_plan_files:
  "run_plan env h status dojos plan d fs = (r, d', fs') \<Longrightarrow> fs'\<lparr>pf_hist := pf_hist fs, pf_daily := pf_daily fs\<rparr> = fs"
  by (auto simp: run_plan_def Let_def split: prod.splits sum.splits)

text \<open>C30: an import, whatever it returns and wherever it stops, keeps every listing and every claim the store had as they
  were, every other collection of the store as a whole, and every public file but the two histories. A listing it adds belongs to a node of the fetched list whose signed block verifies here over the very payload
  that was imported, and carries the status the caller chose; a claim it adds is not verified yet and its signature
  verifies here for its domain. Nothing at all changes on a dry run, or when the source's operator document does not
  verify for the onion and the trusted payment code.\<close>

theorem import_admits_only_verified:
  assumes "bootstrapImport env onionHost trustedCode dryRun status d fs = (r, d', fs')"
    and "fst (load_store d) = Inr s0" and "list_all (\<lambda>(k, x). sb_id x = k) (submissions s0)"
  shows "\<exists>s. fst (load_store d') = Inr s \<and>
    (if dryRun \<or> trusted_operator env onionHost trustedCode \<noteq> None then s = s0 \<and> fs' = fs
     else s\<lparr>submissions := submissions s0, Store.domains := Store.domains s0\<rparr> = s0 \<and>
       fs'\<lparr>pf_hist := pf_hist fs, pf_daily := pf_daily fs\<rparr> = fs \<and>
       map_of (submissions s0) \<subseteq>\<^sub>m map_of (submissions s) \<and> map_of (Store.domains s0) \<subseteq>\<^sub>m map_of (Store.domains s) \<and>
       (\<forall>k x. map_of (submissions s) k = Some x \<longrightarrow> map_of (submissions s0) k = Some x \<or>
          (\<exists>dojos. im_dojos env = Some dojos \<and> vouched_listing env status dojos k x)) \<and>
       (\<forall>k c. map_of (Store.domains s) k = Some c \<longrightarrow> map_of (Store.domains s0) k = Some c \<or>
          (\<exists>dojos. im_dojos env = Some dojos \<and> vouched_claim env dojos k c)))"
proof (cases "trusted_operator env onionHost trustedCode = None \<and> im_dojos env \<noteq> None \<and> \<not> dryRun")
  case True
  then obtain dojos where j: "im_dojos env = Some dojos" by auto
  obtain d1 where l: "load_store d = (Inr s0, d1)" using assms(2) by (cases "load_store d") auto
  then have l1: "fst (load_store d1) = Inr s0" by (auto simp: load_store_def split: option.splits json_file.splits)
  have run: "run_plan env onionHost status dojos (import_plan env s0 (pf_seed fs) dojos) d1 fs = (r, d', fs')"
    using assms(1) True j l by (simp add: bootstrapImport_def Let_def)
  from run_plan_grows [OF run l1 assms(3)] run_plan_files [OF run] True j show ?thesis by (auto simp: grown_by_def)
next
  case False
  obtain d1 where l: "load_store d = (Inr s0, d1)" using assms(2) by (cases "load_store d") auto
  then have "fst (load_store d1) = Inr s0" by (auto simp: load_store_def split: option.splits json_file.splits)
  then show ?thesis using assms(1,2) False l
    by (auto simp: bootstrapImport_def Let_def split: option.splits if_splits intro!: exI [of _ s0])
qed

definition ex_signed :: "string \<Rightarrow> string" where
  "ex_signed line1 = signed_block (line1 @ [newline, newline] @ ''BIP47: PM8Tbbbb'') ''1PM8Tbbbb'' (replicate 80 (CHR ''A''))"

definition ex_pairing :: val where
  "ex_pairing = Obj [(''pairing'', Obj [(''type'', Str ''dojo.api''), (''url'', Str ''u'')]), (''explorer'', Null)]"

definition ex_node :: "val \<Rightarrow> public_node" where
  "ex_node code = \<lparr>pn_id = ''mainnet-n'', pn_network = ''mainnet'', pn_name = ''n'', pn_paynym = None, pn_paymentCode = code,
     pn_jurisdiction = None, pn_country = None, pn_hardware = None, pn_version = Null, pn_operator_domain = None,
     pn_operator_proof = None, pn_indexer_url = Null, pn_live = unprobed, pn_payload = ex_pairing,
     pn_signed = Some (ex_signed (canonicalPairing ex_pairing))\<rparr>"

definition ex_import :: import_env where
  "ex_import = \<lparr>im_derive = (\<lambda>c k. Some (''1'' @ c)), im_checks = (\<lambda>t a s k. Inr True),
     im_operator = Some (Obj [(''paymentCode'', Str ''PM8Tbbbb''), (''onion'', Str ''http://7f.onion''),
       (''verifySigned'', Str (ex_signed ''http://7f.onion''))]),
     im_dojos = Some \<lparr>pd_generated_at = None, pd_nodes = [ex_node (Str ''PM8Taaaa'')], pd_fault = None\<rparr>,
     im_hist = None, im_daily = None, im_codes = (\<lambda>n. []), im_rank = (\<lambda>t. 0), im_day_rank = (\<lambda>d. 0), im_now = Instant 0,
     im_put = (\<lambda>k. Completed), im_domain = (\<lambda>k. Completed), im_file = (\<lambda>k. Completed)\<rparr>"

definition ex_db :: db where
  "ex_db = \<lparr>db_file = Doc EMPTY_SHAPE, db_cache = Some EMPTY_SHAPE\<rparr>"

definition ex_none :: public_files where
  "ex_none = \<lparr>pf_seed = NoFile, pf_codes = NoFile, pf_out = NoFile, pf_pending = NoFile, pf_hist = NoFile, pf_daily = NoFile\<rparr>"

lemma ex_import_runs:
  "case bootstrapImport ex_import ''7f.onion'' ''PM8Tbbbb'' False ''approved'' ex_db ex_none of
     (Inr m, d, fs) \<Rightarrow> is_imported m = 1 \<and>
       (case fst (load_store d) of Inr s \<Rightarrow> map fst (submissions s) = [''mainnet-n''] | _ \<Rightarrow> False)
   | _ \<Rightarrow> False"
  by code_simp

theorem import_admits_only_verified_witness:
  "\<exists>s x dojos. fst (load_store (fst (snd (bootstrapImport ex_import ''7f.onion'' ''PM8Tbbbb'' False ''approved'' ex_db ex_none)))) = Inr s \<and>
     map_of (submissions s) ''mainnet-n'' = Some x \<and> im_dojos ex_import = Some dojos \<and>
     vouched_listing ex_import ''approved'' dojos ''mainnet-n'' x"
proof -
  obtain m d fs where b: "bootstrapImport ex_import ''7f.onion'' ''PM8Tbbbb'' False ''approved'' ex_db ex_none = (Inr m, d, fs)"
    and k: "\<And>s. fst (load_store d) = Inr s \<Longrightarrow> map fst (submissions s) = [''mainnet-n'']"
    using ex_import_runs by (auto split: prod.splits sum.splits simp del: map_eq_Cons_conv)
  have l: "fst (load_store ex_db) = Inr EMPTY_SHAPE" by (simp add: load_store_def ex_db_def)
  have w: "list_all (\<lambda>(k, x). sb_id x = k) (submissions EMPTY_SHAPE)" by (simp add: EMPTY_SHAPE_def)
  have t: "trusted_operator ex_import ''7f.onion'' ''PM8Tbbbb'' = None" by code_simp
  from import_admits_only_verified [OF b l w] t obtain s where s: "fst (load_store d) = Inr s"
    "\<And>k x. map_of (submissions s) k = Some x \<Longrightarrow> map_of (submissions EMPTY_SHAPE) k = Some x \<or>
       (\<exists>dojos. im_dojos ex_import = Some dojos \<and> vouched_listing ex_import ''approved'' dojos k x)" by auto
  obtain x where "map_of (submissions s) ''mainnet-n'' = Some x" using k [OF s(1)] by (cases "submissions s") auto
  with s b show ?thesis by (fastforce simp: EMPTY_SHAPE_def)
qed

text \<open>The block of that listing is signed for one payment code while the listing is stored for another: the source
  chooses the codes that own an imported listing here.\<close>

lemma signer_need_not_own_the_import:
  "case node_verdict ex_import (ex_node (Str ''PM8Taaaa'')) of
     Accepted _ c \<Rightarrow> c = Some ''PM8Tbbbb'' \<and> plan_node ex_import [] [] (ex_node (Str ''PM8Taaaa'')) = Admit [Str ''PM8Taaaa'']
   | Refused _ \<Rightarrow> False"
  by code_simp

end
