(* ===== verification/SelfUpdate.thy ===== *)
theory SelfUpdate
  imports Archive Crypto
begin

text \<open>
  Where an update comes from and whether there is one: \<open>server/updates.mjs\<close> and the fetchers of
  \<open>server/self-update.mjs\<close>. A host on the other side of the connection is a function from the request to the bytes
  that had arrived when it closed. The loop over the chunks of a reply is the one of the resolvers.
\<close>

section \<open>GitHub over Tor\<close>

definition githubRequestHead :: "string \<Rightarrow> string \<Rightarrow> bool \<Rightarrow> string" where
  "githubRequestHead apiPath host binary =
     ''GET '' @ apiPath @ '' HTTP/1.1'' @ crlf @ ''Host: '' @ host @ crlf @ ''User-Agent: mise-update-check'' @ crlf @
     ''Accept: '' @ (if binary then ''*/*'' else ''application/vnd.github+json'') @ crlf @
     ''Accept-Encoding: identity'' @ crlf @ ''Connection: close'' @ crlf @ crlf"

definition API_HOST :: string where
  "API_HOST = ''api.github.com''"

text \<open>\<open>/\r\nlocation:\s*([^\r\n]+)/i\<close>, trimmed. White space that ends the head may be given back; what it then
  captures is trimmed away.\<close>

definition line_char :: "char \<Rightarrow> bool" where
  "line_char c \<longleftrightarrow> c \<noteq> CHR 0x0D \<and> c \<noteq> CHR 0x0A"

definition location_here :: "string \<Rightarrow> string option" where
  "location_here s =
     (if to_lower (take 11 s) \<noteq> crlf @ ''location:'' then None
      else (let r = drop 11 s; v = takeWhile line_char (trim_start r)
        in if v \<noteq> [] then Some (trim v)
           else if list_ex line_char (takeWhile is_ws r) then Some [] else None))"

record github_reply =
  gr_status :: nat
  gr_location :: "string option"
  gr_body :: string

datatype github_error = GithubUnreachable string | MalformedReply | LocationNotAUrl

text \<open>\<open>None\<close>: the handler of the close does not return.\<close>

definition github_reply_of :: "nat \<Rightarrow> string \<Rightarrow> (github_error + github_reply) option" where
  "github_reply_of fuel bytes =
     (case find_text (crlf @ crlf) bytes of
        None \<Rightarrow> Some (Inl MalformedReply)
      | Some headEnd \<Rightarrow>
          (let head = take headEnd bytes; body = drop (headEnd + 4) bytes
           in case reply_status head of
                None \<Rightarrow> Some (Inl MalformedReply)
              | Some st \<Rightarrow>
                  map_option (\<lambda>b. Inr \<lparr>gr_status = digits_val st, gr_location = search location_here head, gr_body = b\<rparr>)
                    (if is_chunked head then chunk_loop fuel body 0 [] else Some body)))"

text \<open>\<open>hops\<close> redirects are still followed. \<open>parse\<close> gives the host of a URL, and its path with the query.\<close>

fun githubGet ::
  "(string \<Rightarrow> string \<Rightarrow> string + string) \<Rightarrow> (string \<Rightarrow> (string \<times> string) option) \<Rightarrow> nat \<Rightarrow> bool \<Rightarrow> nat \<Rightarrow> string \<Rightarrow> string \<Rightarrow>
     (github_error + nat \<times> string) option" where
  "githubGet tls parse fuel binary hops host apiPath =
     (case tls host (githubRequestHead apiPath host binary) of
        Inl e \<Rightarrow> Some (Inl (GithubUnreachable e))
      | Inr bytes \<Rightarrow>
          (case github_reply_of fuel bytes of
             None \<Rightarrow> None
           | Some (Inl e) \<Rightarrow> Some (Inl e)
           | Some (Inr r) \<Rightarrow>
               (case (hops, (if gr_location r = Some [] then None else gr_location r)) of
                  (Suc n, Some l) \<Rightarrow>
                    if gr_status r \<in> {301, 302, 307, 308}
                    then (case parse l of
                        None \<Rightarrow> Some (Inl LocationNotAUrl)
                      | Some (host', path') \<Rightarrow> githubGet tls parse fuel binary n host' path')
                    else Some (Inr (gr_status r, gr_body r))
                | _ \<Rightarrow> Some (Inr (gr_status r, gr_body r)))))"

definition githubRefusal :: "string \<Rightarrow> nat \<Rightarrow> string" where
  "githubRefusal what status =
     (if status = 403 \<or> status = 429
      then ''GitHub is rate-limiting this Tor exit (HTTP '' @ nat_text status @ ''). ''
        @ ''The limit is per exit address and shared with every other user of it, so it clears on its ''
        @ ''own within the hour, usually sooner on a new circuit. Updating from a peer .onion does not ''
        @ ''touch GitHub and works meanwhile.''
      else what @ '': HTTP '' @ nat_text status)"

section \<open>How far behind\<close>

text \<open>What a request came back with: a text of an error, or the status and the body.\<close>

type_synonym api = "string \<Rightarrow> string + nat \<times> string"

datatype update_failure = NoVersionFile | NotDeployed | ApiThrew string | ApiRefused string | NotJson | TypeThrew

definition sameCommit :: "string option \<Rightarrow> string \<Rightarrow> bool" where
  "sameCommit a b =
     (case a of
        None \<Rightarrow> False
      | Some s \<Rightarrow> s \<noteq> [] \<and> b \<noteq> [] \<and>
          (let x = to_lower s; y = to_lower b in starts_with y x \<or> starts_with x y))"

text \<open>The tags by name. What cannot be read as a list of them is noted; a text is a list of nothing.\<close>

definition tags_of :: "string \<Rightarrow> (string \<times> string) list \<times> string option" where
  "tags_of body =
     (case json_parse body of
        Some (Arr ts) \<Rightarrow>
          (fold (\<lambda>t m. if truthy (fld t ''name'') \<and> is_str (fld t ''name'') \<and> truthy (fld (fld t ''commit'') ''sha'')
             then AList.update (str_of (fld t ''name'')) (js_text (fld (fld t ''commit'') ''sha'')) m else m) ts [], None)
      | Some (Str s) \<Rightarrow> ([], None)
      | _ \<Rightarrow> ([], Some ''tag lookup: failed''))"

definition tag_lookup :: "string + nat \<times> string \<Rightarrow> (string \<times> string) list \<times> string option" where
  "tag_lookup r =
     (case r of
        Inl e \<Rightarrow> ([], Some (''tag lookup: '' @ (if e = [] then ''failed'' else e)))
      | Inr (st, body) \<Rightarrow> if st = 200 then tags_of body else ([], Some (githubRefusal ''tag lookup'' st)))"

record update_state =
  us_commit :: string
  us_built :: val
  us_commits_behind :: val
  us_status :: val
  us_latest :: val
  us_current :: val
  us_releases_behind :: "nat option"
  us_approx :: bool
  us_note :: "string option"
  us_repo :: string

definition tag_name :: "val \<Rightarrow> val" where
  "tag_name r = fld r ''tag_name''"

definition tag_commit :: "(string \<times> string) list \<Rightarrow> val \<Rightarrow> string option" where
  "tag_commit tags r = (case tag_name r of Str n \<Rightarrow> map_of tags n | _ \<Rightarrow> None)"

text \<open>The position of the first release whose tag is the running commit; without one, the number of releases published
  after the build, unless the tags could not be looked up. \<open>date\<close> is \<open>Date.parse\<close>.\<close>

definition running_index :: "(string \<times> string) list \<Rightarrow> string \<Rightarrow> val list \<Rightarrow> nat option" where
  "running_index tags commit releases = find_index (\<lambda>r. sameCommit (tag_commit tags r) commit) releases"

definition published_after :: "(string \<Rightarrow> int option) \<Rightarrow> val \<Rightarrow> val list \<Rightarrow> nat" where
  "published_after date built releases =
     (let time = (\<lambda>v. date (js_text (js_or v (Num 0)))); builtAt = (case time built of Some t \<Rightarrow> t | None \<Rightarrow> 0)
      in length (filter (\<lambda>r. case time (fld r ''published_at'') of Some t \<Rightarrow> builtAt < t | None \<Rightarrow> False) releases))"

definition update_state_of ::
  "(string \<Rightarrow> int option) \<Rightarrow> string \<Rightarrow> string \<Rightarrow> val \<Rightarrow> val \<Rightarrow> val list \<Rightarrow> (string \<times> string) list \<times> string option \<Rightarrow> update_state" where
  "update_state_of date repo commit built compare releases lookup =
     (let (tags, note) = lookup; index = running_index tags commit releases
      in \<lparr>us_commit = commit, us_built = js_or built Null, us_commits_behind = nullish (fld compare ''ahead_by'') (Num 0),
          us_status = js_or (fld compare ''status'') (Str ''unknown''),
          us_latest = (case releases of r # _ \<Rightarrow> tag_name r | [] \<Rightarrow> Null),
          us_current = (case index of Some i \<Rightarrow> tag_name (releases ! i) | None \<Rightarrow> Null),
          us_releases_behind = (case index of
              Some i \<Rightarrow> Some i
            | None \<Rightarrow> if note \<noteq> None then None else Some (published_after date built releases)),
          us_approx = (index = None), us_note = note, us_repo = repo\<rparr>)"

definition ok_body :: "string \<Rightarrow> string + nat \<times> string \<Rightarrow> update_failure + val" where
  "ok_body what r =
     (case r of
        Inl e \<Rightarrow> Inl (ApiThrew e)
      | Inr (st, body) \<Rightarrow>
          if st \<noteq> 200 then Inl (ApiRefused (githubRefusal what st))
          else (case json_parse body of None \<Rightarrow> Inl NotJson | Some v \<Rightarrow> Inr v))"

definition checkUpdates ::
  "api \<Rightarrow> (string \<Rightarrow> int option) \<Rightarrow> string \<Rightarrow> val option \<Rightarrow> update_failure + update_state" where
  "checkUpdates transport date repo version =
     (case version of
        None \<Rightarrow> Inl NoVersionFile
      | Some v \<Rightarrow>
          if v = Null then Inl TypeThrew
          else if \<not> truthy (fld v ''commit'') \<or> fld v ''commit'' = Str ''dev'' then Inl NotDeployed
          else (let commit = js_text (fld v ''commit''); base = ''/repos/'' @ repo in
            case ok_body ''compare'' (transport (base @ ''/compare/'' @ encodeURIComponent commit @ ''...main'')) of
              Inl e \<Rightarrow> Inl e
            | Inr compare \<Rightarrow>
                (case ok_body ''releases'' (transport (base @ ''/releases?per_page=30'')) of
                   Inl e \<Rightarrow> Inl e
                 | Inr rel \<Rightarrow>
                     (case rel of
                        Arr rs \<Rightarrow>
                          if Null \<in> set rs \<or> compare = Null then Inl TypeThrew
                          else Inr (update_state_of date repo commit (fld v ''built'') compare rs
                            (tag_lookup (transport (base @ ''/tags?per_page=100''))))
                      | _ \<Rightarrow> Inl TypeThrew))))"

section \<open>Fetching the code\<close>

datatype fetch_failure =
    PeerUnreachable wire_failure | DocumentStatus string nat | DocumentNotJson | PeerRefused refusal | PeerOfAnother
  | ZipStatus nat | CommitStatus nat | GithubThrew string | ShaNotText

record fetched =
  fe_bytes :: string
  fe_label :: string
  fe_version :: "val"

definition get_request :: "string \<Rightarrow> string \<Rightarrow> string" where
  "get_request path host =
     ''GET '' @ path @ '' HTTP/1.0'' @ crlf @ ''Host: '' @ host @ crlf @ ''Connection: close'' @ crlf @ crlf"

definition fetchDoc :: "tor \<Rightarrow> string \<Rightarrow> string \<Rightarrow> fetch_failure + string" where
  "fetchDoc tor host p =
     (case httpOverTor tor host (get_request p host) MAX_RESPONSE_BYTES of
        Inl e \<Rightarrow> Inl (PeerUnreachable e)
      | Inr r \<Rightarrow> if hr_status r \<noteq> 200 then Inl (DocumentStatus p (hr_status r)) else Inr (hr_body r))"

text \<open>The version is a courtesy: whatever goes wrong with it, there is none.\<close>

definition peer_version :: "tor \<Rightarrow> string \<Rightarrow> val" where
  "peer_version tor host =
     (case fetchDoc tor host ''/data/version.json'' of
        Inl _ \<Rightarrow> Null
      | Inr body \<Rightarrow> (case json_parse body of None \<Rightarrow> Null | Some v \<Rightarrow> js_or (fld v ''commit'') Null))"

definition peer_operator ::
  "(string \<Rightarrow> string \<Rightarrow> string option) \<Rightarrow> (string \<Rightarrow> string \<Rightarrow> string \<Rightarrow> string \<Rightarrow> string + bool) \<Rightarrow> tor \<Rightarrow> string \<Rightarrow> string \<Rightarrow>
     fetch_failure + val" where
  "peer_operator derive checks tor onionHost trustedCode =
     (case fetchDoc tor onionHost ''/data/operator.json'' of
        Inl e \<Rightarrow> Inl e
      | Inr body \<Rightarrow>
          (case json_parse body of
             None \<Rightarrow> Inl DocumentNotJson
           | Some doc \<Rightarrow>
               (case verifyOperatorDoc derive checks doc (Some (''http://'' @ onionHost)) of
                  Refused e \<Rightarrow> Inl (PeerRefused e)
                | Accepted _ _ \<Rightarrow>
                    if trustedCode \<noteq> [] \<and> fld doc ''paymentCode'' \<noteq> Str trustedCode then Inl PeerOfAnother else Inr doc)))"

definition fetchFromPeer ::
  "(string \<Rightarrow> string \<Rightarrow> string option) \<Rightarrow> (string \<Rightarrow> string \<Rightarrow> string \<Rightarrow> string \<Rightarrow> string + bool) \<Rightarrow> tor \<Rightarrow> string \<Rightarrow> string \<Rightarrow>
     fetch_failure + fetched" where
  "fetchFromPeer derive checks tor onionHost trustedCode =
     (case peer_operator derive checks tor onionHost trustedCode of
        Inl e \<Rightarrow> Inl e
      | Inr _ \<Rightarrow>
          (case httpOverTor tor onionHost (get_request ''/data/mise-src.zip'' onionHost) MAX_SOURCE_ZIP_BYTES of
             Inl e \<Rightarrow> Inl (PeerUnreachable e)
           | Inr z \<Rightarrow>
               if hr_status z \<noteq> 200 then Inl (ZipStatus (hr_status z))
               else Inr \<lparr>fe_bytes = hr_body z, fe_label = ''peer '' @ onionHost, fe_version = peer_version tor onionHost\<rparr>))"

definition fetchFromGitHub :: "api \<Rightarrow> string \<Rightarrow> string \<Rightarrow> fetch_failure + fetched" where
  "fetchFromGitHub transport repo ref =
     (case transport (''/repos/'' @ repo @ ''/commits/'' @ encodeURIComponent ref) of
        Inl e \<Rightarrow> Inl (GithubThrew e)
      | Inr (st, body) \<Rightarrow>
          if st \<noteq> 200 then Inl (CommitStatus st)
          else (case json_parse body of
              None \<Rightarrow> Inl DocumentNotJson
            | Some v \<Rightarrow>
                (case fld v ''sha'' of
                   Str sha \<Rightarrow>
                     (case transport (''/repos/'' @ repo @ ''/zipball/'' @ sha) of
                        Inl e \<Rightarrow> Inl (GithubThrew e)
                      | Inr (zst, bytes) \<Rightarrow>
                          if zst \<noteq> 200 then Inl (ZipStatus zst)
                          else Inr \<lparr>fe_bytes = bytes, fe_label = ''github '' @ repo, fe_version = Str sha\<rparr>)
                 | _ \<Rightarrow> Inl ShaNotText)))"

text \<open>An update from a peer, as far as the hand-over to the helper.\<close>

definition updateFromPeer ::
  "(string \<Rightarrow> string \<Rightarrow> string option) \<Rightarrow> (string \<Rightarrow> string \<Rightarrow> string \<Rightarrow> string \<Rightarrow> string + bool) \<Rightarrow> tor \<Rightarrow> inflate \<Rightarrow>
     (string \<Rightarrow> bool) \<Rightarrow> string \<Rightarrow> string \<Rightarrow> tree \<Rightarrow> (fetch_failure + archive_error) + update_ready" where
  "updateFromPeer derive checks tor inflate copies onionHost trustedCode webRoot =
     (case fetchFromPeer derive checks tor onionHost trustedCode of
        Inl e \<Rightarrow> Inl (Inl e)
      | Inr f \<Rightarrow> (case applyUpdate inflate copies (fe_bytes f) webRoot of
          Inl e \<Rightarrow> Inl (Inr e)
        | Inr u \<Rightarrow> Inr u))"

end
