(* ===== verification/SelfUpdateProps.thy ===== *)
theory SelfUpdateProps
  imports SelfUpdate ArchiveProps
begin

text \<open>
  The composition of a self-update: the fetch from a peer, the archive and the staging. What is staged came from the
  operator that was trusted and is bounded at every step.
\<close>

definition bytes_of :: "(string \<times> string) list \<Rightarrow> nat" where
  "bytes_of fs = sum_list (map (\<lambda>(_, d). length d) fs)"

lemma bytes_of_simps [simp]: "bytes_of [] = 0" "bytes_of ((p, d) # fs) = length d + bytes_of fs"
  by (simp_all add: bytes_of_def)

lemma strip_bytes: "stripTopLevel fs = Inr out \<Longrightarrow> length out \<le> length fs \<and> bytes_of out \<le> bytes_of fs"
  by (induction fs arbitrary: out rule: stripTopLevel.induct) (fastforce simp: Let_def split: if_splits sum.splits)+

lemma update_bytes: "bytes_of (AList.update p d t) \<le> bytes_of t + length d"
  by (induction t) auto

lemma stage_bytes: "stage t fs = Inr t' \<Longrightarrow> bytes_of t' \<le> bytes_of t + bytes_of fs"
proof (induction t fs rule: stage.induct)
  case (2 t rel data fs)
  then have "bytes_of t' \<le> bytes_of (AList.update (placed rel) data t) + bytes_of fs" by (auto simp: Let_def split: if_splits)
  with update_bytes [of "placed rel" data t] show ?case by simp
qed simp

lemma read_capped_cap: "read_capped cap buf ds = Some s \<Longrightarrow> length buf \<le> cap \<Longrightarrow> length s \<le> cap"
  by (induction cap buf ds rule: read_capped.induct) (auto split: if_splits)

lemma reply_within_cap:
  assumes "httpOverTor tor host req cap = Inr r"
  shows "length (hr_body r) \<le> cap"
proof -
  obtain ds s where "read_capped cap [] ds = Some s" and r: "r = http_reply_of s"
    using assms by (auto simp: httpOverTor_def split: sum.splits option.splits)
  then have "length s \<le> cap" using read_capped_cap by force
  then show ?thesis by (auto simp: r http_reply_of_def Let_def split: option.splits)
qed

lemma fetched_from:
  assumes "fetchFromPeer derive checks tor onionHost trustedCode = Inr f"
  shows "(\<exists>doc. peer_operator derive checks tor onionHost trustedCode = Inr doc) \<and> length (fe_bytes f) \<le> MAX_SOURCE_ZIP_BYTES"
  using assms by (auto simp: fetchFromPeer_def dest: reply_within_cap split: sum.splits if_splits)

lemma operator_trusted:
  assumes "peer_operator derive checks tor onionHost trustedCode = Inr doc"
  shows "ok (verifyOperatorDoc derive checks doc (Some (''http://'' @ onionHost))) \<and>
    (trustedCode \<noteq> [] \<longrightarrow> fld doc ''paymentCode'' = Str trustedCode)"
  using assms by (auto simp: peer_operator_def split: sum.splits option.splits verdict.splits if_splits)

text \<open>C35: an update that is staged from a peer came, in at most 8 MiB, from an onion whose operator document verifies for that
  very onion and, when a payment code was named, for that code; none has to be named, and then any document that
  verifies for its own onion will do (\<open>unnamed_operator_is_taken\<close>). What is staged is at most 2000 files of at most
  32 MiB in all, whatever the peer sent.\<close>

theorem peer_update_trusted_and_bounded:
  assumes "updateFromPeer derive checks tor inflate copies onionHost trustedCode webRoot = Inr u"
    and "\<forall>n c d. inflate n c = Inflated d \<longrightarrow> length d \<le> n"
  shows "(\<exists>doc. peer_operator derive checks tor onionHost trustedCode = Inr doc \<and>
      ok (verifyOperatorDoc derive checks doc (Some (''http://'' @ onionHost))) \<and>
      (trustedCode = [] \<or> fld doc ''paymentCode'' = Str trustedCode)) \<and>
    (\<exists>f. fetchFromPeer derive checks tor onionHost trustedCode = Inr f \<and> length (fe_bytes f) \<le> MAX_SOURCE_ZIP_BYTES) \<and>
    ur_entries u \<le> MAX_ENTRIES \<and> bytes_of (ur_staging u) \<le> MAX_INFLATED_BYTES"
proof -
  obtain f where f: "fetchFromPeer derive checks tor onionHost trustedCode = Inr f" and u: "applyUpdate inflate copies (fe_bytes f) webRoot = Inr u"
    using assms(1) by (auto simp: updateFromPeer_def split: sum.splits)
  obtain files entries where z: "unzip inflate (fe_bytes f) = Inr files" "stripTopLevel files = Inr entries"
    "stage [] entries = Inr (ur_staging u)" "ur_entries u = length entries"
    using u by (auto simp: applyUpdate_def Let_def split: sum.splits if_splits)
  have "length files \<le> MAX_ENTRIES" "bytes_of files \<le> MAX_INFLATED_BYTES"
    using unzip_within_budgets [OF assms(2) z(1)] by (simp_all add: bytes_of_def)
  moreover have "length entries \<le> length files" "bytes_of entries \<le> bytes_of files" using strip_bytes [OF z(2)] by auto
  moreover have "bytes_of (ur_staging u) \<le> bytes_of entries" using stage_bytes [OF z(3)] by simp
  ultimately show ?thesis using f fetched_from [OF f] operator_trusted z(4) by fastforce
qed

section \<open>A run\<close>

definition ex_operator :: val where
  "ex_operator = Obj [(''paymentCode'', Str ''PM8Tbbbb''), (''onion'', Str ''http://7f.onion''),
     (''verifySigned'', Str (signed_block (''http://7f.onion'' @ [newline, newline] @ ''BIP47: PM8Tbbbb'') ''1PM8Tbbbb'' (replicate 80 (CHR ''A''))))]"

definition ok_head :: string where
  "ok_head = ''HTTP/1.0 200 OK'' @ crlf @ crlf"

definition ex_tor :: tor where
  "ex_tor host req =
     (if req = get_request ''/data/operator.json'' host then Inr [ok_head @ written ex_operator]
      else if req = get_request ''/data/mise-src.zip'' host then Inr [ok_head @ ex_zip] else Inl ''closed'')"

lemma ok_reply: "hr_status (http_reply_of (ok_head @ b)) = 200" "hr_body (http_reply_of (ok_head @ b)) = b"
  by (simp_all add: http_reply_of_def ok_head_def reply_status_def is_digit_def digits_val_def digit_val_def Let_def)

lemma ok_fetched:
  assumes "tor host req = Inr [ok_head @ b]" "length (ok_head @ b) \<le> cap"
  shows "\<exists>r. httpOverTor tor host req cap = Inr r \<and> hr_status r = 200 \<and> hr_body r = b"
  using assms ok_reply [of b] by (auto simp: httpOverTor_def)

lemma ex_operator_parses: "json_parse (written ex_operator) = Some ex_operator"
  by (rule json_parse_written) code_simp

lemma ex_operator_short: "length (ok_head @ written ex_operator) \<le> MAX_RESPONSE_BYTES"
proof -
  have "length (ok_head @ written ex_operator) \<le> 1000" by code_simp
  then show ?thesis by (simp add: MAX_RESPONSE_BYTES_def)
qed

lemma ex_zip_short: "length (ok_head @ ex_zip) \<le> MAX_SOURCE_ZIP_BYTES"
proof -
  have "length ex_zip \<le> 1000"
    unfolding ex_zip_def packSource_def ex_packed
    by (simp add: buildZip_def zip_body_def zip_end_def zip_local_def zip_central_def zip_common_def u16_def u32_def Let_def)
  then show ?thesis by (simp add: MAX_SOURCE_ZIP_BYTES_def ok_head_def)
qed

lemma ex_peer:
  assumes "code = [] \<or> code = ''PM8Tbbbb''"
  shows "peer_operator (\<lambda>c k. Some (''1'' @ c)) (\<lambda>t a s k. Inr True) ex_tor ''7f.onion'' code = Inr ex_operator"
proof -
  have "ex_tor ''7f.onion'' (get_request ''/data/operator.json'' ''7f.onion'') = Inr [ok_head @ written ex_operator]"
    by (simp add: ex_tor_def)
  from ok_fetched [where tor = ex_tor, OF this ex_operator_short] obtain r where
    "httpOverTor ex_tor ''7f.onion'' (get_request ''/data/operator.json'' ''7f.onion'') MAX_RESPONSE_BYTES = Inr r"
    "hr_status r = 200" "hr_body r = written ex_operator" by blast
  moreover have "verifyOperatorDoc (\<lambda>c k. Some (''1'' @ c)) (\<lambda>t a s k. Inr True) ex_operator (Some (''http://'' @ ''7f.onion'')) =
      Accepted (Some ''1PM8Tbbbb'') None"
    by code_simp
  moreover have "fld ex_operator ''paymentCode'' = Str ''PM8Tbbbb''" by code_simp
  ultimately show ?thesis
    using assms unfolding peer_operator_def fetchDoc_def by (auto simp: ex_operator_parses)
qed

lemma ex_peer_update:
  assumes "code = [] \<or> code = ''PM8Tbbbb''"
  shows "\<exists>u. updateFromPeer (\<lambda>c k. Some (''1'' @ c)) (\<lambda>t a s k. Inr True) ex_tor ex_inflate (\<lambda>r. True) ''7f.onion'' code ex_site = Inr u
     \<and> ur_entries u = 2"
proof -
  have "ex_tor ''7f.onion'' (get_request ''/data/mise-src.zip'' ''7f.onion'') = Inr [ok_head @ ex_zip]"
    by (simp add: ex_tor_def get_request_def)
  from ok_fetched [where tor = ex_tor, OF this ex_zip_short] obtain r where
    "httpOverTor ex_tor ''7f.onion'' (get_request ''/data/mise-src.zip'' ''7f.onion'') MAX_SOURCE_ZIP_BYTES = Inr r"
    "hr_status r = 200" "hr_body r = ex_zip" by blast
  then have "updateFromPeer (\<lambda>c k. Some (''1'' @ c)) (\<lambda>t a s k. Inr True) ex_tor ex_inflate (\<lambda>r. True) ''7f.onion'' code ex_site =
      (case applyUpdate ex_inflate (\<lambda>r. True) ex_zip ex_site of Inl e \<Rightarrow> Inl (Inr e) | Inr u \<Rightarrow> Inr u)"
    unfolding updateFromPeer_def fetchFromPeer_def ex_peer [OF assms] by simp
  then show ?thesis using ex_update by (auto split: sum.splits)
qed

text \<open>Without a payment code the operator of the peer can be anyone: the document need only be signed by the wallet
  that it names itself.\<close>

lemma unnamed_operator_is_taken:
  "\<exists>u. updateFromPeer (\<lambda>c k. Some (''1'' @ c)) (\<lambda>t a s k. Inr True) ex_tor ex_inflate (\<lambda>r. True) ''7f.onion'' [] ex_site = Inr u"
  using ex_peer_update [of "[]"] by blast

theorem peer_update_trusted_and_bounded_witness:
  "\<exists>u :: update_ready. ur_entries u = 2 \<and> ur_entries u \<le> MAX_ENTRIES \<and> bytes_of (ur_staging u) \<le> MAX_INFLATED_BYTES"
proof -
  obtain u where u: "updateFromPeer (\<lambda>c k. Some (''1'' @ c)) (\<lambda>t a s k. Inr True) ex_tor ex_inflate (\<lambda>r. True)
      ''7f.onion'' ''PM8Tbbbb'' ex_site = Inr u" "ur_entries u = 2" using ex_peer_update [of "''PM8Tbbbb''"] by blast
  have "\<forall>n c d. ex_inflate n c = Inflated d \<longrightarrow> length d \<le> n" by (simp add: ex_inflate_def)
  from peer_update_trusted_and_bounded [OF u(1) this] u(2) show ?thesis by blast
qed

end
