(* ===== verification/Maintenance.thy ===== *)
theory Maintenance
  imports Publish Api
begin

text \<open>
  The operator's commands: \<open>server/admin.mjs\<close>, \<open>server/audit-signed.mjs\<close>, \<open>server/diagnose-signed.mjs\<close>,
  \<open>server/apply-signed-payload.ts\<close>, \<open>server/fix-payload-version.mjs\<close>, \<open>server/remove-listing.ts\<close>,
  \<open>server/check-versions.ts\<close> and \<open>scripts/migrate-seed-to-store.mjs\<close>. Three of them edit the store's file
  themselves, the others go through the store. What a command prints is left out, what it decides is its result.
\<close>

section \<open>Editing the file\<close>

text \<open>How a command that edits a file ends: the service is up, something threw, there was nothing to do, nothing was to
  be written, or the report was carried out.\<close>

datatype 'r tool_end = ServiceRunning | ToolThrew string | NothingToDo 'r | DryRun 'r | Applied 'r

text \<open>\<open>--apply\<close>, \<open>--force\<close> and what \<open>systemctl is-active\<close> says.\<close>

record tool_call =
  tc_apply :: bool
  tc_force :: bool
  tc_active :: string

definition service_blocks :: "tool_call \<Rightarrow> bool" where
  "service_blocks t \<longleftrightarrow> tc_apply t \<and> \<not> tc_force t \<and> trim (tc_active t) = ''active''"

text \<open>The store's file, parsed. What is falsy is \<open>null\<close>.\<close>

definition parsed_store :: "shape json_file \<Rightarrow> shape option" where
  "parsed_store f = (case f of Doc s \<Rightarrow> Some s | _ \<Rightarrow> None)"

text \<open>The copy beside the file, then the new text over it.\<close>

definition backed_up_write :: "io \<Rightarrow> io \<Rightarrow> shape \<Rightarrow> 'r \<Rightarrow> shape json_file \<Rightarrow> 'r tool_end \<times> shape json_file" where
  "backed_up_write w_copy w_write s r f =
     (case (w_copy, w_write) of
        (Completed, Completed) \<Rightarrow> (Applied r, Doc s)
      | (Failed, _) \<Rightarrow> (ToolThrew ''copyFile'', f)
      | (_, Failed) \<Rightarrow> (ToolThrew ''writeFile'', f))"

text \<open>An assignment to a member of the record that is under the id now; nothing is there when the record is listed under
  another key, and a member of every object is no record of the document.\<close>

definition edit_record :: "string \<Rightarrow> (submission \<Rightarrow> submission) \<Rightarrow> submission obj \<Rightarrow> submission obj option" where
  "edit_record i f m =
     (case oread m i of
        Own r \<Rightarrow> Some (AList.update i (f r) m)
      | Inherited \<Rightarrow> Some m
      | Missing \<Rightarrow> None)"

section \<open>\<open>apply-signed-payload.ts\<close>\<close>

datatype block_refusal =
    CannotRead | NotABlock | NoBip47Line | NotBareJson | NoUrlOrType | BlockRefused refusal | OwnsNothing string
  | OwnsSeveral nat

record planned_block =
  pl_id :: string
  pl_payload :: val
  pl_signed :: string
  pl_note :: "string option"

definition owned_records :: "string \<Rightarrow> submission list \<Rightarrow> submission list" where
  "owned_records code rs = filter (\<lambda>r. Str code \<in> set (code_list r)) rs"

definition block_target :: "string option \<Rightarrow> submission list \<Rightarrow> submission option" where
  "block_target pinned owned =
     (case text_or_none pinned of
        Some i \<Rightarrow> find (\<lambda>r. sb_id r = i) owned
      | None \<Rightarrow> (case owned of [r] \<Rightarrow> Some r | _ \<Rightarrow> None))"

text \<open>One block: repaired when a repair verifies, then held against every condition of the submission gate.\<close>

definition plan_block ::
  "(string \<Rightarrow> string \<Rightarrow> string option) \<Rightarrow> (string \<Rightarrow> string \<Rightarrow> string \<Rightarrow> string \<Rightarrow> string + bool) \<Rightarrow>
   submission list \<Rightarrow> string option \<Rightarrow> string option \<Rightarrow> block_refusal + planned_block" where
  "plan_block derive checks records pinned content =
     (case content of
        None \<Rightarrow> Inl CannotRead
      | Some text \<Rightarrow>
          (let (signed, note) = (case repairSignedBlock derive checks (Str text) of Some r \<Rightarrow> r | None \<Rightarrow> (text, None))
           in case parseSignedBlock (Str signed) of
                None \<Rightarrow> Inl NotABlock
              | Some b \<Rightarrow>
                  (case pb_code b of
                     None \<Rightarrow> Inl NoBip47Line
                   | Some code \<Rightarrow>
                       (case json_parse (pb_pairing b) of
                          None \<Rightarrow> Inl NotBareJson
                        | Some payload \<Rightarrow>
                            if \<not> truthy (fld (fld payload ''pairing'') ''url'') \<or> \<not> truthy (fld (fld payload ''pairing'') ''type'')
                            then Inl NoUrlOrType
                            else (case verifySignedPayload derive checks (Str signed) (Some (canonicalPairing payload))
                                    (Some (notificationAddresses derive code)) ''bitcoin'' of
                                Refused e \<Rightarrow> Inl (BlockRefused e)
                              | Accepted _ _ \<Rightarrow>
                                  (let owned = owned_records code records
                                   in if owned = [] then Inl (OwnsNothing code)
                                      else (case block_target pinned owned of
                                          None \<Rightarrow> Inl (OwnsSeveral (length owned))
                                        | Some r \<Rightarrow> Inr \<lparr>pl_id = sb_id r, pl_payload = payload, pl_signed = trim signed,
                                            pl_note = note\<rparr>)))))))"

definition put_signed :: "stamp \<Rightarrow> planned_block \<Rightarrow> submission \<Rightarrow> submission" where
  "put_signed now p r = r\<lparr>sb_payload := pl_payload p, sb_signed := Some (pl_signed p), sb_updated_at := Some now\<rparr>"

fun put_all_signed :: "stamp \<Rightarrow> planned_block list \<Rightarrow> submission obj \<Rightarrow> submission obj option" where
  "put_all_signed now [] m = Some m"
| "put_all_signed now (p # ps) m =
     (case edit_record (pl_id p) (put_signed now p) m of None \<Rightarrow> None | Some m' \<Rightarrow> put_all_signed now ps m')"

fun planned_of :: "(block_refusal + planned_block) list \<Rightarrow> planned_block list" where
  "planned_of [] = []"
| "planned_of (Inl _ # xs) = planned_of xs"
| "planned_of (Inr p # xs) = p # planned_of xs"

definition apply_signed_payload ::
  "(string \<Rightarrow> string \<Rightarrow> string option) \<Rightarrow> (string \<Rightarrow> string \<Rightarrow> string \<Rightarrow> string \<Rightarrow> string + bool) \<Rightarrow>
   tool_call \<Rightarrow> string option \<Rightarrow> string option list \<Rightarrow> stamp \<Rightarrow> io \<Rightarrow> io \<Rightarrow> shape json_file \<Rightarrow>
   (block_refusal + planned_block) list tool_end \<times> shape json_file" where
  "apply_signed_payload derive checks t pinned contents now w_copy w_write f =
     (if contents = [] then (ToolThrew ''usage'', f)
      else if service_blocks t then (ServiceRunning, f)
      else (case parsed_store f of
          None \<Rightarrow> (ToolThrew ''store.json'', f)
        | Some s \<Rightarrow>
            (let plan = map (plan_block derive checks (ovalues (submissions s)) pinned) contents;
                 planned = planned_of plan
             in if planned = [] then (NothingToDo plan, f)
                else if \<not> tc_apply t then (DryRun plan, f)
                else (case put_all_signed now planned (submissions s) of
                    None \<Rightarrow> (ToolThrew ''TypeError'', f)
                  | Some m \<Rightarrow> backed_up_write w_copy w_write (s\<lparr>submissions := m\<rparr>) plan f))))"

section \<open>\<open>fix-payload-version.mjs\<close>\<close>

text \<open>\<open>withoutVersion\<close>. A copy of a falsy payload is an empty object.\<close>

fun drop_version :: "val \<Rightarrow> val" where
  "drop_version (Obj m) = Obj (odelete ''version'' m)"
| "drop_version v = v"

definition withoutVersion :: "val \<Rightarrow> val" where
  "withoutVersion payload =
     (let p = js_or payload (Obj [])
      in Obj [(''pairing'', drop_version (fld p ''pairing'')), (''explorer'', fld p ''explorer'')])"

definition version_of :: "val \<Rightarrow> val" where
  "version_of payload = nullish (fld (fld payload ''pairing'') ''version'') Null"

text \<open>\<open>a === b\<close> on parsed values: arrays and objects of two documents are never the same.\<close>

definition identical :: "val \<Rightarrow> val \<Rightarrow> bool" where
  "identical a b \<longleftrightarrow> a = b \<and> (case a of Arr _ \<Rightarrow> False | Obj _ \<Rightarrow> False | _ \<Rightarrow> True)"

datatype version_skip = BlockDoesNotParse | ExtraAroundJson | DiffersBeyond

definition plan_version :: "submission \<Rightarrow> (version_skip + val) option" where
  "plan_version rec =
     (case text_or_none (sb_signed rec) of
        None \<Rightarrow> None
      | Some t \<Rightarrow>
          (case parseSignedBlock (Str t) of
             None \<Rightarrow> Some (Inl BlockDoesNotParse)
           | Some b \<Rightarrow>
               (case json_parse (pb_pairing b) of
                  None \<Rightarrow> Some (Inl ExtraAroundJson)
                | Some signed \<Rightarrow>
                    if identical (version_of signed) (version_of (sb_payload rec)) then None
                    else if stableStringify (withoutVersion signed) \<noteq> stableStringify (withoutVersion (sb_payload rec))
                    then Some (Inl DiffersBeyond)
                    else Some (Inr (version_of signed)))))"

text \<open>\<open>payload.pairing.version = v\<close>; the names in between are there when the plan was made.\<close>

fun set_member :: "string \<Rightarrow> val \<Rightarrow> val \<Rightarrow> val" where
  "set_member k v (Obj m) = Obj (owrite k v m)"
| "set_member k v x = x"

definition set_version :: "val \<Rightarrow> submission \<Rightarrow> submission" where
  "set_version v r =
     r\<lparr>sb_payload := set_member ''pairing'' (set_member ''version'' v (fld (sb_payload r) ''pairing'')) (sb_payload r)\<rparr>"

definition version_changes :: "submission list \<Rightarrow> (string \<times> val) list" where
  "version_changes rs =
     concat (map (\<lambda>r. case plan_version r of Some (Inr v) \<Rightarrow> [(sb_id r, v)] | _ \<Rightarrow> []) rs)"

fun put_versions :: "(string \<times> val) list \<Rightarrow> submission obj \<Rightarrow> submission obj option" where
  "put_versions [] m = Some m"
| "put_versions ((i, v) # vs) m =
     (case edit_record i (set_version v) m of None \<Rightarrow> None | Some m' \<Rightarrow> put_versions vs m')"

text \<open>\<open>order\<close>: how the records are sorted by id.\<close>

definition fix_payload_version ::
  "(submission list \<Rightarrow> submission list) \<Rightarrow> tool_call \<Rightarrow> io \<Rightarrow> io \<Rightarrow> shape json_file \<Rightarrow> (string \<times> val) list tool_end \<times> shape json_file" where
  "fix_payload_version order t w_copy w_write f =
     (if service_blocks t then (ServiceRunning, f)
      else (case parsed_store f of
          None \<Rightarrow> (ToolThrew ''store.json'', f)
        | Some s \<Rightarrow>
            (let planned = version_changes (order (ovalues (submissions s)))
             in if planned = [] then (NothingToDo planned, f)
                else if \<not> tc_apply t then (DryRun planned, f)
                else (case put_versions planned (submissions s) of
                    None \<Rightarrow> (ToolThrew ''TypeError'', f)
                  | Some m \<Rightarrow> backed_up_write w_copy w_write (s\<lparr>submissions := m\<rparr>) planned f))))"

section \<open>\<open>remove-listing.ts\<close>\<close>

text \<open>What cannot be read counts as an empty store.\<close>

definition store_or_empty :: "shape json_file \<Rightarrow> shape option" where
  "store_or_empty f = (case f of Doc s \<Rightarrow> Some s | Falsy \<Rightarrow> None | _ \<Rightarrow> Some EMPTY_SHAPE)"

text \<open>The id a found record carries; a member of every object has none.\<close>

definition found_ids :: "string list \<Rightarrow> submission obj \<Rightarrow> string list" where
  "found_ids ids m =
     concat (map (\<lambda>i. case oread m i of Own r \<Rightarrow> [sb_id r] | Inherited \<Rightarrow> [''undefined''] | Missing \<Rightarrow> []) ids)"

definition held_ids :: "string list \<Rightarrow> 'a history_doc doc_file \<Rightarrow> string list" where
  "held_ids ids f = (case f of Holds h \<Rightarrow> filter (\<lambda>i. oread (hd_nodes h) i \<noteq> Missing) ids | _ \<Rightarrow> [])"

definition purge :: "string list \<Rightarrow> 'a tracked obj \<Rightarrow> 'a tracked obj" where
  "purge ids m = fold odelete ids m"

definition purge_file :: "string list \<Rightarrow> io \<Rightarrow> io \<Rightarrow> 'a history_doc doc_file \<Rightarrow> bool \<times> 'a history_doc doc_file" where
  "purge_file ids w_copy w_write f =
     (case f of
        Holds h \<Rightarrow>
          if held_ids ids f = [] then (True, f)
          else (case (w_copy, w_write) of
              (Completed, Completed) \<Rightarrow> (True, Holds (h\<lparr>hd_nodes := purge ids (hd_nodes h)\<rparr>))
            | _ \<Rightarrow> (False, f))
      | _ \<Rightarrow> (True, f))"

record removal_io =
  ri_copy :: io
  ri_write :: io
  ri_hist_copy :: io
  ri_hist_write :: io
  ri_daily_copy :: io
  ri_daily_write :: io

definition remove_listing ::
  "tool_call \<Rightarrow> string list \<Rightarrow> removal_io \<Rightarrow> shape json_file \<Rightarrow> public_files \<Rightarrow> nat tool_end \<times> shape json_file \<times> public_files" where
  "remove_listing t ids w f fs =
     (if ids = [] then (ToolThrew ''usage'', f, fs)
      else if service_blocks t then (ServiceRunning, f, fs)
      else (case store_or_empty f of
          None \<Rightarrow> (ToolThrew ''store.json'', f, fs)
        | Some s \<Rightarrow>
            (let found = found_ids ids (submissions s); n = length found
             in if found = [] \<and> held_ids ids (pf_hist fs) = [] \<and> held_ids ids (pf_daily fs) = [] then (NothingToDo n, f, fs)
                else if \<not> tc_apply t then (DryRun n, f, fs)
                else if f = Absent then (ToolThrew ''copyFile'', f, fs)
                else (case backed_up_write (ri_copy w) (ri_write w) (s\<lparr>submissions := fold odelete found (submissions s)\<rparr>) n f of
                    (Applied _, f') \<Rightarrow>
                      (case purge_file ids (ri_hist_copy w) (ri_hist_write w) (pf_hist fs) of
                         (False, h) \<Rightarrow> (ToolThrew ''history.json'', f', fs\<lparr>pf_hist := h\<rparr>)
                       | (True, h) \<Rightarrow>
                           (case purge_file ids (ri_daily_copy w) (ri_daily_write w) (pf_daily fs) of
                              (False, d) \<Rightarrow> (ToolThrew ''history-daily.json'', f', fs\<lparr>pf_hist := h, pf_daily := d\<rparr>)
                            | (True, d) \<Rightarrow> (Applied n, f', fs\<lparr>pf_hist := h, pf_daily := d\<rparr>)))
                  | (e, f') \<Rightarrow> (e, f', fs)))))"

section \<open>\<open>admin.mjs\<close>\<close>

datatype admin_command = ListAll | Approve string "string option" | Reject string | Remove string | NoCommand

datatype admin_result = Listed "submission list" | NoSuchSubmission | Done | AdminThrew store_failure | NotARecord | Usage

definition with_nym :: "string option \<Rightarrow> string option \<Rightarrow> submission \<Rightarrow> submission" where
  "with_nym extra resolved r =
     (case text_or_none extra of
        Some x \<Rightarrow> r\<lparr>sb_paynym := Some (if starts_with ''+'' x then x else CHR ''+'' # x)\<rparr>
      | None \<Rightarrow>
          (if text_or_none (sb_paynym r) = None \<and> text_or_none resolved \<noteq> None then r\<lparr>sb_paynym := resolved\<rparr> else r))"

definition moderate :: "io \<Rightarrow> string \<Rightarrow> (submission \<Rightarrow> submission) \<Rightarrow> db \<Rightarrow> admin_result \<times> db" where
  "moderate w i f d =
     (case in_store Completed (getSubmission i) d of
        (Inl e, d1) \<Rightarrow> (AdminThrew e, d1)
      | (Inr Missing, d1) \<Rightarrow> (NoSuchSubmission, d1)
      | (Inr Inherited, d1) \<Rightarrow> (NotARecord, d1)
      | (Inr (Own r), d1) \<Rightarrow>
          (case in_store w (putSubmission (f r)) d1 of
             (Inl e, d2) \<Rightarrow> (AdminThrew e, d2)
           | (Inr _, d2) \<Rightarrow> (Done, d2)))"

text \<open>\<open>resolve\<close>: what the directory of names answers for a payment code. \<open>by_status\<close>: the sort of the list.\<close>

definition admin ::
  "(val \<Rightarrow> string option) \<Rightarrow> (submission list \<Rightarrow> submission list) \<Rightarrow> stamp \<Rightarrow> io \<Rightarrow> admin_command \<Rightarrow> db \<Rightarrow> admin_result \<times> db" where
  "admin resolve by_status now w cmd d =
     (case cmd of
        ListAll \<Rightarrow>
          (case in_store Completed listSubmissions d of
             (Inl e, d1) \<Rightarrow> (AdminThrew e, d1)
           | (Inr rs, d1) \<Rightarrow> (Listed (by_status rs), d1))
      | Approve i extra \<Rightarrow>
          moderate w i (\<lambda>r. (with_nym extra (resolve (case code_list r of c # _ \<Rightarrow> c | [] \<Rightarrow> Undef)) (r\<lparr>sb_status := ''approved''\<rparr>))
            \<lparr>sb_updated_at := Some now\<rparr>) d
      | Reject i \<Rightarrow> moderate w i (\<lambda>r. r\<lparr>sb_status := ''rejected'', sb_updated_at := Some now\<rparr>) d
      | Remove i \<Rightarrow>
          (case in_store w (deleteSubmission i) d of
             (Inl e, d1) \<Rightarrow> (AdminThrew e, d1)
           | (Inr _, d1) \<Rightarrow> (Done, d1))
      | NoCommand \<Rightarrow> (Usage, d))"

section \<open>\<open>audit-signed.mjs\<close>\<close>

datatype bucket = VERIFIED | FAILED | UNSIGNED

definition audit_network :: "submission \<Rightarrow> string" where
  "audit_network rec = (if sb_network rec = ''testnet'' then ''testnet'' else ''bitcoin'')"

text \<open>The codes of a listed record are texts. The first that verifies wins.\<close>

fun audit_codes ::
  "(string \<Rightarrow> string \<Rightarrow> string option) \<Rightarrow> (string \<Rightarrow> string \<Rightarrow> string \<Rightarrow> string \<Rightarrow> string + bool) \<Rightarrow> submission \<Rightarrow> string list \<Rightarrow> bucket" where
  "audit_codes derive checks rec [] = FAILED"
| "audit_codes derive checks rec (c # cs) =
     (let addrs = notificationAddresses derive c
      in if addrs = [] then audit_codes derive checks rec cs
         else if ok (verifySignedPayload derive checks (Str (the (sb_signed rec))) (Some (canonicalPairing (sb_payload rec)))
                (Some addrs) (audit_network rec))
         then VERIFIED
         else audit_codes derive checks rec cs)"

definition auditRecord ::
  "(string \<Rightarrow> string \<Rightarrow> string option) \<Rightarrow> (string \<Rightarrow> string \<Rightarrow> string \<Rightarrow> string \<Rightarrow> string + bool) \<Rightarrow> submission \<Rightarrow> bucket" where
  "auditRecord derive checks rec =
     (if text_or_none (sb_signed rec) = None then UNSIGNED
      else audit_codes derive checks rec (map str_of (code_list rec)))"

text \<open>The exit code: 1 when anything is not verified.\<close>

definition audit_exit ::
  "(string \<Rightarrow> string \<Rightarrow> string option) \<Rightarrow> (string \<Rightarrow> string \<Rightarrow> string \<Rightarrow> string \<Rightarrow> string + bool) \<Rightarrow> submission list \<Rightarrow> nat" where
  "audit_exit derive checks rs = (if list_all (\<lambda>r. auditRecord derive checks r = VERIFIED) rs then 0 else 1)"

section \<open>\<open>diagnose-signed.mjs\<close>\<close>

fun sortDeep :: "val \<Rightarrow> val" where
  "sortDeep (Arr xs) = Arr (map sortDeep xs)"
| "sortDeep (Obj m) = Obj (sort_key fst (map (\<lambda>p. (fst p, sortDeep (snd p))) m))"
| "sortDeep v = v"

definition deepEq :: "val \<Rightarrow> val \<Rightarrow> bool" where
  "deepEq a b \<longleftrightarrow> json_text (sortDeep a) = json_text (sortDeep b)"

fun firstDiff :: "string \<Rightarrow> string \<Rightarrow> nat option" where
  "firstDiff [] [] = None"
| "firstDiff [] b = Some 0"
| "firstDiff a [] = Some 0"
| "firstDiff (x # a) (y # b) = (if x \<noteq> y then Some 0 else map_option Suc (firstDiff a b))"

datatype text_match = ExactText | SameData nat | OtherValues nat

record diagnosis =
  dg_passes :: bool
  dg_sig_ok :: bool
  dg_bound :: bool
  dg_match :: text_match

text \<open>Nothing for a record without a block; \<open>Inl\<close> when the block does not parse. A signature check that throws reads as
  invalid.\<close>

definition diagnose ::
  "(string \<Rightarrow> string \<Rightarrow> string option) \<Rightarrow> (string \<Rightarrow> string \<Rightarrow> string \<Rightarrow> string \<Rightarrow> string + bool) \<Rightarrow> submission \<Rightarrow>
   (bool + diagnosis) option" where
  "diagnose derive checks rec =
     (case text_or_none (sb_signed rec) of
        None \<Rightarrow> None
      | Some t \<Rightarrow>
          (let net = audit_network rec; canon = canonicalPairing (sb_payload rec);
               passes = list_ex (\<lambda>c. ok (verifySignedPayload derive checks (Str t) (Some canon)
                 (Some (notificationAddresses derive (str_of c))) net)) (code_list rec)
           in Some (case parseSignedBlock (Str t) of
                None \<Rightarrow> Inl passes
              | Some b \<Rightarrow> Inr \<lparr>dg_passes = passes,
                  dg_sig_ok = (checks net (pb_message b) (pb_address b) (pb_signature b) = Inr True),
                  dg_bound = (case pb_code b of Some c \<Rightarrow> pb_address b \<in> set (notificationAddresses derive c) | None \<Rightarrow> False),
                  dg_match =
                    (case firstDiff (pb_pairing b) canon of
                       None \<Rightarrow> ExactText
                     | Some i \<Rightarrow>
                         (case (json_parse (pb_pairing b), json_parse canon) of
                            (Some x, Some y) \<Rightarrow> if truthy x \<and> truthy y \<and> deepEq x y then SameData i else OtherValues i
                          | _ \<Rightarrow> OtherValues i))\<rparr>)))"

section \<open>\<open>check-versions.ts\<close>\<close>

record version_row =
  vr_id :: string
  vr_detected :: val
  vr_declared :: val
  vr_verdict :: judgement

definition version_row_of :: "string \<Rightarrow> (string \<times> val) list \<Rightarrow> submission \<Rightarrow> version_row" where
  "version_row_of minimum published r =
     (let detected = js_or (case map_of published (sb_id r) of Some v \<Rightarrow> v | None \<Rightarrow> Undef) Null; declared = pairing_version r
      in \<lparr>vr_id = sb_id r, vr_detected = detected, vr_declared = declared, vr_verdict = judgeVersion detected declared minimum\<rparr>)"

text \<open>The rows in the order of the table, and the exit code.\<close>

definition check_versions ::
  "(submission list \<Rightarrow> submission list) \<Rightarrow> string \<Rightarrow> (string \<times> val) list \<Rightarrow> submission list \<Rightarrow> version_row list \<times> nat" where
  "check_versions order minimum published rs =
     (let rows = map (version_row_of minimum published) (order (filter (\<lambda>r. sb_status r = ''approved'') rs))
      in (rows, if list_all (\<lambda>v. j_ok (vr_verdict v)) rows then 0 else 1))"

section \<open>\<open>migrate-seed-to-store.mjs\<close>\<close>

definition slugOf :: "string \<Rightarrow> string" where
  "slugOf s = strip_end (CHR ''-'') (dropWhile (\<lambda>c. c = CHR ''-'') (dashed (to_lower s)))"

text \<open>The id without its network. The network is the plain word \<open>mainnet\<close> or \<open>testnet\<close>.\<close>

definition remainder :: "submission \<Rightarrow> string" where
  "remainder n = (let p = sb_network n @ ''-'' in if prefix p (sb_id n) then drop (length p) (sb_id n) else sb_id n)"

definition first_token :: "string \<Rightarrow> string" where
  "first_token r = takeWhile (\<lambda>c. c \<noteq> CHR ''-'') r"

definition deriveNames :: "submission list \<Rightarrow> string list" where
  "deriveNames nodes =
     (let rs = map remainder nodes;
          names = (if 1 < length nodes \<and> list_all (\<lambda>r. first_token r = first_token (hd rs)) rs \<and> list_all (\<lambda>r. CHR ''-'' \<in> set r) rs
                   then map (\<lambda>r. tl (dropWhile (\<lambda>c. c \<noteq> CHR ''-'') r)) rs else rs)
      in map2 (\<lambda>n nm. if sb_name n \<noteq> [] \<and> slugOf (sb_name n) = nm then sb_name n else nm) nodes names)"

definition groups_by_owner :: "submission list \<Rightarrow> (string \<times> submission list) list" where
  "groups_by_owner owned =
     fold (\<lambda>n m. let nym = the (sb_paynym n)
       in AList.update nym ((case map_of m nym of Some g \<Rightarrow> g | None \<Rightarrow> []) @ [n]) m) owned []"

definition names_of :: "submission list \<Rightarrow> (string \<times> string) list" where
  "names_of nodes =
     (let owned = filter (\<lambda>n. text_or_none (sb_paynym n) \<noteq> None) nodes;
          pairs = concat (map (\<lambda>(_, g). zip (map sb_id g) (deriveNames g)) (groups_by_owner owned)) @
            map (\<lambda>n. (sb_id n, if sb_name n \<noteq> [] then sb_name n else remainder n)) (filter (\<lambda>n. text_or_none (sb_paynym n) = None) nodes)
      in fold (\<lambda>(i, nm) m. AList.update i nm m) pairs [])"

definition name_of :: "(string \<times> string) list \<Rightarrow> submission \<Rightarrow> string" where
  "name_of names n = (case map_of names (sb_id n) of Some nm \<Rightarrow> nm | None \<Rightarrow> [])"

definition toRecord :: "submission \<Rightarrow> string \<Rightarrow> val list \<Rightarrow> stamp \<Rightarrow> submission" where
  "toRecord n name codes now =
     \<lparr>sb_id = sb_id n, sb_network = sb_network n, sb_name = name, sb_status = ''approved'', sb_codes = Some codes, sb_code = None,
      sb_paynym = text_or_none (sb_paynym n), sb_jurisdiction = text_or_none (sb_jurisdiction n),
      sb_country = text_or_none (sb_country n), sb_hardware = text_or_none (sb_hardware n), sb_payload = sb_payload n,
      sb_signed = text_or_none (sb_signed n), sb_last_probe = Undef, sb_created_at = Some now, sb_updated_at = Some now,
      sb_source = Some ''seed-migration''\<rparr>"

datatype migration_action = AlreadyStored | NoOwner | NoBlockToShow | Create submission

datatype migration_end =
    SeedUnreadable | StoreThrew store_failure | NoCodesFor "string list" | DuplicateName string | NameClash string string
  | BrokenMapping | Planned "migration_action list" | Migrated "migration_action list"

definition plan_migration :: "(string \<times> code_variant list) list \<Rightarrow> submission list \<Rightarrow> (string \<times> string) list \<Rightarrow> stamp \<Rightarrow> submission \<Rightarrow> migration_action" where
  "plan_migration mapping existing names now n =
     (if sb_id n \<in> sb_id ` set existing then AlreadyStored
      else (let codes = (case text_or_none (sb_paynym n) of
                  Some nym \<Rightarrow> (case map_of mapping nym of Some vs \<Rightarrow> map (\<lambda>v. Str (cv_code v)) vs | None \<Rightarrow> [])
                | None \<Rightarrow> []);
                node = toRecord n (name_of names n) codes now
            in if codes = [] then NoOwner else if \<not> hasSignedBlock node then NoBlockToShow else Create node))"

fun creations :: "migration_action list \<Rightarrow> submission list" where
  "creations [] = []"
| "creations (Create r # as) = r # creations as"
| "creations (_ # as) = creations as"

text \<open>The first name that was there before, and the first node whose name another record of its network has.\<close>

fun first_repeat :: "string list \<Rightarrow> string list \<Rightarrow> string option" where
  "first_repeat seen [] = None"
| "first_repeat seen (k # ks) = (if k \<in> set seen then Some k else first_repeat (k # seen) ks)"

definition name_key :: "(string \<times> string) list \<Rightarrow> submission \<Rightarrow> string" where
  "name_key names n = sb_network n @ '':'' @ slugOf (name_of names n)"

definition first_clash :: "(string \<times> string) list \<Rightarrow> submission list \<Rightarrow> submission list \<Rightarrow> (submission \<times> submission) option" where
  "first_clash names existing nodes =
     find (\<lambda>(r, n). sb_id r \<noteq> sb_id n \<and> sb_network r = sb_network n \<and> slugOf (sb_name r) = slugOf (name_of names n))
       (List.product existing nodes)"

fun put_created :: "(string \<Rightarrow> io) \<Rightarrow> submission list \<Rightarrow> db \<Rightarrow> (store_failure + unit) \<times> db" where
  "put_created w [] d = (Inr (), d)"
| "put_created w (r # rs) d =
     (case in_store (w (sb_id r)) (putSubmission r) d of
        (Inl e, d') \<Rightarrow> (Inl e, d')
      | (Inr _, d') \<Rightarrow> put_created w rs d')"

text \<open>A seed with an entry that is \<open>null\<close> ends as one that cannot be read. A PayNym named as a member of every object
  passes the first test and has no codes to map.\<close>

definition migrate ::
  "bool \<Rightarrow> stamp \<Rightarrow> (string \<Rightarrow> io) \<Rightarrow> seed_entry option list doc_file \<Rightarrow> (string \<times> code_variant list) list doc_file \<Rightarrow> db \<Rightarrow>
     migration_end \<times> db" where
  "migrate dry now w seed codes d =
     (case seed of
        Holds es \<Rightarrow>
          (let mapping = (case codes of Holds m \<Rightarrow> m | _ \<Rightarrow> []) in
           case in_store Completed listSubmissions d of
             (Inl e, d1) \<Rightarrow> (StoreThrew e, d1)
           | (Inr existing, d1) \<Rightarrow>
               if None \<in> set es then (SeedUnreadable, d1)
               else
                 (let nodes = map (\<lambda>e. se_rec (the e)) es;
                      owned = filter (\<lambda>n. text_or_none (sb_paynym n) \<noteq> None) nodes;
                      missing = filter (\<lambda>n. oread mapping (the (sb_paynym n)) = Missing) owned;
                      names = names_of nodes
                  in if missing \<noteq> [] then (NoCodesFor (map sb_id missing), d1)
                     else (case first_repeat [] (map (name_key names) nodes) of
                         Some k \<Rightarrow> (DuplicateName k, d1)
                       | None \<Rightarrow> (case first_clash names existing nodes of
                           Some (r, n) \<Rightarrow> (NameClash (sb_id n) (sb_id r), d1)
                         | None \<Rightarrow>
                             if list_ex (\<lambda>n. sb_id n \<notin> sb_id ` set existing \<and> oread mapping (the (sb_paynym n)) = Inherited) owned
                             then (BrokenMapping, d1)
                             else (let plan = map (plan_migration mapping existing names now) nodes
                               in if dry \<or> creations plan = [] then (Planned plan, d1)
                                  else (case put_created w (creations plan) d1 of
                                      (Inl e, d2) \<Rightarrow> (StoreThrew e, d2)
                                    | (Inr _, d2) \<Rightarrow> (Migrated plan, d2)))))))
      | _ \<Rightarrow> (SeedUnreadable, d))"

end
