(* ===== verification/MaintenanceProps.thy ===== *)
theory MaintenanceProps
  imports Maintenance
begin

text \<open>
  What the operator's commands guarantee: a payload is replaced only by one its owner signed, and a migration that went
  through has nothing left to do.
\<close>

section \<open>Edits of the store's file\<close>

lemma edit_record_cases:
  assumes "edit_record i f m = Some m'"
  shows "m' = m \<or> (\<exists>r. map_of m i = Some r \<and> m' = AList.update i (f r) m)"
  using assms by (auto simp: edit_record_def split: slot.splits)

lemma keys_update_old: "map_of m i = Some r \<Longrightarrow> map fst (AList.update i x m) = map fst m"
  by (induction m) (auto split: if_splits)

lemma backed_up_write_Applied:
  "backed_up_write w1 w2 s r f = (Applied x, f') \<Longrightarrow> x = r \<and> f' = Doc s"
  by (auto simp: backed_up_write_def split: io.splits)

section \<open>Signed payloads\<close>

lemma in_planned_of: "p \<in> set (planned_of xs) \<longleftrightarrow> Inr p \<in> set xs"
  by (induction xs rule: planned_of.induct) auto

text \<open>What a planned block was checked for.\<close>

definition attested_by ::
  "(string \<Rightarrow> string \<Rightarrow> string option) \<Rightarrow> (string \<Rightarrow> string \<Rightarrow> string \<Rightarrow> string \<Rightarrow> string + bool) \<Rightarrow> planned_block \<Rightarrow> submission \<Rightarrow> bool" where
  "attested_by derive checks p r \<longleftrightarrow>
     (\<exists>text b code. pl_signed p = trim text \<and> parseSignedBlock (Str text) = Some b \<and> pb_code b = Some code \<and>
        json_parse (pb_pairing b) = Some (pl_payload p) \<and> Str code \<in> set (code_list r) \<and>
        ok (verifySignedPayload derive checks (Str text) (Some (canonicalPairing (pl_payload p)))
          (Some (notificationAddresses derive code)) ''bitcoin''))"

lemma block_target_owned: "block_target pinned owned = Some r \<Longrightarrow> r \<in> set owned"
  by (auto simp: block_target_def split: option.splits list.splits dest: find_Some_mem)

lemma plan_block_attested:
  assumes "plan_block derive checks rs pinned content = Inr p"
  shows "\<exists>r \<in> set rs. sb_id r = pl_id p \<and> attested_by derive checks p r"
proof -
  obtain ct where c: "content = Some ct" using assms by (auto simp: plan_block_def split: option.splits)
  obtain signed nt where s: "(case repairSignedBlock derive checks (Str ct) of Some r \<Rightarrow> r | None \<Rightarrow> (ct, None)) = (signed, nt)"
    by (cases "case repairSignedBlock derive checks (Str ct) of Some r \<Rightarrow> r | None \<Rightarrow> (ct, None)")
  obtain b where b: "parseSignedBlock (Str signed) = Some b" using assms by (auto simp: plan_block_def c s split: option.splits)
  obtain code where k: "pb_code b = Some code" using assms by (auto simp: plan_block_def c s b split: option.splits)
  obtain payload where j: "json_parse (pb_pairing b) = Some payload"
    using assms by (auto simp: plan_block_def c s b k split: option.splits)
  let ?v = "verifySignedPayload derive checks (Str signed) (Some (canonicalPairing payload))
    (Some (notificationAddresses derive code)) ''bitcoin''"
  have v: "ok ?v" using assms by (cases ?v) (auto simp: plan_block_def c s b k j split: if_splits)
  then obtain x y where v': "?v = Accepted x y" by (cases ?v) auto
  obtain r where r: "r \<in> set (owned_records code rs)"
    "p = \<lparr>pl_id = sb_id r, pl_payload = payload, pl_signed = trim signed, pl_note = nt\<rparr>"
    using assms by (auto simp: plan_block_def c s b k j v' Let_def split: if_splits option.splits dest: block_target_owned)
  then show ?thesis using b k j v by (auto simp: owned_records_def attested_by_def)
qed

lemma put_signed_again [simp]: "put_signed now p (put_signed now q r) = put_signed now p r"
  by (simp add: put_signed_def)

lemma put_all_signed_from:
  assumes "put_all_signed now ps m = Some m'"
  shows "map fst m' = map fst m \<and>
    (\<forall>k r'. map_of m' k = Some r' \<longrightarrow>
       (\<exists>r. map_of m k = Some r \<and> (r' = r \<or> (\<exists>p \<in> set ps. pl_id p = k \<and> r' = put_signed now p r))))"
  using assms
proof (induction ps arbitrary: m)
  case (Cons p ps)
  from Cons.prems obtain m1 where m1: "edit_record (pl_id p) (put_signed now p) m = Some m1" "put_all_signed now ps m1 = Some m'"
    by (auto split: option.splits)
  note ih = Cons.IH [OF m1(2)]
  from edit_record_cases [OF m1(1)] show ?case
  proof (elim disjE exE conjE)
    assume "m1 = m"
    then show ?thesis using ih by simp blast
  next
    fix r0 assume r0: "map_of m (pl_id p) = Some r0" and u: "m1 = AList.update (pl_id p) (put_signed now p r0) m"
    have "map fst m1 = map fst m" by (simp add: u keys_update_old [OF r0])
    moreover have "\<exists>r. map_of m k = Some r \<and> (r1 = r \<or> (k = pl_id p \<and> r1 = put_signed now p r))" if "map_of m1 k = Some r1" for k r1
      using that r0 by (auto simp: u update_conv' split: if_splits)
    ultimately show ?thesis using ih by (fastforce)
  qed
qed simp

text \<open>C34: when signed payloads are applied, the store's file keeps every collection and every key, and a record that
  changed keeps everything but its payload, its block and its time stamp: the new payload is the one inside a signed
  block that verifies over it, for a payment code that is written in the block, derives the signing address, and
  already owned that record. The service was down or the operator insisted.\<close>

theorem applied_payloads_attested:
  assumes "apply_signed_payload derive checks t pinned contents now w_copy w_write (Doc s) = (Applied plan, f)"
    and "wf_obj (submissions s)" and "list_all (\<lambda>(k, r). sb_id r = k) (submissions s)"
  shows "\<not> service_blocks t \<and> tc_apply t \<and> (\<exists>m. f = Doc (s\<lparr>submissions := m\<rparr>) \<and> map fst m = map fst (submissions s) \<and>
    (\<forall>k r'. map_of m k = Some r' \<longrightarrow> (\<exists>r. map_of (submissions s) k = Some r \<and>
       (r' = r \<or> (\<exists>p. Inr p \<in> set plan \<and> r' = put_signed now p r \<and> attested_by derive checks p r)))))"
proof -
  let ?rs = "ovalues (submissions s)"
  let ?plan = "map (plan_block derive checks ?rs pinned) contents"
  from assms(1) obtain m where m: "put_all_signed now (planned_of ?plan) (submissions s) = Some m" and t: "\<not> service_blocks t" "tc_apply t"
    and w: "backed_up_write w_copy w_write (s\<lparr>submissions := m\<rparr>) ?plan (Doc s) = (Applied plan, f)"
    by (auto simp: apply_signed_payload_def parsed_store_def Let_def split: if_splits option.splits)
  from backed_up_write_Applied [OF w] have f: "plan = ?plan" "f = Doc (s\<lparr>submissions := m\<rparr>)" by auto
  have owner: "attested_by derive checks p r" if p: "Inr p \<in> set ?plan" and r: "map_of (submissions s) (pl_id p) = Some r" for p r
  proof -
    from p obtain c where "plan_block derive checks ?rs pinned c = Inr p" by (auto dest: sym)
    from plan_block_attested [OF this] obtain r1 where r1: "r1 \<in> set ?rs" "sb_id r1 = pl_id p" "attested_by derive checks p r1" by auto
    then obtain k where "(k, r1) \<in> set (submissions s)" by (auto simp: ovalues_def)
    moreover from this have "k = pl_id p" using assms(3) r1(2) by (auto simp: list_all_iff)
    ultimately have "map_of (submissions s) (pl_id p) = Some r1" using set_obj_map_of [OF assms(2)] by simp
    with r r1(3) show ?thesis by simp
  qed
  have "\<exists>r. map_of (submissions s) k = Some r \<and>
      (r' = r \<or> (\<exists>p. Inr p \<in> set plan \<and> r' = put_signed now p r \<and> attested_by derive checks p r))"
    if "map_of m k = Some r'" for k r'
  proof -
    from put_all_signed_from [OF m] that obtain r where "map_of (submissions s) k = Some r"
      "r' = r \<or> (\<exists>p \<in> set (planned_of ?plan). pl_id p = k \<and> r' = put_signed now p r)" by blast
    then show ?thesis using owner unfolding f(1) by (metis in_planned_of)
  qed
  then show ?thesis using t put_all_signed_from [OF m] f by auto
qed

section \<open>The migration\<close>

lemma in_creations: "r \<in> set (creations as) \<longleftrightarrow> Create r \<in> set as"
  by (induction as rule: creations.induct) auto

lemma first_repeat_None: "first_repeat seen ks = None \<longleftrightarrow> distinct ks \<and> set seen \<inter> set ks = {}"
  by (induction ks arbitrary: seen) auto

lemma created_record:
  assumes "plan_migration mapping existing names now n = Create r"
  shows "sb_id r = sb_id n \<and> sb_network r = sb_network n \<and> sb_name r = name_of names n \<and> sb_id n \<notin> sb_id ` set existing"
  using assms by (auto simp: plan_migration_def toRecord_def Let_def split: if_splits)

lemma normalised_as [simp]:
  "sb_id (normaliseSubmission r) = sb_id r" "sb_network (normaliseSubmission r) = sb_network r"
  "sb_name (normaliseSubmission r) = sb_name r"
  by (simp_all add: normaliseSubmission_def Let_def)

text \<open>The store after some records were put: every one of its records was there or is one of them, the ids of both are there,
  and each record is under its id.\<close>

definition grown_with :: "submission list \<Rightarrow> submission list \<Rightarrow> shape \<Rightarrow> bool" where
  "grown_with old new s \<longleftrightarrow> list_all (\<lambda>(k, r). sb_id r = k) (submissions s) \<and>
     set (ovalues (submissions s)) \<subseteq> set old \<union> normaliseSubmission ` set new \<and>
     sb_id ` (set old \<union> set new) \<subseteq> sb_id ` set (ovalues (submissions s))"

lemma set_update_pairs: "set (AList.update k v m) \<subseteq> insert (k, v) (set m)"
  by (induction m) auto

lemma keyed_ids: "list_all (\<lambda>(k, x). sb_id x = k) m \<Longrightarrow> sb_id ` set (ovalues m) = fst ` set m"
  by (induction m) (auto simp: ovalues_def)

lemma grown_with_put:
  assumes "grown_with old new s" "sb_id r \<noteq> ''__proto__''"
  shows "grown_with old (r # new) (s\<lparr>submissions := owrite (sb_id r) (normaliseSubmission r) (submissions s)\<rparr>)"
proof -
  let ?m = "AList.update (sb_id r) (normaliseSubmission r) (submissions s)"
  have keyed: "list_all (\<lambda>(k, x). sb_id x = k) ?m"
    using assms(1) set_update_pairs [of "sb_id r" "normaliseSubmission r" "submissions s"]
    by (auto simp: grown_with_def list_all_iff)
  have old: "sb_id ` set (ovalues (submissions s)) = fst ` set (submissions s)"
    by (rule keyed_ids) (use assms(1) in \<open>simp add: grown_with_def\<close>)
  note ids = keyed_ids [OF keyed]
  have "set (ovalues ?m) \<subseteq> insert (normaliseSubmission r) (set (ovalues (submissions s)))"
    using set_update_pairs [of "sb_id r" "normaliseSubmission r" "submissions s"] by (auto simp: ovalues_def)
  then show ?thesis using assms keyed ids old by (auto simp: grown_with_def owrite_def dom_update)
qed

lemma put_created_grows:
  assumes "put_created w rs d = (Inr u, d')" "fst (load_store d) = Inr s" "grown_with old new s"
    and "list_all (\<lambda>r. sb_id r \<noteq> ''__proto__'') rs"
  shows "\<exists>s'. fst (load_store d') = Inr s' \<and> grown_with old (rev rs @ new) s'"
  using assms
proof (induction rs arbitrary: d s new)
  case (Cons r rs)
  obtain d1 where l: "load_store d = (Inr s, d1)" using Cons.prems(2) by (cases "load_store d") auto
  from Cons.prems(1) obtain x d2 where p: "in_store (w (sb_id r)) (putSubmission r) d = (Inr x, d2)" "put_created w rs d2 = (Inr u, d')"
    by (auto split: prod.splits sum.splits)
  let ?s = "s\<lparr>submissions := owrite (sb_id r) (normaliseSubmission r) (submissions s)\<rparr>"
  have "db_cache d2 = Some ?s"
    using p(1) l by (auto simp: in_store_def putSubmission_def Let_def split: if_splits io.splits)
  then have l2: "fst (load_store d2) = Inr ?s" by (simp add: load_store_def)
  from Cons.IH [OF p(2) l2 grown_with_put [OF Cons.prems(3)]] Cons.prems(4) show ?case by simp
qed auto

definition seed_listings :: "seed_entry option list \<Rightarrow> submission list" where
  "seed_listings es = map (\<lambda>e. se_rec (the e)) es"

lemma list_step:
  assumes "fst (load_store d) = Inr s"
  shows "\<exists>d1. in_store Completed listSubmissions d = (Inr (ovalues (submissions s)), d1) \<and> fst (load_store d1) = Inr s"
proof -
  obtain d0 where "load_store d = (Inr s, d0)" using assms by (cases "load_store d") auto
  then show ?thesis by (simp add: in_store_def listSubmissions_def load_store_def)
qed

lemma no_clash_after:
  assumes g: "grown_with old new s" and c: "first_clash names old nodes = None"
    and d: "distinct (map (name_key names) nodes)"
    and n: "\<And>r. r \<in> set new \<Longrightarrow> \<exists>n \<in> set nodes. sb_id r = sb_id n \<and> sb_network r = sb_network n \<and> sb_name r = name_of names n"
  shows "first_clash names (ovalues (submissions s)) nodes = None"
proof -
  have no: "\<not> (sb_id r \<noteq> sb_id n \<and> sb_network r = sb_network n \<and> slugOf (sb_name r) = slugOf (name_of names n))"
    if r: "r \<in> set (ovalues (submissions s))" and n': "n \<in> set nodes" for r n
  proof -
    from g r consider "r \<in> set old" | r0 where "r0 \<in> set new" "r = normaliseSubmission r0" by (auto simp: grown_with_def)
    then show ?thesis
    proof cases
      case 1
      then show ?thesis using c n' by (auto simp: first_clash_def find_None_iff)
    next
      case 2
      from n [OF 2(1)] obtain n0 where n0: "n0 \<in> set nodes" "sb_id r = sb_id n0" "sb_network r = sb_network n0"
        "sb_name r = name_of names n0" by (auto simp: 2(2))
      have "n0 = n" if "sb_network r = sb_network n" "slugOf (sb_name r) = slugOf (name_of names n)"
      proof (rule inj_onD [of "name_key names" "set nodes"])
        show "inj_on (name_key names) (set nodes)" using d by (simp add: distinct_map)
        show "name_key names n0 = name_key names n" using n0 that by (simp add: name_key_def)
      qed (use n0 n' in simp_all)
      then show ?thesis using n0 by auto
    qed
  qed
  then show ?thesis by (auto simp: first_clash_def find_None_iff)
qed

lemma plan_again:
  assumes "plan_migration mapping old names now n = a" and "sb_id ` set old \<subseteq> ids" "\<And>r. a = Create r \<Longrightarrow> sb_id n \<in> ids"
    and "ids = sb_id ` set old'"
  shows "\<not> (\<exists>r. plan_migration mapping old' names now' n = Create r)"
  using assms by (auto simp: plan_migration_def toRecord_def hasSignedBlock_def Let_def split: if_splits)

text \<open>A migration that was carried out leaves nothing to migrate: run again over the same seed and codes, at any later
  time, it ends with a plan that creates no record, and raises none of the name conflicts that its own records could
  have made.\<close>

theorem migration_rerun_creates_nothing:
  assumes "migrate False now w (Holds es) codes d = (Migrated plan, d1)"
    and "fst (load_store d) = Inr s" and "list_all (\<lambda>(k, r). sb_id r = k) (submissions s)"
    and "list_all (\<lambda>n. sb_id n \<noteq> ''__proto__'') (seed_listings es)"
  shows "\<exists>plan2 d2. migrate dry now' w' (Holds es) codes d1 = (Planned plan2, d2) \<and> creations plan2 = []"
proof -
  define mapping where "mapping = (case codes of Holds m \<Rightarrow> m | _ \<Rightarrow> [])"
  define nodes where "nodes = seed_listings es"
  define owned where "owned = filter (\<lambda>n. text_or_none (sb_paynym n) \<noteq> None) nodes"
  define names where "names = names_of nodes"
  note defs = mapping_def [symmetric] nodes_def [symmetric] owned_def [symmetric] names_def [symmetric]
  let ?old = "ovalues (submissions s)"
  let ?plan = "map (plan_migration mapping ?old names now) nodes"
  obtain d0 where l0: "in_store Completed listSubmissions d = (Inr ?old, d0)" "fst (load_store d0) = Inr s"
    using list_step [OF assms(2)] by auto
  note run = assms(1) [unfolded migrate_def Let_def l0(1) doc_file.case prod.case sum.case,
      folded seed_listings_def, unfolded defs]
  from run have none: "None \<notin> set es" by (auto split: if_splits)
  from run none have miss: "filter (\<lambda>n. oread mapping (the (sb_paynym n)) = Missing) owned = []" by (auto split: if_splits)
  from run none miss have rep: "first_repeat [] (map (name_key names) nodes) = None" by (auto split: if_splits option.splits)
  from run none miss rep have clash: "first_clash names ?old nodes = None" by (auto split: if_splits option.splits)
  from run none miss rep clash have broken: "\<not> list_ex (\<lambda>n. sb_id n \<notin> sb_id ` set ?old \<and> oread mapping (the (sb_paynym n)) = Inherited) owned"
    by (auto split: if_splits)
  from run none miss rep clash broken obtain u where put: "put_created w (creations ?plan) d0 = (Inr u, d1)"
    by (auto split: if_splits prod.splits sum.splits)
  have made: "\<exists>n \<in> set nodes. plan_migration mapping ?old names now n = Create r" if "r \<in> set (creations ?plan)" for r
    using that by (auto simp: in_creations dest: sym)
  have node: "\<exists>n \<in> set nodes. sb_id r = sb_id n \<and> sb_network r = sb_network n \<and> sb_name r = name_of names n"
    if "r \<in> set (creations ?plan)" for r using made [OF that] created_record by blast
  have "grown_with ?old [] s" using assms(3) by (auto simp: grown_with_def)
  moreover have "list_all (\<lambda>r. sb_id r \<noteq> ''__proto__'') (creations ?plan)"
    using assms(4) node by (fastforce simp: list_all_iff nodes_def)
  ultimately obtain s' where s': "fst (load_store d1) = Inr s'" "grown_with ?old (rev (creations ?plan)) s'"
    using put_created_grows [OF put l0(2), of ?old "[]"] by auto
  let ?new = "ovalues (submissions s')"
  obtain d2 where l1: "in_store Completed listSubmissions d1 = (Inr ?new, d2)" using list_step [OF s'(1)] by auto
  have sub: "sb_id ` set ?old \<subseteq> sb_id ` set ?new" and inn: "r \<in> set (creations ?plan) \<Longrightarrow> sb_id r \<in> sb_id ` set ?new" for r
    using s'(2) by (auto simp: grown_with_def)
  have clash': "first_clash names ?new nodes = None"
    using no_clash_after [OF s'(2) clash] rep node by (simp add: first_repeat_None)
  have broken': "\<not> list_ex (\<lambda>n. sb_id n \<notin> sb_id ` set ?new \<and> oread mapping (the (sb_paynym n)) = Inherited) owned"
    using broken sub by (auto simp: list_ex_iff)
  have "Create r \<notin> set (map (plan_migration mapping ?new names now') nodes)" for r
  proof
    assume "Create r \<in> set (map (plan_migration mapping ?new names now') nodes)"
    then obtain n where n: "n \<in> set nodes" "plan_migration mapping ?new names now' n = Create r" by (auto dest: sym)
    have "sb_id n \<in> sb_id ` set ?new" if "plan_migration mapping ?old names now n = Create r0" for r0
      using inn [of r0] created_record [OF that] n(1) that by (force simp: in_creations)
    with plan_again [OF refl sub _ refl, of mapping names now n now'] n(2) show False by blast
  qed
  then have "creations (map (plan_migration mapping ?new names now') nodes) = []"
    using in_creations by (metis list.set_intros(1) neq_Nil_conv)
  moreover have "migrate dry now' w' (Holds es) codes d1 = (Planned (map (plan_migration mapping ?new names now') nodes), d2)"
    unfolding migrate_def Let_def l1 doc_file.case prod.case sum.case seed_listings_def [symmetric] defs
    by (simp only: none miss rep clash' broken' option.case if_False if_True simp_thms calculation)
  ultimately show ?thesis by blast
qed

section \<open>Runs\<close>

definition ex_moved :: val where
  "ex_moved = Obj [(''pairing'', Obj [(''type'', Str ''dojo.api''), (''url'', Str ''u2'')]), (''explorer'', Null)]"

definition ex_owner_block :: string where
  "ex_owner_block = signed_block (canonicalPairing ex_moved @ [newline, newline] @ ''BIP47: PM8Tbbbb'') ''1PM8Tbbbb'' (replicate 80 (CHR ''A''))"

definition ex_mine :: submission where
  "ex_mine = \<lparr>sb_id = ''mainnet-a'', sb_network = ''mainnet'', sb_name = ''a'', sb_status = ''approved'',
     sb_codes = Some [Str ''PM8Tbbbb''], sb_code = None, sb_paynym = Some ''+a'', sb_jurisdiction = None, sb_country = None, sb_hardware = None,
     sb_payload = Null, sb_signed = Some ''BEGIN BITCOIN SIGNED MESSAGE BEGIN BITCOIN SIGNATURE'', sb_last_probe = Null,
     sb_created_at = None, sb_updated_at = None, sb_source = None\<rparr>"

definition ex_call :: tool_call where
  "ex_call = \<lparr>tc_apply = True, tc_force = False, tc_active = ''inactive''\<rparr>"

definition ex_one :: shape where
  "ex_one = EMPTY_SHAPE\<lparr>submissions := [(''mainnet-a'', ex_mine)]\<rparr>"

definition ex_applied :: "(block_refusal + planned_block) list tool_end \<times> shape json_file" where
  "ex_applied = apply_signed_payload (\<lambda>c k. Some (''1'' @ c)) (\<lambda>t a s k. Inr True) ex_call None [Some ex_owner_block] (Instant 5)
     Completed Completed (Doc ex_one)"

lemma ex_applied_runs:
  "case ex_applied of (Applied plan, Doc s) \<Rightarrow> map (\<lambda>(k, r). sb_payload r) (submissions s) = [ex_moved] | _ \<Rightarrow> False"
  by code_simp

theorem applied_payloads_attested_witness:
  "\<exists>m p r. snd ex_applied = Doc (ex_one\<lparr>submissions := m\<rparr>) \<and> map_of m ''mainnet-a'' = Some (put_signed (Instant 5) p r) \<and>
     attested_by (\<lambda>c k. Some (''1'' @ c)) (\<lambda>t a s k. Inr True) p r"
proof -
  obtain plan s where a: "ex_applied = (Applied plan, Doc s)" and p: "map (\<lambda>(k, r). sb_payload r) (submissions s) = [ex_moved]"
    using ex_applied_runs by (auto split: prod.splits tool_end.splits json_file.splits)
  have w: "wf_obj (submissions ex_one)" "list_all (\<lambda>(k, r). sb_id r = k) (submissions ex_one)" by code_simp+
  from applied_payloads_attested [OF a [unfolded ex_applied_def] w] obtain m where m: "Doc s = Doc (ex_one\<lparr>submissions := m\<rparr>)"
    "map fst m = map fst (submissions ex_one)" and c: "\<forall>k r'. map_of m k = Some r' \<longrightarrow> (\<exists>r. map_of (submissions ex_one) k = Some r \<and>
       (r' = r \<or> (\<exists>p. Inr p \<in> set plan \<and> r' = put_signed (Instant 5) p r \<and>
          attested_by (\<lambda>c k. Some (''1'' @ c)) (\<lambda>t a s k. Inr True) p r)))" by blast
  from m p obtain r' where r': "m = [(''mainnet-a'', r')]" "sb_payload r' = ex_moved"
    by (cases m) (auto simp: ex_one_def)
  from c [THEN spec [of _ "''mainnet-a''"], THEN spec [of _ r']] r' obtain q where
    "r' = put_signed (Instant 5) q ex_mine" "attested_by (\<lambda>c k. Some (''1'' @ c)) (\<lambda>t a s k. Inr True) q ex_mine"
    by (auto simp: ex_one_def ex_mine_def ex_moved_def)
  then have "map_of m ''mainnet-a'' = Some (put_signed (Instant 5) q ex_mine)" using r'(1) by simp
  with \<open>attested_by _ _ q ex_mine\<close> a m(1) show ?thesis by (metis snd_conv)
qed

definition ex_seed :: "seed_entry option list" where
  "ex_seed = [Some \<lparr>se_rec = ex_mine\<lparr>sb_id := ''mainnet-b''\<rparr>, se_paymentCode = None\<rparr>]"

definition ex_codes :: "(string \<times> code_variant list) list doc_file" where
  "ex_codes = Holds [(''+a'', [\<lparr>cv_code = ''PM8Tbbbb'', cv_segwit = False\<rparr>])]"

definition ex_empty :: db where
  "ex_empty = \<lparr>db_file = Doc EMPTY_SHAPE, db_cache = Some EMPTY_SHAPE\<rparr>"

lemma ex_migrates:
  "case migrate False (Instant 5) (\<lambda>k. Completed) (Holds ex_seed) ex_codes ex_empty of
     (Migrated plan, d) \<Rightarrow> length (creations plan) = 1 | _ \<Rightarrow> False"
  by code_simp

theorem migration_rerun_creates_nothing_witness:
  "\<exists>plan2. fst (migrate False (Instant 9) (\<lambda>k. Completed) (Holds ex_seed) ex_codes
      (snd (migrate False (Instant 5) (\<lambda>k. Completed) (Holds ex_seed) ex_codes ex_empty))) = Planned plan2 \<and> creations plan2 = []"
proof -
  obtain plan d where m: "migrate False (Instant 5) (\<lambda>k. Completed) (Holds ex_seed) ex_codes ex_empty = (Migrated plan, d)"
    using ex_migrates by (auto split: prod.splits migration_end.splits)
  have l: "fst (load_store ex_empty) = Inr EMPTY_SHAPE" by (simp add: load_store_def ex_empty_def)
  have k: "list_all (\<lambda>(k, r). sb_id r = k) (submissions EMPTY_SHAPE)" by (simp add: EMPTY_SHAPE_def)
  have n: "list_all (\<lambda>n. sb_id n \<noteq> ''__proto__'') (seed_listings ex_seed)" by code_simp
  from migration_rerun_creates_nothing [OF m l k n, of False "Instant 9" "\<lambda>k. Completed"] m show ?thesis by auto
qed

text \<open>A store's file that does not parse counts as an empty one, so removing what only the history still knows writes an
  empty store over it.\<close>

definition ex_history :: "check history_doc doc_file" where
  "ex_history = Holds \<lparr>hd_generated_at = None, hd_limit = 144, hd_nodes = [(''mainnet-a'', \<lparr>tr_series = [], tr_retired = None\<rparr>)]\<rparr>"

lemma unreadable_store_is_emptied:
  "fst (snd (remove_listing ex_call [''mainnet-a'']
      \<lparr>ri_copy = Completed, ri_write = Completed, ri_hist_copy = Completed, ri_hist_write = Completed,
        ri_daily_copy = Completed, ri_daily_write = Completed\<rparr> Garbled
      \<lparr>pf_seed = NoFile, pf_codes = NoFile, pf_out = NoFile, pf_pending = NoFile, pf_hist = ex_history, pf_daily = NoFile\<rparr>))
   = Doc EMPTY_SHAPE"
  by code_simp

end
