(* ===== verification/Installer.thy ===== *)
theory Installer
  imports Maintenance Probe
begin

text \<open>
  \<open>scripts/installer-lib.mjs\<close>: what the installer, the reconciler and the uninstaller share. The validators, the edits of
  torrc, the rendering of the system files with the values read back from a rendered one, the documents of the
  operator, and the collector of a pasted block. The banner and the colours are left out.
\<close>

section \<open>Patterns on lines\<close>

text \<open>What the dot matches, and \<open>$&\<close> and the other patterns of a replacement text; there are no groups.\<close>

definition line_text :: "char \<Rightarrow> bool" where
  "line_text c \<longleftrightarrow> c \<noteq> CHR 0x0A \<and> c \<noteq> CHR 0x0D"

fun expand :: "string \<Rightarrow> string \<Rightarrow> string \<Rightarrow> string \<Rightarrow> string" where
  "expand hit before after (d # c # cs) =
     (if d = CHR ''$'' then
        (if c = CHR ''$'' then CHR ''$'' # expand hit before after cs
         else if c = CHR ''&'' then hit @ expand hit before after cs
         else if c = CHR 0x60 then before @ expand hit before after cs
         else if c = CHR 0x27 then after @ expand hit before after cs
         else d # expand hit before after (c # cs))
      else d # expand hit before after (c # cs))"
| "expand hit before after cs = cs"

text \<open>\<open>s.replace(re, r)\<close> with \<open>g\<close>: \<open>m\<close> says how long a match is at a place, given what is before it. No pattern used here
  matches nothing.\<close>

function gsub :: "(string \<Rightarrow> string \<Rightarrow> nat option) \<Rightarrow> string \<Rightarrow> string \<Rightarrow> string \<Rightarrow> string" where
  "gsub m r before [] = []"
| "gsub m r before (c # cs) =
     (case m before (c # cs) of
        Some (Suc k) \<Rightarrow>
          expand (c # take k cs) before (drop k cs) r @ gsub m r (before @ c # take k cs) (drop k cs)
      | _ \<Rightarrow> c # gsub m r (before @ [c]) cs)"
  by pat_completeness auto
termination by (relation "measure (\<lambda>(_, _, _, s). length s)") auto

definition line_start :: "string \<Rightarrow> bool" where
  "line_start before \<longleftrightarrow> before = [] \<or> \<not> line_text (last before)"

text \<open>\<open>/^K.*$/gm\<close> and \<open>/K.*/g\<close>.\<close>

definition whole_line :: "string \<Rightarrow> string \<Rightarrow> string \<Rightarrow> nat option" where
  "whole_line key before s = (if line_start before \<and> prefix key s then Some (length (takeWhile line_text s)) else None)"

definition to_line_end :: "string \<Rightarrow> string \<Rightarrow> string \<Rightarrow> nat option" where
  "to_line_end key before s = (if prefix key s then Some (length (takeWhile line_text s)) else None)"

definition same_text :: "string \<Rightarrow> string \<Rightarrow> string \<Rightarrow> nat option" where
  "same_text key before s = (if prefix key s then Some (length key) else None)"

text \<open>\<open>/K"[^"]*"/g\<close>.\<close>

definition quoted_after :: "string \<Rightarrow> string \<Rightarrow> string \<Rightarrow> nat option" where
  "quoted_after key before s =
     (case drop_text (key @ [CHR 0x22]) s of
        Some r \<Rightarrow> (case dropWhile (\<lambda>c. c \<noteq> CHR 0x22) r of
            [] \<Rightarrow> None
          | _ \<Rightarrow> Some (length key + 2 + length (takeWhile (\<lambda>c. c \<noteq> CHR 0x22) r)))
      | None \<Rightarrow> None)"

text \<open>The first match of a pattern that begins with \<open>^\<close>.\<close>

fun at_line_start :: "(string \<Rightarrow> 'a option) \<Rightarrow> bool \<Rightarrow> string \<Rightarrow> 'a option" where
  "at_line_start f start [] = (if start then f [] else None)"
| "at_line_start f start (c # cs) =
     (case (if start then f (c # cs) else None) of
        Some x \<Rightarrow> Some x
      | None \<Rightarrow> at_line_start f (\<not> line_text c) cs)"

section \<open>Validators\<close>

definition isPaymentCode :: "val \<Rightarrow> bool" where
  "isPaymentCode v \<longleftrightarrow> is_str v \<and> starts_with ''PM8T'' (str_of v) \<and> length (str_of v) = 116 \<and> list_all is_b58 (str_of v)"

definition drop_scheme :: "string \<Rightarrow> string" where
  "drop_scheme s =
     (if prefix ''https://'' s then drop 8 s else if prefix ''http://'' s then drop 7 s else s)"

text \<open>\<open>/\/.*$/\<close>: from the first slash after which no line ends.\<close>

fun cut_path :: "string \<Rightarrow> string" where
  "cut_path [] = []"
| "cut_path (c # cs) = (if c = CHR ''/'' \<and> list_all line_text cs then [] else c # cut_path cs)"

definition onionHostOf :: "val \<Rightarrow> string" where
  "onionHostOf v = cut_path (drop_scheme (trim (text_or_empty v)))"

definition onion_label :: "char \<Rightarrow> bool" where
  "onion_label c \<longleftrightarrow> (let n = of_char c :: nat in (97 \<le> n \<and> n \<le> 122) \<or> (50 \<le> n \<and> n \<le> 55))"

definition is_onion :: "string \<Rightarrow> bool" where
  "is_onion s \<longleftrightarrow> length s = 62 \<and> list_all onion_label (take 56 s) \<and> drop 56 s = ''.onion''"

definition isOnionHost :: "val \<Rightarrow> bool" where
  "isOnionHost v \<longleftrightarrow> is_str v \<and> is_onion (cut_path (drop_scheme (trim (str_of v))))"

definition isNodeName :: "val \<Rightarrow> bool" where
  "isNodeName v \<longleftrightarrow> slugOf (text_or_empty v) \<noteq> [] \<and> length (trim (js_text v)) \<le> 40"

datatype pairing_error = NotJsonText | NotADojo | NotAnOnionUrl | NoApikey | TestnetExpected | MainnetExpected

definition onion_url :: "string \<Rightarrow> bool" where
  "onion_url u \<longleftrightarrow> prefix ''http://'' u \<and> 69 \<le> length u \<and> list_all onion_label (take 56 (drop 7 u)) \<and>
     prefix ''.onion'' (drop 63 u)"

definition parsePairing :: "url_parser \<Rightarrow> string \<Rightarrow> string option \<Rightarrow> pairing_error + val" where
  "parsePairing parse text network =
     (case json_parse text of
        None \<Rightarrow> Inl NotJsonText
      | Some p \<Rightarrow>
          (let pairing = fld p ''pairing''; url = fld pairing ''url''
           in if fld pairing ''type'' \<noteq> Str ''dojo.api'' then Inl NotADojo
              else if \<not> is_str url \<or> \<not> onion_url (str_of url) then Inl NotAnOnionUrl
              else if \<not> truthy (fld pairing ''apikey'') then Inl NoApikey
              else (case (text_or_none network, pairingNetwork parse (str_of url)) of
                  (Some n, Some looks) \<Rightarrow>
                    if looks \<noteq> n then Inl (if n = ''testnet'' then TestnetExpected else MainnetExpected) else Inr p
                | _ \<Rightarrow> Inr p)))"

definition operatorMessage :: "string \<Rightarrow> string \<Rightarrow> string" where
  "operatorMessage onionHost paymentCode = ''http://'' @ onionHost @ ''/'' @ [newline, newline] @ ''BIP47: '' @ paymentCode"

section \<open>torrc\<close>

definition TORRC_MARK :: string where
  "TORRC_MARK = ''# mise hidden service (managed by scripts/install.mjs)''"

definition torrcBlock :: "string \<Rightarrow> string" where
  "torrcBlock hsDir =
     TORRC_MARK @ [newline] @ ''HiddenServiceDir '' @ hsDir @ [newline] @ ''HiddenServicePort 80 127.0.0.1:8080'' @ [newline]"

text \<open>\<open>(?:HiddenService\S* [^\n]*\n?)*\<close>: what is left after the lines it takes.\<close>

function drop_services :: "string \<Rightarrow> string" where
  "drop_services s =
     (case drop_text ''HiddenService'' s of
        None \<Rightarrow> s
      | Some r \<Rightarrow>
          (case dropWhile (\<lambda>c. \<not> is_ws c) r of
             c # u \<Rightarrow>
               if c = CHR '' '' then drop_services (drop 1 (dropWhile (\<lambda>c. c \<noteq> newline) u)) else s
           | [] \<Rightarrow> s))"
  by pat_completeness auto
termination
proof (relation "measure length", goal_cases)
  case (2 s r c u)
  from 2(1) have "length r \<le> length s" by (auto simp: drop_text_def split: if_splits)
  moreover have "length (c # u) \<le> length r" using length_dropWhile_le [of "\<lambda>c. \<not> is_ws c" r] 2(2) by simp
  moreover have "length (dropWhile (\<lambda>c. c \<noteq> newline) u) \<le> length u" by (rule length_dropWhile_le)
  ultimately show ?case by simp
qed simp

declare drop_services.simps [simp del]

text \<open>The text before the first mark that ends its line, and the text after the block.\<close>

definition managed_block :: "string \<Rightarrow> (string \<times> string) option" where
  "managed_block existing =
     (case find_text (TORRC_MARK @ [newline]) existing of
        None \<Rightarrow> None
      | Some i \<Rightarrow> Some (take i existing, drop_services (drop (i + length TORRC_MARK + 1) existing)))"

definition mergeTorrc :: "string \<Rightarrow> string \<Rightarrow> string" where
  "mergeTorrc existing hsDir =
     (case managed_block existing of
        Some (before, after) \<Rightarrow>
          before @ expand (take (length existing - length before - length after) (drop (length before) existing)) before after (torrcBlock hsDir) @ after
      | None \<Rightarrow> strip_end newline existing @ [newline, newline] @ torrcBlock hsDir)"

text \<open>\<open>replace(/\n{3,}/g, "\n\n")\<close>: the number says how many line ends were just written.\<close>

fun squeeze_lines :: "nat \<Rightarrow> string \<Rightarrow> string" where
  "squeeze_lines k [] = []"
| "squeeze_lines k (c # cs) =
     (if c = newline then (if k < 2 then c # squeeze_lines (Suc k) cs else squeeze_lines k cs)
      else c # squeeze_lines 0 cs)"

definition stripTorrc :: "string \<Rightarrow> string \<times> bool" where
  "stripTorrc existing =
     (case managed_block existing of
        None \<Rightarrow> (existing, False)
      | Some (before, after) \<Rightarrow>
          (dropWhile (\<lambda>c. c = newline) (squeeze_lines 0 (strip_end newline before @ newline # after)), True))"

section \<open>System files\<close>

definition SERVICE_USER :: string where
  "SERVICE_USER = ''mise''"

text \<open>\<open>path.join\<close>: the parts that are not empty, joined by slashes and normalised; the stack of names is kept reversed.\<close>

definition step_name :: "bool \<Rightarrow> string \<Rightarrow> string list \<Rightarrow> string list" where
  "step_name rooted seg st =
     (if seg = [] \<or> seg = ''.'' then st
      else if seg = ''..'' then
        (case st of
           [] \<Rightarrow> if rooted then [] else [''..'']
         | t # ts \<Rightarrow> if t = ''..'' then ''..'' # st else ts)
      else seg # st)"

definition path_join :: "string list \<Rightarrow> string" where
  "path_join parts =
     (let p = join_with ''/'' (filter (\<lambda>s. s \<noteq> []) parts); rooted = prefix ''/'' p;
          names = rev (fold (step_name rooted) (split_on (CHR ''/'') p) []); q = join_with ''/'' names
      in if p = [] then ''.''
         else (let body = (if q = [] \<and> \<not> rooted then ''.'' else q) @ (if ends_with ''/'' p \<and> q \<noteq> [] then ''/'' else [])
               in if rooted then CHR ''/'' # body else body))"

record unit_values =
  uv_user :: "string option"
  uv_webRoot :: "string option"
  uv_baseUrl :: "string option"
  uv_adminCode :: "string option"

text \<open>A value in a template text; one that is missing reads \<open>null\<close>.\<close>

definition in_template :: "string option \<Rightarrow> string" where
  "in_template v = (case v of Some s \<Rightarrow> s | None \<Rightarrow> ''null'')"

definition renderServerUnit :: "string \<Rightarrow> unit_values \<Rightarrow> string" where
  "renderServerUnit template v =
     (let root = in_template (uv_webRoot v); user = in_template (uv_user v);
          t1 = gsub (whole_line ''User='') (''User='' @ user) [] template;
          t2 = gsub (whole_line ''Group='') (''Group='' @ user) [] t1;
          t3 = gsub (to_line_end ''WorkingDirectory='') (''WorkingDirectory='' @ path_join [root, ''server'']) [] t2;
          t4 = gsub (to_line_end ''Environment=BASE_URL='') (''Environment=BASE_URL='' @ in_template (uv_baseUrl v)) [] t3;
          t5 = gsub (to_line_end ''Environment=ADMIN_PAYMENT_CODES='')
                 (''Environment=ADMIN_PAYMENT_CODES='' @ in_template (uv_adminCode v)) [] t4
      in gsub (to_line_end ''ExecStart='') (''ExecStart=/usr/bin/env node '' @ path_join [root, ''server'', ''index.mjs'']) [] t5)"

definition renderUpdateUnit :: "string \<Rightarrow> unit_values \<Rightarrow> string" where
  "renderUpdateUnit template v =
     (let root = in_template (uv_webRoot v); user = in_template (uv_user v);
          t1 = gsub (whole_line ''User='') (''User='' @ user) [] template;
          t2 = gsub (whole_line ''Group='') (''Group='' @ user) [] t1;
          t3 = gsub (to_line_end ''WorkingDirectory='') (''WorkingDirectory='' @ root) [] t2
      in gsub (to_line_end ''ExecStart='') (''ExecStart=/usr/bin/env node '' @ path_join [root, ''scripts'', ''update.mjs'']) [] t3)"

definition renderNginx :: "string \<Rightarrow> string \<Rightarrow> string" where
  "renderNginx template webRoot = gsub (same_text ''root /var/www/mise;'') (''root '' @ webRoot @ '';'') [] template"

definition renderPolkitRule :: "string \<Rightarrow> string \<Rightarrow> string \<Rightarrow> string" where
  "renderPolkitRule template user unit =
     (let q = [CHR 0x22];
          t = gsub (quoted_after (''action.lookup('' @ q @ ''unit'' @ q @ '') == ''))
                (''action.lookup('' @ q @ ''unit'' @ q @ '') == '' @ q @ unit @ q) [] template
      in gsub (quoted_after ''subject.user == '') (''subject.user == '' @ q @ user @ q) [] t)"

text \<open>\<open>/^K(.*)$/m\<close>, trimmed.\<close>

definition first_value :: "string \<Rightarrow> string \<Rightarrow> string option" where
  "first_value key installed =
     at_line_start (\<lambda>s. map_option (\<lambda>r. trim (takeWhile line_text r)) (drop_text key s)) True installed"

text \<open>\<open>/^ExecStart=.*?node\s+(\S+)\s*$/m\<close>: after the word only white space up to where a line ends.\<close>

definition ends_line :: "string \<Rightarrow> bool" where
  "ends_line s = (case dropWhile (\<lambda>c. is_ws c \<and> line_text c) s of [] \<Rightarrow> True | c # _ \<Rightarrow> \<not> line_text c)"

definition node_word :: "string \<Rightarrow> string option" where
  "node_word s =
     (case drop_text ''node'' s of
        Some (c # r) \<Rightarrow>
          if is_ws c
          then (let u = trim_start r; w = takeWhile (\<lambda>c. \<not> is_ws c) u
                in if w \<noteq> [] \<and> ends_line (drop (length w) u) then Some w else None)
          else None
      | _ \<Rightarrow> None)"

fun node_word_in_line :: "string \<Rightarrow> string option" where
  "node_word_in_line [] = None"
| "node_word_in_line (c # cs) =
     (case node_word (c # cs) of
        Some w \<Rightarrow> Some w
      | None \<Rightarrow> if line_text c then node_word_in_line cs else None)"

definition exec_value :: "string \<Rightarrow> string option" where
  "exec_value installed = at_line_start (\<lambda>s. Option.bind (drop_text ''ExecStart='' s) node_word_in_line) True installed"

definition drop_suffix :: "string \<Rightarrow> string \<Rightarrow> string" where
  "drop_suffix q s = (if suffix q s then take (length s - length q) s else s)"

definition recoverUnitValues :: "string \<Rightarrow> unit_values" where
  "recoverUnitValues installed =
     (let exec = exec_value installed; wd = first_value ''WorkingDirectory='' installed;
          root = (case exec of
              Some e \<Rightarrow>
                if suffix ''/server/index.mjs'' e then Some (drop_suffix ''/server/index.mjs'' e)
                else if suffix ''/scripts/update.mjs'' e then Some (drop_suffix ''/scripts/update.mjs'' e)
                else map_option (drop_suffix ''/server'') (text_or_none wd)
            | None \<Rightarrow> map_option (drop_suffix ''/server'') (text_or_none wd))
      in \<lparr>uv_user = text_or_none (first_value ''User='' installed), uv_webRoot = text_or_none root,
          uv_baseUrl = first_value ''Environment=BASE_URL='' installed,
          uv_adminCode = first_value ''Environment=ADMIN_PAYMENT_CODES='' installed\<rparr>)"

datatype file_state = AbsentFile | SameFile | Differs

definition planSystemFile :: "string option \<Rightarrow> string \<Rightarrow> file_state" where
  "planSystemFile installed shipped =
     (case installed of None \<Rightarrow> AbsentFile | Some i \<Rightarrow> if i = shipped then SameFile else Differs)"

section \<open>The operator's documents\<close>

definition anchorSeed ::
  "(string \<Rightarrow> string option) \<Rightarrow> string \<Rightarrow> string \<Rightarrow> string \<Rightarrow> string option \<Rightarrow> val \<Rightarrow> string option \<Rightarrow> string option \<Rightarrow>
     string option \<Rightarrow> string option \<Rightarrow> seed_entry option" where
  "anchorSeed region network name paymentCode paynym payload signed jurisdiction country hardware =
     (case text_or_none signed of
        None \<Rightarrow> None
      | Some t \<Rightarrow>
          if \<not> has_text ''BEGIN BITCOIN SIGNATURE'' t then None
          else Some \<lparr>se_rec = \<lparr>sb_id = network @ ''-'' @ slugOf name, sb_network = network, sb_name = trim name, sb_status = [],
                sb_codes = None, sb_code = None, sb_paynym = text_or_none paynym, sb_jurisdiction = text_or_none jurisdiction,
                sb_country = (case text_or_none country of Some c \<Rightarrow> Some c
                  | None \<Rightarrow> countryFor region (case jurisdiction of Some j \<Rightarrow> Str j | None \<Rightarrow> Null)),
                sb_hardware = text_or_none hardware, sb_payload = payload, sb_signed = Some t, sb_last_probe = Undef,
                sb_created_at = None, sb_updated_at = None, sb_source = None\<rparr>,
              se_paymentCode = Some paymentCode\<rparr>)"

definition operatorDoc :: "string \<Rightarrow> string \<Rightarrow> string \<Rightarrow> string option \<Rightarrow> val" where
  "operatorDoc onionHost paymentCode verifySigned paynym =
     Obj [(''onion'', Str (''http://'' @ onionHost @ ''/'')), (''paymentCode'', Str paymentCode),
       (''paynym'', case text_or_none paynym of Some n \<Rightarrow> Str n | None \<Rightarrow> Null), (''verifySigned'', Str verifySigned)]"

section \<open>A pasted block\<close>

text \<open>The lines as they come, until the end word, the marker or the close; nothing while it still waits.\<close>

fun collectPaste :: "string \<Rightarrow> string option \<Rightarrow> bool \<Rightarrow> string list \<Rightarrow> string list \<Rightarrow> string option" where
  "collectPaste endWord endMarker over got [] = (if over then Some (join_with [newline] got) else None)"
| "collectPaste endWord endMarker over got (l # ls) =
     (if trim l = endWord then Some (join_with [newline] got)
      else if text_or_none endMarker \<noteq> None \<and> Some (trim l) = endMarker then Some (join_with [newline] (got @ [l]))
      else collectPaste endWord endMarker over (got @ [l]) ls)"

end
