(* ===== verification/Reconcile.thy ===== *)
theory Reconcile
  imports Installer
begin

text \<open>
  \<open>scripts/reconcile-system.mjs\<close> and \<open>scripts/uninstall.mjs\<close>: the system files compared with what the checkout ships,
  the diff that is shown, the files written with the copies kept, and the commands run after; then what the uninstaller
  removes. The files are a map from paths to texts; what a command or a write answers is a parameter.
\<close>

section \<open>The command line\<close>

text \<open>The word after a flag, when there is one that is not empty.\<close>

fun flag_value :: "string \<Rightarrow> string \<Rightarrow> string list \<Rightarrow> string" where
  "flag_value name fallback [] = fallback"
| "flag_value name fallback (a # as) =
     (if a = name then (case as of v # _ \<Rightarrow> if v = [] then fallback else v | [] \<Rightarrow> fallback)
      else flag_value name fallback as)"

section \<open>The files\<close>

datatype after_step = Systemd | Nginx | Polkit

record sys_file =
  sf_name :: string
  sf_template :: string
  sf_installed :: string
  sf_render :: "string \<Rightarrow> unit_values \<Rightarrow> string"
  sf_after :: after_step
  sf_optional :: bool

definition POLKIT_RULE_PATH :: string where
  "POLKIT_RULE_PATH = ''/etc/polkit-1/rules.d/49-mise-restart.rules''"

definition account :: "unit_values \<Rightarrow> string" where
  "account v = (case text_or_none (uv_user v) of Some u \<Rightarrow> u | None \<Rightarrow> SERVICE_USER)"

definition FILES :: "sys_file list" where
  "FILES = [
    \<lparr>sf_name = ''backend unit'', sf_template = ''scripts/mise-server.service'',
      sf_installed = ''/etc/systemd/system/mise-server.service'', sf_render = renderServerUnit, sf_after = Systemd, sf_optional = False\<rparr>,
    \<lparr>sf_name = ''gateway unit'', sf_template = ''scripts/mise-gateway.service'',
      sf_installed = ''/etc/systemd/system/mise-gateway.service'', sf_render = (\<lambda>tpl v. tpl), sf_after = Systemd, sf_optional = False\<rparr>,
    \<lparr>sf_name = ''updater unit'', sf_template = ''scripts/mise-update.service'',
      sf_installed = ''/etc/systemd/system/mise-update.service'', sf_render = renderUpdateUnit, sf_after = Systemd, sf_optional = False\<rparr>,
    \<lparr>sf_name = ''updater timer'', sf_template = ''scripts/mise-update.timer'',
      sf_installed = ''/etc/systemd/system/mise-update.timer'', sf_render = (\<lambda>tpl v. tpl), sf_after = Systemd, sf_optional = False\<rparr>,
    \<lparr>sf_name = ''nginx site'', sf_template = ''deploy/nginx-onion.conf.example'',
      sf_installed = ''/etc/nginx/sites-available/mise'', sf_render = (\<lambda>tpl v. renderNginx tpl (in_template (uv_webRoot v))),
      sf_after = Nginx, sf_optional = False\<rparr>,
    \<lparr>sf_name = ''restart permission'', sf_template = ''deploy/polkit-restart.rules.example'',
      sf_installed = POLKIT_RULE_PATH, sf_render = (\<lambda>tpl v. renderPolkitRule tpl (account v) ''mise-server.service''),
      sf_after = Polkit, sf_optional = True\<rparr>]"

section \<open>The diff\<close>

text \<open>The next line at which the two sides line up again: so many lines away on the left and on the right.\<close>

fun line_sync :: "string list \<Rightarrow> string list \<Rightarrow> nat list \<Rightarrow> (nat \<times> nat) option" where
  "line_sync as bs [] = None"
| "line_sync as bs (k # ks) =
     (if k < length bs \<and> as \<noteq> [] \<and> as ! 0 = bs ! k then Some (0, k)
      else if k < length as \<and> bs \<noteq> [] \<and> as ! k = bs ! 0 then Some (k, 0)
      else if k < length as \<and> k < length bs \<and> as ! k = bs ! k then Some (k, k)
      else line_sync as bs ks)"

definition or_one :: "nat \<Rightarrow> nat" where
  "or_one n = (if n = 0 then 1 else n)"

function diff_lines :: "string list \<Rightarrow> string list \<Rightarrow> string list" where
  "diff_lines as bs =
     (if as = [] \<and> bs = [] then []
      else if as \<noteq> [] \<and> bs \<noteq> [] \<and> hd as = hd bs then diff_lines (tl as) (tl bs)
      else (case line_sync as bs [1..<40] of
          Some (di, dj) \<Rightarrow>
            map (\<lambda>l. ''- '' @ l) (take di as) @ map (\<lambda>l. ''+ '' @ l) (take dj bs) @ diff_lines (drop (or_one di) as) (drop (or_one dj) bs)
        | None \<Rightarrow> map (\<lambda>l. ''- '' @ l) as @ map (\<lambda>l. ''+ '' @ l) bs))"
  by pat_completeness auto
termination
proof (relation "measure (\<lambda>(as, bs). length as + length bs)", goal_cases)
  case (2 as bs)
  then show ?case by (cases as; cases bs) auto
next
  case (3 as bs x di dj)
  then show ?case by (cases as; cases bs) (auto simp: or_one_def)
qed simp

declare diff_lines.simps [simp del]

definition unified :: "string \<Rightarrow> string \<Rightarrow> string \<Rightarrow> string list" where
  "unified a b label =
     [''--- installed  '' @ label, ''+++ shipped    '' @ label] @ diff_lines (split_on newline a) (split_on newline b)"

section \<open>The plan\<close>

datatype plan_state = NoTemplate | Planned file_state

record plan_entry =
  pe_file :: sys_file
  pe_state :: plan_state
  pe_shipped :: string
  pe_installed :: "string option"

type_synonym files = "string \<Rightarrow> string option"

definition at_path :: "string \<Rightarrow> string \<Rightarrow> string" where
  "at_path pre p = (if pre = [] then p else path_join [pre, p])"

definition plan_file :: "files \<Rightarrow> string \<Rightarrow> files \<Rightarrow> unit_values \<Rightarrow> sys_file \<Rightarrow> plan_entry" where
  "plan_file templates pre fs v f =
     (case templates (sf_template f) of
        None \<Rightarrow> \<lparr>pe_file = f, pe_state = NoTemplate, pe_shipped = [], pe_installed = None\<rparr>
      | Some tpl \<Rightarrow>
          (let shipped = sf_render f tpl v; installed = fs (at_path pre (sf_installed f))
           in \<lparr>pe_file = f, pe_state = Planned (planSystemFile installed shipped), pe_shipped = shipped, pe_installed = installed\<rparr>))"

definition plan_all :: "files \<Rightarrow> string \<Rightarrow> files \<Rightarrow> unit_values \<Rightarrow> plan_entry list" where
  "plan_all templates pre fs v = map (plan_file templates pre fs v) FILES"

definition to_write :: "plan_entry list \<Rightarrow> plan_entry list" where
  "to_write rs = filter (\<lambda>r. pe_state r = Planned Differs) rs"

text \<open>What is printed of a file that differs: the whole diff, or its first fourteen lines.\<close>

definition shown_diff :: "bool \<Rightarrow> plan_entry \<Rightarrow> string list \<times> nat" where
  "shown_diff whole r =
     (let d = unified (case pe_installed r of Some i \<Rightarrow> i | None \<Rightarrow> []) (pe_shipped r) (sf_name (pe_file r))
      in if whole then (d, 0) else (take 14 d, length d - 14))"

text \<open>An answer is yes when it is y or yes in any case; without a terminal nothing is written.\<close>

definition confirmed :: "bool \<Rightarrow> bool \<Rightarrow> string \<Rightarrow> bool" where
  "confirmed yes tty answer \<longleftrightarrow> yes \<or> (tty \<and> to_lower (trim answer) \<in> {''y'', ''yes''})"

section \<open>Writing\<close>

text \<open>A write succeeds, or fails and leaves the path as the parameter says; making its directory is part of it.\<close>

type_synonym write_answer = "string \<Rightarrow> string option option"

definition put_file :: "write_answer \<Rightarrow> string \<Rightarrow> string \<Rightarrow> files \<Rightarrow> bool \<times> files" where
  "put_file wr p s fs = (case wr p of None \<Rightarrow> (True, fs(p \<mapsto> s)) | Some left \<Rightarrow> (False, fs(p := left)))"

definition file_name :: "string \<Rightarrow> string" where
  "file_name p = last (split_on (CHR ''/'') p)"

text \<open>Each file in turn: the copy first, and nothing after a failure.\<close>

fun write_files :: "write_answer \<Rightarrow> string \<Rightarrow> string \<Rightarrow> plan_entry list \<Rightarrow> files \<Rightarrow> bool \<times> files" where
  "write_files wr pre backupDir [] fs = (True, fs)"
| "write_files wr pre backupDir (r # rs) fs =
     (let dest = at_path pre (sf_installed (pe_file r))
      in case fs dest of
           None \<Rightarrow> (False, fs)
         | Some old \<Rightarrow>
             (case put_file wr (path_join [backupDir, file_name dest]) old fs of
                (False, fs1) \<Rightarrow> (False, fs1)
              | (True, fs1) \<Rightarrow>
                  (case put_file wr dest (pe_shipped r) fs1 of
                     (False, fs2) \<Rightarrow> (False, fs2)
                   | (True, fs2) \<Rightarrow> write_files wr pre backupDir rs fs2)))"

definition unit_name :: "string \<Rightarrow> bool" where
  "unit_name p \<longleftrightarrow> suffix ''.service'' p \<or> suffix ''.timer'' p"

definition changed_units :: "plan_entry list \<Rightarrow> string list" where
  "changed_units rs = rev (remdups (rev (map file_name (filter unit_name (map (\<lambda>r. sf_installed (pe_file r)) rs)))))"

text \<open>The commands, in order; \<open>runs\<close> says which succeed. The exit code is the second part.\<close>

definition systemd_steps :: "(string list \<Rightarrow> bool) \<Rightarrow> string list \<Rightarrow> string list list" where
  "systemd_steps runs units =
     [''systemctl'', ''daemon-reload''] #
     concat (map (\<lambda>t. [''systemctl'', ''restart'', t] #
         (if runs [''systemctl'', ''restart'', t]
          then [[''systemctl'', ''show'', t, ''-p'', ''NextElapseUSecRealtime'', ''-p'', ''NextElapseUSecMonotonic'', ''--value'']]
          else []))
       (filter (suffix ''.timer'') units))"

definition nginx_steps :: "(string list \<Rightarrow> bool) \<Rightarrow> string list list \<times> nat" where
  "nginx_steps runs =
     (if \<not> runs [''nginx'', ''-t''] then ([[''nginx'', ''-t'']], 2)
      else ([[''nginx'', ''-t''], [''systemctl'', ''reload'', ''nginx'']],
        if runs [''systemctl'', ''reload'', ''nginx''] then 0 else 2))"

definition post_steps :: "(string list \<Rightarrow> bool) \<Rightarrow> plan_entry list \<Rightarrow> string list list \<times> nat" where
  "post_steps runs rs =
     (let kinds = map (\<lambda>r. sf_after (pe_file r)) rs;
          a = (if Systemd \<in> set kinds then systemd_steps runs (changed_units rs) else []);
          (b, code) = (if Nginx \<in> set kinds then nginx_steps runs else ([], 0))
      in (a @ b, code))"

text \<open>The services that still run the old unit, which are only named.\<close>

definition still_running :: "plan_entry list \<Rightarrow> string list" where
  "still_running rs = filter (\<lambda>u. suffix ''.service'' u \<and> \<not> has_text ''update'' u) (changed_units rs)"

record reconciled =
  oc_code :: nat
  oc_files :: files
  oc_commands :: "string list list"

definition stops :: "nat \<Rightarrow> files \<Rightarrow> reconciled" where
  "stops n fs = \<lparr>oc_code = n, oc_files = fs, oc_commands = []\<rparr>"

definition backup_dir :: "string \<Rightarrow> string \<Rightarrow> string" where
  "backup_dir pre stamp = at_path pre (''/var/backups/mise/system-'' @ stamp)"

text \<open>The run: \<open>argv\<close> is the command line, \<open>tty\<close> and \<open>answer\<close> what the question meets.\<close>

definition reconcile ::
  "files \<Rightarrow> write_answer \<Rightarrow> (string list \<Rightarrow> bool) \<Rightarrow> string list \<Rightarrow> bool \<Rightarrow> string \<Rightarrow> string \<Rightarrow> files \<Rightarrow> reconciled" where
  "reconcile templates wr runs argv tty answer stamp fs =
     (let pre = flag_value ''--root'' [] argv in
      case text_or_none (fs (at_path pre (sf_installed (hd FILES)))) of
        None \<Rightarrow> stops 0 fs
      | Some backend \<Rightarrow>
          (let v = recoverUnitValues backend
           in if uv_webRoot v = None \<or> uv_user v = None then stops 2 fs
              else (let changed = to_write (plan_all templates pre fs v)
                    in if changed = [] then stops 0 fs
                       else if ''--apply'' \<notin> set argv then stops 1 fs
                       else if \<not> confirmed (''--yes'' \<in> set argv) tty answer then stops 1 fs
                       else (case write_files wr pre (backup_dir pre stamp) changed fs of
                           (False, fs1) \<Rightarrow> stops 2 fs1
                         | (True, fs1) \<Rightarrow>
                             if pre \<noteq> [] then stops 0 fs1
                             else (case post_steps runs changed of
                                 (cmds, code) \<Rightarrow> \<lparr>oc_code = code, oc_files = fs1, oc_commands = cmds\<rparr>)))))"

section \<open>The uninstaller\<close>

record wanted =
  w_apply :: bool
  w_purge_data :: bool
  w_purge_onion :: bool
  w_no_backup :: bool
  w_yes :: bool

record places =
  pl_web :: string
  pl_onion :: string
  pl_torrc :: string

definition UNITS :: "string list" where
  "UNITS = [''/etc/systemd/system/mise-server.service'', ''/etc/systemd/system/mise-update.service'',
     ''/etc/systemd/system/mise-update.timer'']"

definition NGINX_AVAILABLE :: string where
  "NGINX_AVAILABLE = ''/etc/nginx/sites-available/mise''"

definition NGINX_ENABLED :: string where
  "NGINX_ENABLED = ''/etc/nginx/sites-enabled/mise''"

definition wanted_of :: "string list \<Rightarrow> wanted" where
  "wanted_of argv = \<lparr>w_apply = ''--apply'' \<in> set argv, w_purge_data = ''--purge-data'' \<in> set argv,
     w_purge_onion = ''--purge-onion'' \<in> set argv, w_no_backup = ''--no-backup'' \<in> set argv, w_yes = ''--yes'' \<in> set argv\<rparr>"

definition places_of :: "string list \<Rightarrow> places" where
  "places_of argv = \<lparr>pl_web = flag_value ''--web-root'' ''/var/www/mise'' argv,
     pl_onion = flag_value ''--onion-dir'' ''/var/lib/tor/mise'' argv, pl_torrc = flag_value ''--torrc'' ''/etc/tor/torrc'' argv\<rparr>"

record survey =
  sv_units :: "string list"
  sv_available :: bool
  sv_enabled :: bool
  sv_torrc :: bool
  sv_web :: bool
  sv_onion :: bool
  sv_address :: "string option"

definition take_survey :: "(string \<Rightarrow> bool) \<Rightarrow> files \<Rightarrow> places \<Rightarrow> survey" where
  "take_survey exists fs pl =
     \<lparr>sv_units = filter exists UNITS, sv_available = exists NGINX_AVAILABLE, sv_enabled = exists NGINX_ENABLED,
       sv_torrc = (case fs (pl_torrc pl) of Some t \<Rightarrow> snd (stripTorrc t) | None \<Rightarrow> False),
       sv_web = exists (pl_web pl), sv_onion = exists (pl_onion pl),
       sv_address = map_option trim (fs (path_join [pl_onion pl, ''hostname'']))\<rparr>"

definition nothing_found :: "survey \<Rightarrow> bool" where
  "nothing_found s \<longleftrightarrow> sv_units s = [] \<and> \<not> sv_available s \<and> \<not> sv_torrc s \<and> \<not> sv_web s \<and> \<not> sv_onion s"

text \<open>What the operator types: the address for the onion key, yes for the store.\<close>

definition agreed :: "wanted \<Rightarrow> survey \<Rightarrow> string \<Rightarrow> bool" where
  "agreed w s typed =
     (if w_purge_onion w \<and> sv_onion s \<and> \<not> w_yes w
      then (case text_or_none (sv_address s) of Some a \<Rightarrow> trim typed = a | None \<Rightarrow> False)
      else if w_purge_data w \<and> \<not> w_yes w then trim typed = ''yes'' else True)"

datatype removal_act = Command "string list" | WriteText string string

definition backup_command :: "wanted \<Rightarrow> places \<Rightarrow> survey \<Rightarrow> string \<Rightarrow> string list option" where
  "backup_command w pl s stamp =
     (if (w_purge_data w \<or> w_purge_onion w) \<and> \<not> w_no_backup w
      then Some ([''tar'', ''-czf'', ''/root/mise-uninstall-'' @ stamp @ ''.tar.gz'', ''--absolute-names''] @
          (if w_purge_data w \<and> sv_web s then [pl_web pl] else []) @ (if w_purge_onion w \<and> sv_onion s then [pl_onion pl] else []))
      else None)"

definition stop_services :: "removal_act list" where
  "stop_services = map (\<lambda>u. Command [''systemctl'', ''disable'', ''--now'', u])
     [''mise-update.timer'', ''mise-update.service'', ''mise-server.service'']"

definition remove_units :: "survey \<Rightarrow> removal_act list" where
  "remove_units s = map (\<lambda>u. Command [''rm'', ''-f'', u]) (sv_units s) @
     [Command [''systemctl'', ''daemon-reload''], Command [''systemctl'', ''reset-failed'']]"

definition remove_site :: "(string list \<Rightarrow> bool) \<Rightarrow> survey \<Rightarrow> removal_act list" where
  "remove_site runs s =
     (if sv_enabled s then [Command [''rm'', ''-f'', NGINX_ENABLED]] else []) @
     (if sv_available s then [Command [''rm'', ''-f'', NGINX_AVAILABLE]] else []) @
     Command [''nginx'', ''-t''] # (if runs [''nginx'', ''-t''] then [Command [''systemctl'', ''reload'', ''nginx'']] else [])"

definition remove_torrc :: "(string list \<Rightarrow> bool) \<Rightarrow> places \<Rightarrow> files \<Rightarrow> survey \<Rightarrow> removal_act list" where
  "remove_torrc runs pl fs s =
     (case fs (pl_torrc pl) of
        Some original \<Rightarrow>
          if sv_torrc s
          then [WriteText (pl_torrc pl @ ''.mise-bak'') original, WriteText (pl_torrc pl) (fst (stripTorrc original)),
              Command [''tor'', ''--verify-config'']] @
            (if runs [''tor'', ''--verify-config''] then [Command [''systemctl'', ''restart'', ''tor'']] else [])
          else []
      | None \<Rightarrow> [])"

definition remove_rest :: "wanted \<Rightarrow> places \<Rightarrow> survey \<Rightarrow> removal_act list" where
  "remove_rest w pl s =
     (if w_purge_data w \<and> sv_web s then [Command [''rm'', ''-rf'', pl_web pl]] else []) @
     (if w_purge_onion w \<and> sv_onion s then [Command [''rm'', ''-rf'', pl_onion pl]] else [])"

definition uninstall ::
  "(string \<Rightarrow> bool) \<Rightarrow> (string list \<Rightarrow> bool) \<Rightarrow> bool \<Rightarrow> string list \<Rightarrow> string \<Rightarrow> string \<Rightarrow> files \<Rightarrow> removal_act list \<times> nat" where
  "uninstall exists runs superuser argv typed stamp fs =
     (let w = wanted_of argv; pl = places_of argv; s = take_survey exists fs pl
      in if \<not> superuser then ([], 2)
         else if nothing_found s \<or> \<not> w_apply w then ([], 0)
         else if \<not> agreed w s typed then ([], 1)
         else (let rest = stop_services @ remove_units s @ remove_site runs s @ remove_torrc runs pl fs s @ remove_rest w pl s
               in case backup_command w pl s stamp of
                    None \<Rightarrow> (rest, 0)
                  | Some c \<Rightarrow> if runs c then (Command c # rest, 0) else ([Command c], 1)))"

end
