(* ===== verification/InstallerProps.thy ===== *)
theory InstallerProps
  imports Installer CryptoProps
begin

text \<open>
  What the installer's library guarantees: taking the managed block out of torrc undoes putting it in, the values of the
  operator are read back from the unit rendered with them, and the binding the operator signs is the one every reader
  accepts.
\<close>

section \<open>torrc\<close>

lemma find_text_here: "prefix p s \<Longrightarrow> find_text p s = Some 0"
  by (cases s) auto

lemma find_text_line:
  assumes "newline \<notin> set p" and "p \<noteq> []" and "\<not> sublist p u"
  shows "find_text (p @ [newline]) (u @ newline # p @ newline # r) = Some (length u + 1)"
  using assms(3)
proof (induction u)
  case Nil
  have "find_text (p @ [newline]) (p @ newline # r) = Some 0" by (rule find_text_here) simp
  moreover have "\<not> prefix (p @ [newline]) (newline # p @ newline # r)" using assms(1,2) by (cases p) auto
  ultimately show ?case by simp
next
  case (Cons c u)
  have "\<not> prefix p (c # u)" using Cons.prems by (auto dest: prefix_imp_sublist)
  then have "\<not> prefix p ((c # u) @ newline # p @ newline # r)" by (simp only: prefix_before_newline [OF assms(1)] not_False_eq_True)
  then have "\<not> prefix (p @ [newline]) ((c # u) @ newline # p @ newline # r)" by (meson append_prefixD)
  moreover have "find_text (p @ [newline]) (u @ newline # p @ newline # r) = Some (length u + 1)"
    using Cons.prems by (intro Cons.IH) (auto simp: sublist_Cons_right)
  ultimately show ?case by simp
qed

lemma drop_services_other: "\<not> prefix ''HiddenService'' s \<Longrightarrow> drop_services s = s"
  by (subst drop_services.simps) (simp add: drop_text_def)

lemma drop_services_line:
  assumes "list_all (\<lambda>c. \<not> is_ws c) w" and "newline \<notin> set v"
  shows "drop_services (''HiddenService'' @ w @ CHR '' '' # v @ newline # s) = drop_services s"
proof -
  have "dropWhile (\<lambda>c. \<not> is_ws c) (w @ CHR '' '' # v @ newline # s) = CHR '' '' # v @ newline # s"
    using assms(1) by (intro dropWhile_all) (simp_all add: is_ws_def)
  moreover have "dropWhile (\<lambda>c. c \<noteq> newline) (v @ newline # s) = newline # s"
    using assms(2) by (intro dropWhile_all) (auto simp: list_all_iff)
  moreover have "drop_text ''HiddenService'' (''HiddenService'' @ t) = Some t" for t by (rule drop_text_app)
  ultimately show ?thesis by (subst drop_services.simps) (simp only: option.simps list.simps if_True drop_Suc_Cons drop0 One_nat_def refl)
qed

lemma drop_services_block:
  assumes "newline \<notin> set hsDir"
  shows "drop_services (''HiddenServiceDir '' @ hsDir @ newline # ''HiddenServicePort 80 127.0.0.1:8080'' @ newline # s) = drop_services s"
  using drop_services_line [of "''Dir''" hsDir "''HiddenServicePort 80 127.0.0.1:8080'' @ newline # s"]
    drop_services_line [of "''Port''" "''80 127.0.0.1:8080''" s] assms
  by (simp add: is_ws_def)

lemma TORRC_MARK_facts: "newline \<notin> set TORRC_MARK" "TORRC_MARK \<noteq> []"
  by (simp_all add: TORRC_MARK_def)

text \<open>The block stands on lines of its own: it is found, with every service line that follows it.\<close>

lemma managed_block_found:
  assumes "newline \<notin> set hsDir" and "\<not> sublist TORRC_MARK u"
  shows "managed_block (u @ newline # torrcBlock hsDir @ s) = Some (u @ [newline], drop_services s)"
proof -
  let ?r = "''HiddenServiceDir '' @ hsDir @ newline # ''HiddenServicePort 80 127.0.0.1:8080'' @ newline # s"
  have t: "u @ newline # torrcBlock hsDir @ s = (u @ [newline]) @ (TORRC_MARK @ [newline]) @ ?r"
    by (simp add: torrcBlock_def)
  have "find_text (TORRC_MARK @ [newline]) (u @ newline # torrcBlock hsDir @ s) = Some (length u + 1)"
    using find_text_line [OF TORRC_MARK_facts assms(2), of ?r] by (simp add: torrcBlock_def)
  moreover have "drop (length u + 1 + length TORRC_MARK + 1) (u @ newline # torrcBlock hsDir @ s) = ?r"
    unfolding t by simp
  ultimately show ?thesis
    unfolding managed_block_def using drop_services_block [OF assms(1), of s] by (simp only: option.simps) simp
qed

lemma no_managed_block: "\<not> sublist TORRC_MARK e \<Longrightarrow> managed_block e = None"
  using has_text_sublist [of "TORRC_MARK @ [newline]" e] sublist_order.order_trans [of TORRC_MARK "TORRC_MARK @ [newline]" e]
  by (auto simp: managed_block_def has_text_def)

lemma mergeTorrc_new:
  "\<not> sublist TORRC_MARK e \<Longrightarrow> mergeTorrc e hsDir = (strip_end newline e @ [newline]) @ newline # torrcBlock hsDir @ []"
  by (simp add: mergeTorrc_def no_managed_block)

lemma sublist_strip_end: "sublist (strip_end c e) e"
proof -
  have "suffix (dropWhile (\<lambda>x. x = c) (rev e)) (rev e)" by (rule suffix_dropWhile)
  then have "prefix (strip_end c e) e" by (simp add: strip_end_def suffix_to_prefix)
  then show ?thesis by (rule prefix_imp_sublist)
qed

lemma no_mark_stripped: "\<not> sublist TORRC_MARK e \<Longrightarrow> \<not> sublist TORRC_MARK (strip_end newline e @ [newline])"
  using sublist_newline [OF TORRC_MARK_facts, of "strip_end newline e" "[]"] sublist_strip_end [of newline e]
    TORRC_MARK_facts(2) sublist_order.order_trans by (auto simp del: TORRC_MARK_def)

lemma expand_plain: "CHR ''$'' \<notin> set r \<Longrightarrow> expand h b a r = r"
proof (induction r rule: list.induct)
  case (Cons d r)
  then show ?case by (cases r) auto
qed simp

text \<open>A torrc the installer leaves as it is: it ends with one line end, has none in front, no two empty lines in a row.\<close>

definition tidy :: "string \<Rightarrow> bool" where
  "tidy e \<longleftrightarrow> (\<exists>body. e = body @ [newline] \<and> body \<noteq> [] \<and> last body \<noteq> newline) \<and> hd e \<noteq> newline \<and> squeeze_lines 0 e = e"

lemma merged_found:
  assumes "newline \<notin> set hsDir" and "\<not> sublist TORRC_MARK e"
  shows "managed_block (mergeTorrc e hsDir) = Some (strip_end newline e @ [newline, newline], [])"
  using managed_block_found [OF assms(1) no_mark_stripped [OF assms(2)], of "[]"]
  by (simp add: mergeTorrc_new [OF assms(2)] drop_services_other)

lemma strip_end_stop: "strip_end c (u @ replicate k c) = strip_end c u"
proof -
  have "dropWhile (\<lambda>x. x = c) (replicate k c @ rev u) = dropWhile (\<lambda>x. x = c) (rev u)"
    by (induction k) simp_all
  then show ?thesis by (simp add: strip_end_def)
qed

lemma tidy_body:
  assumes "tidy e"
  shows "strip_end newline e @ [newline] = e"
proof -
  from assms obtain body where b: "e = body @ [newline]" "body \<noteq> []" "last body \<noteq> newline" by (auto simp: tidy_def)
  have "strip_end newline e = strip_end newline body" using strip_end_stop [of newline body 1] by (simp add: b(1))
  moreover have "strip_end newline body = body" using b(2,3) by (intro strip_end_last) auto
  ultimately show ?thesis by (simp add: b(1))
qed

lemma squeeze_text: "filter (\<lambda>c. c \<noteq> newline) (squeeze_lines k s) = filter (\<lambda>c. c \<noteq> newline) s"
  by (induction k s rule: squeeze_lines.induct) auto

lemma drop_ends_text: "filter (\<lambda>c. c \<noteq> newline) (dropWhile (\<lambda>c. c = newline) s) = filter (\<lambda>c. c \<noteq> newline) s"
  by (induction s) auto

lemma strip_end_text: "filter (\<lambda>c. c \<noteq> newline) (strip_end newline s) = filter (\<lambda>c. c \<noteq> newline) s"
proof -
  have "filter (\<lambda>c. c \<noteq> newline) (strip_end newline s) = rev (filter (\<lambda>c. c \<noteq> newline) (dropWhile (\<lambda>c. c = newline) (rev s)))"
    by (simp add: strip_end_def rev_filter)
  then show ?thesis unfolding drop_ends_text by (simp add: rev_filter [symmetric])
qed

text \<open>The torrc that an uninstall leaves of one without the managed block.\<close>

definition closed_up :: "string \<Rightarrow> string" where
  "closed_up e = dropWhile (\<lambda>c. c = newline) (squeeze_lines 0 (strip_end newline e @ [newline]))"

lemma closed_up_text: "filter (\<lambda>c. c \<noteq> newline) (closed_up e) = filter (\<lambda>c. c \<noteq> newline) e"
  by (simp add: closed_up_def drop_ends_text squeeze_text strip_end_text)

lemma closed_up_tidy: "tidy e \<Longrightarrow> closed_up e = e"
proof -
  assume t: "tidy e"
  then have "squeeze_lines 0 e = e" "e \<noteq> []" "hd e \<noteq> newline" by (auto simp: tidy_def)
  then have "dropWhile (\<lambda>c. c = newline) (squeeze_lines 0 e) = e" by (cases e) simp_all
  then show ?thesis by (simp only: closed_up_def tidy_body [OF t])
qed

text \<open>C36: the uninstaller undoes the installer but for empty lines. The managed block is appended to a torrc that has
  none, an install over an existing block replaces it and leaves one block, and taking the block out gives the torrc of
  before with its runs of empty lines closed up to one, those in front gone and one line end at its end: nothing but
  line ends is lost, and a torrc that is tidy, with one line end at its end, none in front and no two empty lines in a
  row, comes back byte for byte.\<close>

theorem torrc_uninstall_restores:
  assumes "newline \<notin> set hsDir" and "newline \<notin> set hsDir'" and "CHR ''$'' \<notin> set hsDir'" and "\<not> sublist TORRC_MARK e"
  shows "mergeTorrc (mergeTorrc e hsDir) hsDir' = mergeTorrc e hsDir' \<and>
    stripTorrc (mergeTorrc e hsDir) = (closed_up e, True) \<and>
    filter (\<lambda>c. c \<noteq> newline) (closed_up e) = filter (\<lambda>c. c \<noteq> newline) e \<and>
    (tidy e \<longrightarrow> stripTorrc (mergeTorrc e hsDir) = (e, True))"
proof -
  note m = merged_found [OF assms(1,4)]
  have "CHR ''$'' \<notin> set (torrcBlock hsDir')" using assms(3) by (simp add: torrcBlock_def TORRC_MARK_def)
  then have merged: "mergeTorrc (mergeTorrc e hsDir) hsDir' = mergeTorrc e hsDir'"
    unfolding mergeTorrc_def [of "mergeTorrc e hsDir"] m by (simp add: expand_plain mergeTorrc_new [OF assms(4)])
  have "strip_end newline (strip_end newline e) = strip_end newline e" by (simp add: strip_end_def dropWhile_idem)
  then have "strip_end newline (strip_end newline e @ [newline, newline]) = strip_end newline e"
    using strip_end_stop [of newline "strip_end newline e" 2] by (simp add: numeral_2_eq_2)
  then have "stripTorrc (mergeTorrc e hsDir) = (closed_up e, True)" by (simp add: stripTorrc_def m closed_up_def)
  with merged closed_up_tidy [of e] closed_up_text [of e] show ?thesis by simp
qed

theorem torrc_uninstall_restores_witness:
  "stripTorrc (mergeTorrc (''SocksPort 9050'' @ [newline]) ''/var/lib/tor/mise'') = (''SocksPort 9050'' @ [newline], True)"
proof -
  have "tidy (''SocksPort 9050'' @ [newline])"
    unfolding tidy_def by (intro conjI exI [of _ "''SocksPort 9050''"]) simp_all
  moreover have "\<not> sublist TORRC_MARK (''SocksPort 9050'' @ [newline])"
    by (simp add: TORRC_MARK_def sublist_Cons_right)
  ultimately show ?thesis
    using torrc_uninstall_restores [of "''/var/lib/tor/mise''" "''/var/lib/tor/mise''" "''SocksPort 9050'' @ [newline]"]
    by (simp add: closed_up_def strip_end_def)
qed

text \<open>An empty line of the operator's own, far from the block, goes too.\<close>

lemma blank_line_is_closed_up:
  "closed_up (''A 1'' @ [newline, newline, newline] @ ''B 2'' @ [newline]) = ''A 1'' @ [newline, newline] @ ''B 2'' @ [newline]"
  by (simp add: closed_up_def strip_end_def)

text \<open>The block is not all that goes: a service of the operator that stands right after it goes with it.\<close>

lemma next_service_goes_too:
  assumes "newline \<notin> set hsDir" and "\<not> sublist TORRC_MARK u" and "newline \<notin> set own"
  shows "stripTorrc (u @ newline # torrcBlock hsDir @ ''HiddenServiceDir '' @ own @ [newline]) =
    (dropWhile (\<lambda>c. c = newline) (squeeze_lines 0 (strip_end newline (u @ [newline]) @ [newline])), True)"
proof -
  have "drop_services (''HiddenServiceDir '' @ own @ newline # []) = []"
    using drop_services_line [of "''Dir''" own "[]"] assms(3) by (simp add: is_ws_def drop_services_other)
  then show ?thesis using managed_block_found [OF assms(1,2), of "''HiddenServiceDir '' @ own @ [newline]"]
    by (simp add: stripTorrc_def)
qed

section \<open>The operator's binding\<close>

lemma sublist_set: "sublist p s \<Longrightarrow> set p \<subseteq> set s"
  by (auto simp: sublist_def)

lemma onion_chars:
  assumes "is_onion h" and "c \<in> set h"
  shows "onion_label c \<or> c = CHR ''.''"
proof -
  have "set h = set (take 56 h) \<union> set (drop 56 h)" by (metis append_take_drop_id set_append)
  moreover have "c = CHR ''.'' \<or> onion_label c" if "c \<in> set ''.onion''"
    using that by (auto simp: onion_label_def)
  ultimately show ?thesis using assms by (auto simp: is_onion_def list_all_iff)
qed

lemma onion_url_claimable:
  assumes "is_onion h"
  shows "claimable (''http://'' @ h)" and "last h \<noteq> CHR ''/''" and "h \<noteq> []"
proof -
  have ok: "\<not> is_ws c" "c \<notin> {newline, CHR 0x0D, CHR ''B'', CHR ''A'', CHR ''-'', CHR ''/''}" if "c \<in> set h" for c
    using onion_chars [OF assms that] by (auto simp: onion_label_def is_ws_def Let_def)
  show h: "h \<noteq> []" using assms by (auto simp: is_onion_def)
  then show "last h \<noteq> CHR ''/''" using ok(2) [of "last h"] by auto
  have "\<not> sublist ''BIP47:'' (''http://'' @ h)" "\<not> sublist ''Address:'' (''http://'' @ h)"
      "\<not> sublist end_of_signature (''http://'' @ h)"
    using ok(2) [of "CHR ''B''"] ok(2) [of "CHR ''A''"] ok(2) [of "CHR ''-''"]
    by (auto dest!: sublist_set simp: end_of_signature_def)
  moreover have "\<not> is_ws (CHR ''h'')" by (simp add: is_ws_def)
  ultimately show "claimable (''http://'' @ h)"
    using h ok(1) [of "last h"] ok(2) by (auto simp: claimable_def has_text_sublist)
qed

lemma operatorMessage_claim: "is_onion h \<Longrightarrow> operatorMessage h code = claimText (''http://'' @ h) code"
  using onion_url_claimable [of h] strip_end_last [of "''http://'' @ h" "CHR ''/''"]
  by (simp add: operatorMessage_def claimText_def)

lemma isPaymentCode_clean: "isPaymentCode (Str code) \<Longrightarrow> payment_code code"
  by (simp add: isPaymentCode_def payment_code_def starts_with_def)

lemma operator_message:
  assumes "is_onion h" and "payment_code c"
  shows "block_message (operatorMessage h c)" and "strip_end newline (operatorMessage h c) = operatorMessage h c"
    and "norm_url (first_line (operatorMessage h c)) = ''http://'' @ h" and "code_line (operatorMessage h c) = Some c"
proof -
  note u = onion_url_claimable [OF assms(1)]
  note m = claim_message [OF u(1) assms(2), folded operatorMessage_claim [OF assms(1)]]
  show "block_message (operatorMessage h c)" "strip_end newline (operatorMessage h c) = operatorMessage h c"
    "code_line (operatorMessage h c) = Some c" using m by blast+
  have s: "strip_end (CHR ''/'') (''http://'' @ h) = ''http://'' @ h" using u(2,3) by (intro strip_end_last) auto
  define l where "l = strip_end (CHR ''/'') (''http://'' @ h) @ ''/''"
  note cl = claim_line [OF u(1), folded l_def]
  have "operatorMessage h c = l @ newline # newline # ''BIP47: '' @ c"
    by (simp add: operatorMessage_claim [OF assms(1)] claimText_def l_def)
  then have "first_line (operatorMessage h c) = l" using cl(1,6) by (simp add: first_line_def split_on_line)
  then show "norm_url (first_line (operatorMessage h c)) = ''http://'' @ h"
    by (simp only: norm_url_def cl(6)) (simp only: l_def strip_end_snoc strip_end_idem s)
qed

lemma norm_onion:
  assumes "is_onion h"
  shows "norm_url (''http://'' @ h @ ''/'') = ''http://'' @ h"
proof -
  note u = onion_url_claimable [OF assms]
  define l where "l = strip_end (CHR ''/'') (''http://'' @ h) @ ''/''"
  have s: "strip_end (CHR ''/'') (''http://'' @ h) = ''http://'' @ h" using u(2,3) by (intro strip_end_last) auto
  have "norm_url l = ''http://'' @ h"
    by (simp only: norm_url_def claim_line(6) [OF u(1), folded l_def]) (simp only: l_def strip_end_snoc strip_end_idem s)
  then show ?thesis by (simp only: l_def s append_assoc)
qed

text \<open>C37: the document the installer writes is the one every reader accepts: when the operator signs the message it shows
  with the wallet of the payment code, the verifier of the site reads the block back, its own checks of the address, of
  the code and of the signer pass, and only the cryptographic verdict is left.\<close>

theorem installer_binding_verifies:
  assumes "is_onion host" and "isPaymentCode (Str code)" and "block_address a" and "block_signature s"
    and "a \<in> set (notificationAddresses derive code)"
  shows "verifyOperatorDoc derive checks
      (operatorDoc host code (signed_block (operatorMessage host code) a s) nym) (Some (''http://'' @ host @ ''/'')) =
    (case checks ''bitcoin'' (operatorMessage host code) a s of
       Inl e \<Rightarrow> Refused (Not_verifiable e)
     | Inr v \<Rightarrow> if v then Accepted (Some a) None else Refused Invalid_signature)"
proof -
  define t where "t = signed_block (operatorMessage host code) a s"
  define u where "u = ''http://'' @ host @ ''/''"
  have code: "payment_code code" by (rule isPaymentCode_clean) (rule assms(2))
  note m = operator_message [OF assms(1) code]
  note b = unix_lines_block [OF m(1) assms(3,4)] messages_of_block [OF m(1), of a s]
    address_of_block [OF m(1) assms(3), of s] signatures_of_block [OF m(1) assms(3,4)]
  obtain x where x: "operatorDoc host code t nym = Obj x" "fld (Obj x) ''paymentCode'' = Str code"
      "fld (Obj x) ''verifySigned'' = Str t" "fld (Obj x) ''onion'' = Str u"
    by (simp add: operatorDoc_def oread_def u_def)
  have "truthy (Str code)" "truthy (Str t)" using code by (auto simp: payment_code_def t_def signed_block_def)
  moreover have "text_or_empty (Str u) = u" "u \<noteq> []" by (simp_all add: text_or_empty_def u_def)
  moreover have "trim a = a" using assms(3) by (intro trim_word) (simp add: block_address_def)
  moreover have "norm_url u = ''http://'' @ host" unfolding u_def by (rule norm_onion [OF assms(1)])
  ultimately show ?thesis
    using assms(5) unfolding t_def [symmetric] u_def [symmetric] x(1)
    by (simp add: verifyOperatorDoc_def x(2-) b [folded t_def] m trim_signature [OF assms(4)] Let_def del: fld.simps)
qed

definition sample_onion :: string where
  "sample_onion = replicate 56 (CHR ''a'') @ ''.onion''"

definition sample_operator :: string where
  "sample_operator = ''PM8T'' @ replicate 112 (CHR ''x'')"

theorem installer_binding_verifies_witness:
  "verifyOperatorDoc (\<lambda>c net. Some ''1abc'') (\<lambda>net m a s. Inr (a = ''1abc''))
     (operatorDoc sample_onion sample_operator (signed_block (operatorMessage sample_onion sample_operator)
         ''1abc'' (replicate 80 (CHR ''A''))) None)
     (Some (''http://'' @ sample_onion @ ''/'')) = Accepted (Some ''1abc'') None"
proof -
  have o: "is_onion sample_onion"
    by (simp add: sample_onion_def is_onion_def onion_label_def list_all_iff)
  have c: "isPaymentCode (Str sample_operator)"
    by (simp add: sample_operator_def isPaymentCode_def is_b58_def list_all_iff starts_with_def)
  have "''1abc'' \<in> set (notificationAddresses (\<lambda>c net. Some ''1abc'') sample_operator)"
    by (simp add: notificationAddresses_def)
  from installer_binding_verifies [OF o c sample_parts(3,4) this, of "\<lambda>net m a s. Inr (a = ''1abc'')" None]
  show ?thesis by (simp only: sum.case if_True refl)
qed

section \<open>Units\<close>

text \<open>A pattern that is found where its word is, and takes the rest of the line.\<close>

definition line_pattern :: "string \<Rightarrow> (string \<Rightarrow> string \<Rightarrow> nat option) \<Rightarrow> bool" where
  "line_pattern K m \<longleftrightarrow> K \<noteq> [] \<and> list_all line_text K \<and>
     (\<forall>before s. if line_start before \<and> prefix K s then m before s = Some (length (takeWhile line_text s))
        else prefix K s \<or> m before s = None)"

lemma line_pattern_whole: "K \<noteq> [] \<Longrightarrow> list_all line_text K \<Longrightarrow> line_pattern K (whole_line K)"
  by (simp add: line_pattern_def whole_line_def)

lemma line_pattern_to_end: "K \<noteq> [] \<Longrightarrow> list_all line_text K \<Longrightarrow> line_pattern K (to_line_end K)"
  by (simp add: line_pattern_def to_line_end_def)

lemma newline_no_text [simp]: "\<not> line_text newline"
  by (simp add: line_text_def)

lemma line_text_newline: "list_all line_text l \<Longrightarrow> newline \<notin> set l"
  by (auto simp: list_all_iff)

definition put_line :: "string \<Rightarrow> string \<Rightarrow> string \<Rightarrow> string" where
  "put_line K r l = (if prefix K l then r else l)"

definition line_tail :: "string \<Rightarrow> bool" where
  "line_tail t \<longleftrightarrow> t = [] \<or> hd t = newline"

lemma prefix_tail: "list_all line_text K \<Longrightarrow> line_tail t \<Longrightarrow> prefix K (l @ t) \<longleftrightarrow> prefix K l"
  using prefix_before_newline [of K l "tl t"] line_text_newline [of K] by (cases t) (auto simp: line_tail_def)

lemma gsub_tail:
  assumes "line_pattern K m" and "line_tail t"
  shows "gsub m r before t = (case t of [] \<Rightarrow> [] | c # cs \<Rightarrow> c # gsub m r (before @ [c]) cs)"
proof (cases t)
  case (Cons c cs)
  have "\<not> prefix K t" using assms Cons by (cases K) (auto simp: line_pattern_def line_tail_def list_all_iff)
  with assms(1) have "m before t = None" by (simp add: line_pattern_def) metis
  with Cons show ?thesis by simp
qed simp

lemma gsub_skip:
  assumes "line_pattern K m" and "line_tail t" and "\<not> sublist K l"
  shows "gsub m r before (l @ t) = l @ gsub m r (before @ l) t"
  using assms(3)
proof (induction l arbitrary: before)
  case (Cons c l)
  have "\<not> prefix K (c # l)" using Cons.prems by (auto dest: prefix_imp_sublist)
  then have "\<not> prefix K ((c # l) @ t)" using prefix_tail [OF _ assms(2), of K "c # l"] assms(1) by (simp add: line_pattern_def)
  then have "m before (c # l @ t) = None" using assms(1) by (simp add: line_pattern_def) metis
  moreover have "\<not> sublist K l" using Cons.prems by (auto simp: sublist_Cons_right)
  ultimately show ?case using Cons.IH [of "before @ [c]"] by simp
qed simp

lemma gsub_one:
  assumes p: "line_pattern K m" and t: "line_tail t" and l: "list_all line_text l" and b: "line_start before"
    and k: "sublist K l \<longrightarrow> prefix K l" and r: "CHR ''$'' \<notin> set r"
  shows "gsub m r before (l @ t) = put_line K r l @ gsub m r (before @ l) t"
proof (cases "prefix K l")
  case True
  then obtain c l' where c: "l = c # l'" using p by (cases l) (auto simp: line_pattern_def)
  have "prefix K (l @ t)" using True by (auto simp: prefix_def)
  then have "m before (l @ t) = Some (length (takeWhile line_text (l @ t)))" using p b by (simp add: line_pattern_def)
  moreover have "takeWhile line_text (l @ t) = l"
    using t l by (cases t) (auto simp: line_tail_def list_all_iff takeWhile_eq_all_conv takeWhile_append2)
  ultimately have "m before (c # l' @ t) = Some (Suc (length l'))" by (simp add: c)
  then show ?thesis using True by (simp add: c put_line_def expand_plain [OF r])
next
  case False
  with k have "\<not> sublist K l" by blast
  from gsub_skip [OF p t this] False show ?thesis by (simp add: put_line_def)
qed

lemma gsub_lines:
  assumes p: "line_pattern K m" and r: "CHR ''$'' \<notin> set r"
    and ls: "\<forall>l \<in> set ls. list_all line_text l \<and> (sublist K l \<longrightarrow> prefix K l)" and b: "line_start before"
  shows "gsub m r before (join_with [newline] ls) = join_with [newline] (map (put_line K r) ls)"
  using ls b
proof (induction ls arbitrary: before rule: list.induct)
  case (Cons l ls)
  show ?case
  proof (cases ls)
    case Nil
    have "gsub m r before (l @ []) = put_line K r l @ gsub m r (before @ l) []"
      by (rule gsub_one [OF p _ _ Cons.prems(2) _ r]) (use Cons.prems(1) in \<open>simp_all add: line_tail_def\<close>)
    with Nil show ?thesis by (simp only: gsub.simps append_Nil2 join_with.simps list.map)
  next
    case (Cons k ks)
    define s where "s = join_with [newline] ls"
    have "gsub m r (before @ l @ [newline]) s = join_with [newline] (map (put_line K r) ls)"
      unfolding s_def using Cons.prems(1) by (intro Cons.IH) (auto simp: line_start_def)
    moreover have "gsub m r before (l @ newline # s) = put_line K r l @ gsub m r (before @ l) (newline # s)"
      using Cons.prems by (intro gsub_one [OF p _ _ _ _ r]) (simp_all add: line_tail_def)
    moreover have "gsub m r (before @ l) (newline # s) = newline # gsub m r (before @ l @ [newline]) s"
      using gsub_tail [OF p, of "newline # s"] by (simp add: line_tail_def)
    moreover have "join_with [newline] (l # ls) = l @ newline # s" using Cons by (simp add: s_def)
    moreover have "join_with [newline] (map (put_line K r) (l # ls)) =
        put_line K r l @ newline # join_with [newline] (map (put_line K r) ls)" using Cons by simp
    ultimately show ?thesis by (simp only:)
  qed
qed simp

text \<open>The first match of a line pattern is on the first line of its key.\<close>

lemma at_line_start_over:
  assumes "list_all line_text l"
  shows "at_line_start f False (l @ newline # s) = at_line_start f True s"
  using assms by (induction l) simp_all

lemma at_line_start_lines:
  assumes K: "K \<noteq> []" "list_all line_text K" and none: "\<And>s. \<not> prefix K s \<Longrightarrow> f s = None"
    and hit: "\<And>l t. l \<in> set ls \<Longrightarrow> prefix K l \<Longrightarrow> line_tail t \<Longrightarrow> f (l @ t) = Some x"
    and ls: "\<forall>l \<in> set ls. list_all line_text l" and some: "\<exists>l \<in> set ls. prefix K l"
  shows "at_line_start f True (join_with [newline] ls) = Some x"
  using hit ls some
proof (induction ls)
  case (Cons l ls)
  define t where "t = (if ls = [] then [] else newline # join_with [newline] ls)"
  have t: "join_with [newline] (l # ls) = l @ t" "line_tail t" by (cases ls; simp add: t_def line_tail_def)+
  show ?case
  proof (cases "prefix K l")
    case True
    then have "f (l @ t) = Some x" using Cons.prems(1) [of l t] t(2) by simp
    moreover have "l @ t \<noteq> []" using True K(1) by auto
    ultimately show ?thesis unfolding t(1) by (cases "l @ t") simp_all
  next
    case False
    then have ne: "ls \<noteq> []" and IH: "at_line_start f True (join_with [newline] ls) = Some x"
      using Cons by auto
    have "\<not> prefix K (l @ t)" using False by (simp add: prefix_tail [OF K(2) t(2)])
    then have "f (l @ newline # join_with [newline] ls) = None" using none ne by (simp add: t_def)
    then have "at_line_start f True (l @ newline # join_with [newline] ls) = at_line_start f True (join_with [newline] ls)"
      using at_line_start_over [of "tl l" f "join_with [newline] ls"] Cons.prems(2) by (cases l) simp_all
    with IH ne show ?thesis by (simp only: t(1)) (simp add: t_def)
  qed
qed simp

text \<open>The keys of the backend unit, and a line of its template: a key that stands in it stands at its start.\<close>

definition unit_keys :: "string list" where
  "unit_keys = [''User='', ''Group='', ''WorkingDirectory='', ''Environment=BASE_URL='', ''Environment=ADMIN_PAYMENT_CODES='', ''ExecStart='']"

definition unit_line :: "string \<Rightarrow> bool" where
  "unit_line l \<longleftrightarrow> list_all line_text l \<and> (\<forall>K \<in> set unit_keys. sublist K l \<longrightarrow> prefix K l)"

text \<open>A value that fits on a line and cannot be taken for a key or for a replacement pattern.\<close>

definition plain_value :: "string \<Rightarrow> bool" where
  "plain_value v \<longleftrightarrow> list_all line_text v \<and> CHR ''='' \<notin> set v \<and> CHR ''$'' \<notin> set v \<and> trim v = v"

lemma sublist_before_value:
  assumes "sublist K (u @ v)" and "K \<noteq> []" and "last K \<notin> set v"
  shows "sublist K u"
proof -
  consider "sublist K u" | "sublist K v" | K1 K2 where "K = K1 @ K2" "suffix K1 u" "prefix K2 v"
    using assms(1) by (auto simp: sublist_append)
  then show ?thesis
  proof cases
    case 2
    then show ?thesis using assms(2,3) by (meson last_in_set sublist_set subsetD)
  next
    case (3 K1 K2)
    show ?thesis
    proof (cases "K2 = []")
      case False
      then have "last K \<in> set K2" using 3(1) by simp
      with 3(3) assms(3) show ?thesis by (meson set_mono_prefix subsetD)
    qed (use 3 in \<open>auto intro: suffix_imp_sublist\<close>)
  qed
qed

lemma unit_keys_facts: "K \<in> set unit_keys \<Longrightarrow> K \<noteq> [] \<and> last K = CHR ''='' \<and> list_all line_text K"
  by (auto simp: unit_keys_def line_text_def)

lemma key_in_key:
  assumes "K \<in> set unit_keys" and "K' \<in> set unit_keys" and "sublist K K'"
  shows "K = K'"
proof -
  have "list_all (\<lambda>a. list_all (\<lambda>b. sublist a b \<longrightarrow> a = b) unit_keys) unit_keys"
    by (simp add: unit_keys_def sublist_Cons_right)
  with assms show ?thesis by (simp add: list_all_iff)
qed

lemma unit_line_value:
  assumes "K \<in> set unit_keys" and "list_all line_text v" and "CHR ''='' \<notin> set v"
  shows "unit_line (K @ v)"
proof -
  have "prefix K' (K @ v)" if "K' \<in> set unit_keys" "sublist K' (K @ v)" for K'
  proof -
    have "sublist K' K" using sublist_before_value [OF that(2)] unit_keys_facts [OF that(1)] assms(3) by simp
    then have "K' = K" by (rule key_in_key [OF that(1) assms(1)])
    then show ?thesis by simp
  qed
  then show ?thesis using assms unit_keys_facts [OF assms(1)] by (auto simp: unit_line_def)
qed

lemma put_unit_lines:
  assumes "line_pattern K m" and "K \<in> set unit_keys" and "list_all line_text v" and "CHR ''='' \<notin> set v"
    and "CHR ''$'' \<notin> set v" and "\<forall>l \<in> set ls. unit_line l"
  shows "gsub m (K @ v) [] (join_with [newline] ls) = join_with [newline] (map (put_line K (K @ v)) ls)"
    and "\<forall>l \<in> set (map (put_line K (K @ v)) ls). unit_line l"
proof -
  have "CHR ''$'' \<notin> set K" using assms(2) by (auto simp: unit_keys_def)
  then show "gsub m (K @ v) [] (join_with [newline] ls) = join_with [newline] (map (put_line K (K @ v)) ls)"
    using assms by (intro gsub_lines) (auto simp: unit_line_def line_start_def)
  show "\<forall>l \<in> set (map (put_line K (K @ v)) ls). unit_line l"
    using unit_line_value [OF assms(2-4)] assms(6) by (auto simp: put_line_def)
qed

section \<open>The web root\<close>

definition plain_root :: "string \<Rightarrow> bool" where
  "plain_root dir \<longleftrightarrow> (\<exists>ns. ns \<noteq> [] \<and> dir = CHR ''/'' # join_with ''/'' ns \<and>
     (\<forall>n \<in> set ns. n \<noteq> [] \<and> n \<noteq> ''.'' \<and> n \<noteq> ''..'' \<and> CHR ''/'' \<notin> set n))"

lemma fold_names:
  "\<forall>n \<in> set ns. n \<noteq> [] \<and> n \<noteq> ''.'' \<and> n \<noteq> ''..'' \<Longrightarrow> fold (step_name r) ns st = rev ns @ st"
  by (induction ns arbitrary: st) (simp_all add: step_name_def)

lemma join_append: "xs \<noteq> [] \<Longrightarrow> ys \<noteq> [] \<Longrightarrow> join_with d (xs @ ys) = join_with d xs @ d @ join_with d ys"
  by (induction d xs rule: join_with.induct) (cases ys; simp)+

lemma last_join: "ws \<noteq> [] \<Longrightarrow> last ws \<noteq> [] \<Longrightarrow> join_with d ws \<noteq> [] \<and> last (join_with d ws) = last (last ws)"
  by (induction d ws rule: join_with.induct) auto

lemma path_join_names:
  assumes "plain_root dir" and "ws \<noteq> []"
    and "\<forall>w \<in> set ws. w \<noteq> [] \<and> w \<noteq> ''.'' \<and> w \<noteq> ''..'' \<and> CHR ''/'' \<notin> set w"
  shows "path_join (dir # ws) = dir @ ''/'' @ join_with ''/'' ws"
proof -
  from assms(1) obtain ns where ns: "ns \<noteq> []" "dir = CHR ''/'' # join_with ''/'' ns"
      "\<forall>n \<in> set ns. n \<noteq> [] \<and> n \<noteq> ''.'' \<and> n \<noteq> ''..'' \<and> CHR ''/'' \<notin> set n" by (auto simp: plain_root_def)
  define q where "q = join_with ''/'' (ns @ ws)"
  have q: "q = join_with ''/'' ns @ ''/'' @ join_with ''/'' ws" using ns(1) assms(2) by (simp add: q_def join_append)
  have "filter (\<lambda>s. s \<noteq> []) (dir # ws) = dir # ws" using assms(3) ns(2) by (simp add: filter_id_conv)
  moreover have "join_with ''/'' (dir # ws) = dir @ ''/'' @ join_with ''/'' ws" using join_append [of "[dir]" ws] assms(2) by simp
  ultimately have p: "join_with ''/'' (filter (\<lambda>s. s \<noteq> []) (dir # ws)) = CHR ''/'' # q"
    by (simp only: ns(2) q append.simps)
  have split: "split_on (CHR ''/'') q = ns @ ws" unfolding q_def using ns assms(3) by (intro split_join) auto
  have names: "rev (fold (step_name True) (split_on (CHR ''/'') (CHR ''/'' # q)) []) = ns @ ws"
  proof -
    have "\<forall>n \<in> set (ns @ ws). n \<noteq> [] \<and> n \<noteq> ''.'' \<and> n \<noteq> ''..''" using ns(3) assms(3) by auto
    then have "fold (step_name True) (ns @ ws) [] = rev (ns @ ws)" by (simp only: fold_names append_Nil2)
    moreover have "split_on (CHR ''/'') (CHR ''/'' # q) = [] # ns @ ws" by (simp add: split)
    moreover have "step_name True [] [] = []" by (simp add: step_name_def)
    ultimately show ?thesis by (simp only: fold_simps rev_rev_ident)
  qed
  have l: "last ws \<in> set ws" using assms(2) by simp
  then have w: "last ws \<noteq> []" "CHR ''/'' \<notin> set (last ws)" using assms(3) by blast+
  have "last (ns @ ws) = last ws" "ns @ ws \<noteq> []" using assms(2) by simp_all
  then have "q \<noteq> []" "last q = last (last ws)" using last_join [of "ns @ ws" "''/''"] w(1) by (simp_all only: q_def not_False_eq_True simp_thms)
  moreover have "last (last ws) \<in> set (last ws)" using w(1) by simp
  ultimately have "q \<noteq> []" "last q \<noteq> CHR ''/''" using w(2) by auto
  then have "\<not> ends_with ''/'' (CHR ''/'' # q)"
    by (metis ends_with_def last_ConsR last_snoc suffixE)
  then have "path_join (dir # ws) = CHR ''/'' # q"
    unfolding path_join_def Let_def p by (simp add: names q_def [symmetric] del: split_on.simps)
  then show ?thesis by (simp add: ns(2) q)
qed

section \<open>Reading a unit back\<close>

lemma prefix_put_line:
  assumes "K \<in> set unit_keys" and "K' \<in> set unit_keys" and "CHR ''='' \<notin> set v"
  shows "prefix K (put_line K' (K' @ v) l) \<longleftrightarrow> prefix K l"
proof (cases "prefix K' l")
  case True
  have "K = K'" if "prefix K (K' @ v)"
    using sublist_before_value [OF prefix_imp_sublist [OF that]] unit_keys_facts [OF assms(1)] assms by (intro key_in_key) auto
  moreover have "K = K'" if "prefix K l"
    using prefix_same_cases [OF that True] key_in_key assms(1,2) prefix_imp_sublist by metis
  ultimately show ?thesis using True by (auto simp: put_line_def)
qed (simp add: put_line_def)

lemma takeWhile_tail: "list_all P v \<Longrightarrow> line_tail t \<Longrightarrow> \<not> P newline \<Longrightarrow> takeWhile P (v @ t) = v"
  by (cases t) (auto simp: line_tail_def list_all_iff takeWhile_eq_all_conv takeWhile_append2)

text \<open>The lines of a unit in which a key has one value.\<close>

definition says :: "string list \<Rightarrow> string \<Rightarrow> string \<Rightarrow> bool" where
  "says ls K v \<longleftrightarrow> (\<forall>l \<in> set ls. list_all line_text l) \<and> (\<exists>l \<in> set ls. prefix K l) \<and> (\<forall>l \<in> set ls. prefix K l \<longrightarrow> l = K @ v)"

lemma first_value_says:
  assumes "says ls K v" and "K \<in> set unit_keys" and "list_all line_text v" and "trim v = v"
  shows "first_value K (join_with [newline] ls) = Some v"
proof -
  have "takeWhile line_text (v @ t) = v" if "line_tail t" for t by (rule takeWhile_tail [OF assms(3) that]) simp
  then show ?thesis
    unfolding first_value_def using assms unit_keys_facts [OF assms(2)]
    by (intro at_line_start_lines [where K = K]) (auto simp: says_def drop_text_None drop_text_def)
qed

lemma node_word_other: "\<not> prefix ''node'' s \<Longrightarrow> node_word s = None"
  by (simp add: node_word_def drop_text_None)

lemma exec_value_says:
  assumes "says ls ''ExecStart='' (''/usr/bin/env node '' @ p)" and "list_all (\<lambda>c. \<not> is_ws c) p" and "p \<noteq> []"
  shows "exec_value (join_with [newline] ls) = Some p"
proof -
  have "node_word_in_line (''/usr/bin/env node '' @ p @ t) = Some p" if "line_tail t" for t
  proof -
    have "takeWhile (\<lambda>c. \<not> is_ws c) (p @ t) = p" using assms(2) that by (intro takeWhile_tail) (simp_all add: is_ws_def)
    moreover have "trim_start (p @ t) = p @ t"
      using assms(2,3) unfolding trim_start_def by (intro dropWhile_stop) (cases p; simp)+
    moreover have "ends_line t" using that by (cases t) (simp_all add: ends_line_def line_tail_def)
    ultimately have "node_word (''node '' @ p @ t) = Some p"
      using assms(3) by (simp add: node_word_def drop_text_def is_ws_def Let_def)
    then show ?thesis by (simp add: node_word_other line_text_def)
  qed
  then show ?thesis
    unfolding exec_value_def using assms
    by (intro at_line_start_lines [where K = "''ExecStart=''"]) (auto simp: says_def drop_text_None drop_text_def line_text_def)
qed

text \<open>The unit rendered from a template: every line as the last substitution that applies to it left it.\<close>

definition unit_template :: "string list \<Rightarrow> bool" where
  "unit_template ls \<longleftrightarrow> (\<forall>l \<in> set ls. unit_line l) \<and>
     (\<forall>K \<in> {''User='', ''Environment=BASE_URL='', ''Environment=ADMIN_PAYMENT_CODES='', ''ExecStart=''}. \<exists>l \<in> set ls. prefix K l)"

definition filled_line :: "string \<Rightarrow> string \<Rightarrow> string \<Rightarrow> string \<Rightarrow> string \<Rightarrow> string" where
  "filled_line user dir base codes l =
     put_line ''ExecStart='' (''ExecStart='' @ ''/usr/bin/env node '' @ dir @ ''/server/index.mjs'')
      (put_line ''Environment=ADMIN_PAYMENT_CODES='' (''Environment=ADMIN_PAYMENT_CODES='' @ codes)
       (put_line ''Environment=BASE_URL='' (''Environment=BASE_URL='' @ base)
        (put_line ''WorkingDirectory='' (''WorkingDirectory='' @ dir @ ''/server'')
         (put_line ''Group='' (''Group='' @ user) (put_line ''User='' (''User='' @ user) l)))))"

definition unit_dir :: "string \<Rightarrow> bool" where
  "unit_dir dir \<longleftrightarrow> plain_root dir \<and> list_all (\<lambda>c. \<not> is_ws c) dir \<and> CHR ''='' \<notin> set dir \<and> CHR ''$'' \<notin> set dir"

lemma unit_dir_paths:
  assumes "unit_dir dir"
  shows "path_join [dir, ''server''] = dir @ ''/server''"
    and "path_join [dir, ''server'', ''index.mjs''] = dir @ ''/server/index.mjs''" and "list_all line_text dir" and "dir \<noteq> []"
proof -
  have p: "plain_root dir" using assms by (simp add: unit_dir_def)
  show "path_join [dir, ''server''] = dir @ ''/server''" using path_join_names [OF p, of "[''server'']"] by simp
  show "path_join [dir, ''server'', ''index.mjs''] = dir @ ''/server/index.mjs''"
    using path_join_names [OF p, of "[''server'', ''index.mjs'']"] by simp
  show "list_all line_text dir" using assms by (auto simp: unit_dir_def list_all_iff line_text_def is_ws_def)
  show "dir \<noteq> []" using p by (auto simp: plain_root_def)
qed

lemma rendered_unit:
  assumes "\<forall>l \<in> set ls. unit_line l" and u: "plain_value user" and b: "plain_value base" and a: "plain_value codes" and d: "unit_dir dir"
  shows "renderServerUnit (join_with [newline] ls) \<lparr>uv_user = Some user, uv_webRoot = Some dir, uv_baseUrl = Some base, uv_adminCode = Some codes\<rparr> =
      join_with [newline] (map (filled_line user dir base codes) ls)"
    and "\<forall>l \<in> set (map (filled_line user dir base codes) ls). unit_line l"
proof -
  note dir = unit_dir_paths [OF d]
  have k: "''User='' \<in> set unit_keys" "''Group='' \<in> set unit_keys" "''WorkingDirectory='' \<in> set unit_keys"
      "''Environment=BASE_URL='' \<in> set unit_keys" "''Environment=ADMIN_PAYMENT_CODES='' \<in> set unit_keys" "''ExecStart='' \<in> set unit_keys"
    by (simp_all add: unit_keys_def)
  note w = line_pattern_whole [OF conjunct1 [OF unit_keys_facts] conjunct2 [OF conjunct2 [OF unit_keys_facts]]]
    and e = line_pattern_to_end [OF conjunct1 [OF unit_keys_facts] conjunct2 [OF conjunct2 [OF unit_keys_facts]]]
  have uv: "list_all line_text user" "CHR ''='' \<notin> set user" "CHR ''$'' \<notin> set user" using u by (simp_all add: plain_value_def)
  have bv: "list_all line_text base" "CHR ''='' \<notin> set base" "CHR ''$'' \<notin> set base" using b by (simp_all add: plain_value_def)
  have av: "list_all line_text codes" "CHR ''='' \<notin> set codes" "CHR ''$'' \<notin> set codes" using a by (simp_all add: plain_value_def)
  have dv: "list_all line_text (dir @ ''/server'')" "CHR ''='' \<notin> set (dir @ ''/server'')" "CHR ''$'' \<notin> set (dir @ ''/server'')"
      "list_all line_text (''/usr/bin/env node '' @ dir @ ''/server/index.mjs'')"
      "CHR ''='' \<notin> set (''/usr/bin/env node '' @ dir @ ''/server/index.mjs'')"
      "CHR ''$'' \<notin> set (''/usr/bin/env node '' @ dir @ ''/server/index.mjs'')"
    using d dir(3) by (simp_all add: unit_dir_def line_text_def)
  note s1 = put_unit_lines [OF w [OF k(1) k(1)] k(1) uv assms(1)]
  note s2 = put_unit_lines [OF w [OF k(2) k(2)] k(2) uv s1(2)]
  note s3 = put_unit_lines [OF e [OF k(3) k(3)] k(3) dv(1-3) s2(2)]
  note s4 = put_unit_lines [OF e [OF k(4) k(4)] k(4) bv s3(2)]
  note s5 = put_unit_lines [OF e [OF k(5) k(5)] k(5) av s4(2)]
  note s6 = put_unit_lines [OF e [OF k(6) k(6)] k(6) dv(4-6) s5(2)]
  have x: "''ExecStart=/usr/bin/env node '' @ p = ''ExecStart='' @ ''/usr/bin/env node '' @ p" for p by simp
  have fill: "map (put_line ''ExecStart='' (''ExecStart='' @ ''/usr/bin/env node '' @ dir @ ''/server/index.mjs''))
      (map (put_line ''Environment=ADMIN_PAYMENT_CODES='' (''Environment=ADMIN_PAYMENT_CODES='' @ codes))
       (map (put_line ''Environment=BASE_URL='' (''Environment=BASE_URL='' @ base))
        (map (put_line ''WorkingDirectory='' (''WorkingDirectory='' @ dir @ ''/server''))
         (map (put_line ''Group='' (''Group='' @ user)) (map (put_line ''User='' (''User='' @ user)) ls))))) =
      map (filled_line user dir base codes) ls"
    by (induction ls) (simp_all only: list.map filled_line_def)
  show "renderServerUnit (join_with [newline] ls) \<lparr>uv_user = Some user, uv_webRoot = Some dir, uv_baseUrl = Some base, uv_adminCode = Some codes\<rparr> =
      join_with [newline] (map (filled_line user dir base codes) ls)"
    unfolding renderServerUnit_def Let_def in_template_def unit_values.select_convs option.case dir(1,2) x
      s1(1) s2(1) s3(1) s4(1) s5(1) s6(1) fill by (rule refl)
  show "\<forall>l \<in> set (map (filled_line user dir base codes) ls). unit_line l" using s6(2) unfolding fill .
qed

lemma filled_says:
  assumes "\<forall>l \<in> set ls. unit_line l" and "\<forall>l \<in> set (map (filled_line user dir base codes) ls). unit_line l"
    and "\<exists>l \<in> set ls. prefix K l" and "\<And>z. filled_line user dir base codes (K @ z) = K @ v"
    and "\<And>l. prefix K (filled_line user dir base codes l) = prefix K l"
  shows "says (map (filled_line user dir base codes) ls) K v"
proof -
  have "filled_line user dir base codes l = K @ v" if "prefix K l" for l
    using that assms(4) by (auto elim: prefixE)
  then show ?thesis using assms by (auto simp: says_def unit_line_def)
qed

lemma rendered_values:
  assumes "unit_template ls" and "plain_value user" and "plain_value base" and "plain_value codes" and "unit_dir dir"
    and "user \<noteq> []" and "v = \<lparr>uv_user = Some user, uv_webRoot = Some dir, uv_baseUrl = Some base, uv_adminCode = Some codes\<rparr>"
  shows "recoverUnitValues (renderServerUnit (join_with [newline] ls) v) = v"
proof -
  have ls: "\<forall>l \<in> set ls. unit_line l" using assms(1) by (simp add: unit_template_def)
  note r = rendered_unit [OF ls assms(2-5)]
  define L where "L = map (filled_line user dir base codes) ls"
  have no: "CHR ''='' \<notin> set user" "CHR ''='' \<notin> set base" "CHR ''='' \<notin> set codes" "CHR ''='' \<notin> set (dir @ ''/server'')"
      "CHR ''='' \<notin> set (''/usr/bin/env node '' @ dir @ ''/server/index.mjs'')"
    using assms(2-5) by (simp_all add: plain_value_def unit_dir_def)
  have pre: "prefix K (filled_line user dir base codes l) = prefix K l" if "K \<in> set unit_keys" for K l
    unfolding filled_line_def by (simp only: prefix_put_line [OF that] no unit_keys_def list.set insert_iff simp_thms)
  have says: "says L K w"
    if "K \<in> set unit_keys" "\<exists>l \<in> set ls. prefix K l" "\<And>z. filled_line user dir base codes (K @ z) = K @ w" for K w
    unfolding L_def by (rule filled_says [OF ls r(2) that(2,3) pre [OF that(1)]])
  have some: "\<exists>l \<in> set ls. prefix ''User='' l" "\<exists>l \<in> set ls. prefix ''Environment=BASE_URL='' l"
      "\<exists>l \<in> set ls. prefix ''Environment=ADMIN_PAYMENT_CODES='' l" "\<exists>l \<in> set ls. prefix ''ExecStart='' l"
    using assms(1) by (simp_all add: unit_template_def)
  have "says L ''User='' user" by (rule says) (simp_all add: unit_keys_def some filled_line_def put_line_def)
  then have u: "first_value ''User='' (join_with [newline] L) = Some user"
    using assms(2) by (intro first_value_says) (simp_all add: unit_keys_def plain_value_def)
  have "says L ''Environment=BASE_URL='' base" by (rule says) (simp_all add: unit_keys_def some filled_line_def put_line_def)
  then have b: "first_value ''Environment=BASE_URL='' (join_with [newline] L) = Some base"
    using assms(3) by (intro first_value_says) (simp_all add: unit_keys_def plain_value_def)
  have "says L ''Environment=ADMIN_PAYMENT_CODES='' codes"
    by (rule says) (simp_all add: unit_keys_def some filled_line_def put_line_def)
  then have a: "first_value ''Environment=ADMIN_PAYMENT_CODES='' (join_with [newline] L) = Some codes"
    using assms(4) by (intro first_value_says) (simp_all add: unit_keys_def plain_value_def)
  have "says L ''ExecStart='' (''/usr/bin/env node '' @ dir @ ''/server/index.mjs'')"
    by (rule says) (simp_all add: unit_keys_def some filled_line_def put_line_def)
  then have e: "exec_value (join_with [newline] L) = Some (dir @ ''/server/index.mjs'')"
    using assms(5) unit_dir_paths(4) [OF assms(5)] by (intro exec_value_says) (simp_all add: unit_dir_def is_ws_def)
  have "drop_suffix ''/server/index.mjs'' (dir @ ''/server/index.mjs'') = dir" by (simp add: drop_suffix_def suffix_def)
  moreover have "suffix ''/server/index.mjs'' (dir @ ''/server/index.mjs'')" by (rule suffixI) (rule refl)
  ultimately show ?thesis
    using unit_dir_paths(4) [OF assms(5)] assms(6)
    unfolding assms(7) r(1) L_def [symmetric] recoverUnitValues_def Let_def e u b a
    by (simp only: option.case if_True text_or_none_def list.case if_False) simp
qed

text \<open>A reinstall or a reconciliation carries the operator's own configuration: the account, the web root, the onion and
  the admin codes that were rendered into the backend unit are read back from it unchanged, so the unit rendered again
  with what was read is the one that is installed.\<close>

theorem units_carry_operator_values:
  assumes "unit_template ls" and "plain_value user" and "plain_value base" and "plain_value codes" and "unit_dir dir"
    and "user \<noteq> []" and "v = \<lparr>uv_user = Some user, uv_webRoot = Some dir, uv_baseUrl = Some base, uv_adminCode = Some codes\<rparr>"
  shows "recoverUnitValues (renderServerUnit (join_with [newline] ls) v) = v"
  using assms by (rule rendered_values)

definition sample_template :: "string list" where
  "sample_template = [''[Service]'', ''User=deploy'', ''Environment=BASE_URL=x'', ''Environment=ADMIN_PAYMENT_CODES=y'',
     ''ExecStart=/usr/bin/node index.mjs'']"

definition sample_values :: unit_values where
  "sample_values = \<lparr>uv_user = Some ''mise'', uv_webRoot = Some ''/srv/mise'', uv_baseUrl = Some ''http://a.onion'',
     uv_adminCode = Some ''PM8Ta''\<rparr>"

lemma sample_unit:
  "old = [] \<or> old = [''# old''] \<Longrightarrow> unit_template (sample_template @ old)"
  "plain_value ''mise''" "plain_value ''http://a.onion''" "plain_value ''PM8Ta''" "unit_dir ''/srv/mise''"
proof -
  show "old = [] \<or> old = [''# old''] \<Longrightarrow> unit_template (sample_template @ old)"
    by (auto simp: unit_template_def sample_template_def unit_line_def unit_keys_def line_text_def sublist_Cons_right)
  show "plain_value ''mise''" "plain_value ''http://a.onion''" "plain_value ''PM8Ta''"
    by (simp_all add: plain_value_def line_text_def trim_def trim_start_def is_ws_def)
  have "plain_root ''/srv/mise''"
    unfolding plain_root_def by (intro exI [of _ "[''srv'', ''mise'']"]) simp
  then show "unit_dir ''/srv/mise''" by (simp add: unit_dir_def is_ws_def)
qed

theorem units_carry_operator_values_witness:
  "recoverUnitValues (renderServerUnit (join_with [newline] sample_template) sample_values) = sample_values"
  using units_carry_operator_values [of "sample_template @ []", OF sample_unit(1) sample_unit(2-5), of sample_values] by (simp add: sample_values_def)

end
