(* ===== verification/ReconcileProps.thy ===== *)
theory ReconcileProps
  imports Reconcile InstallerProps
begin

text \<open>
  What the reconciler and the uninstaller guarantee: a file is overwritten only when it was asked for and after its copy was
  kept, a second run finds nothing left to do, and what cannot be got back is removed only when it was named.
\<close>

section \<open>Where the copies go\<close>

abbreviation dest :: "plan_entry \<Rightarrow> string" where
  "dest r \<equiv> sf_installed (pe_file r)"

definition copy_of :: "string \<Rightarrow> string \<Rightarrow> string" where
  "copy_of dir d = path_join [dir, file_name d]"

text \<open>The copies are apart from each other and from the files.\<close>

definition apart :: "string \<Rightarrow> string set \<Rightarrow> bool" where
  "apart dir D \<longleftrightarrow> inj_on (copy_of dir) D \<and> (\<forall>d \<in> D. \<forall>d' \<in> D. copy_of dir d \<noteq> d')"

lemma installed_paths:
  "map sf_installed FILES = [''/etc/systemd/system/mise-server.service'', ''/etc/systemd/system/mise-gateway.service'',
     ''/etc/systemd/system/mise-update.service'', ''/etc/systemd/system/mise-update.timer'', ''/etc/nginx/sites-available/mise'',
     ''/etc/polkit-1/rules.d/49-mise-restart.rules'']"
  by (simp add: FILES_def POLKIT_RULE_PATH_def)

lemma installed_names:
  "map file_name (map sf_installed FILES) = [''mise-server.service'', ''mise-gateway.service'', ''mise-update.service'',
     ''mise-update.timer'', ''mise'', ''49-mise-restart.rules'']"
  unfolding installed_paths by (simp add: file_name_def)

lemma distinct_installed: "distinct (map sf_installed FILES)"
  unfolding installed_paths by simp

lemma distinct_names: "distinct (map file_name (map sf_installed FILES))"
  unfolding installed_names by simp

lemma copy_of_backup:
  assumes "CHR ''/'' \<notin> set stamp" and "d \<in> set (map sf_installed FILES)"
  shows "copy_of (backup_dir [] stamp) d = ''/var/backups/mise/system-'' @ stamp @ ''/'' @ file_name d"
proof -
  have "plain_root (''/var/backups/mise/system-'' @ stamp)"
    unfolding plain_root_def using assms(1)
    by (intro exI [of _ "[''var'', ''backups'', ''mise'', ''system-'' @ stamp]"]) simp
  moreover have "list_all (\<lambda>w. w \<noteq> [] \<and> w \<noteq> ''.'' \<and> w \<noteq> ''..'' \<and> CHR ''/'' \<notin> set w) (map file_name (map sf_installed FILES))"
    unfolding installed_names by simp
  then have "file_name d \<noteq> [] \<and> file_name d \<noteq> ''.'' \<and> file_name d \<noteq> ''..'' \<and> CHR ''/'' \<notin> set (file_name d)"
    using assms(2) by (auto simp: list_all_iff)
  ultimately show ?thesis
    using path_join_names [of "''/var/backups/mise/system-'' @ stamp" "[file_name d]"]
    by (simp add: copy_of_def backup_dir_def at_path_def)
qed

lemma copies_apart:
  assumes "CHR ''/'' \<notin> set stamp"
  shows "apart (backup_dir [] stamp) (set (map sf_installed FILES))"
proof -
  have "inj_on file_name (set (map sf_installed FILES))" using distinct_names by (metis distinct_map)
  then have "inj_on (copy_of (backup_dir [] stamp)) (set (map sf_installed FILES))"
    by (auto simp: inj_on_def copy_of_backup [OF assms] simp del: set_map)
  moreover have "list_all (prefix ''/etc'') (map sf_installed FILES)" unfolding installed_paths by simp
  then have "copy_of (backup_dir [] stamp) d \<noteq> d'" if "d \<in> set (map sf_installed FILES)" "d' \<in> set (map sf_installed FILES)" for d d'
    using that copy_of_backup [OF assms that(1)] by (auto simp: list_all_iff simp del: set_map)
  ultimately show ?thesis by (simp add: apart_def)
qed

lemma apart_subset: "apart dir D \<Longrightarrow> E \<subseteq> D \<Longrightarrow> apart dir E"
  unfolding apart_def by (blast intro: inj_on_subset)

section \<open>Writing the files\<close>

lemma put_file_other: "put_file wr p s fs = (b, fs') \<Longrightarrow> q \<noteq> p \<Longrightarrow> fs' q = fs q"
  by (auto simp: put_file_def split: option.splits)

lemma put_file_done: "put_file wr p s fs = (True, fs') \<Longrightarrow> fs' = fs(p \<mapsto> s)"
  by (auto simp: put_file_def split: option.splits)

lemma write_files_Cons:
  assumes "write_files wr [] dir (r # rs) fs = (b, fs')"
  obtains "fs' = fs" | fs1 where "put_file wr (copy_of dir (dest r)) (the (fs (dest r))) fs = (False, fs1)" "fs' = fs1" "fs (dest r) \<noteq> None"
    | old fs2 where "fs (dest r) = Some old" "fs' = fs2"
        "put_file wr (dest r) (pe_shipped r) (fs(copy_of dir (dest r) \<mapsto> old)) = (False, fs2)"
    | old where "fs (dest r) = Some old"
        "write_files wr [] dir rs (fs(copy_of dir (dest r) \<mapsto> old, dest r \<mapsto> pe_shipped r)) = (b, fs')"
proof (cases "fs (dest r)")
  case None
  then show ?thesis using assms that(1) by (simp add: at_path_def)
next
  case old: (Some old)
  obtain c fs1 where c: "put_file wr (copy_of dir (dest r)) old fs = (c, fs1)" by fastforce
  obtain e fs2 where e: "put_file wr (dest r) (pe_shipped r) fs1 = (e, fs2)" by fastforce
  show ?thesis
  proof (cases c)
    case False
    then show ?thesis using assms old c that(2) [of fs1] by (simp add: at_path_def copy_of_def Let_def)
  next
    case True
    with c have fs1: "fs1 = fs(copy_of dir (dest r) \<mapsto> old)" by (simp add: put_file_done)
    show ?thesis
    proof (cases e)
      case False
      then show ?thesis using assms old c True e fs1 that(3) [of old fs2] by (simp add: at_path_def copy_of_def Let_def)
    next
      case e': True
      with e have "fs2 = fs1(dest r \<mapsto> pe_shipped r)" by (simp add: put_file_done)
      then show ?thesis using assms old c True e e' fs1 that(4) [of old] by (simp add: at_path_def copy_of_def Let_def)
    qed
  qed
qed

text \<open>Whatever fails on the way: a path that changed is a copy, or a file whose copy holds what it was.\<close>

lemma write_files_keep:
  assumes "write_files wr [] dir rs fs = (b, fs')" and "apart dir (set (map dest rs))" and "distinct (map dest rs)"
    and "fs' p \<noteq> fs p"
  shows "p \<in> copy_of dir ` set (map dest rs) \<or> (p \<in> set (map dest rs) \<and> fs' (copy_of dir p) = fs p)"
  using assms
proof (induction rs arbitrary: fs p)
  case (Cons r rs)
  let ?d = "dest r" and ?c = "copy_of dir (dest r)"
  have a: "apart dir (set (map dest rs))" by (rule apart_subset [OF Cons.prems(2)]) auto
  have ne: "?c \<noteq> ?d" using Cons.prems(2) by (simp add: apart_def)
  from Cons.prems(1) show ?case
  proof (cases rule: write_files_Cons)
    case 1
    with Cons.prems(4) show ?thesis by simp
  next
    case (2 fs1)
    then have "p = ?c" using Cons.prems(4) put_file_other by metis
    then show ?thesis by simp
  next
    case (3 old fs2)
    have "p = ?c \<or> p = ?d" using 3 Cons.prems(4) put_file_other [OF 3(3), of p] by (cases "p = ?c") auto
    moreover have "fs' ?c = Some old" using 3(2) put_file_other [OF 3(3) ne] by simp
    ultimately show ?thesis using 3(1) by auto
  next
    case (4 old)
    let ?fs = "fs(?c \<mapsto> old, ?d \<mapsto> pe_shipped r)"
    have IH: "q \<in> copy_of dir ` set (map dest rs) \<or> (q \<in> set (map dest rs) \<and> fs' (copy_of dir q) = ?fs q)" if "fs' q \<noteq> ?fs q" for q
      by (rule Cons.IH [OF 4(2) a _ that]) (use Cons.prems(3) in simp)
    have c: "?c \<notin> copy_of dir ` set (map dest rs)" "?c \<notin> set (map dest rs)"
      using Cons.prems(2,3) unfolding apart_def by (auto simp: inj_on_def)
    then have kept: "fs' ?c = Some old" using IH [of ?c] ne by auto
    show ?thesis
    proof (cases "p = ?c \<or> p = ?d")
      case True
      then show ?thesis using kept 4(1) by auto
    next
      case False
      then have "fs' p \<noteq> ?fs p" "?fs p = fs p" using Cons.prems(4) by auto
      with IH [of p] show ?thesis by auto
    qed
  qed
qed simp

lemma write_files_done:
  assumes "\<And>p. wr p = None" and "apart dir (set (map dest rs))" and "distinct (map dest rs)" and "\<forall>r \<in> set rs. fs (dest r) \<noteq> None"
  shows "\<exists>fs'. write_files wr [] dir rs fs = (True, fs') \<and> (\<forall>r \<in> set rs. fs' (dest r) = Some (pe_shipped r)) \<and>
    (\<forall>p. p \<notin> set (map dest rs) \<longrightarrow> p \<notin> copy_of dir ` set (map dest rs) \<longrightarrow> fs' p = fs p)"
  using assms(2-)
proof (induction rs arbitrary: fs)
  case (Cons r rs)
  let ?d = "dest r" and ?c = "copy_of dir (dest r)"
  obtain old where old: "fs ?d = Some old" using Cons.prems(3) by auto
  let ?fs = "fs(?c \<mapsto> old, ?d \<mapsto> pe_shipped r)"
  have a: "apart dir (set (map dest rs))" by (rule apart_subset [OF Cons.prems(1)]) auto
  have c: "?c \<notin> set (map dest rs)" "?d \<notin> copy_of dir ` set (map dest rs)" "?d \<notin> set (map dest rs)"
    using Cons.prems(1,2) by (auto simp: apart_def)
  have "\<forall>r \<in> set rs. ?fs (dest r) \<noteq> None" using Cons.prems(3) by simp
  moreover have "distinct (map dest rs)" using Cons.prems(2) by simp
  ultimately obtain fs' where fs': "write_files wr [] dir rs ?fs = (True, fs')"
      "\<forall>r \<in> set rs. fs' (dest r) = Some (pe_shipped r)"
      "\<forall>p. p \<notin> set (map dest rs) \<longrightarrow> p \<notin> copy_of dir ` set (map dest rs) \<longrightarrow> fs' p = ?fs p"
    using Cons.IH [OF a] by blast
  have "write_files wr [] dir (r # rs) fs = (True, fs')"
    using fs'(1) old by (simp add: at_path_def put_file_def assms(1) copy_of_def Let_def)
  moreover have "fs' ?d = Some (pe_shipped r)" using fs'(3) c by simp
  ultimately show ?case using fs' by (intro exI [of _ fs']) auto
qed simp

section \<open>The run\<close>

lemma dest_plan: "map dest (plan_all templates pre fs v) = map sf_installed FILES"
  by (simp add: plan_all_def plan_file_def comp_def split: option.split) (simp add: Let_def cong: if_cong)

lemma to_write_dests:
  "set (map dest (to_write (plan_all templates pre fs v))) \<subseteq> set (map sf_installed FILES)"
  "distinct (map dest (to_write (plan_all templates pre fs v)))"
proof -
  have "set (map dest (to_write (plan_all templates pre fs v))) \<subseteq> set (map dest (plan_all templates pre fs v))"
    by (auto simp: to_write_def)
  then show "set (map dest (to_write (plan_all templates pre fs v))) \<subseteq> set (map sf_installed FILES)"
    by (simp only: dest_plan)
  have "distinct (map dest (plan_all templates pre fs v))" unfolding dest_plan by (rule distinct_installed)
  then show "distinct (map dest (to_write (plan_all templates pre fs v)))" by (simp add: to_write_def distinct_map_filter)
qed

lemma flag_absent: "name \<notin> set argv \<Longrightarrow> flag_value name d argv = d"
  by (induction argv) auto

lemma plan_dest [simp]: "dest (plan_file templates pre fs v f) = sf_installed f"
  by (simp add: plan_file_def Let_def split: option.split)

lemma same_file: "f \<in> set FILES \<Longrightarrow> g \<in> set FILES \<Longrightarrow> sf_installed f = sf_installed g \<Longrightarrow> f = g"
  using distinct_installed by (metis distinct_map inj_on_def)

text \<open>After a run that wrote everything, each file that was there and has a template is what its template renders to.\<close>

lemma after_writing:
  assumes rs: "rs = to_write (plan_all templates [] fs v)" and "CHR ''/'' \<notin> set stamp"
    and wrote: "\<forall>r \<in> set rs. fs' (dest r) = Some (pe_shipped r)"
    and other: "\<forall>p. p \<notin> set (map dest rs) \<longrightarrow> p \<notin> copy_of (backup_dir [] stamp) ` set (map dest rs) \<longrightarrow> fs' p = fs p"
    and f: "f \<in> set FILES"
  shows "fs' (sf_installed f) = (case templates (sf_template f) of
      None \<Rightarrow> fs (sf_installed f) | Some tpl \<Rightarrow> map_option (\<lambda>_. sf_render f tpl v) (fs (sf_installed f)))"
proof (cases "pe_state (plan_file templates [] fs v f) = Planned Differs")
  case True
  then have "plan_file templates [] fs v f \<in> set rs" using f by (simp add: rs to_write_def plan_all_def)
  then have "fs' (sf_installed f) = Some (pe_shipped (plan_file templates [] fs v f))" using wrote by force
  then show ?thesis using True
    by (auto simp: plan_file_def Let_def at_path_def planSystemFile_def split: option.splits)
next
  case False
  have "sf_installed f \<notin> set (map dest rs)"
  proof
    assume "sf_installed f \<in> set (map dest rs)"
    then obtain g where "g \<in> set FILES" "sf_installed f = sf_installed g" "pe_state (plan_file templates [] fs v g) = Planned Differs"
      by (auto simp: rs to_write_def plan_all_def)
    with False f same_file show False by metis
  qed
  moreover have "sf_installed f \<notin> copy_of (backup_dir [] stamp) ` set (map dest rs)"
  proof
    assume "sf_installed f \<in> copy_of (backup_dir [] stamp) ` set (map dest rs)"
    then obtain d where d: "d \<in> set (map dest rs)" "sf_installed f = copy_of (backup_dir [] stamp) d" by blast
    have "d \<in> set (map sf_installed FILES)" "sf_installed f \<in> set (map sf_installed FILES)"
      using d(1) to_write_dests(1) f unfolding rs by (blast dest: subsetD, simp only: set_map imageI)
    with copies_apart [OF assms(2)] d(2) show False unfolding apart_def by metis
  qed
  ultimately have "fs' (sf_installed f) = fs (sf_installed f)" using other by blast
  then show ?thesis using False
    by (auto simp: plan_file_def Let_def at_path_def planSystemFile_def split: option.splits if_splits)
qed



text \<open>A run that was confirmed and whose writes all succeed.\<close>

lemma written_state:
  assumes "''--root'' \<notin> set argv" and "''--apply'' \<in> set argv" and "confirmed (''--yes'' \<in> set argv) tty answer"
    and "CHR ''/'' \<notin> set stamp" and "fs (sf_installed (hd FILES)) = Some backend" and "recoverUnitValues backend = v"
    and "uv_user v \<noteq> None" and "uv_webRoot v \<noteq> None" and f: "f \<in> set FILES"
  shows "oc_files (reconcile templates (\<lambda>p. None) runs argv tty answer stamp fs) (sf_installed f) =
    (case templates (sf_template f) of
      None \<Rightarrow> fs (sf_installed f) | Some tpl \<Rightarrow> map_option (\<lambda>_. sf_render f tpl v) (fs (sf_installed f)))"
proof -
  define rs where "rs = to_write (plan_all templates [] fs v)"
  have there: "\<forall>r \<in> set rs. fs (dest r) \<noteq> None"
    by (auto simp: rs_def to_write_def plan_all_def plan_file_def at_path_def Let_def planSystemFile_def split: option.splits if_splits)
  obtain fs' where fs': "write_files (\<lambda>p. None) [] (backup_dir [] stamp) rs fs = (True, fs')"
      "\<forall>r \<in> set rs. fs' (dest r) = Some (pe_shipped r)"
      "\<forall>p. p \<notin> set (map dest rs) \<longrightarrow> p \<notin> copy_of (backup_dir [] stamp) ` set (map dest rs) \<longrightarrow> fs' p = fs p"
    using write_files_done [OF refl apart_subset [OF copies_apart [OF assms(4)] to_write_dests(1)] to_write_dests(2) there [unfolded rs_def]]
    unfolding rs_def by blast
  have "recoverUnitValues [] = v \<Longrightarrow> uv_user v = None"
    by (auto simp: recoverUnitValues_def first_value_def drop_text_def text_or_none_def Let_def)
  then have ne: "backend \<noteq> []" using assms(6,7) by auto
  obtain u d where v: "uv_user v = Some u" "uv_webRoot v = Some d" using assms(7,8) by blast
  have "oc_files (reconcile templates (\<lambda>p. None) runs argv tty answer stamp fs) = (if rs = [] then fs else fs')"
    using assms(2,3,5) ne v fs'(1)
    by (simp add: reconcile_def flag_absent [OF assms(1)] at_path_def text_or_none_def Let_def assms(6) rs_def [symmetric] stops_def split: prod.split)
  moreover have "fs' = fs" if "rs = []" using fs'(1) that by simp
  ultimately have "oc_files (reconcile templates (\<lambda>p. None) runs argv tty answer stamp fs) = fs'" by simp
  with after_writing [OF rs_def assms(4) fs'(2,3) f] show ?thesis by simp
qed

text \<open>C38: no file is overwritten without being asked for, nor without a copy. Whatever the run meets (a failing write in
  the middle, a failing command), a path that changed is either one of the copies or one of the six files; then the
  command line says apply, the question was answered yes, and the copy kept of that file holds what it was.\<close>

theorem overwritten_only_with_copy:
  assumes "oc = reconcile templates wr runs argv tty answer stamp fs" and "''--root'' \<notin> set argv"
    and "CHR ''/'' \<notin> set stamp" and "oc_files oc p \<noteq> fs p"
  shows "''--apply'' \<in> set argv \<and> confirmed (''--yes'' \<in> set argv) tty answer \<and>
    (p \<in> copy_of (backup_dir [] stamp) ` set (map sf_installed FILES) \<or>
     (p \<in> set (map sf_installed FILES) \<and> oc_files oc (copy_of (backup_dir [] stamp) p) = fs p))"
proof -
  have root: "flag_value ''--root'' [] argv = []" using assms(2) by (rule flag_absent)
  obtain backend where b: "text_or_none (fs (at_path [] (sf_installed (hd FILES)))) = Some backend"
    using assms(1,4) root by (auto simp: reconcile_def stops_def split: option.splits)
  define rs where "rs = to_write (plan_all templates [] fs (recoverUnitValues backend))"
  obtain ok fs1 where w: "write_files wr [] (backup_dir [] stamp) rs fs = (ok, fs1)" by fastforce
  have oc: "oc = reconcile templates wr runs argv tty answer stamp fs" by (rule assms(1))
  have a: "''--apply'' \<in> set argv" "confirmed (''--yes'' \<in> set argv) tty answer" "oc_files oc = fs1"
    using oc assms(4) w by (auto simp: reconcile_def root b stops_def Let_def rs_def [symmetric] split: if_splits bool.splits prod.splits)
  have "fs1 p \<noteq> fs p" using assms(4) a(3) by simp
  from write_files_keep [OF w apart_subset [OF copies_apart [OF assms(3)]] _ this] to_write_dests
  have "p \<in> copy_of (backup_dir [] stamp) ` set (map dest rs) \<or>
      (p \<in> set (map dest rs) \<and> fs1 (copy_of (backup_dir [] stamp) p) = fs p)" by (simp only: rs_def)
  moreover have "set (map dest rs) \<subseteq> set (map sf_installed FILES)" unfolding rs_def by (rule to_write_dests)
  ultimately show ?thesis using a by (blast dest: subsetD)
qed

definition sample_files :: files where
  "sample_files = [sf_installed (hd FILES) \<mapsto> renderServerUnit (join_with [newline] (sample_template @ [''# old''])) sample_values]"

definition sample_shipped :: files where
  "sample_shipped = [sf_template (hd FILES) \<mapsto> join_with [newline] (sample_template @ [])]"

lemma sample_values_read: "old = [] \<or> old = [''# old''] \<Longrightarrow>
    recoverUnitValues (renderServerUnit (join_with [newline] (sample_template @ old)) sample_values) = sample_values"
  by (rule rendered_values [OF sample_unit(1) sample_unit(2-5)]) (simp_all add: sample_values_def)

lemma sample_written:
  "oc_files (reconcile sample_shipped (\<lambda>p. None) runs [''--apply'', ''--yes''] tty answer ''T0'' sample_files) (sf_installed (hd FILES)) =
     Some (renderServerUnit (join_with [newline] (sample_template @ [])) sample_values)"
proof -
  have "hd FILES \<in> set FILES" "sf_render (hd FILES) = renderServerUnit" by (simp_all add: FILES_def)
  with written_state [of "[''--apply'', ''--yes'']" tty answer "''T0''" sample_files _ sample_values "hd FILES" sample_shipped runs]
    sample_values_read [of "[''# old'']"]
  show ?thesis by (simp add: sample_files_def sample_shipped_def confirmed_def) (simp add: sample_values_def)
qed

lemma sample_changed:
  "oc_files (reconcile sample_shipped (\<lambda>p. None) runs [''--apply'', ''--yes''] tty answer ''T0'' sample_files) (sf_installed (hd FILES)) \<noteq>
     sample_files (sf_installed (hd FILES))"
proof -
  let ?fl = "filled_line ''mise'' ''/srv/mise'' ''http://a.onion'' ''PM8Ta''"
  have r: "renderServerUnit (join_with [newline] (sample_template @ old)) sample_values = join_with [newline] (map ?fl (sample_template @ old))"
    if "old = [] \<or> old = [''# old'']" for old
    unfolding sample_values_def using sample_unit(1) [OF that] sample_unit(2-5)
    by (intro rendered_unit(1)) (simp_all add: unit_template_def)
  have "sample_files (sf_installed (hd FILES)) = Some (renderServerUnit (join_with [newline] (sample_template @ [''# old''])) sample_values)"
    by (simp add: sample_files_def)
  moreover have "join_with [newline] (map f (sample_template @ [])) \<noteq> join_with [newline] (map f (sample_template @ [''# old'']))" for f
    by (simp add: sample_template_def)
  ultimately show ?thesis
    unfolding sample_written by (simp only: r [of "[]", OF disjI1 [OF refl]] r [of "[''# old'']", OF disjI2 [OF refl]] option.inject not_False_eq_True)
qed

theorem overwritten_only_with_copy_witness:
  "oc_files (reconcile sample_shipped (\<lambda>p. None) (\<lambda>c. True) [''--apply'', ''--yes''] False [] ''T0'' sample_files)
     (copy_of (backup_dir [] ''T0'') (sf_installed (hd FILES))) = sample_files (sf_installed (hd FILES))"
proof -
  let ?p = "sf_installed (hd FILES)"
  have "?p \<notin> copy_of (backup_dir [] ''T0'') ` set (map sf_installed FILES)"
    using copies_apart [of "''T0''"] by (auto simp: apart_def FILES_def)
  with overwritten_only_with_copy [OF refl _ _ sample_changed [where runs = "\<lambda>c. True" and tty = False and answer = "[]"]]
  show ?thesis by simp
qed






section \<open>The diff\<close>

text \<open>Equal texts differ in nothing; after a line that was only added, the lines that did not change are shown as added too.\<close>

lemma diff_of_equal: "diff_lines as as = []"
proof (induction as)
  case (Cons l ls)
  then show ?case by (subst diff_lines.simps) simp
qed (subst diff_lines.simps, simp)

lemma only_added: "diff_lines [] bs = map (\<lambda>l. ''+ '' @ l) bs"
proof -
  have "line_sync [] bs ks = None" for ks by (induction ks) simp_all
  then show ?thesis by (subst diff_lines.simps) simp
qed

lemma one_added:
  assumes "b \<noteq> a"
  shows "diff_lines (a # as) (b # a # bs) = (''+ '' @ b) # diff_lines as (a # bs)"
proof -
  have "[1..<40] = (1 :: nat) # [2..<40]" by (simp add: upt_conv_Cons)
  then have "line_sync (a # as) (b # a # bs) [1..<40] = Some (0, 1)" by simp
  then show ?thesis using assms by (subst diff_lines.simps) (simp add: or_one_def)
qed

lemma unchanged_shown_as_added: "distinct (n # as) \<Longrightarrow> diff_lines as (n # as) = map (\<lambda>l. ''+ '' @ l) (n # as)"
  by (induction as arbitrary: n) (simp_all add: one_added only_added)

section \<open>Uninstalling\<close>

text \<open>C40: the uninstaller destroys only what it was told to. A directory is removed whole only in a run with apply, and it
  is the web root when the data was named, or the hidden service directory when the onion was named and, unless yes was
  given, the operator typed the address; and unless no-backup was given the first command of the run was the archive of
  that directory, and it succeeded.\<close>

theorem destroys_only_as_told:
  assumes "uninstall exists runs superuser argv typed stamp fs = (acts, code)" and "Command [''rm'', ''-rf'', p] \<in> set acts"
  shows "superuser \<and> ''--apply'' \<in> set argv \<and>
    (p = pl_web (places_of argv) \<and> ''--purge-data'' \<in> set argv \<or>
     p = pl_onion (places_of argv) \<and> ''--purge-onion'' \<in> set argv \<and>
       (''--yes'' \<in> set argv \<or> sv_address (take_survey exists fs (places_of argv)) = Some (trim typed))) \<and>
    (''--no-backup'' \<in> set argv \<or>
      (\<exists>c rest. acts = Command c # rest \<and> hd c = ''tar'' \<and> p \<in> set c \<and> runs c))"
proof -
  define s where "s = take_survey exists fs (places_of argv)"
  define rest where "rest = stop_services @ remove_units s @ remove_site runs s @ remove_torrc runs (places_of argv) fs s @
    remove_rest (wanted_of argv) (places_of argv) s"
  have run: "superuser" "''--apply'' \<in> set argv" "agreed (wanted_of argv) s typed"
    using assms by (auto simp: uninstall_def Let_def wanted_of_def s_def split: if_splits)
  consider "acts = rest" "backup_command (wanted_of argv) (places_of argv) s stamp = None"
    | c where "acts = Command c # rest" "backup_command (wanted_of argv) (places_of argv) s stamp = Some c" "runs c"
    | c where "acts = [Command c]" "backup_command (wanted_of argv) (places_of argv) s stamp = Some c"
    using assms(1) run assms(2) unfolding uninstall_def Let_def s_def [symmetric] rest_def [symmetric]
    by (cases "backup_command (wanted_of argv) (places_of argv) s stamp") (auto split: if_splits)
  note cases = this
  have tar: "hd c = ''tar'' \<and> c \<noteq> [''rm'', ''-rf'', p]" if "backup_command (wanted_of argv) (places_of argv) s stamp = Some c" for c
    using that by (auto simp: backup_command_def split: if_splits)
  from cases have "Command [''rm'', ''-rf'', p] \<in> set rest" using assms(2) tar by cases auto
  then have gone: "Command [''rm'', ''-rf'', p] \<in> set (remove_rest (wanted_of argv) (places_of argv) s)"
    unfolding rest_def set_append
    by (auto simp: stop_services_def remove_units_def remove_site_def remove_torrc_def split: if_splits option.splits)
  then have named: "p = pl_web (places_of argv) \<and> ''--purge-data'' \<in> set argv \<and> sv_web s \<or>
      p = pl_onion (places_of argv) \<and> ''--purge-onion'' \<in> set argv \<and> sv_onion s"
    by (auto simp: remove_rest_def wanted_of_def split: if_splits)
  moreover have "''--yes'' \<in> set argv \<or> sv_address s = Some (trim typed)" if "''--purge-onion'' \<in> set argv" "sv_onion s"
    using run(3) that by (auto simp: agreed_def wanted_of_def text_or_none_def split: if_splits option.splits)
  moreover have "\<exists>c rest. acts = Command c # rest \<and> hd c = ''tar'' \<and> p \<in> set c \<and> runs c" if "''--no-backup'' \<notin> set argv"
    using cases
  proof cases
    case 1
    then show ?thesis using that named by (auto simp: backup_command_def wanted_of_def split: if_splits)
  next
    case (2 c)
    moreover have "p \<in> set c" using 2(2) named by (auto simp: backup_command_def wanted_of_def split: if_splits)
    ultimately show ?thesis using tar by blast
  next
    case (3 c)
    then show ?thesis using assms(2) tar by auto
  qed
  ultimately show ?thesis using run(1,2) unfolding s_def by blast
qed

theorem destroys_only_as_told_witness:
  "\<exists>acts. uninstall (\<lambda>p. p = ''/var/www/mise'') (\<lambda>c. True) True [''--apply'', ''--purge-data''] ''yes'' ''T0'' (\<lambda>p. None) = (acts, 0) \<and>
     (\<exists>c rest. acts = Command c # rest \<and> hd c = ''tar'' \<and> ''/var/www/mise'' \<in> set c)"
proof -
  define argv where "argv = [''--apply'', ''--purge-data'']"
  have w: "wanted_of argv = \<lparr>w_apply = True, w_purge_data = True, w_purge_onion = False, w_no_backup = False, w_yes = False\<rparr>"
      "places_of argv = \<lparr>pl_web = ''/var/www/mise'', pl_onion = ''/var/lib/tor/mise'', pl_torrc = ''/etc/tor/torrc''\<rparr>"
    by (simp_all add: argv_def wanted_of_def places_of_def)
  have "trim ''yes'' = ''yes''" by (simp add: trim_def trim_start_def is_ws_def)
  let ?exists = "\<lambda>p. p = ''/var/www/mise''"
  have sv: "sv_web (take_survey ?exists (\<lambda>p. None) (places_of argv))" "\<not> sv_onion (take_survey ?exists (\<lambda>p. None) (places_of argv))"
    by (simp_all add: take_survey_def w(2))
  then have "\<not> nothing_found (take_survey ?exists (\<lambda>p. None) (places_of argv))"
      "agreed (wanted_of argv) (take_survey ?exists (\<lambda>p. None) (places_of argv)) ''yes''"
    using \<open>trim ''yes'' = ''yes''\<close> by (simp_all add: nothing_found_def agreed_def w(1))
  moreover have "Command [''rm'', ''-rf'', ''/var/www/mise''] \<in>
      set (remove_rest (wanted_of argv) (places_of argv) (take_survey ?exists (\<lambda>p. None) (places_of argv)))"
    using sv by (simp add: remove_rest_def w)
  ultimately obtain acts where a: "uninstall ?exists (\<lambda>c. True) True argv ''yes'' ''T0'' (\<lambda>p. None) = (acts, 0)"
      "Command [''rm'', ''-rf'', ''/var/www/mise''] \<in> set acts"
    by (simp add: uninstall_def Let_def split: option.split) (simp add: w(1) backup_command_def)
  have "''--no-backup'' \<notin> set argv" by (simp add: argv_def)
  with destroys_only_as_told [OF a] a(1) show ?thesis unfolding argv_def by blast
qed

end
