(* ===== verification/Spec2Isabelle.thy ===== *)
theory Spec2Isabelle
  imports MarkdownProps UpdateProps IndexConcurrency GatewayProps GatewaySocket StoreProps CryptoProps ApiClaims ArchiveProps ImportProps SelfUpdateProps MaintenanceProps ReconcileProps
begin

text \<open>
  \<^bold>\<open>The program.\<close> Mise is a directory of Dojo nodes (back ends of Bitcoin wallets) that one operator serves as a Tor
  hidden service. Its parts, with the files under \<open>src/\<close>:

  \<^item> the \<^emph>\<open>backend\<close> (\<open>server/index.ts\<close> over \<open>store.ts\<close>, \<open>crypto.ts\<close>, \<open>dns.ts\<close>, \<open>domains.ts\<close>, \<open>dojo-version.ts\<close>,
    \<open>paynym.mjs\<close>): operators sign in with a payment code, submit listings, claim domains; the administrator moderates;
  \<^item> the \<^emph>\<open>public list\<close> (\<open>server/build-public.ts\<close>): store and seed become the published documents;
  \<^item> the \<^emph>\<open>updater\<close> (\<open>scripts/update.mjs\<close>): a timer probes every listed node over Tor and records the result;
  \<^item> the \<^emph>\<open>gateway\<close> (\<open>gateway/\<close>): a second process that holds the seed of the shop, hands out signed invoice addresses
    one index at a time, and answers lines on a socket; \<open>server/gateway-client.mjs\<close> is the backend's end of it;
  \<^item> the \<^emph>\<open>federation\<close> (\<open>scripts/bootstrap-import.mjs\<close>, \<open>scripts/pack-source.mjs\<close>, \<open>server/self-update.mjs\<close>,
    \<open>scripts/apply-update.mjs\<close>): an instance takes over the listings of another one, or its code;
  \<^item> the \<^emph>\<open>operator's tools\<close> (\<open>scripts/installer-lib.mjs\<close>, \<open>reconcile-system.mjs\<close>, \<open>uninstall.mjs\<close>,
    \<open>migrate-seed-to-store.mjs\<close> and the commands beside the backend): they put the instance on a machine, keep its system
    files and its store in order, and take it off again;
  \<^item> the \<^emph>\<open>pages\<close> (\<open>assets/js/markdown.js\<close>): the renderer of the site's own pages.

  \<^bold>\<open>The language.\<close> \<open>Prelude\<close> holds the objects of the language as association lists with the names that every object
  inherits (reading \<open>constructor\<close> from a plain object finds something, assigning \<open>__proto__\<close> adds nothing), the array
  operations, time stamps, and the collections \<open>inv_pres\<close> and others that the component proofs draw on. \<open>JsText\<close> has the
  text operations, \<open>JsValue\<close> the dynamically typed values of a request body or a data file, \<open>Json\<close> their text and its
  parser with the proof that they are inverse, \<open>Url\<close> what a parsed address holds.

  \<^bold>\<open>The gateway.\<close> \<open>IndexState\<close> is the allocator of \<open>index-state.ts\<close>: a record with the next index, the free list and the
  settled set, and a file. Its operations refine an abstract ledger and keep the state well formed; an index is not handed out again before
  the quarantine is over and never after it was paid. \<open>IndexConcurrency\<close> cuts the same operations at their awaits and runs
  them in any order. \<open>IndexService\<close> states what a client may rely on as the locale \<open>index_service\<close> and interprets it on
  the operations of \<open>IndexState\<close>. \<open>Derive\<close>, \<open>Identity\<close>, \<open>Pool\<close> and \<open>Bootstrap\<close> are the addresses, the signed record of
  an address, the pre-signed pool, and the files of the shop with their refusals. \<open>Gateway\<close> is the handler of every
  operation, \<open>GatewayProps\<close> what its replies promise (its allocations are facts of the interpreted interface), and
  \<open>GatewaySocket\<close> the line protocol of both ends as machines over the events of their sockets, also of a connection that
  is destroyed because more than its cap waits in the buffer.

  \<^bold>\<open>The backend.\<close> \<open>Store\<close> has a record for the document and one operation per function of \<open>store.ts\<close>; \<open>in_store\<close> loads
  before and writes after it, and a write may fail, in which case memory and file differ. \<open>StoreProps\<close> states the locales
  \<open>keyed_store\<close> and \<open>single_use\<close> and interprets them on the collections. \<open>Crypto\<close> and \<open>CryptoProps\<close> read and verify
  signed blocks: comparison of payloads is equality of the data, blocks and claims are read back as they were written, and
  what is accepted was signed for this site, payload or domain. \<open>Dns\<close> reads the replies of the resolvers and counts their
  agreement (a reply is read through head, status and chunks as it arrives, in any pieces), \<open>Domains\<close> keeps or drops the badge, \<open>DojoVersion\<close> is the version gate. \<open>Api\<close>, \<open>ApiRoutes\<close>, \<open>ApiDojo\<close>,
  \<open>ApiDomain\<close> and \<open>ApiServer\<close> are the routes in the order of the file, as functions on the world (the store, the jobs, the
  cached checks) that return a reply or a thrown error; \<open>env\<close> is everything outside. \<open>ApiProps\<close> is a small logic of
  triples for these handlers, and \<open>ApiClaims\<close> has the theorems about \<open>dispatch\<close>, that is, about every request.

  \<^bold>\<open>List and updater.\<close> \<open>Publish\<close> is \<open>build-public.ts\<close>: the files as records, each absent, unparsable or held, and
  \<open>rebuild\<close>. \<open>Probe\<close> has the SOCKS handshake as a machine over the chunks that arrive, the capped read and the requests of a
  probe; \<open>UpdateCycle\<close> the pool of probes and one whole cycle. \<open>PublishProps\<close> and \<open>UpdateProps\<close> show that only attested
  listings are published, that a second rebuild changes no node, that histories survive the grace period and stay within
  their windows, and that a cycle without any success records nothing.

  \<^bold>\<open>The federation.\<close> \<open>Archive\<close> packs and unpacks a zip byte by byte, stages it, backs up and lays it over the web root (a
  map from paths to contents, without the staging and backup trees under it); the helper's later steps, what npm leaves
  and the two programs of the new code are the record \<open>helper_env\<close>. \<open>ArchiveProps\<close> shows that unpacking undoes packing,
  that the budgets hold, that under \<open>data/\<close> only the helper's own files are touched, and that a peer stages what was
  packed but for the version marker. \<open>Import\<close> is the import with its trust gate;
  \<open>ImportProps\<close> shows that nothing that was in the store changes, collection by collection, and that nothing enters that
  does not verify here.

  \<open>SelfUpdate\<close> is how an instance learns of newer code and fetches it (the request to the forge with its redirects and chunks,
  the comparison with the releases, the download from a peer whose operator document verifies), \<open>SelfUpdateProps\<close> that what is
  staged from a peer came from an operator whose document verifies, the trusted one where one was named, and within the
  budgets.

  \<^bold>\<open>The operator's tools.\<close> \<open>Maintenance\<close> has the commands beside the backend, one group of definitions per file:
  moderation, the audit and the diagnosis of signed blocks, applying signed payloads, removing a listing, the version
  tools and the migration of the seed into the store; \<open>MaintenanceProps\<close> shows that payloads are applied only on the word of
  their owner and that a migration can be run again. \<open>Installer\<close> is the library of the installer: validators, the block in
  torrc, the system files rendered from templates with the values read back from a rendered one, the documents the
  operator signs. Replacement patterns are a search with the text before the place, so that anchors, greediness and
  \<open>$\<close> in a replacement are as in the language. \<open>InstallerProps\<close> proves the round trips. \<open>Reconcile\<close> compares the installed
  files with the checkout and writes them, and takes an instance off a machine; files are a map, writes may fail, commands
  are a list of what is run. \<open>ReconcileProps\<close> composes it with the round trip of the units: an applied run settles, nothing is
  overwritten without a copy, nothing that cannot be got back is removed without being named.

  \<^bold>\<open>The pages.\<close> \<open>Markdown\<close> is the renderer, \<open>MarkdownProps\<close> the proof that its output is in a language of safe markup
  whatever the input. Its loop may run forever, so it takes fuel, and one page on which no fuel is enough is exhibited.

  \<^bold>\<open>Loops.\<close> Loops over data are structural recursions. The loops that need not end (the reader of a chunked reply, whose
  position can stand still, and the paragraph loop of the renderer) take fuel and return \<open>None\<close> when it runs out; that the
  fuel is enough is a theorem for a reply that a server wrote, and fails for the cases reported. The search for the end
  record of a zip counts down from the length of the file. Everything else is total as it stands.

  \<^bold>\<open>Parameters.\<close> What is not in the repository is an argument: the libraries of payment codes, of hierarchical keys and
  of signed messages, the parser of URLs, the deflater, resolvers, Tor and TLS connections (the bytes that arrive), clocks
  and random texts, collation and the names of regions. A theorem that relies on one says so in its premises, and its
  witness instantiates it.

  \<^bold>\<open>Approximations.\<close> Strings are sequences of 8-bit units, so characters beyond Latin-1 do not occur. Numbers of the
  language are integers, or exact fractions where a share is rounded; \<open>json_parse\<close> too reads every number exactly, where
  the language keeps the nearest double, so the theorem that compares payloads is about whole numbers of at most
  \<open>2 ^ 53\<close> in size. A SOCKS handshake is modelled to its outcome, without the bytes that follow it. A document that the program itself writes is read
  with the shape its writer gives it. A copy that fails leaves a prefix of its files. Requests of the backend are single
  steps; the interleavings of the allocator are modelled because its file is shared by overlapping calls.

  \<^bold>\<open>Not modelled.\<close> The page script \<open>assets/js/app.js\<close> (markup built in the browser) and \<open>sw.js\<close>; the dialogue of the
  installer and its screens (\<open>install.mjs\<close>, \<open>installer-ui.mjs\<close>, \<open>tui.mjs\<close>), which ask, print and call the functions of
  \<open>Installer\<close>; the probes that only print (\<open>probe-services.mjs\<close>, \<open>check-resources.ts\<close>), the development server and the entry
  points that only import a module; logging, timeouts and process start; the tests; and the vendored QR encoder.
\<close>

end
